(* ===== verification/KtPrelude.thy ===== *)
theory KtPrelude
  imports Main "HOL-Library.AList" "HOL-Library.State_Monad"
begin

text \<open>
  Shared vocabulary of the development: results of Go functions (value, error or run-time
  panic), the string operations of the packages \<open>strings\<close> and \<open>strconv\<close> that the program
  calls, Go maps with string keys (the nil map kept apart from the empty one), and the lemmas
  on them that the component theories share.  Strings are lists of bytes, as Go strings are;
  case mapping and white space are the ASCII part of the Go functions.
\<close>

section \<open>Collections of facts\<close>

named_theorems go_defs \<open>definitions of the small Go library functions\<close>
named_theorems kt_invs \<open>an operation keeps the invariant of its component\<close>

section \<open>Errors and results\<close>

text \<open>
  An error value is either made with \<open>fmt.Errorf\<close>, or by \<open>strconv\<close>, or by the API server.
  The three API errors that the program tells apart have constructors of their own.
\<close>

datatype go_error =
    Errorf string
  | NumError string
  | NotFound
  | AlreadyExists
  | Conflict
  | OtherError string

text \<open>A Go function with an error result returns a value or an error, or panics at run time.\<close>

datatype 'a outcome = Value 'a | Fail go_error | Panic

fun obind :: "'a outcome \<Rightarrow> ('a \<Rightarrow> 'b outcome) \<Rightarrow> 'b outcome" where
  "obind (Value a) f = f a"
| "obind (Fail e) f = Fail e"
| "obind Panic f = Panic"

lemma obind_Value_iff [simp]:
  "obind m f = Value b \<longleftrightarrow> (\<exists>a. m = Value a \<and> f a = Value b)"
  by (cases m) auto

lemma obind_Panic_iff:
  "obind m f = Panic \<longleftrightarrow> m = Panic \<or> (\<exists>a. m = Value a \<and> f a = Panic)"
  by (cases m) auto

definition is_value :: "'a outcome \<Rightarrow> bool" where
  "is_value r = (case r of Value _ \<Rightarrow> True | _ \<Rightarrow> False)"

lemma is_value_iff: "is_value r \<longleftrightarrow> (\<exists>a. r = Value a)"
  by (cases r) (auto simp: is_value_def)

text \<open>Map over a list, stopping at the first error or panic.\<close>

fun omap :: "('a \<Rightarrow> 'b outcome) \<Rightarrow> 'a list \<Rightarrow> 'b list outcome" where
  "omap f [] = Value []"
| "omap f (x # xs) = obind (f x) (\<lambda>y. obind (omap f xs) (\<lambda>ys. Value (y # ys)))"

section \<open>Package strings\<close>

text \<open>\<open>strings.Split(s, sep)\<close> with a separator of one byte: never the empty slice.\<close>

fun split_on :: "char \<Rightarrow> string \<Rightarrow> string list" where
  "split_on c [] = [[]]"
| "split_on c (x # xs) =
     (if x = c then [] # split_on c xs
      else (case split_on c xs of [] \<Rightarrow> [[x]] | y # ys \<Rightarrow> (x # y) # ys))"

text \<open>\<open>strings.SplitN(s, sep, 2)\<close>: the part before the first separator and, if there is one, the rest.\<close>

fun split_once :: "char \<Rightarrow> string \<Rightarrow> string \<times> string option" where
  "split_once c [] = ([], None)"
| "split_once c (x # xs) =
     (if x = c then ([], Some xs) else (case split_once c xs of (a, r) \<Rightarrow> (x # a, r)))"

fun join_with :: "string \<Rightarrow> string list \<Rightarrow> string" where
  "join_with s [] = []"
| "join_with s [x] = x"
| "join_with s (x # y # zs) = x @ s @ join_with s (y # zs)"

definition has_prefix :: "string \<Rightarrow> string \<Rightarrow> bool" where
  [go_defs]: "has_prefix s p \<longleftrightarrow> take (length p) s = p"

definition has_suffix :: "string \<Rightarrow> string \<Rightarrow> bool" where
  [go_defs]: "has_suffix s p \<longleftrightarrow> length p \<le> length s \<and> drop (length s - length p) s = p"

definition trim_prefix :: "string \<Rightarrow> string \<Rightarrow> string" where
  [go_defs]: "trim_prefix s p = (if has_prefix s p then drop (length p) s else s)"

definition trim_suffix :: "string \<Rightarrow> string \<Rightarrow> string" where
  [go_defs]: "trim_suffix s p = (if has_suffix s p then take (length s - length p) s else s)"

text \<open>\<open>strings.Contains\<close> with a one-byte and with a longer pattern, \<open>strings.Count\<close> of a byte.\<close>

definition contains_char :: "string \<Rightarrow> char \<Rightarrow> bool" where
  [go_defs]: "contains_char s c \<longleftrightarrow> c \<in> set s"

fun contains_str :: "string \<Rightarrow> string \<Rightarrow> bool" where
  "contains_str [] p \<longleftrightarrow> p = []"
| "contains_str (x # xs) p \<longleftrightarrow> take (length p) (x # xs) = p \<or> contains_str xs p"

definition count_char :: "string \<Rightarrow> char \<Rightarrow> nat" where
  [go_defs]: "count_char s c = length (filter (\<lambda>x. x = c) s)"

definition replace_char :: "string \<Rightarrow> char \<Rightarrow> string \<Rightarrow> string" where
  [go_defs]: "replace_char s c r = concat (map (\<lambda>x. if x = c then r else [x]) s)"

definition is_space :: "char \<Rightarrow> bool" where
  [go_defs]: "is_space c \<longleftrightarrow> of_char c \<in> {9, 10, 11, 12, 13, 32 :: nat}"

definition trim_space :: "string \<Rightarrow> string" where
  [go_defs]: "trim_space s = rev (dropWhile is_space (rev (dropWhile is_space s)))"

definition lower_char :: "char \<Rightarrow> char" where
  [go_defs]: "lower_char c = (let n = of_char c :: nat in if 65 \<le> n \<and> n \<le> 90 then char_of (n + 32) else c)"

definition upper_char :: "char \<Rightarrow> char" where
  [go_defs]: "upper_char c = (let n = of_char c :: nat in if 97 \<le> n \<and> n \<le> 122 then char_of (n - 32) else c)"

definition to_lower :: "string \<Rightarrow> string" where
  [go_defs]: "to_lower s = map lower_char s"

definition to_upper :: "string \<Rightarrow> string" where
  [go_defs]: "to_upper s = map upper_char s"

text \<open>\<open>strings.EqualFold\<close> against an ASCII word.\<close>

definition equal_fold :: "string \<Rightarrow> string \<Rightarrow> bool" where
  [go_defs]: "equal_fold s t \<longleftrightarrow> to_lower s = to_lower t"

section \<open>Package strconv\<close>

definition is_digit :: "char \<Rightarrow> bool" where
  [go_defs]: "is_digit c \<longleftrightarrow> 48 \<le> (of_char c :: nat) \<and> (of_char c :: nat) \<le> 57"

definition digit_val :: "char \<Rightarrow> nat" where
  [go_defs]: "digit_val c = of_char c - 48"

definition digit_char :: "nat \<Rightarrow> char" where
  [go_defs]: "digit_char n = char_of (48 + n)"

fun nat_str :: "nat \<Rightarrow> string" where
  "nat_str n = (if n < 10 then [digit_char n] else nat_str (n div 10) @ [digit_char (n mod 10)])"

declare nat_str.simps [simp del]

definition itoa :: "int \<Rightarrow> string" where
  "itoa i = (if i < 0 then CHR ''-'' # nat_str (nat (- i)) else nat_str (nat i))"

definition digits_val :: "string \<Rightarrow> nat" where
  "digits_val s = foldl (\<lambda>a c. 10 * a + digit_val c) 0 s"

text \<open>\<open>strconv.Atoi\<close>: an optional sign, at least one digit, and the range of a 64 bit \<open>int\<close>.\<close>

definition atoi :: "string \<Rightarrow> int option" where
  "atoi s =
     (let (neg, ds) = (case s of [] \<Rightarrow> (False, [])
                       | c # cs \<Rightarrow> if c = CHR ''-'' then (True, cs)
                                 else if c = CHR ''+'' then (False, cs) else (False, c # cs))
      in if ds = [] \<or> \<not> list_all is_digit ds then None
         else let n = (if neg then - int (digits_val ds) else int (digits_val ds))
              in if - (2 ^ 63) \<le> n \<and> n < 2 ^ 63 then Some n else None)"

definition atoi_err :: "string \<Rightarrow> int outcome" where
  [go_defs]: "atoi_err s = (case atoi s of None \<Rightarrow> Fail (NumError s) | Some n \<Rightarrow> Value n)"

section \<open>Maps with string keys\<close>

text \<open>
  A Go map is nil or a finite set of entries.  The entries are an association list, whose order
  stands for the order in which a \<open>range\<close> loop meets them; Go leaves that order open, so a theorem
  about a map holds for every order of its entries.
\<close>

datatype 'v gomap = NilMap | GoMap "(string \<times> 'v) list"

type_synonym smap = "string gomap"

fun entries :: "'v gomap \<Rightarrow> (string \<times> 'v) list" where
  "entries NilMap = []"
| "entries (GoMap al) = al"

definition mlookup :: "'v gomap \<Rightarrow> string \<Rightarrow> 'v option" where
  "mlookup m k = map_of (entries m) k"

text \<open>\<open>m[k]\<close> of a map to strings: the empty string where there is no entry.\<close>

definition mget :: "smap \<Rightarrow> string \<Rightarrow> string" where
  "mget m k = (case mlookup m k of None \<Rightarrow> [] | Some v \<Rightarrow> v)"

text \<open>\<open>m[k] = v\<close>; the program never writes to a nil map where this is used (\<open>mset_entry\<close> below panics).\<close>

definition mput :: "'v gomap \<Rightarrow> string \<Rightarrow> 'v \<Rightarrow> 'v gomap" where
  "mput m k v = GoMap (AList.update k v (entries m))"

definition mset_entry :: "'v gomap \<Rightarrow> string \<Rightarrow> 'v \<Rightarrow> 'v gomap outcome" where
  "mset_entry m k v = (case m of NilMap \<Rightarrow> Panic | GoMap _ \<Rightarrow> Value (mput m k v))"

fun mdelete :: "'v gomap \<Rightarrow> string \<Rightarrow> 'v gomap" where
  "mdelete NilMap k = NilMap"
| "mdelete (GoMap al) k = GoMap (AList.delete k al)"

definition mlen :: "'v gomap \<Rightarrow> nat" where
  "mlen m = length (entries m)"

definition mwf :: "'v gomap \<Rightarrow> bool" where
  "mwf m \<longleftrightarrow> distinct (map fst (entries m))"

section \<open>Lemmas on strings\<close>

lemma split_on_not_Nil [simp]: "split_on c s \<noteq> []"
  by (induction s) (auto split: list.splits)

lemma split_on_no_sep: "c \<notin> set s \<Longrightarrow> split_on c s = [s]"
  by (induction s) auto

lemma split_on_append_sep:
  "c \<notin> set a \<Longrightarrow> split_on c (a @ c # s) = a # split_on c s"
  by (induction a) auto

lemma split_on_elem_no_sep: "x \<in> set (split_on c s) \<Longrightarrow> c \<notin> set x"
  by (induction s arbitrary: x) (auto split: list.splits if_splits)

lemma join_split: "join_with [c] (split_on c s) = s"
proof (induction s)
  case (Cons a s)
  then show ?case
    by (cases "split_on c s"; cases "tl (split_on c s)") auto
qed simp

lemma split_join:
  "xs \<noteq> [] \<Longrightarrow> \<forall>x \<in> set xs. c \<notin> set x \<Longrightarrow> split_on c (join_with [c] xs) = xs"
proof (induction "[c]" xs rule: join_with.induct)
  case (3 x y zs)
  then show ?case by (simp add: split_on_append_sep)
qed (auto simp: split_on_no_sep)

lemma length_split_on: "length (split_on c s) = Suc (count_char s c)"
  by (induction s) (auto simp: count_char_def split: list.splits)

lemma split_once_eq:
  "split_once c s = (takeWhile (\<lambda>x. x \<noteq> c) s,
     if c \<in> set s then Some (tl (dropWhile (\<lambda>x. x \<noteq> c) s)) else None)"
  by (induction s) auto

lemma split_once_append [simp]: "c \<notin> set a \<Longrightarrow> split_once c (a @ c # r) = (a, Some r)"
  by (induction a) auto

lemma split_once_no_sep [simp]: "c \<notin> set s \<Longrightarrow> split_once c s = (s, None)"
  by (induction s) auto

lemma has_prefix_append [simp]: "has_prefix (p @ s) p"
  by (simp add: has_prefix_def)

lemma has_prefix_iff: "has_prefix s p \<longleftrightarrow> (\<exists>t. s = p @ t)"
  by (metis append_eq_conv_conj append_take_drop_id has_prefix_def)

lemma has_suffix_append [simp]: "has_suffix (s @ p) p"
  by (simp add: has_suffix_def)

lemma has_suffix_iff: "has_suffix s p \<longleftrightarrow> (\<exists>t. s = t @ p)"
proof
  assume "has_suffix s p"
  then have "s = take (length s - length p) s @ p"
    by (metis append_take_drop_id has_suffix_def)
  then show "\<exists>t. s = t @ p" ..
qed auto

lemma trim_suffix_append [simp]: "trim_suffix (s @ p) p = s"
  by (simp add: trim_suffix_def)

lemma trim_prefix_append [simp]: "trim_prefix (p @ s) p = s"
  by (simp add: trim_prefix_def)

section \<open>Lemmas on numbers\<close>

lemma digit_char_props:
  assumes "n < 10"
  shows "is_digit (digit_char n)" and "digit_val (digit_char n) = n"
  using assms by (auto simp: is_digit_def digit_val_def digit_char_def)

lemma nat_str_digits: "list_all is_digit (nat_str n)"
proof (induction n rule: nat_str.induct)
  case (1 n)
  then show ?case
    by (subst nat_str.simps) (auto simp: digit_char_props)
qed

lemma nat_str_not_Nil [simp]: "nat_str n \<noteq> []"
  by (subst nat_str.simps) simp

lemma digits_val_snoc: "digits_val (s @ [c]) = 10 * digits_val s + digit_val c"
  by (simp add: digits_val_def)

lemma digits_val_nat_str [simp]: "digits_val (nat_str n) = n"
proof (induction n rule: nat_str.induct)
  case (1 n)
  show ?case
  proof (cases "n < 10")
    case True
    then show ?thesis
      by (subst nat_str.simps) (simp add: digits_val_def digit_char_props)
  next
    case False
    with 1 show ?thesis
      by (subst nat_str.simps) (simp add: digits_val_snoc digit_char_props)
  qed
qed

lemma is_digit_not_sign: "is_digit c \<Longrightarrow> c \<noteq> CHR ''-'' \<and> c \<noteq> CHR ''+''"
  by (auto simp: is_digit_def)

lemma atoi_nat_str: "int n < 2 ^ 63 \<Longrightarrow> atoi (nat_str n) = Some (int n)"
proof -
  assume n: "int n < 2 ^ 63"
  obtain c cs where s: "nat_str n = c # cs"
    by (cases "nat_str n") auto
  have all: "list_all is_digit (c # cs)" and val: "digits_val (c # cs) = n"
    using nat_str_digits [of n] digits_val_nat_str [of n] unfolding s by simp_all
  then have "c \<noteq> CHR ''-''" and "c \<noteq> CHR ''+''"
    using is_digit_not_sign by auto
  then show ?thesis
    using all val n by (simp add: s atoi_def)
qed

lemma atoi_itoa: "- (2 ^ 63) \<le> i \<Longrightarrow> i < 2 ^ 63 \<Longrightarrow> atoi (itoa i) = Some i"
proof (cases "i < 0")
  case True
  assume "- (2 ^ 63) \<le> i"
  with True nat_str_digits [of "nat (- i)"] show ?thesis
    by (simp add: itoa_def atoi_def)
next
  case False
  assume "i < 2 ^ 63"
  with False show ?thesis
    by (simp add: itoa_def atoi_nat_str)
qed

lemma is_digit_nat_str: "c \<in> set (nat_str n) \<Longrightarrow> is_digit c"
  using nat_str_digits [of n] by (simp add: list_all_iff)

lemma nat_str_inject [simp]: "nat_str m = nat_str n \<longleftrightarrow> m = n"
  by (metis digits_val_nat_str)

section \<open>Lemmas on maps\<close>

lemma mlookup_Nil [simp]: "mlookup NilMap k = None"
  by (simp add: mlookup_def)

lemma mlookup_GoMap_Nil [simp]: "mlookup (GoMap []) k = None"
  by (simp add: mlookup_def)

lemma mget_Nil [simp]: "mget NilMap k = []"
  by (simp add: mget_def)

lemma mlookup_mput [simp]: "mlookup (mput m k v) j = (if j = k then Some v else mlookup m j)"
  by (simp add: mlookup_def mput_def update_conv')

lemma mget_mput [simp]: "mget (mput m k v) j = (if j = k then v else mget m j)"
  by (simp add: mget_def)

lemma mlookup_mdelete [simp]: "mlookup (mdelete m k) j = (if j = k then None else mlookup m j)"
  by (cases m) (simp_all add: mlookup_def delete_conv')

lemma mget_mdelete [simp]: "mget (mdelete m k) j = (if j = k then [] else mget m j)"
  by (simp add: mget_def)

lemma mput_not_Nil [simp]: "mput m k v \<noteq> NilMap"
  by (simp add: mput_def)

lemma mdelete_eq_Nil [simp]: "mdelete m k = NilMap \<longleftrightarrow> m = NilMap"
  by (cases m) simp_all

lemma mwf_Nil [simp]: "mwf NilMap" and mwf_empty [simp]: "mwf (GoMap [])"
  by (simp_all add: mwf_def)

lemma mwf_mput [simp]: "mwf m \<Longrightarrow> mwf (mput m k v)"
  by (simp add: mwf_def mput_def distinct_update)

lemma mwf_mdelete [simp]: "mwf m \<Longrightarrow> mwf (mdelete m k)"
  by (cases m) (simp_all add: mwf_def distinct_delete)

lemma mlookup_entry: "mwf m \<Longrightarrow> (k, v) \<in> set (entries m) \<longleftrightarrow> mlookup m k = Some v"
  by (simp add: mwf_def mlookup_def)

lemma mlookup_SomeD: "mlookup m k = Some v \<Longrightarrow> (k, v) \<in> set (entries m)"
  by (simp add: mlookup_def map_of_SomeD)

end
