(* ===== verification/GoUtil.thy ===== *)
theory GoUtil
  imports KtPrelude
begin

text \<open>
  The pure helpers of \<open>pkg/kt/util\<close>: \<open>collection.go\<close> (slices and string maps),
  \<open>strings.go\<close> (option strings, log text, the two spellings of an option name) and the pure part
  of \<open>network.go\<close> (port mappings, IPv4 recognition).  Each definition carries the name of the Go
  function; the loops are recursions over the slice in the same order.
\<close>

section \<open>collection.go\<close>

text \<open>The slice case of \<open>Contains\<close>; the map case is \<open>mlookup m k \<noteq> None\<close>.\<close>

fun Contains :: "'a list \<Rightarrow> 'a \<Rightarrow> bool" where
  "Contains [] t = False"
| "Contains (x # xs) t = (if x = t then True else Contains xs t)"

fun map_contains_loop :: "(string \<times> string) list \<Rightarrow> smap \<Rightarrow> bool" where
  "map_contains_loop [] full = True"
| "map_contains_loop ((sk, sv) # rest) full =
     (if mget full sk \<noteq> sv then False else map_contains_loop rest full)"

definition MapContains :: "smap \<Rightarrow> smap \<Rightarrow> bool" where
  "MapContains sub fullset =
     (case sub of NilMap \<Rightarrow> False | GoMap al \<Rightarrow> map_contains_loop al fullset)"

definition MapEquals :: "smap \<Rightarrow> smap \<Rightarrow> bool" where
  "MapEquals src target \<longleftrightarrow> mlen src = mlen target \<and> MapContains src target"

definition MapPut :: "'v gomap \<Rightarrow> string \<Rightarrow> 'v \<Rightarrow> 'v gomap" where
  "MapPut m k v = (case m of NilMap \<Rightarrow> GoMap [(k, v)] | GoMap _ \<Rightarrow> mput m k v)"

fun put_all :: "'v gomap \<Rightarrow> (string \<times> 'v) list \<Rightarrow> 'v gomap" where
  "put_all m [] = m"
| "put_all m ((k, v) # rest) = put_all (mput m k v) rest"

definition MergeMap :: "'v gomap \<Rightarrow> 'v gomap \<Rightarrow> 'v gomap" where
  "MergeMap m1 m2 = put_all (put_all (GoMap []) (entries m1)) (entries m2)"

fun array_equals_loop :: "string list \<Rightarrow> string list \<Rightarrow> bool" where
  "array_equals_loop [] target = True"
| "array_equals_loop (s # src) target =
     (if \<not> Contains target s then False else array_equals_loop src target)"

definition ArrayEquals :: "string list \<Rightarrow> string list \<Rightarrow> bool" where
  "ArrayEquals src target =
     (if length src \<noteq> length target then False else array_equals_loop src target)"

text \<open>\<open>ArrayDelete\<close> counts first and then fills a slice of the remaining length by index.\<close>

fun array_fill :: "string list \<Rightarrow> string \<Rightarrow> string list \<Rightarrow> nat \<Rightarrow> string list outcome" where
  "array_fill [] item newArr i = Value newArr"
| "array_fill (v # vs) item newArr i =
     (if v \<noteq> item
      then (if i < length newArr then array_fill vs item (newArr[i := v]) (Suc i) else Panic)
      else array_fill vs item newArr i)"

definition ArrayDelete :: "string list \<Rightarrow> string \<Rightarrow> string list outcome" where
  "ArrayDelete arr item =
     (let count = length (filter (\<lambda>v. v = item) arr)
      in if count = 0 then Value arr
         else array_fill arr item (replicate (length arr - count) []) 0)"

section \<open>strings.go\<close>

fun string2map_loop :: "string list \<Rightarrow> smap \<Rightarrow> smap" where
  "string2map_loop [] res = res"
| "string2map_loop (item # items) res =
     string2map_loop items
       (case split_once CHR ''='' item of
          (k, None) \<Rightarrow> res
        | (k, Some v) \<Rightarrow> if k = [] then res else mput res k v)"

definition String2Map :: "string \<Rightarrow> smap" where
  "String2Map str = string2map_loop (split_on CHR '','' str) (GoMap [])"

definition Append :: "string \<Rightarrow> string \<Rightarrow> string" where
  "Append base inc = (if length base = 0 then inc else base @ '','' @ inc)"

text \<open>The text that follows a colour sequence ESC [ digits m at the head of the string.\<close>

definition color_at :: "string \<Rightarrow> string option" where
  "color_at s =
     (case s of
        e # b # ds \<Rightarrow>
          (if e = char_of (27::nat) \<and> b = CHR ''['' then
             (case dropWhile is_digit ds of
                m # r \<Rightarrow> if m = CHR ''m'' \<and> takeWhile is_digit ds \<noteq> [] then Some r else None
              | [] \<Rightarrow> None)
           else None)
      | _ \<Rightarrow> None)"

lemma length_color_at: "color_at s = Some r \<Longrightarrow> length r < length s"
proof -
  assume "color_at s = Some r"
  then obtain e b ds m where s: "s = e # b # ds" and d: "dropWhile is_digit ds = m # r"
    by (auto simp: color_at_def split: list.splits if_splits)
  have "length (dropWhile is_digit ds) \<le> length ds"
    by (rule length_dropWhile_le)
  with s d show ?thesis by simp
qed

function RemoveColor :: "string \<Rightarrow> string" where
  "RemoveColor s =
     (case s of [] \<Rightarrow> []
      | c # cs \<Rightarrow> (case color_at s of Some r \<Rightarrow> RemoveColor r | None \<Rightarrow> c # RemoveColor cs))"
  by pat_completeness auto
termination
  by (relation "measure length") (auto dest: length_color_at)

declare RemoveColor.simps [simp del]

text \<open>
  The group of the first match of \<open> error="([^"]+)"\<close>.
\<close>

fun error_group :: "string \<Rightarrow> string option" where
  "error_group [] = None"
| "error_group (c # cs) =
     (if has_prefix (c # cs) ('' error='' @ [CHR 0x22])
      then (let body = drop 8 (c # cs);
                g = takeWhile (\<lambda>x. x \<noteq> CHR 0x22) body
            in if g \<noteq> [] \<and> CHR 0x22 \<in> set body then Some g else error_group cs)
      else error_group cs)"

definition ExtractErrorMessage :: "string \<Rightarrow> string" where
  "ExtractErrorMessage msg =
     (if contains_str msg '' ERR '' then (case error_group msg of Some g \<Rightarrow> g | None \<Rightarrow> []) else [])"

fun capitalize_loop :: "char \<Rightarrow> string \<Rightarrow> string" where
  "capitalize_loop prev [] = []"
| "capitalize_loop prev (r # rs) =
     (if prev = CHR ''-'' then upper_char r else lower_char r) # capitalize_loop r rs"

definition Capitalize :: "string \<Rightarrow> string" where
  "Capitalize word = replace_char (capitalize_loop (CHR ''-'') word) CHR ''-'' []"

definition is_upper :: "char \<Rightarrow> bool" where
  "is_upper c \<longleftrightarrow> 65 \<le> (of_char c :: nat) \<and> (of_char c :: nat) \<le> 90"

text \<open>\<open>ReplaceAllString\<close> of \<open>([^-])([A-Z])\<close> by \<open>$1-$2\<close>: leftmost matches that do not overlap.\<close>

fun dash_pass :: "string \<Rightarrow> string" where
  "dash_pass (a # b # s) =
     (if a \<noteq> CHR ''-'' \<and> is_upper b then a # CHR ''-'' # b # dash_pass s else a # dash_pass (b # s))"
| "dash_pass s = s"

definition DashSeparated :: "string \<Rightarrow> string" where
  "DashSeparated word = to_lower (dash_pass (dash_pass word))"

definition UnCapitalize :: "string \<Rightarrow> string" where
  "UnCapitalize word = (case word of [] \<Rightarrow> [] | r # rs \<Rightarrow> lower_char r # rs)"

section \<open>network.go\<close>

definition quoted :: "string \<Rightarrow> string" where
  "quoted s = CHR 0x27 # s @ [CHR 0x27]"

definition ParsePortMapping :: "string \<Rightarrow> (int \<times> int) outcome" where
  "ParsePortMapping exposePort =
     (let (localPort, remotePort) =
            (case split_once CHR '':'' exposePort of
               (l, Some r) \<Rightarrow> (l, r)
             | (_, None) \<Rightarrow> (exposePort, exposePort))
      in case atoi localPort of
           None \<Rightarrow> Fail (Errorf (''local port '' @ quoted localPort @ '' is not a number''))
         | Some lp \<Rightarrow>
             (case atoi remotePort of
                None \<Rightarrow> Fail (Errorf (''remote port '' @ quoted remotePort @ '' is not a number''))
              | Some rp \<Rightarrow> Value (lp, rp)))"

definition remote_part :: "string \<Rightarrow> string" where
  "remote_part exposePort =
     (let splitPorts = split_on CHR '':'' exposePort
      in if length splitPorts > 1 then splitPorts ! 1 else splitPorts ! 0)"

fun find_invalid_loop :: "string list \<Rightarrow> string list \<Rightarrow> string" where
  "find_invalid_loop validPorts [] = []"
| "find_invalid_loop validPorts (e # es) =
     (if \<not> Contains validPorts (remote_part e) then remote_part e else find_invalid_loop validPorts es)"

text \<open>The service's ports are the keys of the map \<open>svcPorts\<close>.\<close>

definition FindInvalidRemotePort :: "string \<Rightarrow> (int \<times> string) list \<Rightarrow> string" where
  "FindInvalidRemotePort exposePorts svcPorts =
     find_invalid_loop (map (\<lambda>(p, _). itoa p) svcPorts) (split_on CHR '','' exposePorts)"

text \<open>The connection test of \<open>FindBrokenLocalPort\<close> is the parameter \<open>dial\<close>.\<close>

fun find_broken_loop :: "(string \<Rightarrow> bool) \<Rightarrow> string list \<Rightarrow> string" where
  "find_broken_loop dial [] = []"
| "find_broken_loop dial (e # es) =
     (let localPort = hd (split_on CHR '':'' e)
      in if dial localPort then find_broken_loop dial es else localPort)"

definition FindBrokenLocalPort :: "(string \<Rightarrow> bool) \<Rightarrow> string \<Rightarrow> string" where
  "FindBrokenLocalPort dial exposePorts = find_broken_loop dial (split_on CHR '','' exposePorts)"

text \<open>The pattern \<open>^[0-9]+\.[0-9]+\.[0-9]+\.[0-9]+$\<close>.\<close>

definition IsValidIp :: "string \<Rightarrow> bool" where
  "IsValidIp ip =
     (let segs = split_on CHR ''.'' ip
      in length segs = 4 \<and> list_all (\<lambda>s. s \<noteq> [] \<and> list_all is_digit s) segs)"

definition trim_slashes :: "string \<Rightarrow> string" where
  "trim_slashes s =
     rev (dropWhile (\<lambda>c. c = CHR ''/'') (rev (dropWhile (\<lambda>c. c = CHR ''/'') s)))"

text \<open>\<open>net.LookupIP\<close> is the parameter \<open>lookupIP\<close>: None where it returns an error.\<close>

definition ExtractHostIp :: "(string \<Rightarrow> string list option) \<Rightarrow> string \<Rightarrow> string" where
  "ExtractHostIp lookupIP url =
     (if \<not> contains_char url CHR '':'' then []
      else let host = trim_slashes (split_on CHR '':'' url ! 1)
           in if IsValidIp host then host
              else case lookupIP host of
                     None \<Rightarrow> []
                   | Some ips \<Rightarrow> (case find IsValidIp ips of Some ip \<Rightarrow> ip | None \<Rightarrow> []))"

section \<open>Slices and maps: what the operations compute\<close>

lemma Contains_iff [simp]: "Contains xs t \<longleftrightarrow> t \<in> set xs"
  by (induction xs) auto

lemma map_contains_loop_iff:
  "map_contains_loop al full \<longleftrightarrow> (\<forall>(k, v) \<in> set al. mget full k = v)"
  by (induction al full rule: map_contains_loop.induct) auto

lemma MapContains_iff:
  "MapContains sub full \<longleftrightarrow> sub \<noteq> NilMap \<and> (\<forall>(k, v) \<in> set (entries sub). mget full k = v)"
  by (cases sub) (auto simp: MapContains_def map_contains_loop_iff)

lemma mlookup_MapPut [simp]: "mlookup (MapPut m k v) j = (if j = k then Some v else mlookup m j)"
  by (cases m) (auto simp: MapPut_def mlookup_def mput_def update_conv')

lemma mget_MapPut [simp]: "mget (MapPut m k v) j = (if j = k then v else mget m j)"
  by (simp add: mget_def)

lemma MapPut_not_Nil [simp]: "MapPut m k v \<noteq> NilMap"
  by (cases m) (auto simp: MapPut_def)

lemma mwf_MapPut [simp]: "mwf m \<Longrightarrow> mwf (MapPut m k v)"
  by (cases m) (auto simp: MapPut_def, auto simp: mwf_def)

lemma MapPut_eq_mput: "MapPut m k v = mput m k v"
  by (cases m) (auto simp: MapPut_def mput_def)

lemma map_of_rev_distinct: "distinct (map fst al) \<Longrightarrow> map_of (rev al) = map_of al"
  by (rule map_of_eqI) (auto simp: rev_map distinct_map)

lemma mlookup_put_all_rev:
  "mlookup (put_all m al) k =
     (case map_of (rev al) k of Some v \<Rightarrow> Some v | None \<Rightarrow> mlookup m k)"
  by (induction m al rule: put_all.induct) (auto simp: map_add_def split: option.splits)

lemma mlookup_put_all:
  "distinct (map fst al) \<Longrightarrow>
   mlookup (put_all m al) k = (case map_of al k of Some v \<Rightarrow> Some v | None \<Rightarrow> mlookup m k)"
  by (simp add: mlookup_put_all_rev map_of_rev_distinct)

lemma put_all_not_Nil [simp]: "m \<noteq> NilMap \<Longrightarrow> put_all m al \<noteq> NilMap"
  by (induction m al rule: put_all.induct) auto

lemma mwf_put_all [simp]: "mwf m \<Longrightarrow> mwf (put_all m al)"
  by (induction m al rule: put_all.induct) auto

lemma mlookup_MergeMap:
  assumes "mwf m1" and "mwf m2"
  shows "mlookup (MergeMap m1 m2) k =
    (case mlookup m2 k of Some v \<Rightarrow> Some v | None \<Rightarrow> mlookup m1 k)"
  using assms
  by (simp add: MergeMap_def mwf_def mlookup_put_all mlookup_def [of m1] mlookup_def [of m2]
      split: option.splits)

lemma mwf_MergeMap [simp]: "mwf (MergeMap m1 m2)"
  by (simp add: MergeMap_def)

lemma MergeMap_not_Nil [simp]: "MergeMap m1 m2 \<noteq> NilMap"
  by (simp add: MergeMap_def)

lemma array_fill_eq:
  "length (filter (\<lambda>v. v \<noteq> item) vs) + i = length newArr \<Longrightarrow>
   array_fill vs item newArr i = Value (take i newArr @ filter (\<lambda>v. v \<noteq> item) vs)"
proof (induction vs item newArr i rule: array_fill.induct)
  case (2 v vs item newArr i)
  then show ?case
    by (cases "v = item") (simp_all add: take_Suc_conv_app_nth)
qed simp

lemma ArrayDelete_eq: "ArrayDelete arr item = Value (filter (\<lambda>v. v \<noteq> item) arr)"
proof -
  have "length arr - length (filter (\<lambda>v. v = item) arr) = length (filter (\<lambda>v. v \<noteq> item) arr)"
    using sum_length_filter_compl [of "\<lambda>v. v = item" arr] by simp
  moreover have "filter (\<lambda>v. v = item) arr = [] \<Longrightarrow> filter (\<lambda>v. v \<noteq> item) arr = arr"
    by (metis filter_True filter_empty_conv)
  ultimately show ?thesis
    by (auto simp: ArrayDelete_def Let_def array_fill_eq)
qed

section \<open>Addresses\<close>

lemma ExtractHostIp_valid: "ExtractHostIp lookupIP url = [] \<or> IsValidIp (ExtractHostIp lookupIP url)"
  by (auto simp: ExtractHostIp_def Let_def find_Some_iff split: option.splits)

lemma colon_not_digit: "\<not> is_digit CHR '':''"
  by (simp add: is_digit_def)

lemma set_join_with: "set (join_with [c] xs) \<subseteq> {c} \<union> \<Union> (set ` set xs)"
  by (induction "[c]" xs rule: join_with.induct) auto

lemma IsValidIp_no_colon: "IsValidIp ip \<Longrightarrow> CHR '':'' \<notin> set ip"
proof
  assume v: "IsValidIp ip" and c: "CHR '':'' \<in> set ip"
  have "set ip \<subseteq> {CHR ''.''} \<union> \<Union> (set ` set (split_on CHR ''.'' ip))"
    using set_join_with [of "CHR ''.''" "split_on CHR ''.'' ip"] by (simp add: join_split)
  with c obtain s where "s \<in> set (split_on CHR ''.'' ip)" and "CHR '':'' \<in> set s"
    by auto
  with v show False
    unfolding IsValidIp_def Let_def list_all_iff using colon_not_digit by blast
qed

end
