(* ===== verification/Cidr.thy ===== *)
theory Cidr
  imports GoUtil
begin

text \<open>
  \<open>pkg/kt/service/cluster/cidr.go\<close>: from the addresses of the services and pods of a cluster to
  the ranges that are routed through the tunnel.  An address is an array of 32 bits; in a range the
  first bit of the host part is overwritten by -1.  Array accesses out of range are \<open>Panic\<close>.
\<close>

section \<open>Text to bits\<close>

function dec_loop :: "nat \<Rightarrow> int \<Rightarrow> int list \<Rightarrow> int list outcome" where
  "dec_loop i n bin =
     (if n > 0 then (if i < 8 then dec_loop (Suc i) (n div 2) (bin[i := n mod 2]) else Panic)
      else Value bin)"
  by pat_completeness auto
termination
  by (relation "measure (\<lambda>(i, n, bin). nat n)") auto

declare dec_loop.simps [simp del]

definition decToBin :: "int \<Rightarrow> int list outcome" where
  "decToBin n = obind (dec_loop 0 n (replicate 8 0)) (\<lambda>bin. Value (rev bin))"

fun parse_loop :: "nat \<Rightarrow> string list \<Rightarrow> int list \<Rightarrow> int list outcome" where
  "parse_loop i [] ipNum = Value ipNum"
| "parse_loop i (seg # segs) ipNum =
     (if i < 4 then obind (atoi_err seg) (\<lambda>n. parse_loop (Suc i) segs (ipNum[i := n])) else Panic)"

definition parseIp :: "string \<Rightarrow> int list outcome" where
  "parseIp ip = parse_loop 0 (split_on CHR ''.'' ip) (replicate 4 0)"

text \<open>\<open>ipBin[k] = -1\<close>, which panics for a negative index.\<close>

definition mark_host :: "int \<Rightarrow> int list \<Rightarrow> int list outcome" where
  "mark_host k bin =
     (if k < 32 then (if k < 0 then Panic else Value (bin[nat k := -1])) else Value bin)"

lemma split_part_no_sep:
  assumes "length (split_on c s) = Suc (Suc 0)"
  shows "count_char (split_on c s ! 0) c = 0"
proof -
  have "split_on c s ! 0 \<in> set (split_on c s)"
    using assms by (intro nth_mem) simp
  then have "c \<notin> set (split_on c s ! 0)"
    by (rule split_on_elem_no_sep)
  then show ?thesis
    by (auto simp: count_char_def filter_empty_conv)
qed

text \<open>\<open>ipToBin\<close> and \<open>ipRangeToBin\<close> call each other; the recursion ends as slashes are used up.\<close>

function ipToBin :: "string \<Rightarrow> int list outcome"
  and ipRangeToBin :: "string \<Rightarrow> int list outcome" where
  "ipToBin ip =
     (if count_char ip CHR ''/'' = 1 then ipRangeToBin ip
      else if count_char ip CHR ''/'' > 1 then Fail (Errorf (''invalid ip address: '' @ ip))
      else obind (parseIp ip) (\<lambda>ipNum. obind (omap decToBin ipNum) (\<lambda>bins. Value (concat bins))))"
| "ipRangeToBin ipRange =
     (let parts = split_on CHR ''/'' ipRange
      in if length parts \<noteq> 2 then Fail (Errorf (''invalid ip range format: '' @ ipRange))
         else obind (atoi_err (parts ! 1)) (\<lambda>sepIndex.
              obind (ipToBin (parts ! 0)) (mark_host sepIndex)))"
  by pat_completeness auto

termination
  by (relation "measure (\<lambda>x. case x of Inl s \<Rightarrow> 2 * count_char s CHR ''/'' + 1
                            | Inr s \<Rightarrow> 2 * count_char s CHR ''/'')")
     (auto simp: split_part_no_sep numeral_2_eq_2 length_split_on)

declare ipToBin.simps [simp del] ipRangeToBin.simps [simp del]

section \<open>Bits to text\<close>

fun seg_loop :: "int list \<Rightarrow> int \<Rightarrow> int \<Rightarrow> nat \<Rightarrow> int \<times> nat \<times> bool" where
  "seg_loop [] factor segment msk = (segment, msk, False)"
| "seg_loop (b # bs) factor segment msk =
     (if b < 0 then (segment, msk, True)
      else seg_loop bs (factor div 2) (segment + b * factor) (Suc msk))"

function range_loop :: "bool \<Rightarrow> int list \<Rightarrow> nat \<Rightarrow> string list \<Rightarrow> nat \<Rightarrow> string list \<times> nat" where
  "range_loop withAlign bins i ips msk =
     (if i < 4 then
        (case seg_loop (take 8 (drop (i * 8) bins)) 128 0 msk of (segment, msk', ends) \<Rightarrow>
           (let ips' = (if \<not> withAlign \<or> \<not> ends then ips[i := itoa segment] else ips)
            in if ends then (ips', if withAlign then i * 8 else msk')
               else range_loop withAlign bins (Suc i) ips' msk'))
      else (ips, msk))"
  by pat_completeness auto
termination
  by (relation "measure (\<lambda>(w, b, i, p, m). 4 - i)") auto

declare range_loop.simps [simp del]

definition binToIpRange :: "int list \<Rightarrow> bool \<Rightarrow> string" where
  "binToIpRange bins withAlign =
     (case range_loop withAlign bins 0 (replicate 4 ''0'') 0 of (ips, msk) \<Rightarrow>
        join_with ''.'' ips @ ''/'' @ nat_str msk)"

section \<open>Ranges\<close>

fun part_loop :: "int list \<Rightarrow> int list \<Rightarrow> bool" where
  "part_loop (r # rs) (s # ss) =
     (if r = -1 then True else if s \<noteq> r then False else part_loop rs ss)"
| "part_loop _ _ = True"

definition isPartOfRange :: "string \<Rightarrow> string \<Rightarrow> bool outcome" where
  "isPartOfRange ipRange subIpRange =
     (case ipRangeToBin ipRange of
        Panic \<Rightarrow> Panic
      | Fail _ \<Rightarrow> Value False
      | Value ipRangeBin \<Rightarrow>
          (case ipRangeToBin subIpRange of
             Panic \<Rightarrow> Panic
           | Fail _ \<Rightarrow> Value False
           | Value subIpRangeBin \<Rightarrow> Value (part_loop ipRangeBin subIpRangeBin)))"

text \<open>
  The loop of \<open>excludeIpFromRange\<close>: \<open>reachHostPart\<close>, the array \<open>excludedIpBin\<close> that is reused from
  one range to the next, and the ranges found so far.
\<close>

function excl_loop ::
  "int list \<Rightarrow> int list \<Rightarrow> nat \<Rightarrow> bool \<Rightarrow> int list \<Rightarrow> string list \<Rightarrow> string list" where
  "excl_loop rbin ibin i reach ebin acc =
     (if i < 32 then
        (if i < 31 \<and> rbin ! (i + 1) = -1 then excl_loop rbin ibin (Suc i) True ebin acc
         else if reach then
           (let ebin1 = ebin[i - 1 := ibin ! (i - 1)];
                ebin2 = ebin1[i := (if ibin ! i = 0 then 1 else 0)];
                ebin3 = (if i < 31 then ebin2[i + 1 := -1] else ebin2)
            in excl_loop rbin ibin (Suc i) True ebin3 (acc @ [binToIpRange ebin3 False]))
         else if rbin ! i \<noteq> ibin ! i then []
         else excl_loop rbin ibin (Suc i) False (ebin[i := ibin ! i]) acc)
      else acc)"
  by pat_completeness auto
termination
  by (relation "measure (\<lambda>(r, b, i, h, e, a). 32 - i)") auto

declare excl_loop.simps [simp del]

definition excludeIpFromRange :: "string \<Rightarrow> string \<Rightarrow> string list outcome" where
  "excludeIpFromRange ipRange ip =
     (case ipRangeToBin ipRange of
        Panic \<Rightarrow> Panic
      | Fail _ \<Rightarrow> Value []
      | Value ipRangeBin \<Rightarrow>
          (case ipToBin ip of
             Panic \<Rightarrow> Panic
           | Fail _ \<Rightarrow> Value []
           | Value ipBin \<Rightarrow> Value (excl_loop ipRangeBin ipBin 0 False (replicate 32 0) [])))"

section \<open>The smallest ranges of a list of addresses\<close>

text \<open>
  One entry of \<open>miniBins\<close> against an address: the entry with the match start marked, the entry
  itself where both agree on all 32 bits, or None where there is no match.
\<close>

fun cmp_loop :: "nat \<Rightarrow> int list \<Rightarrow> int list \<Rightarrow> int list option" where
  "cmp_loop j (b # bins) (x # ipBin) =
     (if b \<noteq> x then (if j \<ge> 16 then Some (-1 # bins) else None)
      else if j = 31 then Some (b # bins)
      else map_option ((#) b) (cmp_loop (Suc j) bins ipBin))"
| "cmp_loop j _ _ = None"

fun insert_bin :: "int list \<Rightarrow> int list list \<Rightarrow> int list list" where
  "insert_bin ipBin [] = [ipBin]"
| "insert_bin ipBin (bins # rest) =
     (case cmp_loop 0 bins ipBin of
        Some bins' \<Rightarrow> bins' # rest
      | None \<Rightarrow> bins # insert_bin ipBin rest)"

fun mini_loop :: "string list \<Rightarrow> int list list \<Rightarrow> int list list outcome" where
  "mini_loop [] miniBins = Value miniBins"
| "mini_loop (ip # ips) miniBins =
     (if contains_char ip CHR '':'' then mini_loop ips miniBins
      else case ipToBin ip of
             Panic \<Rightarrow> Panic
           | Fail _ \<Rightarrow> mini_loop ips miniBins
           | Value ipBin \<Rightarrow> mini_loop ips (insert_bin ipBin miniBins))"

fun ipv6_loop :: "string list \<Rightarrow> string list \<Rightarrow> string list outcome" where
  "ipv6_loop [] miniRange = Value miniRange"
| "ipv6_loop (ip # ips) miniRange =
     (if contains_char ip CHR ''.'' then ipv6_loop ips miniRange
      else (let s = split_on CHR '':'' ip
            in if length s < 2 then Panic
               else (let ipmask = s ! 0 @ '':'' @ s ! 1 @ ''::/32''
                     in if \<not> Contains miniRange ipmask then ipv6_loop ips (miniRange @ [ipmask])
                        else ipv6_loop ips miniRange)))"

definition calculateMinimalIpv6Range :: "string list \<Rightarrow> string list outcome" where
  "calculateMinimalIpv6Range ips = ipv6_loop ips []"

text \<open>The flag \<open>opt.Store.Ipv6Cluster\<close> is the first argument.\<close>

definition calculateMinimalIpRange :: "bool \<Rightarrow> string list \<Rightarrow> string list outcome" where
  "calculateMinimalIpRange ipv6 ips =
     (if ipv6 then calculateMinimalIpv6Range ips
      else obind (mini_loop ips []) (\<lambda>miniBins. Value (map (\<lambda>bins. binToIpRange bins True) miniBins)))"

fun merge_loop :: "string \<Rightarrow> string list \<Rightarrow> string list outcome" where
  "merge_loop api [] = Value []"
| "merge_loop api (r # cidr) =
     obind (isPartOfRange r (api @ ''/32'')) (\<lambda>p.
     obind (if p then excludeIpFromRange r (api @ ''/32'') else Value [r]) (\<lambda>rs.
     obind (merge_loop api cidr) (\<lambda>merged. Value (rs @ merged))))"

definition mergeIpRange :: "bool \<Rightarrow> string list \<Rightarrow> string list \<Rightarrow> string \<Rightarrow> string list outcome" where
  "mergeIpRange ipv6 svcCidr podCidr apiServerIp =
     obind (calculateMinimalIpRange ipv6 (svcCidr @ podCidr)) (merge_loop apiServerIp)"

section \<open>ClusterCidr\<close>

definition isSingleIp :: "string \<Rightarrow> bool" where
  "isSingleIp ipRange \<longleftrightarrow>
     \<not> contains_char ipRange CHR ''/'' \<or> split_on CHR ''/'' ipRange ! 1 = ''32''"

record cidr_options =
  DisablePodIp :: bool
  IncludeIps :: string
  ExcludeIps :: string
  ConnectMode :: string
  Ipv6Cluster :: bool
  RestHost :: string

text \<open>The addresses that are not empty and not the word None, of a list call with its fallback.\<close>

definition usable_ips :: "string list \<Rightarrow> string list" where
  "usable_ips = filter (\<lambda>ip. ip \<noteq> [] \<and> ip \<noteq> ''None'')"

definition getResourceIps ::
  "(string \<Rightarrow> string list option) \<Rightarrow> string \<Rightarrow> string list" where
  "getResourceIps list_ips namespace =
     (case list_ips [] of
        Some ips \<Rightarrow> usable_ips ips
      | None \<Rightarrow> (case list_ips namespace of Some ips \<Rightarrow> usable_ips ips | None \<Rightarrow> []))"

fun include_loop :: "string \<Rightarrow> string list \<Rightarrow> string list \<Rightarrow> string list" where
  "include_loop mode [] cidr = cidr"
| "include_loop mode (r # rs) cidr =
     (if mode = ''tun2socks'' \<and> isSingleIp r then include_loop mode rs cidr
      else include_loop mode rs (cidr @ [r]))"

text \<open>One excluded range against the ranges: those to remove, and whether it needs a bypass route.\<close>

fun exclude_scan :: "string \<Rightarrow> string list \<Rightarrow> string list \<Rightarrow> (string list \<times> bool) outcome" where
  "exclude_scan ipRange [] toRemove = Value (toRemove, False)"
| "exclude_scan ipRange (r # cidr) toRemove =
     (if r = ipRange then Value (toRemove @ [r], False)
      else obind (isPartOfRange ipRange r) (\<lambda>inside.
           if inside then exclude_scan ipRange cidr (toRemove @ [r])
           else obind (isPartOfRange r ipRange) (\<lambda>around.
                if around then Value (toRemove, True) else exclude_scan ipRange cidr toRemove)))"

fun delete_all :: "string list \<Rightarrow> string list \<Rightarrow> string list outcome" where
  "delete_all cidr [] = Value cidr"
| "delete_all cidr (r # rs) = obind (ArrayDelete cidr r) (\<lambda>cidr'. delete_all cidr' rs)"

fun exclude_loop ::
  "string list \<Rightarrow> string list \<Rightarrow> string list \<Rightarrow> (string list \<times> string list) outcome" where
  "exclude_loop [] cidr excludeCidr = Value (cidr, excludeCidr)"
| "exclude_loop (ipRange # rest) cidr excludeCidr =
     obind (exclude_scan ipRange cidr []) (\<lambda>(toRemove, bypass).
     obind (delete_all cidr toRemove) (\<lambda>cidr'.
     exclude_loop rest cidr' (if bypass then excludeCidr @ [ipRange] else excludeCidr)))"

text \<open>
  The API calls are the parameters \<open>list_svc\<close> and \<open>list_pod\<close> (None where the call fails), the name
  resolution is \<open>lookupIP\<close>.
\<close>

definition ClusterCidr ::
  "(string \<Rightarrow> string list option) \<Rightarrow> (string \<Rightarrow> string list option) \<Rightarrow> (string \<Rightarrow> string list option)
   \<Rightarrow> cidr_options \<Rightarrow> string \<Rightarrow> (string list \<times> string list) outcome" where
  "ClusterCidr list_svc list_pod lookupIP opts namespace =
     obind (calculateMinimalIpRange (Ipv6Cluster opts) (getResourceIps list_svc namespace)) (\<lambda>svcCidr.
     obind (if \<not> DisablePodIp opts
            then calculateMinimalIpRange (Ipv6Cluster opts) (getResourceIps list_pod namespace)
            else Value []) (\<lambda>podCidr.
     (let api0 = ExtractHostIp lookupIP (RestHost opts)
      in obind (if Ipv6Cluster opts \<and> contains_char api0 CHR '':''
                then (let parts = split_on CHR ''['' (RestHost opts)
                      in if length parts < 2 then Panic
                         else Value (hd (split_on CHR '']'' (parts ! 1))))
                else Value api0) (\<lambda>api.
     obind (mergeIpRange (Ipv6Cluster opts) svcCidr podCidr api) (\<lambda>merged.
     (let excludeIps = split_on CHR '','' (ExcludeIps opts)
                        @ (if length api > 0 then [api @ ''/32''] else []);
          cidr = (if IncludeIps opts \<noteq> []
                  then include_loop (ConnectMode opts) (split_on CHR '','' (IncludeIps opts)) merged
                  else merged)
      in obind (if ExcludeIps opts \<noteq> [] then exclude_loop excludeIps cidr [] else Value (cidr, []))
         (\<lambda>(cidr', excludeCidr).
         if Ipv6Cluster opts \<and> contains_char api CHR '':''
         then (let s = split_on CHR '':'' api
               in obind (ArrayDelete cidr' (s ! 0 @ '':'' @ s ! 1 @ ''::/32''))
                        (\<lambda>cidr''. Value (cidr'', excludeCidr)))
         else Value (cidr', excludeCidr))))))))"

end
