(* ===== verification/CidrSpec.thy ===== *)
theory CidrSpec
  imports Cidr
begin

text \<open>
  What the range computation means.  An address is a list of 32 bits with its dotted text
  \<open>addr_str\<close>; a range is the list \<open>p\<close> of its network bits, and an array of the program stands for it
  when it is \<open>marked p\<close>.  Printing and parsing are inverse (\<open>ipRangeToBin_print\<close>), containment is
  prefix containment (\<open>isPartOfRange_print\<close>), and on that the theorems about the exclusion of an
  address and about the minimal ranges rest.
\<close>

section \<open>Addresses and network prefixes\<close>

definition bits :: "int list \<Rightarrow> bool" where
  "bits x \<longleftrightarrow> set x \<subseteq> {0, 1}"

definition addr :: "int list \<Rightarrow> bool" where
  "addr x \<longleftrightarrow> length x = 32 \<and> bits x"

definition octval :: "int list \<Rightarrow> int" where
  "octval bs = foldl (\<lambda>a b. 2 * a + b) 0 bs"

definition chunk :: "nat \<Rightarrow> int list \<Rightarrow> int list" where
  "chunk i x = take 8 (drop (i * 8) x)"

definition oct_str :: "int list \<Rightarrow> string" where
  "oct_str bs = nat_str (nat (octval bs))"

definition addr_str :: "int list \<Rightarrow> string" where
  "addr_str x = join_with ''.'' (map (\<lambda>i. oct_str (chunk i x)) [0, 1, 2, 3])"

definition pad :: "int list \<Rightarrow> int list" where
  "pad p = p @ replicate (32 - length p) 0"

definition prefix_str :: "int list \<Rightarrow> string" where
  "prefix_str p = addr_str (pad p) @ ''/'' @ nat_str (length p)"

definition net :: "int list \<Rightarrow> bool" where
  "net p \<longleftrightarrow> length p \<le> 32 \<and> bits p"

definition marked :: "int list \<Rightarrow> int list \<Rightarrow> bool" where
  "marked p z \<longleftrightarrow> net p \<and> length z = 32 \<and>
     (if length p = 32 then z = p else \<exists>r. z = p @ (-1) # r)"

definition covers :: "int list \<Rightarrow> int list \<Rightarrow> bool" where
  "covers p x \<longleftrightarrow> take (length p) x = p"

definition norm_bin :: "int list \<Rightarrow> int list" where
  "norm_bin p = (if length p = 32 then p else p @ (-1) # replicate (31 - length p) 0)"

definition octet_prefix :: "int list \<Rightarrow> int list" where
  "octet_prefix p = take (8 * (length p div 8)) p"

lemma bits_simps [simp]:
  "bits []" "bits (b # x) \<longleftrightarrow> (b = 0 \<or> b = 1) \<and> bits x"
  "bits (x @ y) \<longleftrightarrow> bits x \<and> bits y" "bits (replicate n 0)"
  by (auto simp: bits_def)

lemma bits_take [simp]: "bits x \<Longrightarrow> bits (take n x)" and bits_drop [simp]: "bits x \<Longrightarrow> bits (drop n x)"
  by (auto simp: bits_def dest: in_set_takeD in_set_dropD)

lemma bits_nth: "bits x \<Longrightarrow> i < length x \<Longrightarrow> x ! i = 0 \<or> x ! i = 1"
  by (force simp: bits_def dest: nth_mem)

lemma bits_chunk [simp]: "bits x \<Longrightarrow> bits (chunk i x)"
  by (simp add: chunk_def)

lemma addr_pad: "net p \<Longrightarrow> addr (pad p)"
  by (simp add: net_def addr_def pad_def)

lemma marked_norm: "net p \<Longrightarrow> marked p (norm_bin p)"
  by (auto simp: marked_def norm_bin_def net_def)

lemma net_octet_prefix: "net p \<Longrightarrow> net (octet_prefix p)"
  by (simp add: net_def octet_prefix_def) arith

lemma covers_octet_prefix: "covers p x \<Longrightarrow> covers (octet_prefix p) x"
  by (simp add: covers_def octet_prefix_def) (metis min.absorb1 take_take times_div_less_eq_dividend)

section \<open>Octets\<close>

lemma octval_snoc: "octval (bs @ [b]) = 2 * octval bs + b"
  by (simp add: octval_def)

lemma octval_append: "octval (a @ b) = octval a * 2 ^ length b + octval b"
  by (induction b rule: rev_induct)
     (simp add: octval_def, simp add: octval_def algebra_simps)

lemma octval_replicate [simp]: "octval (replicate n 0) = 0"
  by (induction n) (simp_all add: replicate_append_same [symmetric] octval_snoc octval_def
    del: replicate.simps(2) add: replicate_Suc)

lemma octval_bounds: "bits bs \<Longrightarrow> 0 \<le> octval bs \<and> octval bs < 2 ^ length bs"
  by (induction bs rule: rev_induct) (auto simp: octval_snoc, auto simp: octval_def)

lemma octval_zero: "bits bs \<Longrightarrow> octval bs = 0 \<Longrightarrow> bs = replicate (length bs) 0"
proof (induction bs rule: rev_induct)
  case (snoc b bs)
  then have "octval bs = 0 \<and> b = 0"
    using octval_bounds [of bs] by (auto simp: octval_snoc)
  with snoc show ?case
    by (metis bits_simps(3) length_append_singleton replicate_Suc replicate_append_same)
qed simp

lemma dec_loop_octval:
  "bits bs \<Longrightarrow> length bin = 8 \<Longrightarrow> i + length bs = 8 \<Longrightarrow> drop i bin = replicate (8 - i) 0 \<Longrightarrow>
   dec_loop i (octval bs) bin = Value (take i bin @ rev bs)"
proof (induction bs arbitrary: i bin rule: rev_induct)
  case Nil
  then show ?case by (simp add: dec_loop.simps octval_def)
next
  case (snoc b bs)
  show ?case
  proof (cases "octval (bs @ [b]) = 0")
    case True
    have len: "length (bs @ [b]) = 8 - i"
      using snoc.prems(3) by simp
    have z: "bs @ [b] = replicate (8 - i) 0"
      using octval_zero [OF snoc.prems(1) True] unfolding len .
    have "rev (bs @ [b]) = drop i bin"
      using z snoc.prems(4) by (metis rev_replicate)
    with True show ?thesis
      by (simp add: dec_loop.simps del: rev_append)
  next
    case False
    have n: "octval (bs @ [b]) > 0"
      using False octval_bounds [of "bs @ [b]"] snoc.prems by simp
    have q: "octval (bs @ [b]) div 2 = octval bs" and r: "octval (bs @ [b]) mod 2 = b"
      using snoc.prems by (auto simp: octval_snoc)
    have "drop (Suc i) bin = replicate (8 - Suc i) 0"
      using arg_cong [where f = tl, OF snoc.prems(4)] by (simp add: drop_Suc tl_drop)
    then have "dec_loop (Suc i) (octval bs) (bin[i := b]) = Value (take (Suc i) (bin[i := b]) @ rev bs)"
      using snoc.prems by (intro snoc.IH) auto
    moreover have "take (Suc i) (bin[i := b]) = take i bin @ [b]"
      using snoc.prems by (simp add: take_Suc_conv_app_nth)
    ultimately show ?thesis
      using n q r snoc.prems by (subst dec_loop.simps) simp
  qed
qed

lemma decToBin_octval: "bits bs \<Longrightarrow> length bs = 8 \<Longrightarrow> decToBin (octval bs) = Value bs"
  using dec_loop_octval [of bs "replicate 8 0" 0] by (simp add: decToBin_def)

lemma seg_loop_bits:
  "bits q \<Longrightarrow> length q \<le> Suc n \<Longrightarrow>
   seg_loop (q @ r) (2 ^ n) s m =
     seg_loop r (2 ^ n div 2 ^ length q) (s + octval q * 2 ^ (Suc n - length q)) (m + length q)"
proof (induction q arbitrary: n s m)
  case Nil
  then show ?case by (simp add: octval_def)
next
  case (Cons b q)
  have o: "octval (b # q) = b * 2 ^ length q + octval q"
    using octval_append [of "[b]" q] by (simp add: octval_def)
  show ?case
  proof (cases n)
    case 0
    with Cons.prems o show ?thesis by (auto simp: octval_def)
  next
    case (Suc k)
    have pw: "2 ^ (Suc k - length q) * 2 ^ length q = (2::int) ^ Suc k"
      using Cons.prems Suc by (simp flip: power_add)
    show ?thesis
      using Cons.prems Suc Cons.IH [of k "s + b * 2 ^ n" "Suc m"] pw
      by (auto simp: o algebra_simps div_mult2_eq [symmetric] zdiv_zmult2_eq)
  qed
qed

lemma seg_loop_octet: "bits q \<Longrightarrow> length q = 8 \<Longrightarrow> seg_loop q 128 0 m = (octval q, m + 8, False)"
  using seg_loop_bits [of q 7 "[]" 0 m] by simp

lemma seg_loop_part:
  assumes "bits q" and "length q < 8"
  shows "seg_loop (q @ (-1) # r) 128 0 m =
    (octval (q @ replicate (8 - length q) 0), m + length q, True)"
  using assms seg_loop_bits [of q 7 "(-1) # r" 0 m] by (simp add: octval_append)

lemma itoa_octval: "bits bs \<Longrightarrow> itoa (octval bs) = oct_str bs"
  using octval_bounds [of bs] by (simp add: itoa_def oct_str_def)

section \<open>Printing\<close>

lemma length_chunk: "i * 8 + 8 \<le> length x \<Longrightarrow> length (chunk i x) = 8"
  by (simp add: chunk_def)

lemma range_loop_octet:
  assumes "bits (chunk i z)" and "length (chunk i z) = 8" and "i < 4"
  shows "range_loop w z i ips m = range_loop w z (Suc i) (ips[i := oct_str (chunk i z)]) (m + 8)"
  using assms by (subst range_loop.simps) (simp add: seg_loop_octet itoa_octval flip: chunk_def)

lemma range_loop_end:
  assumes "chunk i z = q @ (-1) # r" and "bits q" and "length q < 8" and "i < 4"
  shows "range_loop w z i ips m =
    (if w then ips else ips[i := oct_str (q @ replicate (8 - length q) 0)],
     if w then i * 8 else m + length q)"
  using assms by (subst range_loop.simps)
    (simp add: seg_loop_part itoa_octval Let_def flip: chunk_def)

lemma range_loop_done: "range_loop w z 4 ips m = (ips, m)"
  by (subst range_loop.simps) simp

lemma oct_str_zero [simp]: "oct_str (replicate n 0) = ''0''"
  by (simp add: oct_str_def nat_str.simps [of 0] digit_char_def) code_simp

lemma chunk_marked:
  assumes "marked p z" and "j * 8 + 8 \<le> length p"
  shows "chunk j z = chunk j p" and "length (chunk j p) = 8" and "bits (chunk j p)"
  using assms by (auto simp: marked_def net_def chunk_def split: if_splits)

lemma chunk_marked_end:
  assumes "marked p z" and "j = length p div 8" and "j < 4"
  shows "\<exists>r. chunk j z = drop (j * 8) p @ (-1) # r"
proof -
  have "length p < 32" and j: "j * 8 \<le> length p" and l: "length p - j * 8 < 8"
    using assms(2,3) by presburger+
  then obtain r where "z = p @ (-1) # r"
    using assms(1) by (auto simp: marked_def)
  then have "chunk j z = drop (j * 8) p @ (-1) # take (7 - (length p - j * 8)) r"
    using j l by (simp add: chunk_def take_Cons')
  then show ?thesis ..
qed

lemma chunk_pad:
  assumes "length p \<le> 32" and "j < 4"
  shows "chunk j (pad p) =
    (if j * 8 + 8 \<le> length p then chunk j p
     else drop (j * 8) p @ replicate (8 - (length p - j * 8)) 0)"
  using assms by (auto simp: chunk_def pad_def min_def)

lemma range_loop_prefix:
  assumes "marked p z" and "length ips = 4"
  shows "i * 8 \<le> length p \<Longrightarrow> range_loop w z 0 ips 0 =
    range_loop w z i (map (\<lambda>j. oct_str (chunk j p)) [0..<i] @ drop i ips) (8 * i)"
proof (induction i)
  case (Suc i)
  have le: "i * 8 + 8 \<le> length p" and i: "i < 4"
    using Suc.prems assms(1) by (auto simp: marked_def net_def)
  have "(map (\<lambda>j. oct_str (chunk j p)) [0..<i] @ drop i ips)[i := v] =
      (map (\<lambda>j. oct_str (chunk j p)) [0..<i] @ [v]) @ drop (Suc i) ips" for v
    using i assms(2) by (simp add: list_update_append Cons_nth_drop_Suc [symmetric])
  then show ?case
    using Suc chunk_marked [OF assms(1) le] i by (simp add: range_loop_octet add.commute)
qed simp

lemma addr_str_pad:
  assumes "length p \<le> 32"
  shows "addr_str (pad p) = join_with ''.''
    (map (\<lambda>j. oct_str (chunk j p)) [0..<length p div 8] @
     (if length p div 8 < 4
      then oct_str (drop (length p div 8 * 8) p @ replicate (8 - length p mod 8) 0)
           # replicate (3 - length p div 8) ''0'' else []))"
    (is "_ = join_with _ ?ips")
proof -
  have k: "length p div 8 \<le> 4" and m: "length p - length p div 8 * 8 = length p mod 8"
    using assms by (simp_all add: minus_div_mult_eq_mod) 
  have "map (\<lambda>i. oct_str (chunk i (pad p))) [0..<4] = ?ips"
  proof (rule nth_equalityI)
    show "length (map (\<lambda>i. oct_str (chunk i (pad p))) [0..<4]) = length ?ips"
      using k by auto
    fix j assume "j < length (map (\<lambda>i. oct_str (chunk i (pad p))) [0..<4])"
    then have j: "j < 4" by simp
    consider "j < length p div 8" | "j = length p div 8" | "j > length p div 8" by linarith
    then show "map (\<lambda>i. oct_str (chunk i (pad p))) [0..<4] ! j = ?ips ! j"
    proof cases
      case 1
      then have "j * 8 + 8 \<le> length p" by linarith
      with 1 j assms show ?thesis by (simp add: chunk_pad nth_append)
    next
      case 2
      have "\<not> j * 8 + 8 \<le> length p" using 2 by linarith
      with 2 j assms m show ?thesis by (simp add: chunk_pad nth_append)
    next
      case 3
      have "\<not> j * 8 + 8 \<le> length p" and "length p \<le> j * 8" using 3 by linarith+
      with 3 j assms show ?thesis by (auto simp: chunk_pad nth_append nth_Cons')
    qed
  qed
  moreover have "[0..<4] = [0, 1, 2, 3 :: nat]" by code_simp
  ultimately show ?thesis by (simp add: addr_str_def)
qed

lemma binToIpRange_print: "marked p z \<Longrightarrow> binToIpRange z False = prefix_str p"
  and binToIpRange_align: "marked p z \<Longrightarrow> binToIpRange z True = prefix_str (octet_prefix p)"
proof -
  assume m: "marked p z"
  let ?k = "length p div 8"
  let ?b = "map (\<lambda>j. oct_str (chunk j p)) [0..<?k]"
  have len: "length p \<le> 32" and k: "?k \<le> 4" and bp: "bits p"
    using m by (auto simp: marked_def net_def)
  have r: "range_loop w z 0 (replicate 4 ''0'') 0 =
      range_loop w z ?k (?b @ replicate (4 - ?k) ''0'') (8 * ?k)" for w
    using range_loop_prefix [OF m, of "replicate 4 ''0''" ?k w] by simp
  have o: "length (octet_prefix p) = 8 * ?k" and od: "length (octet_prefix p) div 8 = ?k"
    by (auto simp: octet_prefix_def)
  have ob: "map (\<lambda>j. oct_str (chunk j (octet_prefix p))) [0..<?k] = ?b"
    by (auto simp: octet_prefix_def chunk_def take_drop min_def)
  have ip: "addr_str (pad (octet_prefix p)) = join_with ''.'' (?b @ replicate (4 - ?k) ''0'')"
  proof (cases "?k < 4")
    case True
    have "drop (?k * 8) (octet_prefix p) = []" and "length (octet_prefix p) mod 8 = 0"
      and "length (octet_prefix p) \<le> 32" and "4 - ?k = Suc (3 - ?k)"
      using o True by simp_all
    then show ?thesis
      using addr_str_pad [of "octet_prefix p"] True unfolding od ob by simp
  next
    case False
    then have "?k = 4" and "length (octet_prefix p) \<le> 32" using k o by simp_all
    then show ?thesis
      using addr_str_pad [of "octet_prefix p"] unfolding od ob by simp
  qed
  have "binToIpRange z False = prefix_str p \<and> binToIpRange z True = prefix_str (octet_prefix p)"
  proof (cases "?k = 4")
    case True
    then have "length p = 32" using len by presburger
    with True show ?thesis
      using r [of False] r [of True] ip o addr_str_pad [OF len]
      by (simp add: binToIpRange_def prefix_str_def range_loop_done)
  next
    case False
    with k have k4: "?k < 4" by simp
    obtain t where t: "chunk ?k z = drop (?k * 8) p @ (-1) # t"
      using chunk_marked_end [OF m refl k4] by blast
    have l: "length (drop (?k * 8) p) = length p mod 8"
      by (simp add: minus_div_mult_eq_mod)
    have e: "range_loop w z ?k ips msk =
        (if w then ips else ips[?k := oct_str (drop (?k * 8) p @ replicate (8 - length p mod 8) 0)],
         if w then ?k * 8 else msk + length p mod 8)" for w ips msk
      using range_loop_end [OF t _ _ k4, of w ips msk] bp l by simp
    have "4 - ?k = Suc (3 - ?k)" using k4 by simp
    then have u: "(?b @ replicate (4 - ?k) ''0'')[?k := v] = ?b @ v # replicate (3 - ?k) ''0''" for v
      by (simp add: list_update_append)
    show ?thesis
      using r [of False] r [of True] e u ip o k4 len
      by (simp add: binToIpRange_def prefix_str_def addr_str_pad mult.commute)
  qed
  then show "binToIpRange z False = prefix_str p" and "binToIpRange z True = prefix_str (octet_prefix p)"
    by simp_all
qed

section \<open>Parsing what was printed\<close>

lemma oct_str_digits: "c \<in> set (oct_str bs) \<Longrightarrow> is_digit c"
  by (simp add: oct_str_def is_digit_nat_str)

lemma oct_str_seps [simp]:
  "CHR ''.'' \<notin> set (oct_str bs)" "CHR ''/'' \<notin> set (oct_str bs)" "CHR '':'' \<notin> set (oct_str bs)"
  by (auto dest!: oct_str_digits simp: is_digit_def)

lemma nat_str_no_slash [simp]: "CHR ''/'' \<notin> set (nat_str n)"
  by (auto dest!: is_digit_nat_str simp: is_digit_def)

lemma atoi_oct_str: "bits bs \<Longrightarrow> length bs = 8 \<Longrightarrow> atoi (oct_str bs) = Some (octval bs)"
  using octval_bounds [of bs] by (simp add: oct_str_def atoi_nat_str)

lemma addr_str_seps [simp]: "CHR ''/'' \<notin> set (addr_str x)" "CHR '':'' \<notin> set (addr_str x)"
  by (simp_all add: addr_str_def)

lemma split_addr_str: "split_on CHR ''.'' (addr_str x) = map (\<lambda>i. oct_str (chunk i x)) [0, 1, 2, 3]"
  unfolding addr_str_def by (rule split_join) auto

lemma concat_chunks:
  "length x = 32 \<Longrightarrow> chunk 0 x @ chunk 1 x @ chunk 2 x @ chunk 3 x = x"
proof -
  assume l: "length x = 32"
  have "take 32 x = take 8 x @ take 24 (drop 8 x)"
    and "take 24 (drop 8 x) = take 8 (drop 8 x) @ take 16 (drop 16 x)"
    and "take 16 (drop 16 x) = take 8 (drop 16 x) @ take 8 (drop 24 x)"
    using take_add [of 8 24 x] take_add [of 8 16 "drop 8 x"] take_add [of 8 8 "drop 16 x"]
    by simp_all
  with l show ?thesis by (simp add: chunk_def)
qed

lemma ipToBin_addr_str: "addr x \<Longrightarrow> ipToBin (addr_str x) = Value x"
proof -
  assume "addr x"
  then have l: "length x = 32" and b: "bits x" by (auto simp: addr_def)
  have c: "count_char (addr_str x) CHR ''/'' = 0"
    by (auto simp: count_char_def filter_empty_conv)
  have len: "length (chunk i x) = 8" if "i \<in> {0, 1, 2, 3}" for i
    using that l by (intro length_chunk) auto
  have p: "parseIp (addr_str x) = Value (map (\<lambda>i. octval (chunk i x)) [0, 1, 2, 3])"
    using len b by (simp add: parseIp_def split_addr_str atoi_err_def atoi_oct_str numeral_eq_Suc)
  show ?thesis
    using concat_chunks [OF l] len b c p by (subst ipToBin.simps) (simp add: decToBin_octval)
qed

lemma ipRangeToBin_slash:
  assumes "addr x" and "int k < 2 ^ 63"
  shows "ipRangeToBin (addr_str x @ ''/'' @ nat_str k) = mark_host (int k) x"
  using assms by (subst ipRangeToBin.simps)
    (simp add: split_on_append_sep split_on_no_sep atoi_err_def atoi_nat_str ipToBin_addr_str)

lemma pad_update: "length p < 32 \<Longrightarrow> (pad p)[length p := -1] = norm_bin p"
proof -
  assume "length p < 32"
  then have "replicate (32 - length p) 0 = (0::int) # replicate (31 - length p) 0"
    by (simp flip: replicate_Suc add: Suc_diff_le)
  with \<open>length p < 32\<close> show ?thesis by (simp add: pad_def norm_bin_def list_update_append)
qed

lemma ipRangeToBin_print: "net p \<Longrightarrow> ipRangeToBin (prefix_str p) = Value (norm_bin p)"
proof -
  assume n: "net p"
  then have "ipRangeToBin (prefix_str p) = mark_host (int (length p)) (pad p)"
    unfolding prefix_str_def by (intro ipRangeToBin_slash addr_pad) (auto simp: net_def)
  also have "\<dots> = Value (norm_bin p)"
    using n by (cases "length p = 32")
      (auto simp: mark_host_def pad_update net_def, simp_all add: norm_bin_def pad_def)
  finally show ?thesis .
qed

lemma prefix_str_addr: "addr x \<Longrightarrow> prefix_str x = addr_str x @ ''/32''"
proof -
  have "nat_str 32 = ''32''" by code_simp
  then show "addr x \<Longrightarrow> ?thesis" by (simp add: addr_def prefix_str_def pad_def)
qed

lemma net_addr: "addr x \<Longrightarrow> net x"
  by (simp add: addr_def net_def)

lemma count_slash_print [simp]: "count_char (prefix_str p) CHR ''/'' = 1"
  by (auto simp: prefix_str_def count_char_def filter_empty_conv)

lemma ipToBin_print: "net p \<Longrightarrow> ipToBin (prefix_str p) = Value (norm_bin p)"
  by (subst ipToBin.simps) (simp add: ipRangeToBin_print)

lemma prefix_str_no_colon [simp]: "CHR '':'' \<notin> set (prefix_str p)"
  by (auto simp: prefix_str_def dest!: is_digit_nat_str simp: is_digit_def)

lemma prefix_str_inject: "net p \<Longrightarrow> net q \<Longrightarrow> prefix_str p = prefix_str q \<longleftrightarrow> p = q"
proof
  assume "net p" "net q" "prefix_str p = prefix_str q"
  then have e: "norm_bin p = norm_bin q"
    using ipRangeToBin_print by (metis outcome.inject(1))
  have f: "takeWhile (\<lambda>b. b \<noteq> -1) (norm_bin r) = r" if "net r" for r
  proof -
    have no: "b \<noteq> -1" if "b \<in> set r" for b
      using that \<open>net r\<close> by (auto simp: net_def bits_def)
    have "takeWhile (\<lambda>b. b \<noteq> -1) (r @ -1 # t) = r" for t
      using no by (subst takeWhile_append2) auto
    moreover have "takeWhile (\<lambda>b. b \<noteq> -1) r = r"
      using no by (auto simp: takeWhile_eq_all_conv)
    ultimately show ?thesis by (simp add: norm_bin_def)
  qed
  show "p = q" using f [OF \<open>net p\<close>] f [OF \<open>net q\<close>] unfolding e by (rule trans [OF sym])
qed simp

section \<open>Containment\<close>

lemma part_loop_prefix:
  "bits p \<Longrightarrow> length p < length w \<Longrightarrow> part_loop (p @ (-1) # r) w \<longleftrightarrow> take (length p) w = p"
proof (induction p arbitrary: w)
  case Nil
  then show ?case by (cases w) auto
next
  case (Cons b p)
  then show ?case by (cases w) auto
qed

lemma part_loop_full: "bits p \<Longrightarrow> length w = length p \<Longrightarrow> part_loop p w \<longleftrightarrow> w = p"
  by (induction p w rule: part_loop.induct) (auto simp: bits_def)

lemma part_loop_marked: "marked p z \<Longrightarrow> length w = 32 \<Longrightarrow> part_loop z w \<longleftrightarrow> covers p w"
  by (auto simp: marked_def net_def covers_def part_loop_prefix part_loop_full split: if_splits)

lemma length_norm [simp]: "net p \<Longrightarrow> length (norm_bin p) = 32"
  by (simp add: norm_bin_def net_def)

lemma covers_norm:
  assumes "net p" and "net q"
  shows "covers p (norm_bin q) \<longleftrightarrow> length p \<le> length q \<and> take (length p) q = p"
proof (cases "length p \<le> length q")
  case True
  then show ?thesis by (simp add: covers_def norm_bin_def)
next
  case False
  then have "-1 \<in> set (take (length p) (norm_bin q))"
    using assms by (auto simp: norm_bin_def net_def take_Cons' not_le)
  then have "take (length p) (norm_bin q) \<noteq> p"
    using assms(1) by (auto simp: net_def bits_def)
  with False show ?thesis by (simp add: covers_def)
qed

lemma isPartOfRange_nets:
  assumes "net p" and "net q"
  shows "isPartOfRange (prefix_str p) (prefix_str q) =
    Value (length p \<le> length q \<and> take (length p) q = p)"
  using assms part_loop_marked [OF marked_norm, of p "norm_bin q"]
  by (simp add: isPartOfRange_def ipRangeToBin_print covers_norm)

lemma isPartOfRange_addr:
  assumes "net p" and "addr x"
  shows "isPartOfRange (prefix_str p) (addr_str x @ ''/32'') = Value (covers p x)"
  using isPartOfRange_nets [OF assms(1) net_addr [OF assms(2)]] assms
  by (simp add: prefix_str_addr covers_def addr_def net_def)

section \<open>Taking one address out of a range\<close>

text \<open>The sibling of \<open>y\<close> at bit \<open>i\<close>: the range that agrees with \<open>y\<close> before bit \<open>i\<close> and differs there.\<close>

definition sibling :: "int list \<Rightarrow> nat \<Rightarrow> int list" where
  "sibling y i = take i y @ [1 - y ! i]"

lemma net_sibling: "addr y \<Longrightarrow> i < 32 \<Longrightarrow> net (sibling y i)"
  using bits_nth [of y i] by (auto simp: addr_def net_def sibling_def)

lemma length_sibling [simp]: "addr y \<Longrightarrow> i < 32 \<Longrightarrow> length (sibling y i) = Suc i"
  by (simp add: addr_def sibling_def)

lemma covers_sibling:
  assumes "addr x" and "addr y" and "i < 32"
  shows "covers (sibling y i) x \<longleftrightarrow> take i x = take i y \<and> x ! i \<noteq> y ! i"
proof -
  have "y ! i = 0 \<or> y ! i = 1" and "x ! i = 0 \<or> x ! i = 1"
    using assms bits_nth by (auto simp: addr_def)
  then have "x ! i = 1 - y ! i \<longleftrightarrow> x ! i \<noteq> y ! i" by presburger
  with assms show ?thesis
    by (auto simp: covers_def addr_def sibling_def take_Suc_conv_app_nth)
qed

lemma siblings_partition:
  assumes x: "addr x" and y: "addr y" and p: "covers p y" "length p \<le> 32"
  shows "(\<exists>i \<in> {length p..<32}. covers (sibling y i) x) \<longleftrightarrow> covers p x \<and> x \<noteq> y"
proof
  assume "\<exists>i \<in> {length p..<32}. covers (sibling y i) x"
  then obtain i where i: "length p \<le> i" "i < 32" and c: "take i x = take i y" "x ! i \<noteq> y ! i"
    using covers_sibling [OF x y] by auto
  have "take (length p) x = take (length p) y"
    using arg_cong [where f = "take (length p)", OF c(1)] i(1) by (simp add: min_def)
  with c(2) p show "covers p x \<and> x \<noteq> y" by (auto simp: covers_def)
next
  assume a: "covers p x \<and> x \<noteq> y"
  define i where "i = (LEAST i. x ! i \<noteq> y ! i)"
  obtain j where j: "j < 32" "x ! j \<noteq> y ! j"
    using a x y nth_equalityI [of x y] by (auto simp: addr_def)
  have d: "x ! i \<noteq> y ! i" and le: "i \<le> j"
    using j(2) unfolding i_def by (metis (mono_tags, lifting) LeastI Least_le)+
  have eq: "x ! k = y ! k" if "k < i" for k
    using not_less_Least [of k] that unfolding i_def by blast
  have i: "i < 32" using le j by simp
  have "take i x = take i y"
    using eq i x y by (intro nth_equalityI) (auto simp: addr_def)
  moreover have "length p \<le> i"
  proof (rule ccontr)
    assume "\<not> length p \<le> i"
    then have "x ! i = y ! i"
      using a p(1) by (metis covers_def not_le nth_take)
    with d show False by simp
  qed
  ultimately show "\<exists>i \<in> {length p..<32}. covers (sibling y i) x"
    using covers_sibling [OF x y i] d i by auto
qed

lemma siblings_disjoint:
  assumes "addr x" "addr y" "i < 32" "j < 32" "covers (sibling y i) x" "covers (sibling y j) x"
  shows "i = j"
proof (rule ccontr)
  have aux: False if "a < b" "b < 32" "covers (sibling y a) x" "covers (sibling y b) x" for a b
  proof -
    have "x ! a \<noteq> y ! a" and "take b x = take b y"
      using covers_sibling [OF assms(1,2)] that by auto
    with that(1) show False by (metis nth_take)
  qed
  assume "i \<noteq> j"
  then consider "i < j" | "j < i" by linarith
  then show False using aux assms by cases blast+
qed

lemma norm_bin_nth:
  assumes "net p" and "i < 32"
  shows "norm_bin p ! i = (if i < length p then p ! i else if i = length p then -1 else 0)"
  using assms by (auto simp: norm_bin_def net_def nth_append nth_Cons')

lemma norm_bin_bit:
  assumes "net p" and "i < length p"
  shows "norm_bin p ! i \<noteq> -1"
  using assms bits_nth [of p i] by (auto simp: norm_bin_nth net_def)

lemma marked_sibling:
  assumes "addr y" and "length ebin = 32" and "take (i - 1) ebin = take (i - 1) y"
    and "0 < i" and "i < 32"
    and "e2 = ebin[i - 1 := y ! (i - 1), i := (if y ! i = 0 then 1 else 0)]"
    and "e3 = (if i < 31 then e2[i + 1 := -1] else e2)"
  shows "marked (sibling y i) e3" and "take i e3 = take i y" and "length e3 = 32"
proof -
  have y: "length y = 32" "bits y" using assms(1) by (auto simp: addr_def)
  have flip: "(if y ! i = 0 then 1 else 0) = 1 - y ! i"
    using bits_nth [OF y(2), of i] assms(5) y(1) by auto
  show l: "length e3 = 32" by (simp add: assms(2,6,7))
  have nth: "e3 ! k = (if k < i then y ! k else if k = i then 1 - y ! i else -1)" if "k \<le> i + 1" "k < 32" for k
  proof -
    have "ebin ! k = y ! k" if "k < i - 1"
      using assms(3) that by (metis nth_take)
    then show ?thesis
      using that assms(2,4,5) flip unfolding assms(6,7)
      by (cases "k = i - 1") (auto simp: nth_list_update)
  qed
  show t: "take i e3 = take i y"
    using nth l y(1) assms(5) by (intro nth_equalityI) auto
  have s: "take (Suc i) e3 = sibling y i"
    using t nth [of i] l assms(5) by (simp add: sibling_def take_Suc_conv_app_nth)
  show "marked (sibling y i) e3"
  proof (cases "i = 31")
    case True
    then have "e3 = sibling y i" using s l by simp
    with True show ?thesis
      using net_sibling [OF assms(1,5)] l by (simp add: marked_def assms(1))
  next
    case False
    then have "e3 = sibling y i @ (-1) # drop (Suc (Suc i)) e3"
      using s nth [of "Suc i"] l assms(5) id_take_nth_drop [of "Suc i" e3] by simp
    with False show ?thesis
      using net_sibling [OF assms(1,5)] l assms(1,5) unfolding marked_def by auto
  qed
qed

lemma excl_loop_host:
  assumes "net p" and "addr y" and "0 < length p"
  shows "length p \<le> i \<Longrightarrow> i \<le> 32 \<Longrightarrow> length ebin = 32 \<Longrightarrow> take (i - 1) ebin = take (i - 1) y \<Longrightarrow>
    excl_loop (norm_bin p) y i True ebin acc = acc @ map (\<lambda>i. prefix_str (sibling y i)) [i..<32]"
proof (induction "32 - i" arbitrary: i ebin acc)
  case 0
  then show ?case by (subst excl_loop.simps) simp
next
  case (Suc n)
  then have i: "i < 32" "0 < i" using less_le_trans [OF assms(3) Suc.prems(1)] by simp_all
  let ?e2 = "ebin[i - 1 := y ! (i - 1), i := (if y ! i = 0 then 1 else 0)]"
  let ?e3 = "if i < 31 then ?e2[i + 1 := -1] else ?e2"
  note m = marked_sibling [OF assms(2) Suc.prems(3,4) i(2,1) refl refl]
  have "\<not> (i < 31 \<and> norm_bin p ! (i + 1) = -1)"
    using Suc.prems(1) assms(1) by (auto simp: norm_bin_nth)
  then have "excl_loop (norm_bin p) y i True ebin acc =
      excl_loop (norm_bin p) y (Suc i) True ?e3 (acc @ [binToIpRange ?e3 False])"
    using i by (subst excl_loop.simps) (simp add: Let_def)
  also have "\<dots> = (acc @ [prefix_str (sibling y i)]) @ map (\<lambda>i. prefix_str (sibling y i)) [Suc i..<32]"
    using Suc.hyps Suc.prems i m binToIpRange_print [OF m(1)] by (intro trans [OF Suc.hyps(1)]) auto
  also have "\<dots> = acc @ map (\<lambda>i. prefix_str (sibling y i)) [i..<32]"
    using i by (simp add: upt_conv_Cons)
  finally show ?case .
qed

lemma excl_loop_net:
  assumes "net p" and "addr y" and "covers p y" and "0 < length p" and "length p < 32"
  shows "i < length p \<Longrightarrow> length ebin = 32 \<Longrightarrow> take i ebin = take i y \<Longrightarrow>
    excl_loop (norm_bin p) y i False ebin [] = map (\<lambda>i. prefix_str (sibling y i)) [length p..<32]"
proof (induction "length p - i" arbitrary: i ebin)
  case (Suc n)
  show ?case
  proof (cases "i = length p - 1")
    case True
    then have "i < 31 \<and> norm_bin p ! (i + 1) = -1"
      using assms by (auto simp: norm_bin_nth)
    then have "excl_loop (norm_bin p) y i False ebin [] = excl_loop (norm_bin p) y (length p) True ebin []"
      using True assms(4) by (subst excl_loop.simps) simp
    also have "\<dots> = map (\<lambda>i. prefix_str (sibling y i)) [length p..<32]"
      using excl_loop_host [OF assms(1,2,4)] Suc.prems True assms(5) by simp
    finally show ?thesis .
  next
    case False
    then have i: "i + 1 < length p" using Suc.prems(1) by simp
    have eq: "norm_bin p ! i = y ! i"
      using i assms by (metis Suc_eq_plus1 Suc_lessD covers_def less_trans norm_bin_nth nth_take)
    have "take (Suc i) (ebin[i := y ! i]) = take (Suc i) y"
      using Suc.prems i assms(2,5) by (simp add: take_Suc_conv_app_nth addr_def)
    then have "excl_loop (norm_bin p) y (Suc i) False (ebin[i := y ! i]) [] =
        map (\<lambda>i. prefix_str (sibling y i)) [length p..<32]"
      using Suc i by (intro Suc.hyps) auto
    then show ?thesis
      using i eq norm_bin_bit [OF assms(1) i] assms(5) by (subst excl_loop.simps) simp
  qed
qed simp

lemma excl_loop_same: "addr y \<Longrightarrow> excl_loop y y i False ebin [] = []"
proof (induction "32 - i" arbitrary: i ebin)
  case (Suc n)
  have "\<not> (i < 31 \<and> y ! (i + 1) = -1)"
    using Suc.prems bits_nth [of y "i + 1"] by (auto simp: addr_def)
  with Suc show ?case by (subst excl_loop.simps) auto
qed (subst excl_loop.simps, simp)

lemma excludeIpFromRange_siblings:
  assumes "net p" and "addr y" and "covers p y" and "0 < length p"
  shows "excludeIpFromRange (prefix_str p) (addr_str y @ ''/32'') =
    Value (map (\<lambda>i. prefix_str (sibling y i)) [length p..<32])"
proof -
  have y: "norm_bin y = y" using assms(2) by (simp add: norm_bin_def addr_def)
  have "excl_loop (norm_bin p) y 0 False (replicate 32 0) [] =
      map (\<lambda>i. prefix_str (sibling y i)) [length p..<32]"
  proof (cases "length p = 32")
    case True
    then have "p = y" using assms by (simp add: covers_def addr_def)
    with True show ?thesis using excl_loop_same [OF assms(2)] by (simp add: y)
  next
    case False
    then have "length p < 32" using assms(1) by (simp add: net_def)
    then show ?thesis using excl_loop_net [OF assms(1-4)] assms(4) by simp
  qed
  then show ?thesis
    using assms ipToBin_print [OF net_addr [OF assms(2)]] y
    by (simp add: excludeIpFromRange_def ipRangeToBin_print prefix_str_addr)
qed

section \<open>The minimal ranges\<close>

text \<open>The arrays that the loop keeps: at least 16 network bits each, and what they cover.\<close>

definition wide_bin :: "int list \<Rightarrow> bool" where
  "wide_bin z \<longleftrightarrow> (\<exists>p. marked p z \<and> 16 \<le> length p)"

definition any_covers :: "int list list \<Rightarrow> int list \<Rightarrow> bool" where
  "any_covers bs x \<longleftrightarrow> (\<exists>z \<in> set bs. \<exists>p. marked p z \<and> covers p x)"

lemma cmp_loop_Some:
  "cmp_loop j b z = Some b' \<Longrightarrow> length b = length z \<Longrightarrow> j + length b = 32 \<Longrightarrow>
   b' = b \<and> b = z \<or>
   (\<exists>k < length b. 16 \<le> j + k \<and> take k b = take k z \<and> b ! k \<noteq> z ! k \<and> b' = b[k := -1])"
proof (induction j b z arbitrary: b' rule: cmp_loop.induct)
  case (1 j b bins x ipBin)
  show ?case
  proof (cases "b = x")
    case False
    with 1(2) show ?thesis by (intro disjI2 exI [of _ 0]) (auto split: if_splits)
  next
    case eq: True
    show ?thesis
    proof (cases "j = 31")
      case True
      with 1 eq show ?thesis by auto
    next
      case False
      then obtain c where c: "cmp_loop (Suc j) bins ipBin = Some c" "b' = b # c"
        using 1(2) eq by auto
      then have "c = bins \<and> bins = ipBin \<or> (\<exists>k < length bins. 16 \<le> Suc j + k \<and>
          take k bins = take k ipBin \<and> bins ! k \<noteq> ipBin ! k \<and> c = bins[k := -1])"
        using 1 eq False by auto
      then show ?thesis
      proof (elim disjE exE conjE)
        fix k assume "k < length bins" "16 \<le> Suc j + k" "take k bins = take k ipBin"
          "bins ! k \<noteq> ipBin ! k" "c = bins[k := -1]"
        then show ?thesis using c eq by (intro disjI2 exI [of _ "Suc k"]) auto
      qed (use c eq in auto)
    qed
  qed
qed auto

lemma marked_take_bits:
  assumes "marked q z" and "take k z = p" and "length p = k" and "bits p"
  shows "k \<le> length q" and "take k q = p"
proof -
  have q: "length z = 32" and z: "take (length q) z = q"
    and m: "length q < 32 \<Longrightarrow> z ! length q = -1" and le: "length q \<le> 32"
    using assms(1) by (auto simp: marked_def net_def split: if_splits)
  show k: "k \<le> length q"
  proof (rule ccontr)
    assume "\<not> k \<le> length q"
    then have "p ! length q = -1" and "length q < length p"
      using m q assms(2,3) by auto
    with assms(4) bits_nth show False by fastforce
  qed
  show "take k q = p"
    using k z assms(2) by (metis min.absorb1 take_take)
qed

lemma marked_take: "marked p z \<Longrightarrow> take (length p) z = p \<and> bits p \<and> length z = 32"
  by (auto simp: marked_def net_def split: if_splits)

lemma marked_unique:
  assumes "marked p z" and "marked q z"
  shows "p = q"
proof -
  have p: "take (length p) z = p" "bits p" and q: "take (length q) z = q" "bits q"
    using assms marked_take by blast+
  have "take (length p) q = p"
    by (rule marked_take_bits(2) [OF assms(2) p(1) refl p(2)])
  moreover have "length q \<le> length p"
    by (rule marked_take_bits(1) [OF assms(1) q(1) refl q(2)])
  ultimately show ?thesis by (metis take_all)
qed

lemma covers_trans: "covers p q \<Longrightarrow> length p \<le> length q \<Longrightarrow> covers q x \<Longrightarrow> covers p x"
  unfolding covers_def by (metis min.absorb1 take_take)

lemma cmp_loop_widens:
  assumes b: "marked p b" "16 \<le> length p" and z: "marked q z" "16 \<le> length q"
    and c: "cmp_loop 0 b z = Some b'"
  shows "\<exists>p'. marked p' b' \<and> 16 \<le> length p' \<and>
    (\<forall>x. covers p x \<longrightarrow> covers p' x) \<and> (\<forall>x. covers q x \<longrightarrow> covers p' x)"
proof -
  have len: "length b = 32" "length z = 32" "length p \<le> 32" "bits p" "take (length p) b = p"
    using b z by (auto simp: marked_def net_def split: if_splits)
  from cmp_loop_Some [OF c] len
  consider "b' = b" "b = z"
    | k where "k < 32" "16 \<le> k" "take k b = take k z" "b ! k \<noteq> z ! k" "b' = b[k := -1]"
    by auto
  then show ?thesis
  proof cases
    case 1
    then have "q = p" using b(1) z(1) marked_unique by blast
    with 1 b show ?thesis by blast
  next
    case (2 k)
    define l where "l = min k (length p)"
    define p' where "p' = take l p"
    have l: "l \<le> length p" "l \<le> k" "l < 32" "16 \<le> l"
      using 2 b(2) len(3) by (auto simp: l_def)
    have p': "length p' = l" "bits p'" "take l b = p'"
      using l len by (auto simp: p'_def) (metis min.absorb1 take_take)
    have tz: "take l z = p'"
      using p'(3) 2(3) l(2) by (metis min.absorb1 take_take)
    note q = marked_take_bits [OF z(1) tz p'(1,2)]
    have "take l b' = p'" and "b' ! l = -1"
    proof -
      show "take l b' = p'" using 2(5) l(2) p'(3) by simp
      show "b' ! l = -1"
      proof (cases "k \<le> length p")
        case True
        then show ?thesis using 2 len by (simp add: l_def)
      next
        case False
        then have "length p < 32" and "l = length p" using 2(1) by (auto simp: l_def)
        with b(1) False 2(5) show ?thesis by (auto simp: marked_def)
      qed
    qed
    then have "b' = p' @ (-1) # drop (Suc l) b'"
      using id_take_nth_drop [of l b'] len 2(5) l(3) by simp
    then have "marked p' b'"
      using p' l len 2(5) by (auto simp: marked_def net_def)
    moreover have "covers p x \<Longrightarrow> covers p' x" "covers q x \<Longrightarrow> covers p' x" for x
      using q l p' by (auto simp: covers_def p'_def) (metis min.absorb1 take_take)+
    ultimately show ?thesis using l p' by blast
  qed
qed

lemma insert_bin_covers:
  assumes "marked q z" and "16 \<le> length q"
  shows "\<forall>b \<in> set bs. wide_bin b \<Longrightarrow>
    (\<forall>b \<in> set (insert_bin z bs). wide_bin b) \<and>
    (\<forall>x. any_covers bs x \<or> covers q x \<longrightarrow> any_covers (insert_bin z bs) x)"
proof (induction bs)
  case Nil
  with assms show ?case by (auto simp: wide_bin_def any_covers_def)
next
  case (Cons b bs)
  obtain p where p: "marked p b" "16 \<le> length p"
    using Cons.prems by (auto simp: wide_bin_def)
  show ?case
  proof (cases "cmp_loop 0 b z")
    case None
    with Cons show ?thesis by (auto simp: any_covers_def)
  next
    case (Some b')
    then obtain p' where "marked p' b'" "16 \<le> length p'"
      "\<forall>x. covers p x \<longrightarrow> covers p' x" "\<forall>x. covers q x \<longrightarrow> covers p' x"
      using cmp_loop_widens [OF p assms] by blast
    moreover have "covers r x \<longrightarrow> covers p x" if "marked r b" for r x
      using marked_unique [OF that p(1)] by simp
    ultimately have "wide_bin b'" and "any_covers (b # bs) x \<or> covers q x \<Longrightarrow> any_covers (b' # bs) x" for x
      unfolding any_covers_def wide_bin_def by (blast, simp, blast)
    with Some Cons.prems show ?thesis by simp
  qed
qed

text \<open>The entries of the input list: text of IPv6, text that does not parse, or a range of 16 bits at least.\<close>

definition range_text :: "string \<Rightarrow> int list \<Rightarrow> bool" where
  "range_text ip q \<longleftrightarrow> CHR '':'' \<notin> set ip \<and> 16 \<le> length q \<and> (\<exists>z. ipToBin ip = Value z \<and> marked q z)"

definition clean_text :: "string \<Rightarrow> bool" where
  "clean_text ip \<longleftrightarrow> CHR '':'' \<in> set ip \<or> (\<exists>e. ipToBin ip = Fail e) \<or> (\<exists>q. range_text ip q)"

lemma range_text_addr: "addr x \<Longrightarrow> range_text (addr_str x) x"
  using marked_norm [OF net_addr, of x]
  by (auto simp: range_text_def ipToBin_addr_str norm_bin_def addr_def)

lemma range_text_print: "net p \<Longrightarrow> 16 \<le> length p \<Longrightarrow> range_text (prefix_str p) p"
  using marked_norm [of p] by (auto simp: range_text_def ipToBin_print)

lemma mini_loop_covers:
  "\<forall>ip \<in> set ips. clean_text ip \<Longrightarrow> \<forall>b \<in> set bs. wide_bin b \<Longrightarrow>
   \<exists>bs'. mini_loop ips bs = Value bs' \<and> (\<forall>b \<in> set bs'. wide_bin b) \<and>
     (\<forall>x. any_covers bs x \<longrightarrow> any_covers bs' x) \<and>
     (\<forall>ip \<in> set ips. \<forall>q x. range_text ip q \<and> covers q x \<longrightarrow> any_covers bs' x)"
proof (induction ips arbitrary: bs)
  case (Cons ip ips)
  consider "contains_char ip CHR '':'' \<or> (\<exists>e. ipToBin ip = Fail e)" "\<not> (\<exists>q. range_text ip q)"
    | q z where "\<not> contains_char ip CHR '':''" "ipToBin ip = Value z" "marked q z" "16 \<le> length q"
    using Cons.prems(1) by (auto simp: clean_text_def range_text_def contains_char_def)
  then show ?case
  proof cases
    case 1
    then have "mini_loop (ip # ips) bs = mini_loop ips bs" by auto
    with Cons 1 show ?thesis by simp
  next
    case (2 q z)
    note i = insert_bin_covers [OF 2(3,4) Cons.prems(2)]
    have q: "r = q" if "range_text ip r" for r
      using that 2(2,3) marked_unique unfolding range_text_def by fastforce
    obtain bs' where bs': "mini_loop ips (insert_bin z bs) = Value bs'" "\<forall>b \<in> set bs'. wide_bin b"
      "\<forall>x. any_covers (insert_bin z bs) x \<longrightarrow> any_covers bs' x"
      "\<forall>ip \<in> set ips. \<forall>q x. range_text ip q \<and> covers q x \<longrightarrow> any_covers bs' x"
      using Cons.IH [of "insert_bin z bs"] Cons.prems i by auto
    have "mini_loop (ip # ips) bs = Value bs'"
      using 2 bs'(1) by simp
    moreover have "any_covers bs' x" if "any_covers bs x \<or> covers q x" for x
      using that i bs'(3) by blast
    ultimately show ?thesis using bs'(2,4) q by auto
  qed
qed simp

text \<open>What the computed ranges are: prefixes of 16, 24 or 32 bits that cover every address given.\<close>

definition range_list :: "string list \<Rightarrow> int list list \<Rightarrow> bool" where
  "range_list rs ps \<longleftrightarrow> rs = map prefix_str ps \<and> (\<forall>p \<in> set ps. net p \<and> length p \<in> {16, 24, 32})"

lemma octet_prefix_length: "16 \<le> length p \<Longrightarrow> length p \<le> 32 \<Longrightarrow> length (octet_prefix p) \<in> {16, 24, 32}"
proof -
  assume "16 \<le> length p" "length p \<le> 32"
  then have "length p div 8 \<in> {2, 3, 4}" by auto
  then show ?thesis by (auto simp: octet_prefix_def)
qed

lemma calculateMinimalIpRange_covers:
  assumes "\<forall>ip \<in> set ips. clean_text ip"
  shows "\<exists>rs ps. calculateMinimalIpRange False ips = Value rs \<and> range_list rs ps \<and>
    (\<forall>ip \<in> set ips. \<forall>q x. range_text ip q \<and> covers q x \<longrightarrow> (\<exists>p \<in> set ps. covers p x))"
proof -
  obtain bs where bs: "mini_loop ips [] = Value bs" "\<forall>b \<in> set bs. wide_bin b"
    "\<forall>ip \<in> set ips. \<forall>q x. range_text ip q \<and> covers q x \<longrightarrow> any_covers bs x"
    using mini_loop_covers [of ips "[]"] assms by auto
  define pre where "pre z = (SOME p. marked p z \<and> 16 \<le> length p)" for z
  have pre: "marked (pre z) z" "16 \<le> length (pre z)" if "z \<in> set bs" for z
    using someI_ex [of "\<lambda>p. marked p z \<and> 16 \<le> length p"] bs(2) that
    unfolding pre_def wide_bin_def by auto
  have net: "net (pre z)" if "z \<in> set bs" for z
    using pre(1) [OF that] by (simp add: marked_def)
  let ?ps = "map (\<lambda>z. octet_prefix (pre z)) bs"
  have "calculateMinimalIpRange False ips = Value (map (\<lambda>z. binToIpRange z True) bs)"
    by (simp add: calculateMinimalIpRange_def bs(1))
  moreover have "range_list (map (\<lambda>z. binToIpRange z True) bs) ?ps"
    unfolding range_list_def
  proof (intro conjI ballI)
    show "map (\<lambda>z. binToIpRange z True) bs = map prefix_str ?ps"
      using pre binToIpRange_align by simp
    fix p assume "p \<in> set ?ps"
    then obtain z where "z \<in> set bs" "p = octet_prefix (pre z)" by auto
    then show "net p" and "length p \<in> {16, 24, 32}"
      using net [of z] pre(2) [of z] net_octet_prefix octet_prefix_length by (auto simp: net_def)
  qed
  moreover have "\<exists>p \<in> set ?ps. covers p x" if c: "any_covers bs x" for x
  proof -
    obtain z r where "z \<in> set bs" "marked r z" "covers r x"
      using c by (auto simp: any_covers_def)
    moreover then have "r = pre z" using pre(1) marked_unique by blast
    ultimately show ?thesis using covers_octet_prefix by auto
  qed
  ultimately show ?thesis using bs(3) by blast
qed

end
