(* ===== verification/CidrProps.thy ===== *)
theory CidrProps
  imports CidrSpec
begin

text \<open>
  The properties of the range computation of \<open>cidr.go\<close>, from a single range up to the list of
  routes that \<open>ClusterCidr\<close> returns: every listed service and pod address is routed, the address
  of the API server never is.
\<close>

section \<open>The merged ranges\<close>

definition routed :: "string list \<Rightarrow> int list \<Rightarrow> bool" where
  "routed rs x \<longleftrightarrow> (\<exists>r \<in> set rs. isPartOfRange r (addr_str x @ ''/32'') = Value True)"

definition split_range :: "int list \<Rightarrow> int list \<Rightarrow> int list list" where
  "split_range y p = (if covers p y then map (sibling y) [length p..<32] else [p])"

lemma merge_loop_nets:
  assumes "addr y"
  shows "\<forall>p \<in> set ps. net p \<and> 0 < length p \<Longrightarrow>
    merge_loop (addr_str y) (map prefix_str ps) = Value (map prefix_str (concat (map (split_range y) ps)))"
proof (induction ps)
  case (Cons p ps)
  then show ?case
    using assms by (simp add: isPartOfRange_addr excludeIpFromRange_siblings split_range_def)
qed simp

lemma net_split_range: "addr y \<Longrightarrow> net p \<Longrightarrow> q \<in> set (split_range y p) \<Longrightarrow> net q"
  by (auto simp: split_range_def net_sibling split: if_splits)

lemma routed_nets:
  "\<forall>p \<in> set ps. net p \<Longrightarrow> addr x \<Longrightarrow> routed (map prefix_str ps) x \<longleftrightarrow> (\<exists>p \<in> set ps. covers p x)"
  by (auto simp: routed_def isPartOfRange_addr)

lemma split_range_covers:
  assumes "net p" "addr x" "addr y"
  shows "(\<exists>q \<in> set (split_range y p). covers q x) \<longleftrightarrow> covers p x \<and> x \<noteq> y"
  using siblings_partition [OF assms(2,3), of p] assms(1)
  by (auto simp: split_range_def net_def)

lemma routed_merged:
  assumes "range_list rs ps" and "addr y" and "addr x"
  shows "\<exists>ms. merge_loop (addr_str y) rs = Value ms \<and>
    (routed ms x \<longleftrightarrow> x \<noteq> y \<and> (\<exists>p \<in> set ps. covers p x))"
proof -
  let ?qs = "concat (map (split_range y) ps)"
  have ps: "rs = map prefix_str ps" "\<forall>p \<in> set ps. net p \<and> 0 < length p"
    using assms(1) by (auto simp: range_list_def)
  have "routed (map prefix_str ?qs) x \<longleftrightarrow> (\<exists>q \<in> set ?qs. covers q x)"
  proof (rule routed_nets [OF ballI assms(3)])
    fix q assume "q \<in> set ?qs"
    then obtain p where "p \<in> set ps" "q \<in> set (split_range y p)" by auto
    then show "net q" using net_split_range [OF assms(2)] ps(2) by blast
  qed
  also have "\<dots> \<longleftrightarrow> (\<exists>p \<in> set ps. \<exists>q \<in> set (split_range y p). covers q x)"
    by auto
  also have "\<dots> \<longleftrightarrow> x \<noteq> y \<and> (\<exists>p \<in> set ps. covers p x)"
    using split_range_covers [OF _ assms(3,2)] ps(2) by blast
  finally have r: "routed (map prefix_str ?qs) x \<longleftrightarrow> x \<noteq> y \<and> (\<exists>p \<in> set ps. covers p x)" .
  have "merge_loop (addr_str y) rs = Value (map prefix_str ?qs)"
    unfolding ps(1) by (rule merge_loop_nets [OF assms(2) ps(2)])
  with r show ?thesis by blast
qed

text \<open>An address list of the API: IPv4 addresses, and text with a colon.\<close>

definition address_text :: "string \<Rightarrow> bool" where
  "address_text ip \<longleftrightarrow> CHR '':'' \<in> set ip \<or> (\<exists>x. addr x \<and> ip = addr_str x)"

lemma address_text_clean: "address_text ip \<Longrightarrow> clean_text ip"
  using range_text_addr by (auto simp: address_text_def clean_text_def)

lemma covers_self [simp]: "covers x x"
  by (simp add: covers_def)

lemma minimal_ranges:
  assumes "\<forall>ip \<in> set ips. address_text ip"
  shows "\<exists>rs ps. calculateMinimalIpRange False ips = Value rs \<and> range_list rs ps \<and>
    (\<forall>x. addr x \<and> addr_str x \<in> set ips \<longrightarrow> (\<exists>p \<in> set ps. covers p x))"
  using calculateMinimalIpRange_covers [of ips] assms address_text_clean range_text_addr covers_self
  by metis

lemma minimal_of_ranges:
  assumes "range_list rs ps"
  shows "\<exists>ts qs. calculateMinimalIpRange False rs = Value ts \<and> range_list ts qs \<and>
    (\<forall>x. (\<exists>p \<in> set ps. covers p x) \<longrightarrow> (\<exists>q \<in> set qs. covers q x))"
proof -
  have r: "range_text (prefix_str p) p" if "p \<in> set ps" for p
    using assms that by (intro range_text_print) (auto simp: range_list_def)
  then have "\<forall>ip \<in> set rs. clean_text ip"
    using assms by (auto simp: range_list_def clean_text_def)
  from calculateMinimalIpRange_covers [OF this] obtain ts qs where
    t: "calculateMinimalIpRange False rs = Value ts" "range_list ts qs"
      "\<forall>ip \<in> set rs. \<forall>q x. range_text ip q \<and> covers q x \<longrightarrow> (\<exists>p \<in> set qs. covers p x)"
    by blast
  have "\<exists>q \<in> set qs. covers q x" if "p \<in> set ps" "covers p x" for p x
    using t(3) r [OF that(1)] that assms unfolding range_list_def by auto
  with t(1,2) show ?thesis by blast
qed

lemma range_list_append: "range_list rs ps \<Longrightarrow> range_list ts qs \<Longrightarrow> range_list (rs @ ts) (ps @ qs)"
  by (auto simp: range_list_def)

lemma mergeIpRange_routes:
  assumes "range_list svc ps" "range_list pod qs" "addr y"
  shows "\<exists>rs. mergeIpRange False svc pod (addr_str y) = Value rs \<and> \<not> routed rs y \<and>
    (\<forall>x. addr x \<and> x \<noteq> y \<and> (\<exists>p \<in> set (ps @ qs). covers p x) \<longrightarrow> routed rs x)"
proof -
  obtain ts us where t: "calculateMinimalIpRange False (svc @ pod) = Value ts" "range_list ts us"
    "\<And>x. \<exists>p \<in> set (ps @ qs). covers p x \<Longrightarrow> \<exists>q \<in> set us. covers q x"
    using minimal_of_ranges [OF range_list_append [OF assms(1,2)]] by blast
  obtain ms where m: "merge_loop (addr_str y) ts = Value ms"
    using routed_merged [OF t(2) assms(3,3)] by blast
  have "routed ms x \<longleftrightarrow> x \<noteq> y \<and> (\<exists>p \<in> set us. covers p x)" if "addr x" for x
    using routed_merged [OF t(2) assms(3) that] m by auto
  with t(3) m t(1) assms(3) show ?thesis
    by (auto simp: mergeIpRange_def)
qed

text \<open>The address lists that \<open>ClusterCidr\<close> works on.\<close>

definition cluster_ips ::
  "(string \<Rightarrow> string list option) \<Rightarrow> (string \<Rightarrow> string list option) \<Rightarrow> cidr_options \<Rightarrow> string \<Rightarrow> string list" where
  "cluster_ips list_svc list_pod opts namespace =
     getResourceIps list_svc namespace @
     (if DisablePodIp opts then [] else getResourceIps list_pod namespace)"

lemma addr_str_not_Nil [simp]: "addr_str x \<noteq> []"
  by (simp add: addr_str_def)

lemma ClusterCidr_routes_aux:
  assumes ips: "\<forall>ip \<in> set (cluster_ips list_svc list_pod opts namespace). address_text ip"
    and o: "\<not> Ipv6Cluster opts" "IncludeIps opts = []" "ExcludeIps opts = []"
    and y: "addr y" "ExtractHostIp lookupIP (RestHost opts) = addr_str y"
  shows "\<exists>rs. ClusterCidr list_svc list_pod lookupIP opts namespace = Value (rs, []) \<and> \<not> routed rs y \<and>
    (\<forall>x. addr x \<and> x \<noteq> y \<and> addr_str x \<in> set (cluster_ips list_svc list_pod opts namespace)
       \<longrightarrow> routed rs x)"
proof -
  obtain svc ps where s: "calculateMinimalIpRange False (getResourceIps list_svc namespace) = Value svc"
    "range_list svc ps"
    "\<forall>x. addr x \<and> addr_str x \<in> set (getResourceIps list_svc namespace) \<longrightarrow> (\<exists>p \<in> set ps. covers p x)"
    using minimal_ranges [of "getResourceIps list_svc namespace"] ips by (auto simp: cluster_ips_def)
  have empty: "range_list [] []" by (simp add: range_list_def)
  let ?podips = "if DisablePodIp opts then [] else getResourceIps list_pod namespace"
  have "\<exists>pod qs. (if \<not> DisablePodIp opts
      then calculateMinimalIpRange False (getResourceIps list_pod namespace) else Value []) = Value pod \<and>
    range_list pod qs \<and> (\<forall>x. addr x \<and> addr_str x \<in> set ?podips \<longrightarrow> (\<exists>p \<in> set qs. covers p x))"
    using minimal_ranges [of "getResourceIps list_pod namespace"] ips empty
    by (cases "DisablePodIp opts") (auto simp: cluster_ips_def)
  then obtain pod qs where p: "(if \<not> DisablePodIp opts
      then calculateMinimalIpRange False (getResourceIps list_pod namespace) else Value []) = Value pod"
    "range_list pod qs"
    "\<forall>x. addr x \<and> addr_str x \<in> set ?podips \<longrightarrow> (\<exists>p \<in> set qs. covers p x)"
    by blast
  obtain rs where r: "mergeIpRange False svc pod (addr_str y) = Value rs" "\<not> routed rs y"
    "\<forall>x. addr x \<and> x \<noteq> y \<and> (\<exists>p \<in> set (ps @ qs). covers p x) \<longrightarrow> routed rs x"
    using mergeIpRange_routes [OF s(2) p(2) y(1)] by blast
  have "ClusterCidr list_svc list_pod lookupIP opts namespace = Value (rs, [])"
    using o y(2) s(1) p(1) r(1) by (cases "DisablePodIp opts") (simp_all add: ClusterCidr_def Let_def)
  moreover have "routed rs x"
    if x: "addr x" "x \<noteq> y" "addr_str x \<in> set (cluster_ips list_svc list_pod opts namespace)" for x
  proof -
    have "\<exists>p \<in> set (ps @ qs). covers p x"
      using s(3) p(3) x by (fastforce simp: cluster_ips_def)
    with r(3) x show ?thesis by blast
  qed
  ultimately show ?thesis using r(2) by blast
qed

section \<open>The properties\<close>

text \<open>An address by its four octets, for concrete inputs.\<close>

definition octet_bits :: "nat \<Rightarrow> int list" where
  "octet_bits n = map (\<lambda>k. int (n div 2 ^ k mod 2)) (rev [0..<8])"

definition ip4 :: "nat \<Rightarrow> nat \<Rightarrow> nat \<Rightarrow> nat \<Rightarrow> int list" where
  "ip4 a b c d = concat (map octet_bits [a, b, c, d])"


definition sample_svc :: "string \<Rightarrow> string list option" where
  "sample_svc namespace = (if namespace = [] then None else Some [''10.96.0.1'', ''None'', ''10.96.0.10''])"

definition sample_pod :: "string \<Rightarrow> string list option" where
  "sample_pod namespace = Some [''10.244.1.7'', [], ''fd00::2'', ''10.244.2.9'']"

definition sample_cidr_opts :: cidr_options where
  "sample_cidr_opts = \<lparr> DisablePodIp = False, IncludeIps = [], ExcludeIps = [],
     ConnectMode = ''tun2socks'', Ipv6Cluster = False, RestHost = ''https://10.96.0.1:6443'' \<rparr>"

lemma sample_ips: "cluster_ips sample_svc sample_pod sample_cidr_opts ''default'' =
    [addr_str (ip4 10 96 0 1), addr_str (ip4 10 96 0 10), addr_str (ip4 10 244 1 7), ''fd00::2'',
     addr_str (ip4 10 244 2 9)]"
  by code_simp

lemma sample_addrs: "addr (ip4 10 96 0 1)" "addr (ip4 10 96 0 10)" "addr (ip4 10 244 1 7)"
    "addr (ip4 10 244 2 9)" "addr (ip4 10 244 0 1)"
  by code_simp+


text \<open>
  \<open>excludeIpFromRange\<close> of an address in a range (of one network bit at least): an address lies in
  one of the resulting ranges exactly when it lies in the range and is not the excluded address, and
  no address lies in two of them.
\<close>
theorem exclude_ip_exact:
  assumes "net p" and "0 < length p" and "addr y" and "covers p y"
  shows "\<exists>qs. excludeIpFromRange (prefix_str p) (addr_str y @ ''/32'') = Value (map prefix_str qs) \<and>
    length qs = 32 - length p \<and>
    (\<forall>x. addr x \<longrightarrow> (routed (map prefix_str qs) x \<longleftrightarrow> covers p x \<and> x \<noteq> y)) \<and>
    (\<forall>x i j. addr x \<and> i < length qs \<and> j < length qs \<and> covers (qs ! i) x \<and> covers (qs ! j) x \<longrightarrow> i = j)"
proof (intro exI conjI allI impI)
  let ?qs = "map (sibling y) [length p..<32]"
  show "excludeIpFromRange (prefix_str p) (addr_str y @ ''/32'') = Value (map prefix_str ?qs)"
    using excludeIpFromRange_siblings [OF assms(1,3,4,2)] by (simp add: o_def)
  show "length ?qs = 32 - length p" by simp
  have nets: "\<forall>q \<in> set ?qs. net q" using net_sibling [OF assms(3)] by auto
  have le: "length p \<le> 32" using assms(1) by (simp add: net_def)
  show "routed (map prefix_str ?qs) x \<longleftrightarrow> covers p x \<and> x \<noteq> y" if "addr x" for x
    using siblings_partition [OF that assms(3,4) le] routed_nets [OF nets that] by simp
  show "i = j" if "addr x \<and> i < length ?qs \<and> j < length ?qs \<and> covers (?qs ! i) x \<and> covers (?qs ! j) x"
    for x i j
  proof -
    have "i < 32 - length p" "j < 32 - length p" using that by simp_all
    then have "?qs ! i = sibling y (length p + i)" "?qs ! j = sibling y (length p + j)"
      "length p + i < 32" "length p + j < 32" by simp_all
    then show ?thesis
      using that siblings_disjoint [OF _ assms(3), of x "length p + i" "length p + j"] by simp
  qed
qed

lemma exclude_ip_exact_witness:
  "\<exists>qs. excludeIpFromRange (prefix_str (take 16 (ip4 10 244 0 1))) (addr_str (ip4 10 244 1 7) @ ''/32'')
      = Value (map prefix_str qs) \<and> length qs = 16 \<and> \<not> routed (map prefix_str qs) (ip4 10 244 1 7) \<and>
      routed (map prefix_str qs) (ip4 10 244 0 1)"
proof -
  have p: "net (take 16 (ip4 10 244 0 1))" "0 < length (take 16 (ip4 10 244 0 1))"
    "covers (take 16 (ip4 10 244 0 1)) (ip4 10 244 1 7)" by code_simp+
  have l: "length (take 16 (ip4 10 244 0 1)) = 16" "covers (take 16 (ip4 10 244 0 1)) (ip4 10 244 0 1)"
    "ip4 10 244 0 1 \<noteq> ip4 10 244 1 7" by code_simp+
  from exclude_ip_exact [OF p(1,2) sample_addrs(3) p(3)] show ?thesis
    using l sample_addrs(3,5) by auto
qed

text \<open>
  C27. \<open>calculateMinimalIpRange\<close> on any list of IPv4 addresses (entries of IPv6 are skipped): the
  result is a list of aligned ranges of 16, 24 or 32 network bits, and every address of the list
  lies in one of them.
\<close>
theorem minimal_range_covers:
  assumes "\<forall>ip \<in> set ips. address_text ip"
  shows "\<exists>ps. calculateMinimalIpRange False ips = Value (map prefix_str ps) \<and>
    (\<forall>p \<in> set ps. net p \<and> length p \<in> {16, 24, 32}) \<and>
    (\<forall>x. addr x \<and> addr_str x \<in> set ips \<longrightarrow> routed (map prefix_str ps) x)"
proof -
  obtain rs ps where "calculateMinimalIpRange False ips = Value rs" and r: "range_list rs ps"
    and c: "\<forall>x. addr x \<and> addr_str x \<in> set ips \<longrightarrow> (\<exists>p \<in> set ps. covers p x)"
    using minimal_ranges [OF assms] by blast
  moreover have "\<forall>p \<in> set ps. net p" using r by (auto simp: range_list_def)
  ultimately show ?thesis using routed_nets unfolding range_list_def by blast
qed

lemma minimal_range_covers_witness:
  "calculateMinimalIpRange False [''10.244.1.7'', ''10.96.0.10'', ''10.244.2.9''] =
     Value [''10.244.0.0/16'', ''10.96.0.10/32''] \<and>
   routed [''10.244.0.0/16'', ''10.96.0.10/32''] (ip4 10 244 2 9)"
proof -
  let ?ips = "[addr_str (ip4 10 244 1 7), addr_str (ip4 10 96 0 10), addr_str (ip4 10 244 2 9)]"
  have e: "?ips = [''10.244.1.7'', ''10.96.0.10'', ''10.244.2.9'']" by code_simp
  have v: "calculateMinimalIpRange False ?ips = Value [''10.244.0.0/16'', ''10.96.0.10/32'']" by code_simp
  have "\<forall>ip \<in> set ?ips. address_text ip" using sample_addrs by (auto simp: address_text_def)
  from minimal_range_covers [OF this] v e sample_addrs(4) show ?thesis by auto
qed

text \<open>
  C28. \<open>isPartOfRange\<close> on the text of two IPv4 ranges is containment: every address of the second
  range lies in the first.
\<close>
theorem part_of_range_is_containment:
  assumes "net p" and "net q"
  shows "isPartOfRange (prefix_str p) (prefix_str q) =
    Value (length p \<le> length q \<and> (\<forall>x. addr x \<and> covers q x \<longrightarrow> covers p x))"
proof -
  have "take (length p) q = p \<longleftrightarrow> (\<forall>x. addr x \<and> covers q x \<longrightarrow> covers p x)" if "length p \<le> length q"
  proof
    assume "take (length p) q = p"
    with that show "\<forall>x. addr x \<and> covers q x \<longrightarrow> covers p x"
      using covers_trans [of p q] by (auto simp: covers_def)
  next
    assume "\<forall>x. addr x \<and> covers q x \<longrightarrow> covers p x"
    moreover have "addr (pad q)" "covers q (pad q)"
      using addr_pad [OF assms(2)] by (simp_all add: covers_def pad_def)
    ultimately have "take (length p) (pad q) = p" by (auto simp: covers_def)
    with that show "take (length p) q = p" by (simp add: pad_def)
  qed
  then show ?thesis using isPartOfRange_nets [OF assms] by auto
qed

lemma part_of_range_is_containment_witness:
  "isPartOfRange (prefix_str (take 16 (ip4 10 96 0 1))) (prefix_str (take 24 (ip4 10 96 0 1))) = Value True \<and>
   isPartOfRange ''10.96.0.0/24'' ''10.96.0.0/16'' = Value False"
proof -
  have n: "net (take 16 (ip4 10 96 0 1))" "net (take 24 (ip4 10 96 0 1))" by code_simp+
  have l: "length (take 16 (ip4 10 96 0 1)) = 16" "length (take 24 (ip4 10 96 0 1)) = 24"
    "covers (take 16 (ip4 10 96 0 1)) (take 24 (ip4 10 96 0 1))" by code_simp+
  have "\<forall>x. addr x \<and> covers (take 24 (ip4 10 96 0 1)) x \<longrightarrow> covers (take 16 (ip4 10 96 0 1)) x"
    using covers_trans [OF l(3)] l(1,2) by simp
  moreover have "isPartOfRange ''10.96.0.0/24'' ''10.96.0.0/16'' = Value False" by code_simp
  ultimately show ?thesis using part_of_range_is_containment [OF n] l(1,2) by simp
qed

text \<open>
  C29. Printing and parsing of ranges are inverse: the text that \<open>binToIpRange\<close> (without alignment) makes
  of an array that stands for a network is read back by \<open>ipRangeToBin\<close> as the array with the same
  network bits, and different networks have different texts.
\<close>
theorem range_print_parse:
  assumes "marked p z" and "marked q w"
  shows "(\<exists>z'. ipRangeToBin (binToIpRange z False) = Value z' \<and> marked p z') \<and>
    (binToIpRange z False = binToIpRange w False \<longleftrightarrow> p = q)"
proof -
  have n: "net p" "net q" using assms by (simp_all add: marked_def)
  then show ?thesis
    using assms by (simp add: binToIpRange_print ipRangeToBin_print marked_norm prefix_str_inject)
qed

lemma range_print_parse_witness:
  "\<exists>z'. ipRangeToBin (binToIpRange ((ip4 10 96 0 1)[20 := -1]) False) = Value z' \<and>
     marked (take 20 (ip4 10 96 0 1)) z'"
proof -
  have e: "(ip4 10 96 0 1)[20 := -1] = take 20 (ip4 10 96 0 1) @ (-1) # drop 21 (ip4 10 96 0 1)"
    and l: "length (take 20 (ip4 10 96 0 1)) = 20" "length ((ip4 10 96 0 1)[20 := -1]) = 32"
    "net (take 20 (ip4 10 96 0 1))"
    by code_simp+
  have "marked (take 20 (ip4 10 96 0 1)) ((ip4 10 96 0 1)[20 := -1])"
    unfolding marked_def using l e by auto
  from range_print_parse [OF this this] show ?thesis by blast
qed

end
