(* ===== verification/KubeApi.thy ===== *)
theory KubeApi
  imports GoUtil
begin

text \<open>
  The interface between the program and the things it drives.  The objects of the Kubernetes API
  are records with the fields the program reads or writes; the API server, the clock, remote
  execution and the local files are a record of functions over an abstract world \<open>'w\<close>, an argument
  of every operation.  The program's own state is the run-time store of
  \<open>pkg/kt/command/options/store.go\<close> and the heartbeats it has started.  \<open>api_server\<close> states what
  the documentation of the API promises: the calls act on a collection of objects with unique
  names, and an update fails unless it carries the current resource version.
\<close>

section \<open>Objects\<close>

record object_meta =
  Name :: string
  Namespace :: string
  Labels :: smap
  Annotations :: smap
  DeletionTimestamp :: "int option"
  ResourceVersion :: nat

record container_port =
  PortName :: string
  ContainerPort :: int

record volume_mount =
  MountName :: string
  MountPath :: string

datatype volume_source = ConfigMapSource string "(string \<times> string) list" | EmptyDirSource

record volume =
  VolumeName :: string
  VolumeSource :: volume_source

record container =
  ContainerName :: string
  Image :: string
  ImagePullPolicy :: string
  Command :: "string list"
  Args :: "string list"
  Env :: "(string \<times> string) list"
  Capabilities :: "string list"
  Ports :: "container_port list"
  VolumeMounts :: "volume_mount list"
  Limits :: smap
  Requests :: smap

record pod_spec =
  ServiceAccountName :: string
  Containers :: "container list"
  InitContainers :: "container list"
  EphemeralContainers :: "container list"
  Volumes :: "volume list"
  ImagePullSecrets :: "string list"
  NodeSelector :: smap

record pod = object_meta +
  PodSpec :: pod_spec
  Phase :: string
  PodIP :: string

record deployment = object_meta +
  Replicas :: int
  ReadyReplicas :: int
  MatchLabels :: smap
  TemplateLabels :: smap
  TemplateAnnotations :: smap
  TemplateSpec :: pod_spec

datatype int_or_string = IntPort int | StrPort string

record service_port =
  SvcPortName :: string
  Port :: int
  TargetPort :: int_or_string

record service = object_meta +
  Selector :: smap
  SvcPorts :: "service_port list"
  SvcType :: string
  ClusterIP :: string

record config_map = object_meta +
  Data :: smap

section \<open>The world\<close>

text \<open>The calls for one kind of object.  The first argument is the namespace; an empty label map selects all.\<close>

record ('w, 'o) crud =
  api_get :: "string \<Rightarrow> string \<Rightarrow> ('w, 'o outcome) state"
  api_list :: "string \<Rightarrow> smap \<Rightarrow> ('w, 'o list outcome) state"
  api_create :: "string \<Rightarrow> 'o \<Rightarrow> ('w, 'o outcome) state"
  api_update :: "string \<Rightarrow> 'o \<Rightarrow> ('w, 'o outcome) state"
  api_delete :: "string \<Rightarrow> string \<Rightarrow> ('w, unit outcome) state"
  api_patch :: "string \<Rightarrow> string \<Rightarrow> string \<Rightarrow> ('w, unit outcome) state"

record ssh_generator =
  PublicKey :: string
  PrivateKey :: string
  PrivateKeyPath :: string

record envoy_filter = object_meta +
  WorkloadSelector :: smap
  LuaLane :: string

text \<open>
  The record of everything outside the program: the API calls for each kind (the dynamic client of
  the envoy filters may be missing), remote execution, the clock, waiting, local files and keys,
  the name of the local user, and whether \<open>resource.MustParse\<close> accepts a quantity.
\<close>

record 'w kube =
  PodsApi :: "('w, pod) crud"
  DeploymentsApi :: "('w, deployment) crud"
  ServicesApi :: "('w, service) crud"
  ConfigMapsApi :: "('w, config_map) crud"
  ExecApi :: "string \<Rightarrow> string \<Rightarrow> string \<Rightarrow> string list \<Rightarrow> ('w, string \<times> string \<times> go_error option) state"
  GetTime :: "('w, int) state"
  Sleep :: "int \<Rightarrow> ('w, unit) state"
  RemoveFile :: "string \<Rightarrow> ('w, unit outcome) state"
  GenerateKey :: "string \<Rightarrow> ('w, ssh_generator outcome) state"
  WritePrivateKey :: "string \<Rightarrow> string \<Rightarrow> ('w, unit outcome) state"
  EnvoyFiltersApi :: "('w, envoy_filter) crud outcome"
  LocalUserName :: string
  KeyDir :: string
  QuantityOk :: "string \<Rightarrow> bool"

section \<open>The program's own state\<close>

text \<open>\<open>opt.Store\<close>; the clientset is the record above.\<close>

record runtime_store =
  Store_Component :: string
  Store_Shadow :: string
  Store_Router :: string
  Store_Mesh :: string
  Store_Origin :: string
  Store_Replicas :: int
  Store_Service :: string
  Store_Lane :: string
  Store_Session :: string
  Store_LaneEnvoyFilter :: string

text \<open>The command line options that the modelled operations read.\<close>

record kt_options =
  Global_Namespace :: string
  Global_Image :: string
  Global_ServiceAccount :: string
  Global_ImagePullSecret :: string
  Global_NodeSelector :: string
  Global_WithLabel :: string
  Global_WithAnnotation :: string
  Global_PodCreationTimeout :: int
  Global_UseShadowDeployment :: bool
  Global_ForceUpdate :: bool
  Global_PodQuota :: string
  Connect_Mode :: string
  Connect_DnsMode :: string
  Connect_ShareShadow :: bool
  Connect_DisableTunDevice :: bool
  Connect_Lane :: string
  Exchange_Mode :: string
  Exchange_RecoverWaitTime :: int
  Mesh_VersionMark :: string
  Mesh_RouterImage :: string

text \<open>
  The heartbeats started by \<open>SetupHeartBeat\<close> (the kind of the updater, name and namespace) and the
  status of the last heartbeat of each object, \<open>LastHeartBeatStatus\<close>.
\<close>

record 'w prog =
  Store :: runtime_store
  Heartbeats :: "(string \<times> string \<times> string) list"
  LastHeartBeatStatus :: "bool gomap"
  World :: 'w

definition lift_io :: "('w, 'a) state \<Rightarrow> ('w prog, 'a) state" where
  "lift_io m = State (\<lambda>p. case run_state m (World p) of (a, w) \<Rightarrow> (a, p\<lparr>World := w\<rparr>))"

definition get_store :: "('w prog, runtime_store) state" where
  "get_store = State (\<lambda>p. (Store p, p))"

definition set_store :: "(runtime_store \<Rightarrow> runtime_store) \<Rightarrow> ('w prog, unit) state" where
  "set_store f = State (\<lambda>p. ((), p\<lparr>Store := f (Store p)\<rparr>))"

definition SetupHeartBeat :: "string \<Rightarrow> string \<Rightarrow> string \<Rightarrow> ('w prog, unit) state" where
  "SetupHeartBeat kind name namespace =
     State (\<lambda>p. ((), p\<lparr>Heartbeats := Heartbeats p @ [(kind, name, namespace)]\<rparr>))"

text \<open>
  \<open>x, err := f(); if err != nil { return err }\<close>, and the form where the code handles the error
  itself.  A panic ends the computation in both.
\<close>

definition go_try :: "('s, 'a outcome) state \<Rightarrow> ('a \<Rightarrow> ('s, 'b outcome) state) \<Rightarrow> ('s, 'b outcome) state" where
  "go_try m f = State_Monad.bind m (\<lambda>r. case r of
     Value x \<Rightarrow> f x | Fail e \<Rightarrow> State_Monad.return (Fail e) | Panic \<Rightarrow> State_Monad.return Panic)"

definition go_catch :: "('s, 'a outcome) state \<Rightarrow> ('a \<Rightarrow> ('s, 'b outcome) state) \<Rightarrow>
    (go_error \<Rightarrow> ('s, 'b outcome) state) \<Rightarrow> ('s, 'b outcome) state" where
  "go_catch m f h = State_Monad.bind m (\<lambda>r. case r of
     Value x \<Rightarrow> f x | Fail e \<Rightarrow> h e | Panic \<Rightarrow> State_Monad.return Panic)"

text \<open>A loop over a list that runs a step for each element and ignores its error (a panic ends it).\<close>

fun go_each :: "('a \<Rightarrow> ('s, unit outcome) state) \<Rightarrow> 'a list \<Rightarrow> ('s, unit outcome) state" where
  "go_each f [] = State_Monad.return (Value ())"
| "go_each f (x # xs) = go_catch (f x) (\<lambda>_. go_each f xs) (\<lambda>_. go_each f xs)"

lemma run_bind [simp]:
  "run_state (State_Monad.bind m f) s = (case run_state m s of (a, s') \<Rightarrow> run_state (f a) s')"
  by (simp add: State_Monad.bind_def split_def)

lemma run_return [simp]: "run_state (State_Monad.return a) s = (a, s)"
  by (simp add: State_Monad.return_def)

lemma run_lift_io [simp]:
  "run_state (lift_io m) p = (case run_state m (World p) of (a, w) \<Rightarrow> (a, p\<lparr>World := w\<rparr>))"
  by (simp add: lift_io_def)

lemma run_get_store [simp]: "run_state get_store p = (Store p, p)"
  by (simp add: get_store_def)

lemma run_set_store [simp]: "run_state (set_store f) p = ((), p\<lparr>Store := f (Store p)\<rparr>)"
  by (simp add: set_store_def)

lemma run_SetupHeartBeat [simp]:
  "run_state (SetupHeartBeat k n ns) p = ((), p\<lparr>Heartbeats := Heartbeats p @ [(k, n, ns)]\<rparr>)"
  by (simp add: SetupHeartBeat_def)

lemma run_go_try [simp]:
  "run_state (go_try m f) s = (case run_state m s of
     (Value x, s') \<Rightarrow> run_state (f x) s' | (Fail e, s') \<Rightarrow> (Fail e, s') | (Panic, s') \<Rightarrow> (Panic, s'))"
  by (cases "run_state m s"; cases "fst (run_state m s)") (auto simp: go_try_def)

lemma run_go_catch [simp]:
  "run_state (go_catch m f h) s = (case run_state m s of
     (Value x, s') \<Rightarrow> run_state (f x) s' | (Fail e, s') \<Rightarrow> run_state (h e) s' | (Panic, s') \<Rightarrow> (Panic, s'))"
  by (cases "run_state m s"; cases "fst (run_state m s)") (auto simp: go_catch_def)

text \<open>\<open>defer\<close>: the second computation runs after the first, whose result is kept.\<close>

definition go_defer :: "('s, 'a) state \<Rightarrow> ('s, 'b) state \<Rightarrow> ('s, 'a) state" where
  "go_defer body cleanup = do { r \<leftarrow> body; _ \<leftarrow> cleanup; State_Monad.return r }"

lemma run_go_defer [simp]:
  "run_state (go_defer m c) s = (case run_state m s of (r, t) \<Rightarrow> (r, snd (run_state c t)))"
  by (simp add: go_defer_def split_def)

section \<open>What the API server promises\<close>

definition is_obj :: "string \<Rightarrow> string \<Rightarrow> 'm object_meta_scheme \<Rightarrow> bool" where
  "is_obj namespace name ob \<longleftrightarrow> Namespace ob = namespace \<and> Name ob = name"

definition find_obj :: "'m object_meta_scheme list \<Rightarrow> string \<Rightarrow> string \<Rightarrow> 'm object_meta_scheme option" where
  "find_obj obs namespace name = find (is_obj namespace name) obs"

definition bump :: "'m object_meta_scheme \<Rightarrow> 'm object_meta_scheme" where
  "bump ob = ob\<lparr>ResourceVersion := Suc (ResourceVersion ob)\<rparr>"

definition put_obj :: "'m object_meta_scheme list \<Rightarrow> 'm object_meta_scheme \<Rightarrow> 'm object_meta_scheme list" where
  "put_obj obs ob = map (\<lambda>x. if is_obj (Namespace ob) (Name ob) x then ob else x) obs"

definition label_match :: "smap \<Rightarrow> 'm object_meta_scheme \<Rightarrow> bool" where
  "label_match sel ob \<longleftrightarrow> list_all (\<lambda>(k, v). mlookup (Labels ob) k = Some v) (entries sel)"

definition get_spec :: "'m object_meta_scheme list \<Rightarrow> string \<Rightarrow> string \<Rightarrow> 'm object_meta_scheme outcome" where
  "get_spec obs namespace name =
     (case find_obj obs namespace name of None \<Rightarrow> Fail NotFound | Some ob \<Rightarrow> Value ob)"

definition list_spec :: "'m object_meta_scheme list \<Rightarrow> string \<Rightarrow> smap \<Rightarrow> 'm object_meta_scheme list outcome" where
  "list_spec obs namespace sel =
     Value (filter (\<lambda>ob. (namespace = [] \<or> Namespace ob = namespace) \<and> label_match sel ob) obs)"

definition create_spec :: "'m object_meta_scheme list \<Rightarrow> string \<Rightarrow> 'm object_meta_scheme \<Rightarrow>
    'm object_meta_scheme outcome \<times> 'm object_meta_scheme list" where
  "create_spec obs namespace ob =
     (case find_obj obs namespace (Name ob) of
        Some _ \<Rightarrow> (Fail AlreadyExists, obs)
      | None \<Rightarrow> (Value (ob\<lparr>Namespace := namespace, ResourceVersion := 1\<rparr>),
                 obs @ [ob\<lparr>Namespace := namespace, ResourceVersion := 1\<rparr>]))"

definition update_spec :: "'m object_meta_scheme list \<Rightarrow> string \<Rightarrow> 'm object_meta_scheme \<Rightarrow>
    'm object_meta_scheme outcome \<times> 'm object_meta_scheme list" where
  "update_spec obs namespace ob =
     (case find_obj obs namespace (Name ob) of
        None \<Rightarrow> (Fail NotFound, obs)
      | Some cur \<Rightarrow>
          (if ResourceVersion cur = ResourceVersion ob
           then (Value (bump ob), put_obj obs (bump ob)) else (Fail Conflict, obs)))"

definition delete_spec :: "'m object_meta_scheme list \<Rightarrow> string \<Rightarrow> string \<Rightarrow>
    unit outcome \<times> 'm object_meta_scheme list" where
  "delete_spec obs namespace name =
     (case find_obj obs namespace name of
        None \<Rightarrow> (Fail NotFound, obs)
      | Some _ \<Rightarrow> (Value (), filter (\<lambda>x. \<not> is_obj namespace name x) obs))"

text \<open>The objects of the cluster, as the calls see them.\<close>

record cluster_objects =
  ClPods :: "pod list"
  ClDeployments :: "deployment list"
  ClServices :: "service list"
  ClConfigMaps :: "config_map list"

text \<open>
  The calls of one kind work on the objects that \<open>sel\<close> selects from the view of the world, in the
  way of the specifications above, and \<open>upd\<close> is the change of the view.
\<close>

definition crud_ok ::
  "('w, 'm object_meta_scheme) crud \<Rightarrow> ('w \<Rightarrow> cluster_objects) \<Rightarrow> (cluster_objects \<Rightarrow> 'm object_meta_scheme list)
   \<Rightarrow> ('m object_meta_scheme list \<Rightarrow> cluster_objects \<Rightarrow> cluster_objects) \<Rightarrow> bool" where
  "crud_ok c view sel upd \<longleftrightarrow>
     (\<forall>w ns n. run_state (api_get c ns n) w = (get_spec (sel (view w)) ns n, w)) \<and>
     (\<forall>w ns l. run_state (api_list c ns l) w = (list_spec (sel (view w)) ns l, w)) \<and>
     (\<forall>w ns ob. case run_state (api_create c ns ob) w of (r, w') \<Rightarrow>
        (r, view w') = map_prod id (\<lambda>obs. upd obs (view w)) (create_spec (sel (view w)) ns ob)) \<and>
     (\<forall>w ns ob. case run_state (api_update c ns ob) w of (r, w') \<Rightarrow>
        (r, view w') = map_prod id (\<lambda>obs. upd obs (view w)) (update_spec (sel (view w)) ns ob)) \<and>
     (\<forall>w ns n. case run_state (api_delete c ns n) w of (r, w') \<Rightarrow>
        (r, view w') = map_prod id (\<lambda>obs. upd obs (view w)) (delete_spec (sel (view w)) ns n))"

definition set_pods :: "pod list \<Rightarrow> cluster_objects \<Rightarrow> cluster_objects" where
  "set_pods x c = c\<lparr>ClPods := x\<rparr>"
definition set_deployments :: "deployment list \<Rightarrow> cluster_objects \<Rightarrow> cluster_objects" where
  "set_deployments x c = c\<lparr>ClDeployments := x\<rparr>"
definition set_services :: "service list \<Rightarrow> cluster_objects \<Rightarrow> cluster_objects" where
  "set_services x c = c\<lparr>ClServices := x\<rparr>"
definition set_config_maps :: "config_map list \<Rightarrow> cluster_objects \<Rightarrow> cluster_objects" where
  "set_config_maps x c = c\<lparr>ClConfigMaps := x\<rparr>"

lemmas set_kinds = set_pods_def set_deployments_def set_services_def set_config_maps_def

text \<open>
  Reading the clock, commands in a pod and the local files leave the cluster alone.  While the program
  waits, the cluster goes on: pods start (or stop), get an address, and deployments become ready.
\<close>

definition same_but_status :: "pod \<Rightarrow> pod \<Rightarrow> bool" where
  "same_but_status p q \<longleftrightarrow> p\<lparr>ResourceVersion := 0, Phase := [], PodIP := []\<rparr> = q\<lparr>ResourceVersion := 0, Phase := [], PodIP := []\<rparr>"

definition same_but_ready :: "deployment \<Rightarrow> deployment \<Rightarrow> bool" where
  "same_but_ready d e \<longleftrightarrow> d\<lparr>ResourceVersion := 0, ReadyReplicas := 0\<rparr> = e\<lparr>ResourceVersion := 0, ReadyReplicas := 0\<rparr>"

definition cluster_runs :: "cluster_objects \<Rightarrow> cluster_objects \<Rightarrow> bool" where
  "cluster_runs c d \<longleftrightarrow> ClServices d = ClServices c \<and> ClConfigMaps d = ClConfigMaps c \<and>
     list_all2 same_but_status (ClPods c) (ClPods d) \<and> list_all2 same_but_ready (ClDeployments c) (ClDeployments d)"

definition api_server :: "'w kube \<Rightarrow> ('w \<Rightarrow> cluster_objects) \<Rightarrow> bool" where
  "api_server k view \<longleftrightarrow>
     crud_ok (PodsApi k) view ClPods set_pods \<and>
     crud_ok (DeploymentsApi k) view ClDeployments set_deployments \<and>
     crud_ok (ServicesApi k) view ClServices set_services \<and>
     crud_ok (ConfigMapsApi k) view ClConfigMaps set_config_maps \<and>
     (\<forall>w. \<exists>t. run_state (GetTime k) w = (t, w)) \<and>
     (\<forall>w n. cluster_runs (view w) (view (snd (run_state (Sleep k n) w)))) \<and>
     (\<forall>w f. fst (run_state (RemoveFile k f) w) \<noteq> Panic \<and> view (snd (run_state (RemoveFile k f) w)) = view w) \<and>
     (\<forall>w c p ns cmd. view (snd (run_state (ExecApi k c p ns cmd) w)) = view w)"

section \<open>Objects with unique names\<close>

definition unique_objs :: "'m object_meta_scheme list \<Rightarrow> bool" where
  "unique_objs obs \<longleftrightarrow> distinct (map (\<lambda>ob. (Namespace ob, Name ob)) obs)"

lemma find_obj_Some:
  "find_obj obs ns n = Some ob \<Longrightarrow> ob \<in> set obs \<and> Namespace ob = ns \<and> Name ob = n"
  by (auto simp: find_obj_def find_Some_iff is_obj_def)

lemma find_obj_None: "find_obj obs ns n = None \<longleftrightarrow> (\<forall>ob \<in> set obs. \<not> is_obj ns n ob)"
  by (auto simp: find_obj_def find_None_iff)

lemma find_obj_Cons [simp]:
  "find_obj (ob # obs) ns n = (if is_obj ns n ob then Some ob else find_obj obs ns n)"
  by (simp add: find_obj_def)

lemma find_obj_Nil [simp]: "find_obj [] ns n = None"
  by (simp add: find_obj_def)

lemma find_obj_append:
  "find_obj (xs @ ys) ns n = (case find_obj xs ns n of Some ob \<Rightarrow> Some ob | None \<Rightarrow> find_obj ys ns n)"
  by (induction xs) auto

lemma bump_simps [simp]:
  "Name (bump ob) = Name ob" "Namespace (bump ob) = Namespace ob" "Labels (bump ob) = Labels ob"
  "Annotations (bump ob) = Annotations ob" "object_meta.more (bump ob) = object_meta.more ob"
  "DeletionTimestamp (bump ob) = DeletionTimestamp ob" "ResourceVersion (bump ob) = Suc (ResourceVersion ob)"
  by (simp_all add: bump_def)

lemma find_put_obj:
  "find_obj (put_obj obs ob) ns n =
    (if is_obj ns n ob then (case find_obj obs ns n of None \<Rightarrow> None | Some _ \<Rightarrow> Some ob) else find_obj obs ns n)"
  by (induction obs) (auto simp: put_obj_def is_obj_def)

lemma put_obj_keys: "map (\<lambda>ob. (Namespace ob, Name ob)) (put_obj obs ob) = map (\<lambda>ob. (Namespace ob, Name ob)) obs"
  by (induction obs) (auto simp: put_obj_def is_obj_def)

lemma unique_put_obj [simp]: "unique_objs (put_obj obs ob) \<longleftrightarrow> unique_objs obs"
  by (simp add: unique_objs_def put_obj_keys)

lemma find_filter_obj:
  "find_obj (filter (\<lambda>x. \<not> is_obj ns n x) obs) ms m = (if ms = ns \<and> m = n then None else find_obj obs ms m)"
  by (induction obs) (auto simp: is_obj_def)

lemma unique_filter [simp]: "unique_objs obs \<Longrightarrow> unique_objs (filter P obs)"
  unfolding unique_objs_def by (induction obs) auto

lemma unique_create:
  "unique_objs obs \<Longrightarrow> unique_objs (snd (create_spec obs ns ob))"
  by (auto simp: create_spec_def unique_objs_def find_obj_None is_obj_def split: option.splits)

lemma unique_update: "unique_objs obs \<Longrightarrow> unique_objs (snd (update_spec obs ns ob))"
  by (auto simp: update_spec_def split: option.splits)

lemma unique_delete: "unique_objs obs \<Longrightarrow> unique_objs (snd (delete_spec obs ns n))"
  by (auto simp: delete_spec_def split: option.splits)

lemma find_unique: "unique_objs obs \<Longrightarrow> ob \<in> set obs \<Longrightarrow> find_obj obs (Namespace ob) (Name ob) = Some ob"
  by (induction obs) (auto simp: unique_objs_def is_obj_def)

section \<open>The rules of a call\<close>

lemma crud_okD:
  assumes "crud_ok c view sel upd"
  shows crud_get: "run_state (api_get c ns n) w = (get_spec (sel (view w)) ns n, w)"
    and crud_list: "run_state (api_list c ns l) w = (list_spec (sel (view w)) ns l, w)"
    and crud_create: "run_state (api_create c ns ob) w = (r, w') \<Longrightarrow>
      r = fst (create_spec (sel (view w)) ns ob) \<and> view w' = upd (snd (create_spec (sel (view w)) ns ob)) (view w)"
    and crud_update: "run_state (api_update c ns ob) w = (r, w') \<Longrightarrow>
      r = fst (update_spec (sel (view w)) ns ob) \<and> view w' = upd (snd (update_spec (sel (view w)) ns ob)) (view w)"
    and crud_delete: "run_state (api_delete c ns n) w = (u, w') \<Longrightarrow>
      u = fst (delete_spec (sel (view w)) ns n) \<and> view w' = upd (snd (delete_spec (sel (view w)) ns n)) (view w)"
  using assms unfolding crud_ok_def
  by (simp_all add: map_prod_def split_def) (metis fst_conv snd_conv)+

lemma api_serverD:
  assumes "api_server k view"
  shows api_pods: "crud_ok (PodsApi k) view ClPods set_pods"
    and api_deployments: "crud_ok (DeploymentsApi k) view ClDeployments set_deployments"
    and api_services: "crud_ok (ServicesApi k) view ClServices set_services"
    and api_config_maps: "crud_ok (ConfigMapsApi k) view ClConfigMaps set_config_maps"
    and api_time: "snd (run_state (GetTime k) w) = w"
    and api_sleep: "cluster_runs (view w) (view (snd (run_state (Sleep k n) w)))"
    and api_remove_file: "view (snd (run_state (RemoveFile k f) w)) = view w"
    and api_exec: "view (snd (run_state (ExecApi k c p ns cmd) w)) = view w"
    and api_remove_file_ok: "fst (run_state (RemoveFile k f) w) \<noteq> Panic"
proof -
  note a = assms [unfolded api_server_def]
  show "crud_ok (PodsApi k) view ClPods set_pods" "crud_ok (DeploymentsApi k) view ClDeployments set_deployments"
    "crud_ok (ServicesApi k) view ClServices set_services" "crud_ok (ConfigMapsApi k) view ClConfigMaps set_config_maps"
    "cluster_runs (view w) (view (snd (run_state (Sleep k n) w)))" "view (snd (run_state (RemoveFile k f) w)) = view w"
    "fst (run_state (RemoveFile k f) w) \<noteq> Panic" "view (snd (run_state (ExecApi k c p ns cmd) w)) = view w"
    using a by simp_all
  obtain t where "run_state (GetTime k) w = (t, w)" using a by blast
  then show "snd (run_state (GetTime k) w) = w" by simp
qed

lemma cluster_runs_refl [simp]: "cluster_runs c c"
  by (simp add: cluster_runs_def same_but_status_def same_but_ready_def list.rel_refl)

lemma same_but_status_simps:
  assumes "same_but_status p q"
  shows "Name q = Name p" "Namespace q = Namespace p" "Labels q = Labels p" "Annotations q = Annotations p"
    "DeletionTimestamp q = DeletionTimestamp p" "PodSpec q = PodSpec p"
  using assms by (cases p; cases q; simp add: same_but_status_def)+

lemma runs_find_pods:
  "list_all2 same_but_status ps qs \<Longrightarrow> rel_option same_but_status (find_obj ps ns n) (find_obj qs ns n)"
  by (induction rule: list_all2_induct) (auto simp: is_obj_def same_but_status_simps)

lemma cluster_runsD:
  assumes "cluster_runs c d"
  shows runs_services: "ClServices d = ClServices c"
    and runs_pod: "rel_option same_but_status (find_obj (ClPods c) ns n) (find_obj (ClPods d) ns n)"
    and runs_no_pod: "find_obj (ClPods d) ns n = None \<longleftrightarrow> find_obj (ClPods c) ns n = None"
proof -
  show "ClServices d = ClServices c" using assms by (simp add: cluster_runs_def)
  show *: "rel_option same_but_status (find_obj (ClPods c) ns n) (find_obj (ClPods d) ns n)"
    using assms by (intro runs_find_pods) (simp add: cluster_runs_def)
  show "find_obj (ClPods d) ns n = None \<longleftrightarrow> find_obj (ClPods c) ns n = None"
    using * by (auto elim: option.rel_cases)
qed

section \<open>A server in memory\<close>

text \<open>
  The specifications themselves as a server whose world is the collection of objects: it keeps the
  promises, and the concrete inputs of the properties run on it.
\<close>

definition mem_crud :: "(cluster_objects \<Rightarrow> 'm object_meta_scheme list) \<Rightarrow>
    ('m object_meta_scheme list \<Rightarrow> cluster_objects \<Rightarrow> cluster_objects) \<Rightarrow>
    (cluster_objects, 'm object_meta_scheme) crud" where
  "mem_crud sel upd = \<lparr>
     api_get = (\<lambda>ns n. State (\<lambda>w. (get_spec (sel w) ns n, w))),
     api_list = (\<lambda>ns l. State (\<lambda>w. (list_spec (sel w) ns l, w))),
     api_create = (\<lambda>ns ob. State (\<lambda>w. map_prod id (\<lambda>obs. upd obs w) (create_spec (sel w) ns ob))),
     api_update = (\<lambda>ns ob. State (\<lambda>w. map_prod id (\<lambda>obs. upd obs w) (update_spec (sel w) ns ob))),
     api_delete = (\<lambda>ns n. State (\<lambda>w. map_prod id (\<lambda>obs. upd obs w) (delete_spec (sel w) ns n))),
     api_patch = (\<lambda>ns n body. State (\<lambda>w. (Value (), w))) \<rparr>"

definition mem_kube :: "int \<Rightarrow> cluster_objects kube" where
  "mem_kube t = \<lparr>
     PodsApi = mem_crud ClPods set_pods,
     DeploymentsApi = mem_crud ClDeployments set_deployments,
     ServicesApi = mem_crud ClServices set_services,
     ConfigMapsApi = mem_crud ClConfigMaps set_config_maps,
     ExecApi = (\<lambda>c p ns cmd. State_Monad.return ([], [], None)),
     GetTime = State_Monad.return t,
     Sleep = (\<lambda>n. State_Monad.return ()),
     RemoveFile = (\<lambda>f. State_Monad.return (Value ())),
     GenerateKey = (\<lambda>p. State_Monad.return (Value \<lparr>PublicKey = ''pub'', PrivateKey = ''priv'', PrivateKeyPath = p\<rparr>)),
     WritePrivateKey = (\<lambda>p s. State_Monad.return (Value ())),
     EnvoyFiltersApi = Fail (Errorf ''rest config not initialized''),
     LocalUserName = ''dev'', KeyDir = ''/home/dev/.kt/key'', QuantityOk = (\<lambda>q. True) \<rparr>"

lemma mem_crud_ok: "crud_ok (mem_crud sel upd) (\<lambda>w. w) sel upd"
  by (simp add: crud_ok_def mem_crud_def split_def)

lemma mem_kube_ok: "api_server (mem_kube t) (\<lambda>w. w)"
  by (simp add: api_server_def mem_kube_def mem_crud_ok)

text \<open>The same server in a cluster where pods run as soon as somebody waits for them.\<close>

definition live_kube :: "int \<Rightarrow> cluster_objects kube" where
  "live_kube t = (mem_kube t)\<lparr>Sleep := (\<lambda>n. State (\<lambda>w.
     ((), w\<lparr>ClPods := map (\<lambda>p. p\<lparr>Phase := ''Running'', PodIP := ''10.1.0.9''\<rparr>) (ClPods w)\<rparr>)))\<rparr>"

lemma live_kube_ok: "api_server (live_kube t) (\<lambda>w. w)"
proof -
  have "cluster_runs w (w\<lparr>ClPods := map (\<lambda>p. p\<lparr>Phase := ''Running'', PodIP := ''10.1.0.9''\<rparr>) (ClPods w)\<rparr>)" for w
    by (simp add: cluster_runs_def list_all2_map2 same_but_status_def same_but_ready_def list.rel_refl)
  with mem_kube_ok [of t] show ?thesis by (simp add: api_server_def live_kube_def)
qed

section \<open>Sample objects\<close>

definition mem_pod_spec :: pod_spec where
  "mem_pod_spec = \<lparr> ServiceAccountName = ''default'', Containers = [], InitContainers = [],
     EphemeralContainers = [], Volumes = [], ImagePullSecrets = [], NodeSelector = NilMap \<rparr>"

definition mem_pod :: "string \<Rightarrow> smap \<Rightarrow> smap \<Rightarrow> pod" where
  "mem_pod n labels annotations = \<lparr> Name = n, Namespace = ''default'', Labels = labels,
     Annotations = annotations, DeletionTimestamp = None, ResourceVersion = 1,
     PodSpec = mem_pod_spec, Phase = ''Running'', PodIP = ''10.1.0.5'' \<rparr>"

definition mem_deployment :: "string \<Rightarrow> smap \<Rightarrow> int \<Rightarrow> deployment" where
  "mem_deployment n annotations r = \<lparr> Name = n, Namespace = ''default'', Labels = NilMap,
     Annotations = annotations, DeletionTimestamp = None, ResourceVersion = 1, Replicas = r,
     ReadyReplicas = r, MatchLabels = NilMap, TemplateLabels = NilMap, TemplateAnnotations = NilMap,
     TemplateSpec = mem_pod_spec \<rparr>"

definition mem_service :: "string \<Rightarrow> smap \<Rightarrow> smap \<Rightarrow> service" where
  "mem_service n annotations sel = \<lparr> Name = n, Namespace = ''default'', Labels = NilMap,
     Annotations = annotations, DeletionTimestamp = None, ResourceVersion = 1, Selector = sel,
     SvcPorts = [\<lparr> SvcPortName = ''http'', Port = 80, TargetPort = IntPort 8080 \<rparr>],
     SvcType = ''ClusterIP'', ClusterIP = ''10.96.0.20'' \<rparr>"

definition mem_prog :: "cluster_objects \<Rightarrow> cluster_objects prog" where
  "mem_prog c = \<lparr> Store = \<lparr> Store_Component = ''connect'', Store_Shadow = [], Store_Router = [],
     Store_Mesh = [], Store_Origin = [], Store_Replicas = 0, Store_Service = [], Store_Lane = [],
     Store_Session = [], Store_LaneEnvoyFilter = [] \<rparr>, Heartbeats = [], LastHeartBeatStatus = GoMap [], World = c \<rparr>"

definition mem_opts :: kt_options where
  "mem_opts = \<lparr> Global_Namespace = ''default'', Global_Image = ''shadow:v1'', Global_ServiceAccount = ''default'',
     Global_ImagePullSecret = [], Global_NodeSelector = [], Global_WithLabel = [], Global_WithAnnotation = [],
     Global_PodCreationTimeout = 60, Global_UseShadowDeployment = False, Global_ForceUpdate = False,
     Global_PodQuota = [], Connect_Mode = ''tun2socks'', Connect_DnsMode = ''localDNS'',
     Connect_ShareShadow = False, Connect_DisableTunDevice = False, Connect_Lane = [],
     Exchange_Mode = ''selector'', Exchange_RecoverWaitTime = 120, Mesh_VersionMark = [],
     Mesh_RouterImage = ''router:v1'' \<rparr>"

lemma mem_opts_simps [simp]:
  "Global_Namespace mem_opts = ''default''" "Connect_ShareShadow mem_opts = False"
  "Exchange_Mode mem_opts = ''selector''" "Global_UseShadowDeployment mem_opts = False"
  "Global_WithLabel mem_opts = []" "Mesh_VersionMark mem_opts = []"
  by (simp_all add: mem_opts_def)

end
