(* ===== verification/ClusterObjects.thy ===== *)
theory ClusterObjects
  imports KubeApi
begin

text \<open>
  The objects that the program creates: \<open>helper.go\<close>, the object part of \<open>shadow_pod.go\<close>,
  \<open>lane.go\<close> and \<open>pod.go\<close> in \<open>pkg/kt/service/cluster\<close>, with the names of the constants of
  \<open>pkg/kt/util/const.go\<close>.
\<close>

section \<open>Constants of const.go\<close>

abbreviation (input) "KubernetesToolkit \<equiv> ''kt''"
abbreviation (input) "ControlBy \<equiv> ''control-by''"
abbreviation (input) "KtTarget \<equiv> ''kt-target''"
abbreviation (input) "KtRole \<equiv> ''kt-role''"
abbreviation (input) "KtConfig \<equiv> ''kt-config''"
abbreviation (input) "KtUser \<equiv> ''kt-user''"
abbreviation (input) "KtSelector \<equiv> ''kt-selector''"
abbreviation (input) "KtRefCount \<equiv> ''kt-ref-count''"
abbreviation (input) "KtLastHeartBeat \<equiv> ''kt-last-heart-beat''"
abbreviation (input) "KtLock \<equiv> ''kt-lock''"
abbreviation (input) "KtLane \<equiv> ''kt-lane''"
abbreviation (input) "KtSession \<equiv> ''kt-session''"
abbreviation (input) "SshAuthKey \<equiv> ''authorized''"
abbreviation (input) "SshAuthPrivateKey \<equiv> ''privateKey''"
abbreviation (input) "DefaultContainer \<equiv> ''standalone''"
abbreviation (input) "StuntmanServiceSuffix \<equiv> ''-kt-stuntman''"
abbreviation (input) "RouterPodSuffix \<equiv> ''-kt-router''"
abbreviation (input) "ExchangePodInfix \<equiv> ''-kt-exchange-''"
abbreviation (input) "MeshPodInfix \<equiv> ''-kt-mesh-''"
abbreviation (input) "RectifierPodPrefix \<equiv> ''kt-rectifier-''"

section \<open>Go conversions\<close>

definition go_int32 :: "int \<Rightarrow> int" where
  "go_int32 n = (n + 2 ^ 31) mod 2 ^ 32 - 2 ^ 31"

text \<open>Integer division of Go, which truncates towards zero.\<close>

definition go_div :: "int \<Rightarrow> int \<Rightarrow> int" where
  "go_div a b = sgn a * sgn b * (\<bar>a\<bar> div \<bar>b\<bar>)"

definition GetTimestamp :: "int \<Rightarrow> string" where
  "GetTimestamp time = itoa time"

definition ParseTimestamp :: "string \<Rightarrow> int" where
  "ParseTimestamp timestamp = (case atoi timestamp of None \<Rightarrow> -1 | Some t \<Rightarrow> t)"

section \<open>Resource descriptions\<close>

record resource_meta =
  MetaName :: string
  MetaNamespace :: string
  MetaLabels :: smap
  MetaAnnotations :: smap

record ssh_key_meta =
  SshConfigMapName :: string
  SshPrivateKeyPath :: string

record svc_meta_and_spec =
  SvcMeta :: resource_meta
  External :: bool
  MetaPorts :: "(int \<times> int) list"
  Selectors :: smap

record pod_meta_and_spec =
  PodMeta :: resource_meta
  PodImage :: string
  PodContainerName :: string
  Envs :: smap
  PodPorts :: "int gomap"
  IsLeaf :: bool
  MainContainerCommand :: "string list"
  MainContainerArgs :: "string list"
  MainContainerVolumeMounts :: "volume_mount list"
  PodInitContainers :: "container list"
  AdditionalContainers :: "container list"
  PodVolumes :: "volume list"
  PodTemplateAnnotations :: smap

definition kt_label :: smap where
  "kt_label = GoMap [(ControlBy, KubernetesToolkit)]"

section \<open>Services\<close>

definition service_port_of :: "int \<times> int \<Rightarrow> service_port" where
  "service_port_of p = (case p of (srcPort, targetPort) \<Rightarrow>
     \<lparr> SvcPortName = ''kt-'' @ itoa srcPort, Port = go_int32 srcPort,
       TargetPort = IntPort (go_int32 targetPort) \<rparr>)"

definition createService :: "int \<Rightarrow> svc_meta_and_spec \<Rightarrow> service" where
  "createService time m =
     (let annotations = MapPut (MetaAnnotations (SvcMeta m)) KtLastHeartBeat (GetTimestamp time);
          labels = MergeMap (MetaLabels (SvcMeta m)) kt_label
      in \<lparr> Name = MetaName (SvcMeta m), Namespace = MetaNamespace (SvcMeta m), Labels = labels,
           Annotations = annotations, DeletionTimestamp = None, ResourceVersion = 0,
           Selector = Selectors m, SvcPorts = map service_port_of (MetaPorts m),
           SvcType = (if External m then ''LoadBalancer'' else ''ClusterIP''), ClusterIP = [] \<rparr>)"

section \<open>Volumes and mounts\<close>

text \<open>Each new mount replaces the first one with the same name and path, or is appended.\<close>

fun set_first_mount :: "volume_mount \<Rightarrow> volume_mount list \<Rightarrow> volume_mount list" where
  "set_first_mount mount [] = [mount]"
| "set_first_mount mount (current # rest) =
     (if MountName current = MountName mount \<and> MountPath current = MountPath mount
      then mount # rest else current # set_first_mount mount rest)"

fun appendUniqueVolumeMounts :: "volume_mount list \<Rightarrow> volume_mount list \<Rightarrow> volume_mount list" where
  "appendUniqueVolumeMounts result [] = result"
| "appendUniqueVolumeMounts result (mount # mounts) =
     appendUniqueVolumeMounts (set_first_mount mount result) mounts"

fun set_first_volume :: "volume \<Rightarrow> volume list \<Rightarrow> volume list" where
  "set_first_volume v [] = [v]"
| "set_first_volume v (current # rest) =
     (if VolumeName current = VolumeName v then v # rest else current # set_first_volume v rest)"

fun appendUniqueVolumes :: "volume list \<Rightarrow> volume list \<Rightarrow> volume list" where
  "appendUniqueVolumes result [] = result"
| "appendUniqueVolumes result (v # vs) = appendUniqueVolumes (set_first_volume v result) vs"

section \<open>Containers and pods\<close>

definition is_quota_char :: "char \<Rightarrow> bool" where
  "is_quota_char c \<longleftrightarrow> is_digit c \<or> c = CHR ''.''"

text \<open>The patterns \<open>^[0-9.]+[Cc]$\<close> and \<open>^[0-9.]+[KkMmGg]$\<close>.\<close>

definition quota_match :: "string \<Rightarrow> string \<Rightarrow> bool" where
  "quota_match units quota \<longleftrightarrow>
     length quota \<ge> 2 \<and> list_all is_quota_char (butlast quota) \<and> last quota \<in> set units"

fun limit_loop :: "(string \<Rightarrow> bool) \<Rightarrow> string list \<Rightarrow> container \<Rightarrow> container outcome" where
  "limit_loop quantity_ok [] c = Value c"
| "limit_loop quantity_ok (quota # rest) c =
     (if quota_match ''Cc'' quota then
        (let limit = butlast quota
         in if quantity_ok limit
            then limit_loop quantity_ok rest (c\<lparr>Limits := mput (Limits c) ''cpu'' limit,
                                              Requests := mput (Requests c) ''cpu'' limit\<rparr>)
            else Panic)
      else if quota_match ''KkMmGg'' quota then
        (let limit = to_upper quota @ ''i''
         in if quantity_ok limit
            then limit_loop quantity_ok rest (c\<lparr>Limits := mput (Limits c) ''memory'' limit,
                                              Requests := mput (Requests c) ''memory'' limit\<rparr>)
            else Panic)
      else limit_loop quantity_ok rest c)"

definition addResourceLimit :: "(string \<Rightarrow> bool) \<Rightarrow> container \<Rightarrow> string \<Rightarrow> container outcome" where
  "addResourceLimit quantity_ok c quotaText = limit_loop quantity_ok (split_on CHR '','' quotaText) c"

definition createContainer ::
  "(string \<Rightarrow> bool) \<Rightarrow> kt_options \<Rightarrow> string \<Rightarrow> string \<Rightarrow> string list \<Rightarrow> smap \<Rightarrow> int gomap \<Rightarrow> container outcome" where
  "createContainer quantity_ok opts name img args envs ports =
     (let c = \<lparr> ContainerName = name, Image = img,
                ImagePullPolicy = (if Global_ForceUpdate opts then ''Always'' else ''IfNotPresent''),
                Command = [], Args = args, Env = entries envs, Capabilities = [''AUDIT_WRITE''],
                Ports = [], VolumeMounts = [], Limits = GoMap [], Requests = GoMap [] \<rparr>
      in obind (if Global_PodQuota opts \<noteq> [] then addResourceLimit quantity_ok c (Global_PodQuota opts)
                else Value c)
         (\<lambda>c'. Value (c'\<lparr>Ports := Ports c' @
                  map (\<lambda>(n, p). \<lparr>PortName = n, ContainerPort = go_int32 p\<rparr>) (entries ports)\<rparr>)))"

definition createPodSpec :: "(string \<Rightarrow> bool) \<Rightarrow> kt_options \<Rightarrow> pod_meta_and_spec \<Rightarrow> pod_spec outcome" where
  "createPodSpec quantity_ok opts m =
     obind (createContainer quantity_ok opts (PodContainerName m) (PodImage m) [] (Envs m) (PodPorts m)) (\<lambda>c.
       (let c1 = (if MainContainerCommand m \<noteq> [] then c\<lparr>Command := MainContainerCommand m\<rparr> else c);
            c2 = (if MainContainerArgs m \<noteq> [] then c1\<lparr>Args := MainContainerArgs m\<rparr> else c1);
            c3 = c2\<lparr>VolumeMounts := appendUniqueVolumeMounts (VolumeMounts c2) (MainContainerVolumeMounts m)\<rparr>
        in Value \<lparr> ServiceAccountName = Global_ServiceAccount opts,
                   Containers = c3 # AdditionalContainers m, InitContainers = PodInitContainers m,
                   EphemeralContainers = [], Volumes = PodVolumes m, ImagePullSecrets = [],
                   NodeSelector = NilMap \<rparr>))"

definition ref_annotations :: "int \<Rightarrow> smap \<Rightarrow> smap" where
  "ref_annotations time annotations =
     MapPut (MapPut annotations KtRefCount ''1'') KtLastHeartBeat (GetTimestamp time)"

text \<open>\<open>createDeployment\<close> and \<open>createPod\<close> also update the description they are given.\<close>

definition meta_with_kt :: "int \<Rightarrow> pod_meta_and_spec \<Rightarrow> pod_meta_and_spec" where
  "meta_with_kt time m =
     m\<lparr>PodMeta := (PodMeta m)\<lparr>MetaAnnotations := ref_annotations time (MetaAnnotations (PodMeta m)),
                              MetaLabels := MergeMap (MetaLabels (PodMeta m)) kt_label\<rparr>\<rparr>"

definition createDeployment ::
  "(string \<Rightarrow> bool) \<Rightarrow> kt_options \<Rightarrow> int \<Rightarrow> pod_meta_and_spec \<Rightarrow> (deployment \<times> pod_meta_and_spec) outcome" where
  "createDeployment quantity_ok opts time m =
     (let m' = meta_with_kt time m;
          podAnnotations = MergeMap (MetaAnnotations (PodMeta m')) (PodTemplateAnnotations m);
          originLabels = put_all (GoMap []) (entries (MetaLabels (PodMeta m)))
      in obind (createPodSpec quantity_ok opts m') (\<lambda>spec.
         Value (\<lparr> Name = MetaName (PodMeta m), Namespace = MetaNamespace (PodMeta m),
                  Labels = MetaLabels (PodMeta m'), Annotations = podAnnotations,
                  DeletionTimestamp = None, ResourceVersion = 0, Replicas = 1, ReadyReplicas = 0,
                  MatchLabels = originLabels, TemplateLabels = originLabels,
                  TemplateAnnotations = podAnnotations, TemplateSpec = spec \<rparr>, m')))"

definition addImagePullSecret :: "pod \<Rightarrow> string \<Rightarrow> pod" where
  "addImagePullSecret p imagePullSecret = p\<lparr>PodSpec := (PodSpec p)\<lparr>ImagePullSecrets := [imagePullSecret]\<rparr>\<rparr>"

definition createPod ::
  "(string \<Rightarrow> bool) \<Rightarrow> kt_options \<Rightarrow> int \<Rightarrow> pod_meta_and_spec \<Rightarrow> (pod \<times> pod_meta_and_spec) outcome" where
  "createPod quantity_ok opts time m =
     (let m' = meta_with_kt time m;
          podAnnotations = MergeMap (MetaAnnotations (PodMeta m')) (PodTemplateAnnotations m)
      in obind (createPodSpec quantity_ok opts m') (\<lambda>spec.
         (let p = \<lparr> Name = MetaName (PodMeta m), Namespace = MetaNamespace (PodMeta m),
                    Labels = MetaLabels (PodMeta m'), Annotations = podAnnotations,
                    DeletionTimestamp = None, ResourceVersion = 0, PodSpec = spec, Phase = [], PodIP = [] \<rparr>;
              p1 = (if Global_ImagePullSecret opts \<noteq> [] then addImagePullSecret p (Global_ImagePullSecret opts) else p);
              p2 = (if Global_NodeSelector opts \<noteq> []
                    then p1\<lparr>PodSpec := (PodSpec p1)\<lparr>NodeSelector := String2Map (Global_NodeSelector opts)\<rparr>\<rparr>
                    else p1)
          in Value (p2, m'))))"

section \<open>The shadow pod\<close>

definition filterRunningPods :: "pod list \<Rightarrow> pod list" where
  "filterRunningPods pods = filter (\<lambda>p. Phase p = ''Running'' \<and> DeletionTimestamp p = None) pods"

definition getSSHVolume :: "string \<Rightarrow> volume" where
  "getSSHVolume v =
     \<lparr> VolumeName = ''ssh-public-key'', VolumeSource = ConfigMapSource v [(SshAuthKey, ''authorized_keys'')] \<rparr>"

definition ssh_mount :: volume_mount where
  "ssh_mount = \<lparr> MountName = ''ssh-public-key'', MountPath = ''/root/'' @ SshAuthKey \<rparr>"

definition appendSshVolume :: "pod_spec \<Rightarrow> string \<Rightarrow> pod_spec outcome" where
  "appendSshVolume spec sshcm =
     (case Containers spec of
        [] \<Rightarrow> Panic
      | c # cs \<Rightarrow> Value (spec\<lparr>
          Containers := c\<lparr>VolumeMounts := appendUniqueVolumeMounts (VolumeMounts c) [ssh_mount]\<rparr> # cs,
          Volumes := appendUniqueVolumes (Volumes spec) [getSSHVolume sshcm]\<rparr>))"

definition filterSidecarAnnotations :: "smap \<Rightarrow> smap" where
  "filterSidecarAnnotations annotations =
     put_all (GoMap []) (filter (\<lambda>(k, v). has_prefix k ''sidecar.istio.io/'') (entries annotations))"

definition enableExplicitLaneShadowTemplate :: "pod_meta_and_spec \<Rightarrow> pod_meta_and_spec" where
  "enableExplicitLaneShadowTemplate m =
     m\<lparr> PodTemplateAnnotations := MergeMap (PodTemplateAnnotations m)
           (filterSidecarAnnotations (MetaAnnotations (PodMeta m))),
        MainContainerVolumeMounts := appendUniqueVolumeMounts (MainContainerVolumeMounts m)
           [\<lparr> MountName = ''kt-shadow-keystore'', MountPath = ''/var/kt-connect/keystore'' \<rparr>, ssh_mount],
        PodVolumes := appendUniqueVolumes (PodVolumes m)
           [\<lparr> VolumeName = ''kt-shadow-keystore'', VolumeSource = EmptyDirSource \<rparr>] \<rparr>"

text \<open>The ports of \<open>GetOrCreateShadow\<close>; an entry that does not parse is left out.\<close>

fun shadow_ports :: "string list \<Rightarrow> (int \<times> string) list \<Rightarrow> int gomap \<Rightarrow> int gomap" where
  "shadow_ports [] portNameDict ports = ports"
| "shadow_ports (e # es) portNameDict ports =
     shadow_ports es portNameDict
       (case ParsePortMapping e of
          Value (_, p) \<Rightarrow> mput ports (case map_of portNameDict p of Some n \<Rightarrow> n | None \<Rightarrow> ''http-'' @ itoa p) p
        | _ \<Rightarrow> ports)"

section \<open>Lane filters\<close>

definition buildLaneWorkloadSelector :: "smap \<Rightarrow> smap" where
  "buildLaneWorkloadSelector labels =
     put_all (GoMap []) (map (\<lambda>k. (k, mget labels k))
       (filter (\<lambda>k. mget labels k \<noteq> []) [KtRole, KtLane, KtSession, KtTarget, ''sidecar.istio.io/inject'']))"

definition buildLaneEnvoyFilterObject :: "string \<Rightarrow> string \<Rightarrow> smap \<Rightarrow> string \<Rightarrow> envoy_filter" where
  "buildLaneEnvoyFilterObject name namespace sel lane =
     \<lparr> Name = name, Namespace = namespace,
       Labels = GoMap (map (\<lambda>k. (k, mget sel k)) [KtRole, KtLane, KtSession]),
       Annotations = NilMap, DeletionTimestamp = None, ResourceVersion = 0,
       WorkloadSelector = sel, LuaLane = lane \<rparr>"

end
