(* ===== verification/ClusterOps.thy ===== *)
theory ClusterOps
  imports ClusterObjects
begin

text \<open>
  The operations of \<open>pkg/kt/service/cluster\<close> that call the API server: \<open>pod.go\<close>,
  \<open>deployment.go\<close>, \<open>service.go\<close>, \<open>configmap.go\<close>, \<open>shadow_pod.go\<close>, \<open>extra_pod.go\<close>,
  \<open>ephemeral_container.go\<close>, \<open>lane.go\<close> and \<open>global.go\<close>.  Every Go call is one step of the state
  monad, in the order of the code; \<open>go_try\<close> is its early return on an error.
\<close>

section \<open>Plain calls\<close>

definition GetPod :: "'w kube \<Rightarrow> string \<Rightarrow> string \<Rightarrow> ('w prog, pod outcome) state" where
  "GetPod k name namespace = lift_io (api_get (PodsApi k) namespace name)"
definition GetPodsByLabel :: "'w kube \<Rightarrow> smap \<Rightarrow> string \<Rightarrow> ('w prog, pod list outcome) state" where
  "GetPodsByLabel k labels namespace = lift_io (api_list (PodsApi k) namespace labels)"
definition UpdatePod :: "'w kube \<Rightarrow> pod \<Rightarrow> ('w prog, pod outcome) state" where
  "UpdatePod k p = lift_io (api_update (PodsApi k) (Namespace p) p)"
definition RemovePod :: "'w kube \<Rightarrow> string \<Rightarrow> string \<Rightarrow> ('w prog, unit outcome) state" where
  "RemovePod k name namespace = lift_io (api_delete (PodsApi k) namespace name)"

definition GetDeployment :: "'w kube \<Rightarrow> string \<Rightarrow> string \<Rightarrow> ('w prog, deployment outcome) state" where
  "GetDeployment k name namespace = lift_io (api_get (DeploymentsApi k) namespace name)"
definition GetDeploymentsByLabel :: "'w kube \<Rightarrow> smap \<Rightarrow> string \<Rightarrow> ('w prog, deployment list outcome) state" where
  "GetDeploymentsByLabel k labels namespace = lift_io (api_list (DeploymentsApi k) namespace labels)"
definition GetAllDeploymentInNamespace :: "'w kube \<Rightarrow> string \<Rightarrow> ('w prog, deployment list outcome) state" where
  "GetAllDeploymentInNamespace k namespace = lift_io (api_list (DeploymentsApi k) namespace (GoMap []))"
definition UpdateDeployment :: "'w kube \<Rightarrow> deployment \<Rightarrow> ('w prog, deployment outcome) state" where
  "UpdateDeployment k d = lift_io (api_update (DeploymentsApi k) (Namespace d) d)"
definition RemoveDeployment :: "'w kube \<Rightarrow> string \<Rightarrow> string \<Rightarrow> ('w prog, unit outcome) state" where
  "RemoveDeployment k name namespace = lift_io (api_delete (DeploymentsApi k) namespace name)"

definition GetService :: "'w kube \<Rightarrow> string \<Rightarrow> string \<Rightarrow> ('w prog, service outcome) state" where
  "GetService k name namespace = lift_io (api_get (ServicesApi k) namespace name)"
definition GetServicesByLabel :: "'w kube \<Rightarrow> smap \<Rightarrow> string \<Rightarrow> ('w prog, service list outcome) state" where
  "GetServicesByLabel k labels namespace = lift_io (api_list (ServicesApi k) namespace labels)"
definition GetAllServiceInNamespace :: "'w kube \<Rightarrow> string \<Rightarrow> ('w prog, service list outcome) state" where
  "GetAllServiceInNamespace k namespace = lift_io (api_list (ServicesApi k) namespace (GoMap []))"
definition UpdateService :: "'w kube \<Rightarrow> service \<Rightarrow> ('w prog, service outcome) state" where
  "UpdateService k svc = lift_io (api_update (ServicesApi k) (Namespace svc) svc)"
definition RemoveService :: "'w kube \<Rightarrow> string \<Rightarrow> string \<Rightarrow> ('w prog, unit outcome) state" where
  "RemoveService k name namespace = lift_io (api_delete (ServicesApi k) namespace name)"

definition GetConfigMap :: "'w kube \<Rightarrow> string \<Rightarrow> string \<Rightarrow> ('w prog, config_map outcome) state" where
  "GetConfigMap k name namespace = lift_io (api_get (ConfigMapsApi k) namespace name)"
definition GetConfigMapsByLabel :: "'w kube \<Rightarrow> smap \<Rightarrow> string \<Rightarrow> ('w prog, config_map list outcome) state" where
  "GetConfigMapsByLabel k labels namespace = lift_io (api_list (ConfigMapsApi k) namespace labels)"
definition RemoveConfigMap :: "'w kube \<Rightarrow> string \<Rightarrow> string \<Rightarrow> ('w prog, unit outcome) state" where
  "RemoveConfigMap k name namespace = lift_io (api_delete (ConfigMapsApi k) namespace name)"

lemmas api_call_defs = GetPod_def GetPodsByLabel_def UpdatePod_def RemovePod_def GetDeployment_def
  GetDeploymentsByLabel_def GetAllDeploymentInNamespace_def UpdateDeployment_def RemoveDeployment_def
  GetService_def GetServicesByLabel_def GetAllServiceInNamespace_def UpdateService_def RemoveService_def
  GetConfigMap_def GetConfigMapsByLabel_def RemoveConfigMap_def

text \<open>The clock, as \<open>util.GetTime\<close> reads it.\<close>

definition now :: "'w kube \<Rightarrow> ('w prog, int) state" where
  "now k = lift_io (GetTime k)"

definition sleep :: "'w kube \<Rightarrow> int \<Rightarrow> ('w prog, unit) state" where
  "sleep k n = lift_io (Sleep k n)"

section \<open>service.go and configmap.go\<close>

text \<open>
  \<open>MapContains\<close> asks whether the selector of a service is part of the labels.
\<close>

definition GetServicesBySelector :: "'w kube \<Rightarrow> smap \<Rightarrow> string \<Rightarrow> ('w prog, service list outcome) state" where
  "GetServicesBySelector k matchLabels namespace =
     go_try (GetAllServiceInNamespace k namespace) (\<lambda>svcList.
     State_Monad.return (Value (filter (\<lambda>svc. MapContains (Selector svc) matchLabels) svcList)))"

definition CreateService :: "'w kube \<Rightarrow> svc_meta_and_spec \<Rightarrow> ('w prog, service outcome) state" where
  "CreateService k m = do {
     SetupHeartBeat ''service'' (MetaName (SvcMeta m)) (MetaNamespace (SvcMeta m));
     time \<leftarrow> now k;
     lift_io (api_create (ServicesApi k) (MetaNamespace (SvcMeta m)) (createService time m))
   }"

definition createConfigMapWithSshKey ::
  "'w kube \<Rightarrow> smap \<Rightarrow> string \<Rightarrow> string \<Rightarrow> ssh_generator \<Rightarrow> ('w prog, config_map outcome) state" where
  "createConfigMapWithSshKey k labels sshcm namespace generator = do {
     SetupHeartBeat ''configmap'' sshcm namespace;
     time \<leftarrow> now k;
     lift_io (api_create (ConfigMapsApi k) namespace
       \<lparr> Name = sshcm, Namespace = namespace, Labels = MergeMap labels kt_label,
         Annotations = GoMap [(KtLastHeartBeat, GetTimestamp time)], DeletionTimestamp = None,
         ResourceVersion = 0,
         Data = GoMap [(SshAuthKey, PublicKey generator), (SshAuthPrivateKey, PrivateKey generator)] \<rparr>)
   }"

section \<open>Reference counts\<close>

definition decreaseRef :: "string \<Rightarrow> string outcome" where
  "decreaseRef refCount = obind (atoi_err refCount) (\<lambda>n. Value (itoa (n - 1)))"

definition IncreaseDeploymentRef :: "'w kube \<Rightarrow> string \<Rightarrow> string \<Rightarrow> ('w prog, unit outcome) state" where
  "IncreaseDeploymentRef k name namespace =
     go_try (GetDeployment k name namespace) (\<lambda>app.
     (case atoi_err (mget (Annotations app) KtRefCount) of
        Fail e \<Rightarrow> State_Monad.return (Fail e)
      | Panic \<Rightarrow> State_Monad.return Panic
      | Value count \<Rightarrow>
          (case mset_entry (Annotations app) KtRefCount (itoa (count + 1)) of
             Value a \<Rightarrow> go_try (UpdateDeployment k (app\<lparr>Annotations := a\<rparr>)) (\<lambda>_. State_Monad.return (Value ()))
           | Fail e \<Rightarrow> State_Monad.return (Fail e)
           | Panic \<Rightarrow> State_Monad.return Panic)))"

text \<open>The error of \<open>decreaseRef\<close> is dropped here: the named result \<open>err\<close> is still nil.\<close>

definition DecreaseDeploymentRef :: "'w kube \<Rightarrow> string \<Rightarrow> string \<Rightarrow> ('w prog, bool outcome) state" where
  "DecreaseDeploymentRef k name namespace =
     go_try (GetDeployment k name namespace) (\<lambda>app.
     (let refCount = mget (Annotations app) KtRefCount
      in if refCount = ''1'' then State_Monad.return (Value True)
         else (case decreaseRef refCount of
                 Value count \<Rightarrow> go_try (UpdateDeployment k (app\<lparr>Annotations := MapPut (Annotations app) KtRefCount count\<rparr>))
                                  (\<lambda>_. State_Monad.return (Value False))
               | _ \<Rightarrow> State_Monad.return (Value False))))"

definition IncreasePodRef :: "'w kube \<Rightarrow> string \<Rightarrow> string \<Rightarrow> ('w prog, unit outcome) state" where
  "IncreasePodRef k name namespace =
     go_try (GetPod k name namespace) (\<lambda>p.
     (case atoi_err (mget (Annotations p) KtRefCount) of
        Fail e \<Rightarrow> State_Monad.return (Fail e)
      | Panic \<Rightarrow> State_Monad.return Panic
      | Value count \<Rightarrow>
          (case mset_entry (Annotations p) KtRefCount (itoa (count + 1)) of
             Value a \<Rightarrow> go_try (UpdatePod k (p\<lparr>Annotations := a\<rparr>)) (\<lambda>_. State_Monad.return (Value ()))
           | Fail e \<Rightarrow> State_Monad.return (Fail e)
           | Panic \<Rightarrow> State_Monad.return Panic)))"

text \<open>Here the error of \<open>decreaseRef\<close> is returned and the error of the update is dropped.\<close>

definition DecreasePodRef :: "'w kube \<Rightarrow> string \<Rightarrow> string \<Rightarrow> ('w prog, bool outcome) state" where
  "DecreasePodRef k name namespace =
     go_try (GetPod k name namespace) (\<lambda>p.
     (let refCount = mget (Annotations p) KtRefCount
      in if refCount = ''1'' then State_Monad.return (Value True)
         else (case decreaseRef refCount of
                 Value count \<Rightarrow> go_catch (UpdatePod k (p\<lparr>Annotations := MapPut (Annotations p) KtRefCount count\<rparr>))
                                  (\<lambda>_. State_Monad.return (Value False)) (\<lambda>_. State_Monad.return (Value False))
               | Fail e \<Rightarrow> State_Monad.return (Fail e)
               | Panic \<Rightarrow> State_Monad.return Panic)))"

section \<open>Scaling\<close>

definition ScaleTo :: "'w kube \<Rightarrow> string \<Rightarrow> string \<Rightarrow> int \<Rightarrow> ('w prog, unit outcome) state" where
  "ScaleTo k name namespace replicas =
     go_try (GetDeployment k name namespace) (\<lambda>d.
     if Replicas d = replicas then State_Monad.return (Value ())
     else go_try (UpdateDeployment k (d\<lparr>Replicas := replicas\<rparr>)) (\<lambda>_. State_Monad.return (Value ())))"

section \<open>Waiting\<close>

function waitPodsReady :: "'w kube \<Rightarrow> smap \<Rightarrow> string \<Rightarrow> int \<Rightarrow> nat \<Rightarrow> ('w prog, pod list outcome) state" where
  "waitPodsReady k labels namespace timeoutSec tries =
     go_try (GetPodsByLabel k labels namespace) (\<lambda>pods.
       if int tries > go_div timeoutSec 6 then
         State_Monad.return (Fail (Errorf (if length pods < 1 then ''pod with label not found''
                                           else ''pod '' @ Name (pods ! 0) @ '' failed to start'')))
       else if filterRunningPods pods \<noteq> [] then State_Monad.return (Value (filterRunningPods pods))
       else State_Monad.bind (sleep k 1) (\<lambda>_. waitPodsReady k labels namespace timeoutSec (Suc tries)))"
  by pat_completeness auto
termination
  by (relation "measure (\<lambda>(k, l, ns, t, tries). nat (go_div t 6 + 1 - int tries))") auto

function waitPodReady :: "'w kube \<Rightarrow> string \<Rightarrow> string \<Rightarrow> int \<Rightarrow> nat \<Rightarrow> ('w prog, pod outcome) state" where
  "waitPodReady k name namespace timeoutSec tries =
     (if int tries > go_div timeoutSec 6
      then State_Monad.return (Fail (Errorf (''pod '' @ name @ '' failed to start'')))
      else go_try (GetPod k name namespace) (\<lambda>p.
        if Phase p \<noteq> ''Running''
        then State_Monad.bind (sleep k 6) (\<lambda>_. waitPodReady k name namespace timeoutSec (Suc tries))
        else State_Monad.return (Value p)))"
  by pat_completeness auto
termination
  by (relation "measure (\<lambda>(k, n, ns, t, tries). nat (go_div t 6 + 1 - int tries))") auto

function waitPodTerminate :: "'w kube \<Rightarrow> string \<Rightarrow> string \<Rightarrow> nat \<Rightarrow> ('w prog, pod outcome) state" where
  "waitPodTerminate k name namespace tries =
     (if tries > 10
      then State_Monad.return (Fail (Errorf (''pod '' @ quoted name @ '' still terminating, please try again later'')))
      else State_Monad.bind (sleep k 6) (\<lambda>_.
        go_try (GetPod k name namespace) (\<lambda>routerPod.
          if DeletionTimestamp routerPod \<noteq> None then waitPodTerminate k name namespace (Suc tries)
          else State_Monad.return (Value routerPod))))"
  by pat_completeness auto
termination
  by (relation "measure (\<lambda>(k, n, ns, tries). 11 - tries)") auto

declare waitPodsReady.simps [simp del] waitPodReady.simps [simp del] waitPodTerminate.simps [simp del]

end
