(* ===== verification/RefCount.thy ===== *)
theory RefCount
  imports ClusterOps
begin

text \<open>
  The reference counts of shared shadows and routers.  \<open>ref_counter\<close> is the contract of a counter:
  joining adds one, leaving takes one away, and the one who leaves last is told so.  Both counters of
  the program, on the annotations of a pod and of a deployment, are interpretations of it on an API
  server that keeps its promises.
\<close>

section \<open>The contract\<close>

datatype ref_op = Join | Leave

text \<open>The results of a sequence of operations on a counter with \<open>h\<close> holders.\<close>

fun ref_results :: "int \<Rightarrow> ref_op list \<Rightarrow> (unit outcome + bool outcome) list" where
  "ref_results h [] = []"
| "ref_results h (Join # ops) = Inl (Value ()) # ref_results (h + 1) ops"
| "ref_results h (Leave # ops) = Inr (Value (h = 1)) # ref_results (h - 1) ops"

text \<open>There is a holder before every operation, and nothing follows the last one's leaving.\<close>

fun ref_alive :: "int \<Rightarrow> ref_op list \<Rightarrow> bool" where
  "ref_alive h [] \<longleftrightarrow> True"
| "ref_alive h (Join # ops) \<longleftrightarrow> 1 \<le> h \<and> h < 2 ^ 62 \<and> ref_alive (h + 1) ops"
| "ref_alive h (Leave # ops) \<longleftrightarrow> 1 \<le> h \<and> (if h = 1 then ops = [] else ref_alive (h - 1) ops)"

fun ref_session :: "('s, unit outcome) state \<Rightarrow> ('s, bool outcome) state \<Rightarrow> ref_op list \<Rightarrow> 's \<Rightarrow>
    (unit outcome + bool outcome) list \<times> 's" where
  "ref_session inc dec [] s = ([], s)"
| "ref_session inc dec (Join # ops) s =
     (case run_state inc s of (r, s') \<Rightarrow> map_prod ((#) (Inl r)) id (ref_session inc dec ops s'))"
| "ref_session inc dec (Leave # ops) s =
     (case run_state dec s of (r, s') \<Rightarrow> map_prod ((#) (Inr r)) id (ref_session inc dec ops s'))"

locale ref_counter =
  fixes count :: "'s \<Rightarrow> int option"
    and inc :: "('s, unit outcome) state"
    and dec :: "('s, bool outcome) state"
  assumes inc_adds: "count s = Some n \<Longrightarrow> 1 \<le> n \<Longrightarrow> n < 2 ^ 62 \<Longrightarrow>
      \<exists>s'. run_state inc s = (Value (), s') \<and> count s' = Some (n + 1)"
    and dec_takes: "count s = Some n \<Longrightarrow> 1 < n \<Longrightarrow>
      \<exists>s'. run_state dec s = (Value False, s') \<and> count s' = Some (n - 1)"
    and dec_last: "count s = Some 1 \<Longrightarrow> run_state dec s = (Value True, s)"
begin

lemma session_results:
  "count s = Some h \<Longrightarrow> ref_alive h ops \<Longrightarrow> fst (ref_session inc dec ops s) = ref_results h ops"
proof (induction h ops arbitrary: s rule: ref_results.induct)
  case (2 h ops)
  then obtain s' where "run_state inc s = (Value (), s')" "count s' = Some (h + 1)"
    using inc_adds [of s h] by auto
  with 2 show ?case by simp
next
  case (3 h ops)
  show ?case
  proof (cases "h = 1")
    case True
    with 3 dec_last [of s] show ?thesis by simp
  next
    case False
    with 3 obtain s' where "run_state dec s = (Value False, s')" "count s' = Some (h - 1)"
      using dec_takes [of s h] by auto
    with 3 False show ?thesis by simp
  qed
qed simp

end

section \<open>The count in an annotation\<close>

text \<open>The decimal text that \<open>strconv.Itoa\<close> writes; other spellings of a number do not count.\<close>

definition ref_text :: "string \<Rightarrow> int option" where
  "ref_text t = (case atoi t of Some n \<Rightarrow> if itoa n = t then Some n else None | None \<Rightarrow> None)"

lemma ref_text_Some: "ref_text t = Some n \<Longrightarrow> atoi t = Some n \<and> t = itoa n"
  by (auto simp: ref_text_def split: option.splits if_splits)

lemma ref_text_itoa: "- (2 ^ 63) \<le> n \<Longrightarrow> n < 2 ^ 63 \<Longrightarrow> ref_text (itoa n) = Some n"
  by (simp add: ref_text_def atoi_itoa)

lemma atoi_range: "atoi t = Some n \<Longrightarrow> - (2 ^ 63) \<le> n \<and> n < 2 ^ 63"
  unfolding atoi_def Let_def by (auto split: list.splits if_splits)

lemma itoa_one: "itoa 1 = ''1''"
  by code_simp

lemma itoa_eq_one: "itoa n = ''1'' \<Longrightarrow> atoi (itoa n) = Some n \<Longrightarrow> n = 1"
proof -
  assume "itoa n = ''1''" "atoi (itoa n) = Some n"
  moreover have "atoi ''1'' = Some 1" by code_simp
  ultimately show "n = 1" by simp
qed

definition pod_count :: "('w \<Rightarrow> cluster_objects) \<Rightarrow> string \<Rightarrow> string \<Rightarrow> 'w prog \<Rightarrow> int option" where
  "pod_count view namespace name s =
     (case find_obj (ClPods (view (World s))) namespace name of
        Some p \<Rightarrow> ref_text (mget (Annotations p) KtRefCount) | None \<Rightarrow> None)"

definition deployment_count :: "('w \<Rightarrow> cluster_objects) \<Rightarrow> string \<Rightarrow> string \<Rightarrow> 'w prog \<Rightarrow> int option" where
  "deployment_count view namespace name s =
     (case find_obj (ClDeployments (view (World s))) namespace name of
        Some d \<Rightarrow> ref_text (mget (Annotations d) KtRefCount) | None \<Rightarrow> None)"

lemma ref_text_nil: "ref_text [] = None"
  by (simp add: ref_text_def atoi_def)

text \<open>Writing back an object that has just been read.\<close>

lemma update_read:
  assumes "crud_ok c view sel upd" and "find_obj (sel (view w)) ns n = Some ob"
    and "Name ob' = n" and "ResourceVersion ob' = ResourceVersion ob"
  shows "\<exists>w'. run_state (api_update c ns ob') w = (Value (bump ob'), w') \<and>
    view w' = upd (put_obj (sel (view w)) (bump ob')) (view w)"
proof -
  obtain r w' where r: "run_state (api_update c ns ob') w = (r, w')" by fastforce
  then show ?thesis
    using crud_update [OF assms(1) r] assms by (simp add: update_spec_def)
qed

lemma api_get_found:
  "crud_ok c view sel upd \<Longrightarrow> find_obj (sel (view w)) ns n = Some ob \<Longrightarrow>
   run_state (api_get c ns n) w = (Value ob, w)"
  by (simp add: crud_get get_spec_def)

lemma find_put_bump:
  assumes "find_obj obs ns n = Some ob" and "Name ob' = n" and "Namespace ob' = ns"
  shows "find_obj (put_obj obs (bump ob')) ns n = Some (bump ob')"
  using assms by (simp add: find_put_obj is_obj_def)

lemma mset_entry_found:
  "mget m k \<noteq> [] \<Longrightarrow> mset_entry m k v = Value (mput m k v)"
  by (cases m) (auto simp: mset_entry_def)

lemma pod_annotation_update:
  assumes a: "api_server k view" and f: "find_obj (ClPods (view (World s))) ns n = Some p"
  shows "\<exists>s'. run_state (UpdatePod k (p\<lparr>Annotations := ann\<rparr>)) s = (Value (bump (p\<lparr>Annotations := ann\<rparr>)), s') \<and>
    find_obj (ClPods (view (World s'))) ns n = Some (bump (p\<lparr>Annotations := ann\<rparr>))"
proof -
  have p: "Name p = n" "Namespace p = ns" using find_obj_Some [OF f] by simp_all
  obtain w' where w: "run_state (api_update (PodsApi k) ns (p\<lparr>Annotations := ann\<rparr>)) (World s) =
      (Value (bump (p\<lparr>Annotations := ann\<rparr>)), w')"
    "view w' = set_pods (put_obj (ClPods (view (World s))) (bump (p\<lparr>Annotations := ann\<rparr>))) (view (World s))"
    using update_read [OF api_pods [OF a] f, of "p\<lparr>Annotations := ann\<rparr>"] p by auto
  have "find_obj (put_obj (ClPods (view (World s))) (bump (p\<lparr>Annotations := ann\<rparr>))) ns n
      = Some (bump (p\<lparr>Annotations := ann\<rparr>))"
    using p by (intro find_put_bump [OF f]) simp_all
  with w p show ?thesis by (simp add: UpdatePod_def set_pods_def)
qed

lemma deployment_annotation_update:
  assumes a: "api_server k view" and f: "find_obj (ClDeployments (view (World s))) ns n = Some p"
  shows "\<exists>s'. run_state (UpdateDeployment k (p\<lparr>Annotations := ann\<rparr>)) s = (Value (bump (p\<lparr>Annotations := ann\<rparr>)), s') \<and>
    find_obj (ClDeployments (view (World s'))) ns n = Some (bump (p\<lparr>Annotations := ann\<rparr>))"
proof -
  have p: "Name p = n" "Namespace p = ns" using find_obj_Some [OF f] by simp_all
  obtain w' where w: "run_state (api_update (DeploymentsApi k) ns (p\<lparr>Annotations := ann\<rparr>)) (World s) =
      (Value (bump (p\<lparr>Annotations := ann\<rparr>)), w')"
    "view w' = set_deployments (put_obj (ClDeployments (view (World s))) (bump (p\<lparr>Annotations := ann\<rparr>))) (view (World s))"
    using update_read [OF api_deployments [OF a] f, of "p\<lparr>Annotations := ann\<rparr>"] p by auto
  have "find_obj (put_obj (ClDeployments (view (World s))) (bump (p\<lparr>Annotations := ann\<rparr>))) ns n
      = Some (bump (p\<lparr>Annotations := ann\<rparr>))"
    using p by (intro find_put_bump [OF f]) simp_all
  with w p show ?thesis by (simp add: UpdateDeployment_def set_deployments_def)
qed

lemma GetPod_found:
  "api_server k view \<Longrightarrow> find_obj (ClPods (view (World s))) ns n = Some p \<Longrightarrow>
   run_state (GetPod k n ns) s = (Value p, s)"
  using api_get_found [OF api_pods, of k view "World s" ns n p] by (simp add: GetPod_def)

lemma GetDeployment_found:
  "api_server k view \<Longrightarrow> find_obj (ClDeployments (view (World s))) ns n = Some d \<Longrightarrow>
   run_state (GetDeployment k n ns) s = (Value d, s)"
  using api_get_found [OF api_deployments, of k view "World s" ns n d] by (simp add: GetDeployment_def)

section \<open>Both counters keep the contract\<close>

text \<open>A server that does not keep its promises has no count.\<close>

definition pod_holders :: "'w kube \<Rightarrow> ('w \<Rightarrow> cluster_objects) \<Rightarrow> string \<Rightarrow> string \<Rightarrow> 'w prog \<Rightarrow> int option" where
  "pod_holders k view namespace name s = (if api_server k view then pod_count view namespace name s else None)"

definition deployment_holders ::
  "'w kube \<Rightarrow> ('w \<Rightarrow> cluster_objects) \<Rightarrow> string \<Rightarrow> string \<Rightarrow> 'w prog \<Rightarrow> int option" where
  "deployment_holders k view namespace name s =
     (if api_server k view then deployment_count view namespace name s else None)"

lemma pod_holders_Some:
  assumes "pod_holders k view ns n s = Some h"
  shows "\<exists>p. api_server k view \<and> find_obj (ClPods (view (World s))) ns n = Some p \<and>
    mget (Annotations p) KtRefCount = itoa h \<and> atoi (itoa h) = Some h \<and> mget (Annotations p) KtRefCount \<noteq> []"
  using assms ref_text_Some ref_text_nil
  by (fastforce simp: pod_holders_def pod_count_def split: if_splits option.splits)

lemma deployment_holders_Some:
  assumes "deployment_holders k view ns n s = Some h"
  shows "\<exists>p. api_server k view \<and> find_obj (ClDeployments (view (World s))) ns n = Some p \<and>
    mget (Annotations p) KtRefCount = itoa h \<and> atoi (itoa h) = Some h \<and> mget (Annotations p) KtRefCount \<noteq> []"
  using assms ref_text_Some ref_text_nil
  by (fastforce simp: deployment_holders_def deployment_count_def split: if_splits option.splits)

lemma MapPut_text: "mget m k \<noteq> [] \<Longrightarrow> MapPut m k v = mput m k v"
  by (cases m) (simp_all add: MapPut_def)

interpretation pod_ref: ref_counter
  "pod_holders k view namespace name" "IncreasePodRef k name namespace" "DecreasePodRef k name namespace"
  for k :: "'w kube" and view namespace name
proof (unfold_locales)
  fix s :: "'w prog" and h :: int
  assume c: "pod_holders k view namespace name s = Some h" and h: "1 \<le> h" "h < 2 ^ 62"
  obtain p where p: "api_server k view" "find_obj (ClPods (view (World s))) namespace name = Some p"
    "mget (Annotations p) KtRefCount = itoa h" "atoi (itoa h) = Some h" "mget (Annotations p) KtRefCount \<noteq> []"
    using pod_holders_Some [OF c] by blast
  let ?a = "mput (Annotations p) KtRefCount (itoa (h + 1))"
  obtain s' where s': "run_state (UpdatePod k (p\<lparr>Annotations := ?a\<rparr>)) s = (Value (bump (p\<lparr>Annotations := ?a\<rparr>)), s')"
    "find_obj (ClPods (view (World s'))) namespace name = Some (bump (p\<lparr>Annotations := ?a\<rparr>))"
    using pod_annotation_update [OF p(1,2)] by blast
  have "pod_holders k view namespace name s' = Some (h + 1)"
    using s'(2) p(1) h by (simp add: pod_holders_def pod_count_def ref_text_itoa)
  moreover have "run_state (IncreasePodRef k name namespace) s = (Value (), s')"
    using p s'(1) by (simp add: IncreasePodRef_def GetPod_found [OF p(1,2)] atoi_err_def mset_entry_found)
  ultimately show "\<exists>s'. run_state (IncreasePodRef k name namespace) s = (Value (), s') \<and>
      pod_holders k view namespace name s' = Some (h + 1)" by blast
next
  fix s :: "'w prog" and h :: int
  assume c: "pod_holders k view namespace name s = Some h" and h: "1 < h"
  obtain p where p: "api_server k view" "find_obj (ClPods (view (World s))) namespace name = Some p"
    "mget (Annotations p) KtRefCount = itoa h" "atoi (itoa h) = Some h" "mget (Annotations p) KtRefCount \<noteq> []"
    using pod_holders_Some [OF c] by blast
  let ?a = "mput (Annotations p) KtRefCount (itoa (h - 1))"
  obtain s' where s': "run_state (UpdatePod k (p\<lparr>Annotations := ?a\<rparr>)) s = (Value (bump (p\<lparr>Annotations := ?a\<rparr>)), s')"
    "find_obj (ClPods (view (World s'))) namespace name = Some (bump (p\<lparr>Annotations := ?a\<rparr>))"
    using pod_annotation_update [OF p(1,2)] by blast
  have r: "- (2 ^ 63) \<le> h" "h < 2 ^ 63" using atoi_range [OF p(4)] by simp_all
  have "pod_holders k view namespace name s' = Some (h - 1)"
    using s'(2) p(1) h r by (simp add: pod_holders_def pod_count_def ref_text_itoa)
  moreover have "itoa h \<noteq> ''1''" using itoa_eq_one [of h] p(4) h by auto
  then have "run_state (DecreasePodRef k name namespace) s = (Value False, s')"
    using p s'(1) MapPut_text [OF p(5)]
    by (simp add: DecreasePodRef_def GetPod_found [OF p(1,2)] decreaseRef_def atoi_err_def)
  ultimately show "\<exists>s'. run_state (DecreasePodRef k name namespace) s = (Value False, s') \<and>
      pod_holders k view namespace name s' = Some (h - 1)" by blast
next
  fix s :: "'w prog"
  assume c: "pod_holders k view namespace name s = Some 1"
  show "run_state (DecreasePodRef k name namespace) s = (Value True, s)"
    using pod_holders_Some [OF c] by (auto simp: DecreasePodRef_def GetPod_found itoa_one)
qed

interpretation deployment_ref: ref_counter
  "deployment_holders k view namespace name" "IncreaseDeploymentRef k name namespace"
  "DecreaseDeploymentRef k name namespace"
  for k :: "'w kube" and view namespace name
proof (unfold_locales)
  fix s :: "'w prog" and h :: int
  assume c: "deployment_holders k view namespace name s = Some h" and h: "1 \<le> h" "h < 2 ^ 62"
  obtain p where p: "api_server k view" "find_obj (ClDeployments (view (World s))) namespace name = Some p"
    "mget (Annotations p) KtRefCount = itoa h" "atoi (itoa h) = Some h" "mget (Annotations p) KtRefCount \<noteq> []"
    using deployment_holders_Some [OF c] by blast
  let ?a = "mput (Annotations p) KtRefCount (itoa (h + 1))"
  obtain s' where s': "run_state (UpdateDeployment k (p\<lparr>Annotations := ?a\<rparr>)) s = (Value (bump (p\<lparr>Annotations := ?a\<rparr>)), s')"
    "find_obj (ClDeployments (view (World s'))) namespace name = Some (bump (p\<lparr>Annotations := ?a\<rparr>))"
    using deployment_annotation_update [OF p(1,2)] by blast
  have "deployment_holders k view namespace name s' = Some (h + 1)"
    using s'(2) p(1) h by (simp add: deployment_holders_def deployment_count_def ref_text_itoa)
  moreover have "run_state (IncreaseDeploymentRef k name namespace) s = (Value (), s')"
    using p s'(1) by (simp add: IncreaseDeploymentRef_def GetDeployment_found [OF p(1,2)] atoi_err_def mset_entry_found)
  ultimately show "\<exists>s'. run_state (IncreaseDeploymentRef k name namespace) s = (Value (), s') \<and>
      deployment_holders k view namespace name s' = Some (h + 1)" by blast
next
  fix s :: "'w prog" and h :: int
  assume c: "deployment_holders k view namespace name s = Some h" and h: "1 < h"
  obtain p where p: "api_server k view" "find_obj (ClDeployments (view (World s))) namespace name = Some p"
    "mget (Annotations p) KtRefCount = itoa h" "atoi (itoa h) = Some h" "mget (Annotations p) KtRefCount \<noteq> []"
    using deployment_holders_Some [OF c] by blast
  let ?a = "mput (Annotations p) KtRefCount (itoa (h - 1))"
  obtain s' where s': "run_state (UpdateDeployment k (p\<lparr>Annotations := ?a\<rparr>)) s = (Value (bump (p\<lparr>Annotations := ?a\<rparr>)), s')"
    "find_obj (ClDeployments (view (World s'))) namespace name = Some (bump (p\<lparr>Annotations := ?a\<rparr>))"
    using deployment_annotation_update [OF p(1,2)] by blast
  have r: "- (2 ^ 63) \<le> h" "h < 2 ^ 63" using atoi_range [OF p(4)] by simp_all
  have "deployment_holders k view namespace name s' = Some (h - 1)"
    using s'(2) p(1) h r by (simp add: deployment_holders_def deployment_count_def ref_text_itoa)
  moreover have "itoa h \<noteq> ''1''" using itoa_eq_one [of h] p(4) h by auto
  then have "run_state (DecreaseDeploymentRef k name namespace) s = (Value False, s')"
    using p s'(1) MapPut_text [OF p(5)]
    by (simp add: DecreaseDeploymentRef_def GetDeployment_found [OF p(1,2)] decreaseRef_def atoi_err_def)
  ultimately show "\<exists>s'. run_state (DecreaseDeploymentRef k name namespace) s = (Value False, s') \<and>
      deployment_holders k view namespace name s' = Some (h - 1)" by blast
next
  fix s :: "'w prog"
  assume c: "deployment_holders k view namespace name s = Some 1"
  show "run_state (DecreaseDeploymentRef k name namespace) s = (Value True, s)"
    using deployment_holders_Some [OF c] by (auto simp: DecreaseDeploymentRef_def GetDeployment_found itoa_one)
qed

section \<open>The properties\<close>



text \<open>
  The same for a shadow deployment (\<open>IncreaseDeploymentRef\<close>, \<open>DecreaseDeploymentRef\<close>).
\<close>
theorem shared_deployment_refs:
  assumes "api_server k view"
    and "find_obj (ClDeployments (view (World s))) namespace name = Some d"
    and "mget (Annotations d) KtRefCount = itoa h" and "1 \<le> h" and "h < 2 ^ 62"
    and "ref_alive h ops"
  shows "fst (ref_session (IncreaseDeploymentRef k name namespace) (DecreaseDeploymentRef k name namespace) ops s)
    = ref_results h ops"
proof (rule deployment_ref.session_results [OF _ assms(6)])
  show "deployment_holders k view namespace name s = Some h"
    using assms by (simp add: deployment_holders_def deployment_count_def ref_text_itoa)
qed

lemma shared_deployment_refs_witness:
  "fst (ref_session (IncreaseDeploymentRef (mem_kube 7) ''shadow'' ''default'')
      (DecreaseDeploymentRef (mem_kube 7) ''shadow'' ''default'') [Join, Leave, Leave]
      (mem_prog \<lparr> ClPods = [], ClDeployments = [mem_deployment ''shadow'' (GoMap [(KtRefCount, itoa 1)]) 1],
                 ClServices = [], ClConfigMaps = [] \<rparr>))
   = [Inl (Value ()), Inr (Value False), Inr (Value True)]"
proof -
  let ?d = "mem_deployment ''shadow'' (GoMap [(KtRefCount, itoa 1)]) 1"
  let ?s = "mem_prog \<lparr> ClPods = [], ClDeployments = [?d], ClServices = [], ClConfigMaps = [] \<rparr>"
  have f: "find_obj (ClDeployments (World ?s)) ''default'' ''shadow'' = Some ?d"
    by (simp add: mem_prog_def mem_deployment_def is_obj_def)
  have m: "mget (Annotations ?d) KtRefCount = itoa 1"
    by (simp add: mem_deployment_def mget_def mlookup_def)
  have a: "ref_alive 1 [Join, Leave, Leave]" by simp
  show ?thesis
    using shared_deployment_refs [OF mem_kube_ok [of 7] f m _ _ a] by simp
qed

text \<open>
  A count that is not a decimal number: neither counter writes to the object, joining returns the
  error of the parser, and leaving returns it for a pod but no error at all for a deployment; in no
  case is anyone told to clean up.
\<close>
theorem unreadable_ref_count:
  assumes "api_server k view"
    and "find_obj (ClPods (view (World s))) namespace name = Some p"
    and "find_obj (ClDeployments (view (World s))) namespace name = Some d"
    and "mget (Annotations p) KtRefCount = t" and "mget (Annotations d) KtRefCount = t" and "atoi t = None"
  shows "run_state (IncreasePodRef k name namespace) s = (Fail (NumError t), s)
    \<and> run_state (IncreaseDeploymentRef k name namespace) s = (Fail (NumError t), s)
    \<and> run_state (DecreasePodRef k name namespace) s = (Fail (NumError t), s)
    \<and> run_state (DecreaseDeploymentRef k name namespace) s = (Value False, s)"
proof -
  have "t \<noteq> ''1''" using assms(6) by (auto simp: atoi_def digits_val_def digit_val_def is_digit_def)
  then show ?thesis
    using assms GetPod_found [OF assms(1,2)] GetDeployment_found [OF assms(1,3)]
    by (simp add: IncreasePodRef_def IncreaseDeploymentRef_def DecreasePodRef_def DecreaseDeploymentRef_def
        decreaseRef_def atoi_err_def)
qed

lemma unreadable_ref_count_witness:
  "run_state (DecreaseDeploymentRef (mem_kube 7) ''shadow'' ''default'')
     (mem_prog \<lparr> ClPods = [mem_pod ''shadow'' NilMap NilMap], ClDeployments = [mem_deployment ''shadow'' NilMap 1],
                 ClServices = [], ClConfigMaps = [] \<rparr>)
   = (Value False, mem_prog \<lparr> ClPods = [mem_pod ''shadow'' NilMap NilMap],
        ClDeployments = [mem_deployment ''shadow'' NilMap 1], ClServices = [], ClConfigMaps = [] \<rparr>)"
proof -
  let ?p = "mem_pod ''shadow'' NilMap NilMap" and ?d = "mem_deployment ''shadow'' NilMap 1"
  let ?s = "mem_prog \<lparr> ClPods = [?p], ClDeployments = [?d], ClServices = [], ClConfigMaps = [] \<rparr>"
  have f: "find_obj (ClPods (World ?s)) ''default'' ''shadow'' = Some ?p"
    "find_obj (ClDeployments (World ?s)) ''default'' ''shadow'' = Some ?d"
    by (simp_all add: mem_prog_def mem_pod_def mem_deployment_def is_obj_def)
  have m: "mget (Annotations ?p) KtRefCount = []" "mget (Annotations ?d) KtRefCount = []"
    by (simp_all add: mem_pod_def mem_deployment_def)
  have "atoi [] = None" by (simp add: atoi_def)
  from unreadable_ref_count [OF mem_kube_ok [of 7] f m this] show ?thesis by blast
qed

end
