(* ===== verification/ShadowPod.thy ===== *)
theory ShadowPod
  imports ClusterOps
begin

text \<open>
  Creation of the pods of the program: \<open>shadow_pod.go\<close> (create or share a shadow),
  \<open>extra_pod.go\<close> (router and rectifier), \<open>ephemeral_container.go\<close>, \<open>lane.go\<close>, and from
  \<open>pod.go\<close> and \<open>global.go\<close> the remote execution and the list of all objects of the program.
  \<open>opts\<close> are the command line options.
\<close>

section \<open>Remote execution\<close>

definition ExecInPod ::
  "'w kube \<Rightarrow> string \<Rightarrow> string \<Rightarrow> string \<Rightarrow> string list \<Rightarrow> ('w prog, string \<times> string \<times> go_error option) state" where
  "ExecInPod k containerName podName namespace cmd = do {
     r \<leftarrow> lift_io (ExecApi k containerName podName namespace cmd);
     (case r of (stdout, stderr, err) \<Rightarrow>
       (let stdoutMsg = RemoveColor (trim_space stdout);
            stderrMsg = RemoveColor (trim_space stderr);
            rawErrMsg = ExtractErrorMessage stderrMsg
        in State_Monad.return (stdoutMsg, stderrMsg,
             if err = None \<and> rawErrMsg \<noteq> [] then Some (Errorf rawErrMsg) else err)))
   }"

section \<open>The objects of the program\<close>

definition GetKtResources :: "'w kube \<Rightarrow> string \<Rightarrow>
    ('w prog, (pod list \<times> config_map list \<times> deployment list \<times> service list) outcome) state" where
  "GetKtResources k namespace =
     go_try (GetPodsByLabel k kt_label namespace) (\<lambda>pods.
     go_try (GetConfigMapsByLabel k kt_label namespace) (\<lambda>configmaps.
     go_try (GetDeploymentsByLabel k kt_label namespace) (\<lambda>apps.
     go_try (GetServicesByLabel k kt_label namespace) (\<lambda>services.
     State_Monad.return (Value (pods, configmaps, apps, services))))))"

section \<open>Creating a shadow\<close>

definition createShadowDeployment ::
  "'w kube \<Rightarrow> kt_options \<Rightarrow> pod_meta_and_spec \<Rightarrow> string \<Rightarrow> ('w prog, pod_meta_and_spec outcome) state" where
  "createShadowDeployment k opts m sshcm = do {
     time \<leftarrow> now k;
     (case obind (createDeployment (QuantityOk k) opts time m) (\<lambda>(d, m').
             obind (appendSshVolume (TemplateSpec d) sshcm) (\<lambda>spec. Value (d\<lparr>TemplateSpec := spec\<rparr>, m'))) of
        Value (d, m') \<Rightarrow>
          go_try (lift_io (api_create (DeploymentsApi k) (MetaNamespace (PodMeta m)) d)) (\<lambda>_. do {
            SetupHeartBeat ''deployment'' (MetaName (PodMeta m)) (MetaNamespace (PodMeta m));
            State_Monad.return (Value m')
          })
      | Fail e \<Rightarrow> State_Monad.return (Fail e)
      | Panic \<Rightarrow> State_Monad.return Panic)
   }"

definition createShadowPod ::
  "'w kube \<Rightarrow> kt_options \<Rightarrow> pod_meta_and_spec \<Rightarrow> string \<Rightarrow> ('w prog, pod_meta_and_spec outcome) state" where
  "createShadowPod k opts m sshcm = do {
     time \<leftarrow> now k;
     (case obind (createPod (QuantityOk k) opts time m) (\<lambda>(p, m').
             obind (appendSshVolume (PodSpec p) sshcm) (\<lambda>spec. Value (p\<lparr>PodSpec := spec\<rparr>, m'))) of
        Value (p, m') \<Rightarrow>
          go_try (lift_io (api_create (PodsApi k) (MetaNamespace (PodMeta m)) p)) (\<lambda>_. do {
            SetupHeartBeat ''pod'' (MetaName (PodMeta m)) (MetaNamespace (PodMeta m));
            State_Monad.return (Value m')
          })
      | Fail e \<Rightarrow> State_Monad.return (Fail e)
      | Panic \<Rightarrow> State_Monad.return Panic)
   }"

text \<open>The pods of a new deployment are looked up by the labels without the mark of the program.\<close>

definition createAndGetPod ::
  "'w kube \<Rightarrow> kt_options \<Rightarrow> pod_meta_and_spec \<Rightarrow> string \<Rightarrow> ('w prog, pod outcome) state" where
  "createAndGetPod k opts m sshcm =
     (if Global_UseShadowDeployment opts then
        go_try (createShadowDeployment k opts m sshcm) (\<lambda>m'.
        go_try (waitPodsReady k (mdelete (MetaLabels (PodMeta m')) ControlBy) (MetaNamespace (PodMeta m'))
                  (Global_PodCreationTimeout opts) 0) (\<lambda>pods.
        (case pods of [] \<Rightarrow> State_Monad.return Panic | p # _ \<Rightarrow> State_Monad.return (Value p))))
      else
        go_try (createShadowPod k opts m sshcm) (\<lambda>m'.
        waitPodReady k (MetaName (PodMeta m')) (MetaNamespace (PodMeta m')) (Global_PodCreationTimeout opts) 0))"

definition createShadow ::
  "'w kube \<Rightarrow> kt_options \<Rightarrow> pod_meta_and_spec \<Rightarrow> ssh_key_meta \<Rightarrow> ('w prog, (string \<times> string \<times> string) outcome) state" where
  "createShadow k opts m sshKeyMeta =
     go_try (lift_io (GenerateKey k (SshPrivateKeyPath sshKeyMeta))) (\<lambda>generator.
     go_try (createConfigMapWithSshKey k (MetaLabels (PodMeta m)) (SshConfigMapName sshKeyMeta)
               (MetaNamespace (PodMeta m)) generator) (\<lambda>configMap.
     go_try (createAndGetPod k opts m (SshConfigMapName sshKeyMeta)) (\<lambda>p.
     State_Monad.return (Value (PodIP p, Name p, PrivateKeyPath generator)))))"

section \<open>Sharing a shadow\<close>

text \<open>The pod of an existing shadow, None where there is none to share.\<close>

definition existing_shadow_pod ::
  "'w kube \<Rightarrow> kt_options \<Rightarrow> resource_meta \<Rightarrow> ('w prog, pod option outcome) state" where
  "existing_shadow_pod k opts r =
     (if Global_UseShadowDeployment opts then
        go_catch (GetDeployment k (MetaName r) (MetaNamespace r)) (\<lambda>app.
          go_try (GetPodsByLabel k (MatchLabels app) (MetaNamespace r)) (\<lambda>podList.
          State_Monad.return (Value (if length podList = 1 then Some (podList ! 0) else None))))
        (\<lambda>_. State_Monad.return (Value None))
      else
        go_catch (GetPod k (MetaName r) (MetaNamespace r)) (\<lambda>p. State_Monad.return (Value (Some p)))
        (\<lambda>_. State_Monad.return (Value None)))"

text \<open>What is returned when the config map of the shadow cannot be read.\<close>

definition shadow_without_configmap ::
  "'w kube \<Rightarrow> resource_meta \<Rightarrow> pod \<Rightarrow> go_error \<Rightarrow> ('w prog, (pod \<times> ssh_generator) option outcome) state" where
  "shadow_without_configmap k r p err =
     (if err = NotFound \<and> DeletionTimestamp p \<noteq> None then
        go_catch (waitPodTerminate k (MetaName r) (MetaNamespace r) 0)
          (\<lambda>_. State_Monad.return (Value None))
          (\<lambda>e. State_Monad.return (if e = NotFound then Value None else Fail e))
      else State_Monad.return (Fail err))"

definition tryGetExistingShadows ::
  "'w kube \<Rightarrow> kt_options \<Rightarrow> resource_meta \<Rightarrow> ssh_key_meta \<Rightarrow> ('w prog, (pod \<times> ssh_generator) option outcome) state" where
  "tryGetExistingShadows k opts r sshKeyMeta =
     go_try (existing_shadow_pod k opts r) (\<lambda>found.
     (case found of
        None \<Rightarrow> State_Monad.return (Value None)
      | Some p \<Rightarrow>
          go_catch (GetConfigMap k (SshConfigMapName sshKeyMeta) (MetaNamespace r)) (\<lambda>configMap.
            (let generator = \<lparr> PublicKey = mget (Data configMap) SshAuthKey,
                               PrivateKey = mget (Data configMap) SshAuthPrivateKey,
                               PrivateKeyPath = SshPrivateKeyPath sshKeyMeta \<rparr>
             in go_try (lift_io (WritePrivateKey k (PrivateKeyPath generator)
                                  (mget (Data configMap) SshAuthPrivateKey))) (\<lambda>_.
                go_try (if Global_UseShadowDeployment opts
                        then IncreaseDeploymentRef k (MetaName r) (MetaNamespace r)
                        else IncreasePodRef k (MetaName r) (MetaNamespace r)) (\<lambda>_.
                State_Monad.return (Value (Some (p, generator)))))))
          (shadow_without_configmap k r p)))"

section \<open>GetOrCreateShadow\<close>

text \<open>\<open>labels[key] = val\<close> for every entry: a nil map panics at the first one.\<close>

fun set_entries :: "smap \<Rightarrow> (string \<times> string) list \<Rightarrow> smap outcome" where
  "set_entries m [] = Value m"
| "set_entries m ((key, val) # rest) = obind (mset_entry m key val) (\<lambda>m'. set_entries m' rest)"

definition PrivateKeyPathOf :: "'w kube \<Rightarrow> string \<Rightarrow> string" where
  "PrivateKeyPathOf k name = KeyDir k @ ''/'' @ name @ ''.key''"

definition GetOrCreateShadow ::
  "'w kube \<Rightarrow> kt_options \<Rightarrow> string \<Rightarrow> smap \<Rightarrow> smap \<Rightarrow> smap \<Rightarrow> string \<Rightarrow> (int \<times> string) list \<Rightarrow>
   ('w prog, (string \<times> string \<times> string) outcome) state" where
  "GetOrCreateShadow k opts name labels0 annotations0 envs exposePorts portNameDict = do {
     set_store (\<lambda>s. s\<lparr>Store_Shadow := name\<rparr>);
     (case obind (set_entries labels0 (entries (String2Map (Global_WithLabel opts)))) (\<lambda>labels.
           obind (set_entries annotations0 (entries (String2Map (Global_WithAnnotation opts)))) (\<lambda>a.
           obind (mset_entry a KtUser (LocalUserName k)) (\<lambda>annotations. Value (labels, annotations)))) of
        Fail e \<Rightarrow> State_Monad.return (Fail e)
      | Panic \<Rightarrow> State_Monad.return Panic
      | Value (labels, annotations) \<Rightarrow> do {
          set_store (\<lambda>s. case mlookup labels KtLane of Some lane \<Rightarrow> s\<lparr>Store_Lane := lane\<rparr> | None \<Rightarrow> s);
          set_store (\<lambda>s. case mlookup labels KtSession of Some x \<Rightarrow> s\<lparr>Store_Session := x\<rparr> | None \<Rightarrow> s);
          s \<leftarrow> get_store;
          (let resourceMeta = \<lparr> MetaName = name, MetaNamespace = Global_Namespace opts,
                                MetaLabels = labels, MetaAnnotations = annotations \<rparr>;
               sshKeyMeta = \<lparr> SshConfigMapName = name, SshPrivateKeyPath = PrivateKeyPathOf k name \<rparr>;
               ports = (if exposePorts \<noteq> []
                        then shadow_ports (split_on CHR '','' exposePorts) portNameDict (GoMap []) else GoMap []);
               podMeta = \<lparr> PodMeta = resourceMeta, PodImage = Global_Image opts,
                           PodContainerName = ''kt-connect-shadow'', Envs = envs, PodPorts = ports,
                           IsLeaf = False, MainContainerCommand = [], MainContainerArgs = [],
                           MainContainerVolumeMounts = [], PodInitContainers = [], AdditionalContainers = [],
                           PodVolumes = [], PodTemplateAnnotations = NilMap \<rparr>;
               podMeta' = (if mget labels KtLane \<noteq> [] \<and> mget labels KtSession \<noteq> []
                           then enableExplicitLaneShadowTemplate podMeta else podMeta)
           in if Store_Component s = ''connect'' \<and> (Connect_ShareShadow opts \<or> mget labels KtSession \<noteq> [])
              then go_try (tryGetExistingShadows k opts resourceMeta sshKeyMeta) (\<lambda>found.
                     (case found of
                        Some (p, generator) \<Rightarrow> State_Monad.return (Value (PodIP p, Name p, PrivateKeyPath generator))
                      | None \<Rightarrow> createShadow k opts podMeta' sshKeyMeta))
              else createShadow k opts podMeta' sshKeyMeta)
        })
   }"

section \<open>Router and rectifier pods\<close>

definition plain_pod_meta ::
  "string \<Rightarrow> string \<Rightarrow> smap \<Rightarrow> smap \<Rightarrow> string \<Rightarrow> int gomap \<Rightarrow> pod_meta_and_spec" where
  "plain_pod_meta name namespace labels annotations img ports =
     \<lparr> PodMeta = \<lparr> MetaName = name, MetaNamespace = namespace, MetaLabels = labels, MetaAnnotations = annotations \<rparr>,
       PodImage = img, PodContainerName = DefaultContainer, Envs = GoMap [], PodPorts = ports, IsLeaf = True,
       MainContainerCommand = [], MainContainerArgs = [], MainContainerVolumeMounts = [],
       PodInitContainers = [], AdditionalContainers = [], PodVolumes = [], PodTemplateAnnotations = NilMap \<rparr>"

definition CreateRouterPod ::
  "'w kube \<Rightarrow> kt_options \<Rightarrow> string \<Rightarrow> smap \<Rightarrow> smap \<Rightarrow> (int \<times> int) list \<Rightarrow> ('w prog, pod outcome) state" where
  "CreateRouterPod k opts name labels annotations ports =
     (let targetPorts = put_all (GoMap []) (map (\<lambda>(_, remotePort). (''router-'' @ itoa remotePort, remotePort)) ports);
          m = plain_pod_meta name (Global_Namespace opts) labels annotations (Mesh_RouterImage opts) targetPorts
      in do {
        time \<leftarrow> now k;
        (case createPod (QuantityOk k) opts time m of
           Value (p, _) \<Rightarrow>
             go_try (lift_io (api_create (PodsApi k) (Global_Namespace opts) p)) (\<lambda>_. do {
               SetupHeartBeat ''pod'' name (Global_Namespace opts);
               waitPodReady k name (Global_Namespace opts) (Global_PodCreationTimeout opts) 0
             })
         | Fail e \<Rightarrow> State_Monad.return (Fail e)
         | Panic \<Rightarrow> State_Monad.return Panic)
      })"

definition set_command :: "string list \<Rightarrow> pod \<Rightarrow> pod outcome" where
  "set_command cmd p =
     (case Containers (PodSpec p) of
        [] \<Rightarrow> Panic
      | c # cs \<Rightarrow> Value (p\<lparr>PodSpec := (PodSpec p)\<lparr>Containers := c\<lparr>Command := cmd\<rparr> # cs\<rparr>\<rparr>))"

definition CreateRectifierPod :: "'w kube \<Rightarrow> kt_options \<Rightarrow> string \<Rightarrow> ('w prog, pod outcome) state" where
  "CreateRectifierPod k opts name =
     (let m = plain_pod_meta name (Global_Namespace opts) (GoMap []) (GoMap []) (Global_Image opts) (GoMap [])
      in do {
        time \<leftarrow> now k;
        (case obind (createPod (QuantityOk k) opts time m) (\<lambda>(p, _). set_command [''tail'', ''-f'', ''/dev/null''] p) of
           Value p \<Rightarrow>
             go_try (lift_io (api_create (PodsApi k) (Global_Namespace opts) p)) (\<lambda>_.
               waitPodReady k name (Global_Namespace opts) (Global_PodCreationTimeout opts) 0)
         | Fail e \<Rightarrow> State_Monad.return (Fail e)
         | Panic \<Rightarrow> State_Monad.return Panic)
      })"

section \<open>Ephemeral containers and lane filters\<close>

text \<open>
  \<open>update_ephemeral\<close> is the call \<open>UpdateEphemeralContainers\<close>, \<open>base64\<close> the encoding of the key and
  \<open>img\<close> the image of the container; the container is given to the pod of the same name.
\<close>

definition AddEphemeralContainer ::
  "'w kube \<Rightarrow> kt_options \<Rightarrow> (pod \<Rightarrow> ('w, pod outcome) state) \<Rightarrow> (string \<Rightarrow> string) \<Rightarrow> string \<Rightarrow> string \<Rightarrow> string \<Rightarrow> smap \<Rightarrow>
   ('w prog, string outcome) state" where
  "AddEphemeralContainer k opts update_ephemeral base64 img containerName name envs =
     go_try (GetPod k name (Global_Namespace opts)) (\<lambda>p.
     (let privateKeyPath = PrivateKeyPathOf k name
      in go_try (lift_io (GenerateKey k privateKeyPath)) (\<lambda>generator.
         go_catch (createConfigMapWithSshKey k (GoMap []) name (Global_Namespace opts) generator) (\<lambda>configMap. do {
           _ \<leftarrow> lift_io (WritePrivateKey k (PrivateKeyPath generator) (mget (Data configMap) SshAuthPrivateKey));
           (let ec = \<lparr> ContainerName = containerName, Image = img, ImagePullPolicy = [], Command = [], Args = [],
                       Env = (SshAuthPrivateKey, base64 (mget (Data configMap) SshAuthPrivateKey)) # entries envs,
                       Capabilities = [''NET_ADMIN''], Ports = [], VolumeMounts = [],
                       Limits = NilMap, Requests = NilMap \<rparr>
            in go_try (lift_io (update_ephemeral
                 (p\<lparr>PodSpec := (PodSpec p)\<lparr>EphemeralContainers := EphemeralContainers (PodSpec p) @ [ec]\<rparr>\<rparr>))) (\<lambda>_.
               State_Monad.return (Value privateKeyPath)))
         }) (\<lambda>_. State_Monad.return (Fail (Errorf
               (''found shadow pod but no configMap. Please delete the pod '' @ Name p)))))))"

definition RemoveEphemeralContainer :: "'w kube \<Rightarrow> string \<Rightarrow> string \<Rightarrow> string \<Rightarrow> ('w prog, unit outcome) state" where
  "RemoveEphemeralContainer k containerName podName namespace = RemovePod k podName namespace"

definition ApplyLaneEnvoyFilter ::
  "'w kube \<Rightarrow> string \<Rightarrow> string \<Rightarrow> smap \<Rightarrow> string \<Rightarrow> ('w prog, unit outcome) state" where
  "ApplyLaneEnvoyFilter k name namespace labels lane =
     (if lane = [] then State_Monad.return (Value ())
      else (case EnvoyFiltersApi k of
        Fail e \<Rightarrow> State_Monad.return (Fail e)
      | Panic \<Rightarrow> State_Monad.return Panic
      | Value api \<Rightarrow>
          (let sel = buildLaneWorkloadSelector labels
           in if mlen sel = 0 then State_Monad.return (Fail (Errorf ''cannot build workload selector from labels''))
              else (let ob = buildLaneEnvoyFilterObject name namespace sel lane
                    in go_catch (lift_io (api_create api namespace ob)) (\<lambda>_. State_Monad.return (Value ())) (\<lambda>err.
                         if err \<noteq> AlreadyExists
                         then State_Monad.return (Fail (Errorf (''create lane envoy filter '' @ name)))
                         else go_catch (lift_io (api_get api namespace name)) (\<lambda>current.
                                go_catch (lift_io (api_update api namespace (ob\<lparr>ResourceVersion := ResourceVersion current\<rparr>)))
                                  (\<lambda>_. State_Monad.return (Value ()))
                                  (\<lambda>_. State_Monad.return (Fail (Errorf (''update lane envoy filter '' @ name)))))
                              (\<lambda>_. State_Monad.return (Fail (Errorf (''get existing lane envoy filter '' @ name)))))))))"

end
