(* ===== verification/Json.thy ===== *)
theory Json
  imports KtPrelude "HOL-Library.Char_ord" "HOL-Library.List_Lexorder"
begin

text \<open>
  \<open>json.Marshal\<close> and \<open>json.Unmarshal\<close> of Go's standard library at the type \<open>map[string]string\<close>, which
  is all that the program uses of them for the selector annotation: keys in sorted order, the
  escapes of the encoder, and a parser of objects of strings that follows the JSON syntax.
  Strings are bytes; a pair of surrogate escapes is read as two replacement characters.
  \<open>map_codec\<close> is the contract that the clients rely on.
\<close>

section \<open>The encoder\<close>

definition hex_digit :: "nat \<Rightarrow> char" where
  "hex_digit n = (if n < 10 then char_of (48 + n) else char_of (87 + n))"

definition json_esc :: "char \<Rightarrow> string" where
  "json_esc c =
     (let n = of_char c :: nat
      in if n = 34 \<or> n = 92 then [CHR 0x5C, c]
         else if n = 8 then [CHR 0x5C, CHR ''b'']
         else if n = 12 then [CHR 0x5C, CHR ''f'']
         else if n = 10 then [CHR 0x5C, CHR ''n'']
         else if n = 13 then [CHR 0x5C, CHR ''r'']
         else if n = 9 then [CHR 0x5C, CHR ''t'']
         else if n < 32 \<or> n = 60 \<or> n = 62 \<or> n = 38
         then [CHR 0x5C, CHR ''u'', CHR ''0'', CHR ''0'', hex_digit (n div 16), hex_digit (n mod 16)]
         else [c])"

definition json_string :: "string \<Rightarrow> string" where
  "json_string s = CHR 0x22 # concat (map json_esc s) @ [CHR 0x22]"

definition json_member :: "string \<times> string \<Rightarrow> string" where
  "json_member e = json_string (fst e) @ CHR '':'' # json_string (snd e)"

definition json_marshal :: "smap \<Rightarrow> string" where
  "json_marshal m =
     (case m of NilMap \<Rightarrow> ''null''
      | GoMap al \<Rightarrow> CHR 0x7B # join_with '','' (map json_member (sort_key fst al)) @ [CHR 0x7D])"

section \<open>The decoder\<close>

definition json_ws :: "char \<Rightarrow> bool" where
  "json_ws c \<longleftrightarrow> of_char c \<in> {9, 10, 13, 32 :: nat}"

definition skip_ws :: "string \<Rightarrow> string" where
  "skip_ws s = dropWhile json_ws s"

definition hex_val :: "char \<Rightarrow> nat option" where
  "hex_val c =
     (let n = of_char c :: nat
      in if 48 \<le> n \<and> n \<le> 57 then Some (n - 48)
         else if 97 \<le> n \<and> n \<le> 102 then Some (n - 87)
         else if 65 \<le> n \<and> n \<le> 70 then Some (n - 55) else None)"

definition hex4 :: "char \<Rightarrow> char \<Rightarrow> char \<Rightarrow> char \<Rightarrow> nat option" where
  "hex4 a b c d =
     (case (hex_val a, hex_val b, hex_val c, hex_val d) of
        (Some w, Some x, Some y, Some z) \<Rightarrow> Some (4096 * w + 256 * x + 16 * y + z)
      | _ \<Rightarrow> None)"

definition utf8 :: "nat \<Rightarrow> string" where
  "utf8 n =
     (if n < 128 then [char_of n]
      else if n < 2048 then [char_of (192 + n div 64), char_of (128 + n mod 64)]
      else if 55296 \<le> n \<and> n < 57344 then [char_of (239::nat), char_of (191::nat), char_of (189::nat)]
      else [char_of (224 + n div 4096), char_of (128 + n div 64 mod 64), char_of (128 + n mod 64)])"

definition simple_escape :: "char \<Rightarrow> char option" where
  "simple_escape e =
     (if e = CHR 0x22 \<or> e = CHR 0x5C \<or> e = CHR ''/'' then Some e
      else if e = CHR ''b'' then Some (char_of (8::nat))
      else if e = CHR ''f'' then Some (char_of (12::nat))
      else if e = CHR ''n'' then Some (char_of (10::nat))
      else if e = CHR ''r'' then Some (char_of (13::nat))
      else if e = CHR ''t'' then Some (char_of (9::nat)) else None)"

text \<open>The text up to the closing quote, decoded, and what follows it.\<close>

fun parse_str :: "string \<Rightarrow> (string \<times> string) option" where
  "parse_str [] = None"
| "parse_str (c # cs) =
     (if c = CHR 0x22 then Some ([], cs)
      else if c = CHR 0x5C then
        (case cs of
           e # r \<Rightarrow>
             (if e = CHR ''u'' then
                (case r of
                   h1 # h2 # h3 # h4 # r' \<Rightarrow>
                     (case hex4 h1 h2 h3 h4 of
                        Some n \<Rightarrow> map_option (\<lambda>(s, rest). (utf8 n @ s, rest)) (parse_str r')
                      | None \<Rightarrow> None)
                 | _ \<Rightarrow> None)
              else (case simple_escape e of
                      Some x \<Rightarrow> map_option (\<lambda>(s, rest). (x # s, rest)) (parse_str r)
                    | None \<Rightarrow> None))
         | [] \<Rightarrow> None)
      else if (of_char c :: nat) < 32 then None
      else map_option (\<lambda>(s, rest). (c # s, rest)) (parse_str cs))"

lemma parse_str_length: "parse_str s = Some (t, rest) \<Longrightarrow> length rest < length s"
proof (induction s arbitrary: t rest rule: parse_str.induct)
  case (2 c cs)
  show ?case
  proof (cases "c = CHR 0x22 \<or> c \<noteq> CHR 0x5C")
    case True
    with 2 show ?thesis by (fastforce split: if_splits)
  next
    case False
    then obtain e r where cs: "cs = e # r" using 2 by (auto split: list.splits)
    show ?thesis
    proof (cases "e = CHR ''u''")
      case True
      with 2 False cs show ?thesis
        by (fastforce split: list.splits option.splits)
    next
      case e: False
      with 2 False cs show ?thesis
        by (fastforce split: option.splits)
    qed
  qed
qed simp

text \<open>A value: a string, or null, which leaves the zero value.\<close>

definition parse_value :: "string \<Rightarrow> (string \<times> string) option" where
  "parse_value s =
     (case s of
        c # cs \<Rightarrow> if c = CHR 0x22 then parse_str cs
                 else if has_prefix s ''null'' then Some ([], drop 4 s) else None
      | [] \<Rightarrow> None)"

definition parse_member :: "string \<Rightarrow> ((string \<times> string) \<times> string) option" where
  "parse_member s =
     (case skip_ws s of
        q # cs \<Rightarrow>
          (if q = CHR 0x22 then
             (case parse_str cs of
                Some (key, r) \<Rightarrow>
                  (case skip_ws r of
                     d # r' \<Rightarrow>
                       (if d = CHR '':'' then
                          map_option (\<lambda>(v, rest). ((key, v), skip_ws rest)) (parse_value (skip_ws r'))
                        else None)
                   | [] \<Rightarrow> None)
              | None \<Rightarrow> None)
           else None)
      | [] \<Rightarrow> None)"

lemma skip_ws_length: "length (skip_ws s) \<le> length s"
  by (simp add: skip_ws_def length_dropWhile_le)

lemma parse_value_length: "parse_value s = Some (v, rest) \<Longrightarrow> length rest < length s"
  by (auto simp: parse_value_def split: list.splits if_splits dest: parse_str_length)

lemma parse_member_length:
  assumes "parse_member s = Some (e, rest)"
  shows "length rest < length s"
proof -
  obtain q cs key r r' v rest' where p: "skip_ws s = q # cs" "parse_str cs = Some (key, r)" "skip_ws r = CHR '':'' # r'"
    "parse_value (skip_ws r') = Some (v, rest')" "rest = skip_ws rest'"
    using assms by (auto simp: parse_member_def split: list.splits if_splits option.splits)
  show ?thesis
    using p skip_ws_length [of s] skip_ws_length [of r] skip_ws_length [of r'] skip_ws_length [of rest']
      parse_str_length [OF p(2)] parse_value_length [OF p(4)] by simp
qed

text \<open>The members of an object after its opening brace, and what follows its closing one.\<close>

function parse_members :: "string \<Rightarrow> ((string \<times> string) list \<times> string) option" where
  "parse_members s =
     (case parse_member s of
        None \<Rightarrow> None
      | Some (e, rest) \<Rightarrow>
          (case rest of
             c # cs \<Rightarrow>
               (if c = CHR '','' then map_option (\<lambda>(es, r). (e # es, r)) (parse_members cs)
                else if c = CHR 0x7D then Some ([e], cs) else None)
           | [] \<Rightarrow> None))"
  by pat_completeness auto
termination
  by (relation "measure length") (auto dest: parse_member_length)

declare parse_members.simps [simp del]

definition parse_object :: "string \<Rightarrow> ((string \<times> string) list \<times> string) option" where
  "parse_object s =
     (case skip_ws s of
        c # cs \<Rightarrow> if c = CHR 0x7D then Some ([], cs) else parse_members s
      | [] \<Rightarrow> None)"

definition json_unmarshal :: "string \<Rightarrow> smap outcome" where
  "json_unmarshal text =
     (let s = skip_ws text; bad = Fail (OtherError ''json: cannot unmarshal'')
      in if has_prefix s ''null'' \<and> skip_ws (drop 4 s) = [] then Value NilMap
         else case s of
                c # cs \<Rightarrow>
                  (if c = CHR 0x7B then
                     (case parse_object cs of
                        Some (es, rest) \<Rightarrow> if skip_ws rest = [] then Value (foldl (\<lambda>m (x, v). mput m x v) (GoMap []) es) else bad
                      | None \<Rightarrow> bad)
                   else bad)
              | [] \<Rightarrow> bad)"

section \<open>Round trip\<close>

lemma hex_digit_val: "n < 16 \<Longrightarrow> hex_val (hex_digit n) = Some n"
  by (auto simp: hex_digit_def hex_val_def)

lemma char_codes:
  "c = CHR 0x22 \<longleftrightarrow> of_char c = (34 :: nat)" "c = CHR 0x5C \<longleftrightarrow> of_char c = (92 :: nat)"
proof -
  have "(of_char c :: nat) = of_char (CHR 0x22) \<longleftrightarrow> c = CHR 0x22"
    "(of_char c :: nat) = of_char (CHR 0x5C) \<longleftrightarrow> c = CHR 0x5C"
    by (rule of_char_eq_iff)+
  then show "c = CHR 0x22 \<longleftrightarrow> of_char c = (34 :: nat)" "c = CHR 0x5C \<longleftrightarrow> of_char c = (92 :: nat)"
    by simp_all
qed

lemma char_of_code: "of_char c = (n :: nat) \<Longrightarrow> char_of n = c"
  by auto

lemma hex4_code: "n < 128 \<Longrightarrow> hex4 (CHR ''0'') (CHR ''0'') (hex_digit (n div 16)) (hex_digit (n mod 16)) = Some n"
  using hex_digit_val [of "n div 16"] hex_digit_val [of "n mod 16"]
  by (simp add: hex4_def hex_val_def)

lemma parse_esc: "parse_str (json_esc c @ s) = map_option (\<lambda>(t, rest). (c # t, rest)) (parse_str s)"
proof -
  let ?n = "of_char c :: nat"
  consider "?n = 34 \<or> ?n = 92" | "?n \<in> {8, 9, 10, 12, 13}"
    | "?n < 32 \<or> ?n \<in> {60, 62, 38}" "?n \<notin> {8, 9, 10, 12, 13}"
    | "\<not> (?n < 32 \<or> ?n \<in> {60, 62, 38})" "\<not> (?n = 34 \<or> ?n = 92)"
    by argo
  then show ?thesis
  proof cases
    case 1
    then have "c = CHR 0x22 \<or> c = CHR 0x5C" by (simp only: char_codes)
    then show ?thesis by (elim disjE; simp add: json_esc_def simple_escape_def)
  next
    case 2
    then obtain n :: nat where "c = char_of n" and "n \<in> {8, 9, 10, 12, 13}"
      using char_of_code [of c ?n] by metis
    then show ?thesis
      by (elim insertE emptyE; simp add: json_esc_def simple_escape_def)
  next
    case 3
    then have "?n < 128" by auto
    then have "hex4 (CHR ''0'') (CHR ''0'') (hex_digit (?n div 16)) (hex_digit (?n mod 16)) = Some ?n"
      and "utf8 ?n = [c]"
      using hex4_code [of ?n] by (simp_all add: utf8_def)
    with 3 show ?thesis by (auto simp: json_esc_def Let_def)
  next
    case 4
    then have "c \<noteq> CHR 0x22" "c \<noteq> CHR 0x5C" unfolding char_codes by blast+
    moreover have "json_esc c = [c]" using 4 by (simp add: json_esc_def)
    ultimately show ?thesis using 4 by simp
  qed
qed

lemma parse_json_string: "parse_str (concat (map json_esc t) @ CHR 0x22 # s) = Some (t, s)"
  by (induction t) (simp_all add: parse_esc)

lemma skip_ws_not_ws [simp]: "\<not> json_ws c \<Longrightarrow> skip_ws (c # s) = c # s"
  by (simp add: skip_ws_def)

lemma ws_marks [simp]:
  "\<not> json_ws (CHR 0x22)" "\<not> json_ws (CHR '':'')" "\<not> json_ws (CHR '','')" "\<not> json_ws (CHR 0x7D)"
  "\<not> json_ws (CHR 0x7B)" "\<not> json_ws (CHR ''n'')"
  by (simp_all add: json_ws_def)

lemma parse_json_member:
  "skip_ws s = s \<Longrightarrow> parse_member (json_member (x, v) @ s) = Some ((x, v), s)"
  by (simp add: parse_member_def json_member_def json_string_def parse_json_string parse_value_def)

lemma parse_json_members:
  "es \<noteq> [] \<Longrightarrow> parse_members (join_with '','' (map json_member es) @ CHR 0x7D # s) = Some (es, s)"
proof (induction "'',''" "map json_member es" arbitrary: es rule: join_with.induct)
  case (2 m)
  then obtain e where "es = [e]" by auto
  then show ?case
    using parse_json_member [of "CHR 0x7D # s" "fst e" "snd e"]
    by (subst parse_members.simps) simp
next
  case (3 m1 m2 ms)
  then obtain e1 e2 es' where es: "es = e1 # e2 # es'" by (auto simp: map_eq_Cons_conv)
  then have "parse_members (join_with '','' (map json_member (e2 # es')) @ CHR 0x7D # s) = Some (e2 # es', s)"
    using 3(1) [of "e2 # es'"] 3(2) by simp
  then show ?case
    using parse_json_member [of "CHR '','' # join_with '','' (map json_member (e2 # es')) @ CHR 0x7D # s" "fst e1" "snd e1"]
    unfolding es by (subst parse_members.simps) simp
qed simp

lemma foldl_mput:
  "mlookup (foldl (\<lambda>m (x, v). mput m x v) m es) j = (case map_of (rev es) j of Some v \<Rightarrow> Some v | None \<Rightarrow> mlookup m j)"
  by (induction es arbitrary: m) (auto simp: map_add_def split: option.splits)

lemma join_members_head: "es \<noteq> [] \<Longrightarrow> \<exists>t. join_with '','' (map json_member es) = CHR 0x22 # t"
  by (cases es; cases "tl es") (auto simp: json_member_def json_string_def)

lemma unmarshal_marshal:
  assumes "mwf m"
  shows "\<exists>m'. json_unmarshal (json_marshal m) = Value m' \<and> (m' = NilMap \<longleftrightarrow> m = NilMap) \<and>
    mlookup m' = mlookup m"
proof (cases m)
  case NilMap
  then show ?thesis by (simp add: json_marshal_def json_unmarshal_def has_prefix_def skip_ws_def)
next
  case (GoMap al)
  let ?es = "sort_key fst al"
  let ?m = "foldl (\<lambda>m (x, v). mput m x v) (GoMap []) ?es"
  have obj: "parse_object (join_with '','' (map json_member ?es) @ [CHR 0x7D]) = Some (?es, [])"
  proof (cases "?es = []")
    case True
    then show ?thesis by (simp add: parse_object_def)
  next
    case False
    then show ?thesis
      using parse_json_members [OF False, of "[]"] join_members_head [OF False]
      by (auto simp: parse_object_def)
  qed
  have "json_unmarshal (json_marshal m) = Value ?m"
    using obj by (simp add: GoMap json_marshal_def json_unmarshal_def has_prefix_def skip_ws_def Let_def)
  moreover have "mlookup ?m j = mlookup m j" for j
  proof -
    have d: "distinct (map fst al)" using assms GoMap by (simp add: mwf_def)
    then have "distinct (map fst (rev ?es))"
      by (simp add: distinct_map)
    moreover have "set (rev ?es) = set al" by simp
    ultimately have "map_of (rev ?es) = map_of al"
      using d by (simp add: map_of_inject_set)
    moreover have "mlookup ?m j = map_of (rev ?es) j"
      using foldl_mput [of "GoMap []" ?es j] by (simp split: option.splits)
    ultimately show ?thesis by (simp add: GoMap mlookup_def [of "GoMap al"])
  qed
  moreover have "?m \<noteq> NilMap"
    by (cases "?es" rule: rev_cases) auto
  ultimately show ?thesis using GoMap by auto
qed

section \<open>The contract\<close>

locale map_codec =
  fixes marshal :: "smap \<Rightarrow> string"
    and unmarshal :: "string \<Rightarrow> smap outcome"
  assumes round_trip: "mwf m \<Longrightarrow>
    \<exists>m'. unmarshal (marshal m) = Value m' \<and> (m' = NilMap \<longleftrightarrow> m = NilMap) \<and> mlookup m' = mlookup m"
    and not_empty: "marshal m \<noteq> []"
begin

lemma marshal_determines: "mwf m \<Longrightarrow> mwf n \<Longrightarrow> marshal m = marshal n \<Longrightarrow> mlookup m = mlookup n"
  using round_trip [of m] round_trip [of n] by auto

end

interpretation json: map_codec json_marshal json_unmarshal
proof (unfold_locales)
  show "json_marshal m \<noteq> []" for m by (simp add: json_marshal_def split: gomap.splits)
qed (rule unmarshal_marshal)

end
