(* ===== verification/ServiceOps.thy ===== *)
theory ServiceOps
  imports ShadowPod Json
begin

text \<open>
  \<open>pkg/kt/command/general/resource.go\<close>: names of resources, the service of a deployment and back,
  and the redirection of a service to the pods of the program.  The original selector of a service
  is kept as JSON in its \<open>kt-selector\<close> annotation.  With \<open>RecoverOriginalService\<close> of
  \<open>teardown.go\<close> the redirection is undone.
\<close>

section \<open>Names and lookups\<close>

definition ParseResourceName :: "string \<Rightarrow> (string \<times> string) outcome" where
  "ParseResourceName resourceName =
     (let segments = split_on CHR ''/'' resourceName
      in if length segments > 2 then Fail (Errorf (''invalid resource name: '' @ resourceName))
         else if length segments = 2 then Value (segments ! 0, segments ! 1)
         else Value (''service'', resourceName))"

definition not_found_in :: "string \<Rightarrow> string \<Rightarrow> string \<Rightarrow> go_error" where
  "not_found_in kind name namespace =
     Errorf (kind @ '' '' @ quoted name @ '' is not found in namespace '' @ namespace)"

definition getServiceByDeployment :: "'w kube \<Rightarrow> deployment \<Rightarrow> string \<Rightarrow> ('w prog, service outcome) state" where
  "getServiceByDeployment k app namespace =
     go_try (GetServicesBySelector k (MatchLabels app) namespace) (\<lambda>svcList.
     (case svcList of
        [] \<Rightarrow> State_Monad.return (Fail (Errorf (''failed to find service for deployment '' @ quoted (Name app))))
      | svc # _ \<Rightarrow>
          if has_suffix (Name svc) StuntmanServiceSuffix
          then GetService k (trim_suffix (Name svc) StuntmanServiceSuffix) namespace
          else State_Monad.return (Value svc)))"

definition getDeploymentByService :: "'w kube \<Rightarrow> service \<Rightarrow> string \<Rightarrow> ('w prog, deployment outcome) state" where
  "getDeploymentByService k svc namespace =
     go_try (GetAllDeploymentInNamespace k namespace) (\<lambda>apps.
     (case find (\<lambda>app. MapContains (Selector svc) (TemplateLabels app)) apps of
        Some app \<Rightarrow> State_Monad.return (Value app)
      | None \<Rightarrow> State_Monad.return (Fail (Errorf (''failed to find deployment for service '' @ quoted (Name svc))))))"

definition GetServiceByResourceName :: "'w kube \<Rightarrow> string \<Rightarrow> string \<Rightarrow> ('w prog, service outcome) state" where
  "GetServiceByResourceName k resourceName namespace =
     go_try (State_Monad.return (ParseResourceName resourceName)) (\<lambda>(resourceType, name).
       if resourceType = ''deploy'' \<or> resourceType = ''deployment'' then
         go_catch (GetDeployment k name namespace) (\<lambda>app. getServiceByDeployment k app namespace)
           (\<lambda>err. State_Monad.return (Fail (if err = NotFound then not_found_in ''deployment'' name namespace else err)))
       else if resourceType = ''svc'' \<or> resourceType = ''service'' then
         go_catch (GetService k name namespace) (\<lambda>svc. State_Monad.return (Value svc))
           (\<lambda>err. State_Monad.return (Fail (if err = NotFound then not_found_in ''service'' name namespace else err)))
       else State_Monad.return (Fail (Errorf (''invalid resource type: '' @ resourceType))))"

definition GetDeploymentByResourceName :: "'w kube \<Rightarrow> string \<Rightarrow> string \<Rightarrow> ('w prog, deployment outcome) state" where
  "GetDeploymentByResourceName k resourceName namespace =
     go_try (State_Monad.return (ParseResourceName resourceName)) (\<lambda>(resourceType, name).
       if resourceType = ''deploy'' \<or> resourceType = ''deployment'' then
         go_catch (GetDeployment k name namespace) (\<lambda>app. State_Monad.return (Value app))
           (\<lambda>err. State_Monad.return (Fail (if err = NotFound then not_found_in ''deployment'' name namespace else err)))
       else if resourceType = ''svc'' \<or> resourceType = ''service'' then
         go_catch (GetService k name namespace) (\<lambda>svc. getDeploymentByService k svc namespace)
           (\<lambda>err. State_Monad.return (Fail (if err = NotFound then not_found_in ''service'' name namespace else err)))
       else State_Monad.return (Fail (Errorf (''invalid resource type: '' @ resourceType))))"

section \<open>Target ports\<close>

definition named_ports :: "pod \<Rightarrow> string \<Rightarrow> (int \<times> string) list" where
  "named_ports p portName =
     concat (map (\<lambda>c. map (\<lambda>cp. (ContainerPort cp, PortName cp)) (filter (\<lambda>cp. PortName cp = portName) (Ports c)))
       (Containers (PodSpec p)))"

fun put_ports :: "(int \<times> string) list \<Rightarrow> (int \<times> string) list \<Rightarrow> (int \<times> string) list" where
  "put_ports m [] = m"
| "put_ports m ((p, n) # rest) = put_ports (AList.update p n m) rest"

text \<open>The pod is fetched for the first port that is a name, and kept for the following ones.\<close>

fun target_ports_loop ::
  "'w kube \<Rightarrow> kt_options \<Rightarrow> service \<Rightarrow> service_port list \<Rightarrow> pod option \<Rightarrow> (int \<times> string) list \<Rightarrow>
   ('w prog, (int \<times> string) list outcome) state" where
  "target_ports_loop k opts svc [] po m = State_Monad.return (Value m)"
| "target_ports_loop k opts svc (p # ps) po m =
     (case TargetPort p of
        IntPort n \<Rightarrow> target_ports_loop k opts svc ps po (AList.update n (''kt-'' @ itoa n) m)
      | StrPort portName \<Rightarrow>
          (case po of
             Some pd \<Rightarrow> target_ports_loop k opts svc ps po (put_ports m (named_ports pd portName))
           | None \<Rightarrow>
               go_catch (GetPodsByLabel k (Selector svc) (Global_Namespace opts)) (\<lambda>pods.
                 (case pods of
                    [] \<Rightarrow> State_Monad.return (Value [])
                  | pd # _ \<Rightarrow> target_ports_loop k opts svc ps (Some pd) (put_ports m (named_ports pd portName))))
               (\<lambda>_. State_Monad.return (Value []))))"

definition GetTargetPorts :: "'w kube \<Rightarrow> kt_options \<Rightarrow> service \<Rightarrow> ('w prog, (int \<times> string) list outcome) state" where
  "GetTargetPorts k opts svc = target_ports_loop k opts svc (SvcPorts svc) None []"

section \<open>Redirecting a service\<close>

definition isServiceChanged :: "service \<Rightarrow> smap \<Rightarrow> string \<Rightarrow> bool" where
  "isServiceChanged svc sel marshaledSelector \<longleftrightarrow>
     \<not> MapEquals (Selector svc) sel \<or> Annotations svc = NilMap \<or>
     mget (Annotations svc) KtSelector \<noteq> marshaledSelector"

text \<open>The service with its original selector recorded, and the record.\<close>

definition record_selector :: "service \<Rightarrow> (service \<times> string) outcome" where
  "record_selector svc =
     (if Annotations svc \<noteq> NilMap \<and> mget (Annotations svc) KtSelector \<noteq> []
      then Value (svc, mget (Annotations svc) KtSelector)
      else if mget (Selector svc) KtRole \<noteq> []
      then Fail (Errorf ''exchange or mesh service selecting kt pods is not allow'')
      else (let marshaledSelector = json_marshal (Selector svc)
            in Value (svc\<lparr>Annotations := MapPut (Annotations svc) KtSelector marshaledSelector\<rparr>, marshaledSelector)))"

definition UpdateServiceSelector :: "'w kube \<Rightarrow> string \<Rightarrow> string \<Rightarrow> smap \<Rightarrow> ('w prog, unit outcome) state" where
  "UpdateServiceSelector k svcName namespace sel =
     go_try (GetService k svcName namespace) (\<lambda>svc0.
     (case record_selector svc0 of
        Fail e \<Rightarrow> State_Monad.return (Fail e)
      | Panic \<Rightarrow> State_Monad.return Panic
      | Value (svc, marshaledSelector) \<Rightarrow>
          if isServiceChanged svc sel marshaledSelector
          then go_try (UpdateService k (svc\<lparr>Selector := sel\<rparr>)) (\<lambda>_. State_Monad.return (Value ()))
          else State_Monad.return (Value ())))"

text \<open>
  The handler that watches the service afterwards: when somebody else has changed it while the
  router pod lives, it waits a random time \<open>delay\<close> and sets selector and record again.
\<close>

definition selector_guard ::
  "'w kube \<Rightarrow> int \<Rightarrow> string \<Rightarrow> string \<Rightarrow> smap \<Rightarrow> string \<Rightarrow> service \<Rightarrow> ('w prog, unit outcome) state" where
  "selector_guard k delay svcName namespace sel marshaledSelector newSvc =
     go_catch (GetPodsByLabel k sel namespace) (\<lambda>pods.
       (case pods of
          [] \<Rightarrow> State_Monad.return (Value ())
        | p # _ \<Rightarrow>
            if DeletionTimestamp p \<noteq> None \<or> \<not> isServiceChanged newSvc sel marshaledSelector
            then State_Monad.return (Value ())
            else State_Monad.bind (sleep k delay) (\<lambda>_.
              go_catch (GetService k svcName namespace) (\<lambda>svc.
                if isServiceChanged svc sel marshaledSelector
                then go_catch (UpdateService k (svc\<lparr>Selector := sel,
                         Annotations := MapPut (Annotations svc) KtSelector marshaledSelector\<rparr>))
                       (\<lambda>_. State_Monad.return (Value ())) (\<lambda>_. State_Monad.return (Value ()))
                else State_Monad.return (Value ()))
              (\<lambda>_. State_Monad.return (Value ())))))
     (\<lambda>_. State_Monad.return (Value ()))"

text \<open>\<open>teardown.go\<close>; every error is only logged.\<close>

definition RecoverOriginalService :: "'w kube \<Rightarrow> string \<Rightarrow> string \<Rightarrow> ('w prog, unit outcome) state" where
  "RecoverOriginalService k svcName namespace =
     go_catch (GetService k svcName namespace) (\<lambda>svc.
       (case Annotations svc of
          NilMap \<Rightarrow> State_Monad.return (Value ())
        | GoMap _ \<Rightarrow>
            (case mlookup (Annotations svc) KtSelector of
               None \<Rightarrow> State_Monad.return (Value ())
             | Some originSelector \<Rightarrow>
                 (case json_unmarshal originSelector of
                    Value sel \<Rightarrow>
                      go_catch (UpdateService k (svc\<lparr>Selector := sel,
                          Annotations := mdelete (Annotations svc) KtSelector\<rparr>))
                        (\<lambda>_. State_Monad.return (Value ())) (\<lambda>_. State_Monad.return (Value ()))
                  | Fail _ \<Rightarrow> State_Monad.return (Value ())
                  | Panic \<Rightarrow> State_Monad.return Panic))))
     (\<lambda>_. State_Monad.return (Value ()))"


text \<open>The user annotation of the first object of a list, in brackets.\<close>

definition user_of :: "'m object_meta_scheme list outcome \<Rightarrow> string" where
  "user_of r =
     (case r of
        Value (p # _) \<Rightarrow>
          if Annotations p \<noteq> NilMap \<and> mget (Annotations p) KtUser \<noteq> []
          then '' ('' @ mget (Annotations p) KtUser @ '')'' else []
      | _ \<Rightarrow> [])"

definition GetOccupiedUser :: "'w kube \<Rightarrow> kt_options \<Rightarrow> smap \<Rightarrow> ('w prog, string) state" where
  "GetOccupiedUser k opts labels = do {
     podList \<leftarrow> GetPodsByLabel k labels (Global_Namespace opts);
     if user_of podList \<noteq> [] then State_Monad.return (user_of podList)
     else do {
       appList \<leftarrow> GetDeploymentsByLabel k labels (Global_Namespace opts);
       State_Monad.return (user_of appList)
     }
   }"

section \<open>What redirection keeps\<close>

definition same_service :: "service \<Rightarrow> service \<Rightarrow> bool" where
  "same_service a b \<longleftrightarrow> Name a = Name b \<and> Namespace a = Namespace b \<and> Labels a = Labels b \<and>
     DeletionTimestamp a = DeletionTimestamp b \<and> SvcPorts a = SvcPorts b \<and> SvcType a = SvcType b \<and>
     ClusterIP a = ClusterIP b"

text \<open>A service of a user: no record, and not selecting pods of the program.\<close>

definition plain_service :: "service \<Rightarrow> bool" where
  "plain_service svc \<longleftrightarrow> mlookup (Annotations svc) KtSelector = None \<and>
     mget (Selector svc) KtRole = [] \<and> mwf (Selector svc)"

definition same_annotations :: "service \<Rightarrow> service \<Rightarrow> bool" where
  "same_annotations a b \<longleftrightarrow> (\<forall>j. j \<noteq> KtSelector \<longrightarrow> mlookup (Annotations a) j = mlookup (Annotations b) j)"

text \<open>The service still is the original, or it carries the record of the original's selector.\<close>

definition restorable :: "service \<Rightarrow> service \<Rightarrow> bool" where
  "restorable orig cur \<longleftrightarrow> same_service orig cur \<and> same_annotations orig cur \<and>
     (mlookup (Annotations cur) KtSelector = Some (json_marshal (Selector orig)) \<or>
      mlookup (Annotations cur) KtSelector = None \<and> Selector cur = Selector orig)"

definition restored :: "service \<Rightarrow> service \<Rightarrow> bool" where
  "restored orig cur \<longleftrightarrow> same_service orig cur \<and>
     mlookup (Annotations cur) = mlookup (Annotations orig) \<and>
     mlookup (Selector cur) = mlookup (Selector orig) \<and> (Selector cur = NilMap \<longleftrightarrow> Selector orig = NilMap)"

text \<open>Everything but the service \<open>name\<close> is the same in two states.\<close>

definition service_frame ::
  "('w \<Rightarrow> cluster_objects) \<Rightarrow> string \<Rightarrow> string \<Rightarrow> 'w prog \<Rightarrow> 'w prog \<Rightarrow> bool" where
  "service_frame view namespace name s t \<longleftrightarrow>
     ClPods (view (World t)) = ClPods (view (World s)) \<and>
     ClDeployments (view (World t)) = ClDeployments (view (World s)) \<and>
     ClConfigMaps (view (World t)) = ClConfigMaps (view (World s)) \<and>
     Store t = Store s \<and> Heartbeats t = Heartbeats s \<and>
     (\<forall>ms m. (ms, m) \<noteq> (namespace, name) \<longrightarrow>
        find_obj (ClServices (view (World t))) ms m = find_obj (ClServices (view (World s))) ms m)"

lemma service_frame_refl [simp]: "service_frame view ns n s s"
  by (simp add: service_frame_def)

lemma service_frame_trans:
  "service_frame view ns n s t \<Longrightarrow> service_frame view ns n t u \<Longrightarrow> service_frame view ns n s u"
  by (simp add: service_frame_def)

lemma GetService_found:
  "api_server k view \<Longrightarrow> find_obj (ClServices (view (World s))) ns n = Some svc \<Longrightarrow>
   run_state (GetService k n ns) s = (Value svc, s)"
  by (simp add: GetService_def crud_get [OF api_services] get_spec_def)

lemma UpdateService_found:
  assumes a: "api_server k view" and f: "find_obj (ClServices (view (World s))) ns n = Some svc"
    and o: "Name svc' = n" "Namespace svc' = ns" "ResourceVersion svc' = ResourceVersion svc"
  shows "\<exists>t. run_state (UpdateService k svc') s = (Value (bump svc'), t) \<and>
    find_obj (ClServices (view (World t))) ns n = Some (bump svc') \<and> service_frame view ns n s t"
proof -
  obtain r w' where r: "run_state (api_update (ServicesApi k) ns svc') (World s) = (r, w')" by fastforce
  have u: "update_spec (ClServices (view (World s))) ns svc'
      = (Value (bump svc'), put_obj (ClServices (view (World s))) (bump svc'))"
    using f o by (simp add: update_spec_def)
  have w: "r = Value (bump svc')"
    "view w' = set_services (put_obj (ClServices (view (World s))) (bump svc')) (view (World s))"
    using crud_update [OF api_services [OF a] r] u by simp_all
  have "run_state (UpdateService k svc') s = (Value (bump svc'), s\<lparr>World := w'\<rparr>)"
    using r w o by (simp add: UpdateService_def)
  moreover have "find_obj (ClServices (view w')) ns n = Some (bump svc')"
    using w f o by (simp add: set_services_def find_put_obj is_obj_def)
  moreover have "service_frame view ns n s (s\<lparr>World := w'\<rparr>)"
    using w o by (auto simp: service_frame_def set_services_def find_put_obj is_obj_def)
  ultimately show ?thesis by auto
qed

lemma mlookup_MapPut_any: "mlookup (MapPut m k v) j = (if j = k then Some v else mlookup m j)"
  by (cases m) (auto simp: MapPut_def mlookup_def mput_def update_conv')

lemma restorable_bump: "restorable orig svc \<Longrightarrow> restorable orig (bump svc)"
  by (simp add: restorable_def same_service_def same_annotations_def bump_def)

lemma mget_Some: "mget m k \<noteq> [] \<Longrightarrow> mlookup m k = Some (mget m k)"
  by (simp add: mget_def split: option.splits)

lemma record_selector_restorable:
  assumes p: "plain_service orig" and r: "restorable orig cur"
  shows "\<exists>svc. record_selector cur = Value (svc, json_marshal (Selector orig)) \<and>
    restorable orig svc \<and> mlookup (Annotations svc) KtSelector = Some (json_marshal (Selector orig)) \<and>
    Selector svc = Selector cur \<and> ResourceVersion svc = ResourceVersion cur"
proof (cases "mlookup (Annotations cur) KtSelector")
  case (Some t)
  then have "mget (Annotations cur) KtSelector = json_marshal (Selector orig)" "Annotations cur \<noteq> NilMap"
    using r by (auto simp: restorable_def mget_def)
  then show ?thesis
    using r Some json.not_empty [of "Selector orig"]
    by (auto simp: record_selector_def restorable_def)
next
  case None
  then have "mget (Annotations cur) KtSelector = []" and s: "Selector cur = Selector orig"
    using r by (simp_all add: mget_def restorable_def)
  then have "record_selector cur =
      Value (cur\<lparr>Annotations := MapPut (Annotations cur) KtSelector (json_marshal (Selector orig))\<rparr>,
             json_marshal (Selector orig))"
    using p by (simp add: record_selector_def plain_service_def Let_def)
  then show ?thesis
    using r s by (auto simp: restorable_def same_service_def same_annotations_def mlookup_MapPut_any)
qed

lemma UpdateServiceSelector_restorable:
  assumes a: "api_server k view" and f: "find_obj (ClServices (view (World s))) ns n = Some cur"
    and p: "plain_service orig" and r: "restorable orig cur"
  shows "\<exists>t cur'. run_state (UpdateServiceSelector k n ns sel) s = (Value (), t) \<and>
    find_obj (ClServices (view (World t))) ns n = Some cur' \<and> restorable orig cur' \<and>
    (MapEquals (Selector cur) sel \<and> Selector cur' = Selector cur \<or> Selector cur' = sel) \<and>
    service_frame view ns n s t"
proof -
  obtain svc where svc: "record_selector cur = Value (svc, json_marshal (Selector orig))"
    "restorable orig svc" "mlookup (Annotations svc) KtSelector = Some (json_marshal (Selector orig))"
    "Selector svc = Selector cur" "ResourceVersion svc = ResourceVersion cur"
    using record_selector_restorable [OF p r] by blast
  have nm: "Name svc = n" "Namespace svc = ns"
    using svc(2) r find_obj_Some [OF f] by (simp_all add: restorable_def same_service_def)
  have mg: "mget (Annotations svc) KtSelector = json_marshal (Selector orig)" "Annotations svc \<noteq> NilMap"
    using svc(3) by (auto simp: mget_def)
  show ?thesis
  proof (cases "MapEquals (Selector cur) sel")
    case True
    then have "run_state (UpdateServiceSelector k n ns sel) s = (Value (), s)"
      using svc mg by (simp add: UpdateServiceSelector_def GetService_found [OF a f] isServiceChanged_def)
    with f r True show ?thesis by auto
  next
    case False
    let ?svc = "svc\<lparr>Selector := sel\<rparr>"
    obtain t where t: "run_state (UpdateService k ?svc) s = (Value (bump ?svc), t)"
      "find_obj (ClServices (view (World t))) ns n = Some (bump ?svc)" "service_frame view ns n s t"
      using UpdateService_found [OF a f, of ?svc] nm svc(5) by auto
    have "run_state (UpdateServiceSelector k n ns sel) s = (Value (), t)"
      using svc False t(1) by (simp add: UpdateServiceSelector_def GetService_found [OF a f] isServiceChanged_def)
    moreover have "restorable orig (bump ?svc)"
      using svc(2,3) by (intro restorable_bump) (simp add: restorable_def same_service_def same_annotations_def)
    moreover have "Selector (bump ?svc) = sel" by (simp add: bump_def)
    ultimately show ?thesis using t(2,3) False by auto
  qed
qed

lemma RecoverOriginalService_restored:
  assumes a: "api_server k view" and f: "find_obj (ClServices (view (World s))) ns n = Some cur"
    and p: "plain_service orig" and r: "restorable orig cur"
  shows "\<exists>t cur'. run_state (RecoverOriginalService k n ns) s = (Value (), t) \<and>
    find_obj (ClServices (view (World t))) ns n = Some cur' \<and> restored orig cur' \<and> service_frame view ns n s t"
proof (cases "mlookup (Annotations cur) KtSelector")
  case None
  then have "run_state (RecoverOriginalService k n ns) s = (Value (), s)"
    by (cases "Annotations cur") (simp_all add: RecoverOriginalService_def GetService_found [OF a f])
  moreover have "mlookup (Annotations cur) j = mlookup (Annotations orig) j" for j
    using None r p by (cases "j = KtSelector") (auto simp: restorable_def same_annotations_def plain_service_def)
  then have "restored orig cur"
    using None r by (auto simp: restorable_def restored_def)
  ultimately show ?thesis using f by auto
next
  case (Some rc)
  then have t: "rc = json_marshal (Selector orig)" and n: "Annotations cur \<noteq> NilMap"
    using r by (auto simp: restorable_def)
  obtain sel where sel: "json_unmarshal rc = Value sel" "sel = NilMap \<longleftrightarrow> Selector orig = NilMap"
    "mlookup sel = mlookup (Selector orig)"
    using json.round_trip p t by (auto simp: plain_service_def)
  let ?svc = "cur\<lparr>Selector := sel, Annotations := mdelete (Annotations cur) KtSelector\<rparr>"
  obtain u where u: "run_state (UpdateService k ?svc) s = (Value (bump ?svc), u)"
    "find_obj (ClServices (view (World u))) ns n = Some (bump ?svc)" "service_frame view ns n s u"
    using UpdateService_found [OF a f, of ?svc] find_obj_Some [OF f] by auto
  have "run_state (RecoverOriginalService k n ns) s = (Value (), u)"
    using Some n sel(1) u(1)
    by (auto simp: RecoverOriginalService_def GetService_found [OF a f] split: gomap.splits)
  moreover have "mlookup (Annotations (bump ?svc)) j = mlookup (Annotations orig) j" for j
    using r p by (cases "j = KtSelector") (auto simp: restorable_def same_annotations_def plain_service_def)
  then have "restored orig (bump ?svc)"
    using r sel by (auto simp: restorable_def restored_def same_service_def bump_def)
  ultimately show ?thesis using u(2,3) by blast
qed

text \<open>One call of \<open>UpdateServiceSelector\<close> for each selector of a list.\<close>

fun redirect_all :: "'w kube \<Rightarrow> string \<Rightarrow> string \<Rightarrow> smap list \<Rightarrow> 'w prog \<Rightarrow> unit outcome list \<times> 'w prog" where
  "redirect_all k name namespace [] s = ([], s)"
| "redirect_all k name namespace (sel # sels) s =
     (case run_state (UpdateServiceSelector k name namespace sel) s of
        (r, t) \<Rightarrow> map_prod ((#) r) id (redirect_all k name namespace sels t))"

lemma redirect_all_restorable:
  assumes a: "api_server k view" and p: "plain_service orig"
  shows "find_obj (ClServices (view (World s))) ns n = Some cur \<Longrightarrow> restorable orig cur \<Longrightarrow>
    \<exists>t cur'. redirect_all k n ns sels s = (replicate (length sels) (Value ()), t) \<and>
      find_obj (ClServices (view (World t))) ns n = Some cur' \<and> restorable orig cur' \<and> service_frame view ns n s t"
proof (induction sels arbitrary: s cur)
  case (Cons sel sels)
  obtain t cur' where t: "run_state (UpdateServiceSelector k n ns sel) s = (Value (), t)"
    "find_obj (ClServices (view (World t))) ns n = Some cur'" "restorable orig cur'" "service_frame view ns n s t"
    using UpdateServiceSelector_restorable [OF a Cons.prems(1) p Cons.prems(2)] by blast
  from Cons.IH [OF t(2,3)] t(1,4) show ?case
    by (auto dest: service_frame_trans)
qed auto

section \<open>The properties\<close>

text \<open>
  C9. Redirection and recovery are inverse: after any number of \<open>UpdateServiceSelector\<close> calls with
  any selectors on a service of a user, \<open>RecoverOriginalService\<close> gives it back its selector and its
  annotations; all calls succeed, and no other service, pod, deployment or config map has changed.
\<close>
theorem redirect_recover_roundtrip:
  assumes "api_server k view"
    and "find_obj (ClServices (view (World s))) namespace name = Some orig"
    and "plain_service orig"
  shows "\<exists>t u cur. redirect_all k name namespace sels s = (replicate (length sels) (Value ()), t) \<and>
    run_state (RecoverOriginalService k name namespace) t = (Value (), u) \<and>
    find_obj (ClServices (view (World u))) namespace name = Some cur \<and> restored orig cur \<and>
    service_frame view namespace name s u"
proof -
  have "restorable orig orig"
    using assms(3) by (simp add: restorable_def same_service_def same_annotations_def plain_service_def)
  from redirect_all_restorable [OF assms(1,3,2) this] obtain t cur where
    t: "redirect_all k name namespace sels s = (replicate (length sels) (Value ()), t)"
      "find_obj (ClServices (view (World t))) namespace name = Some cur" "restorable orig cur"
      "service_frame view namespace name s t" by blast
  from RecoverOriginalService_restored [OF assms(1) t(2) assms(3) t(3)] t(1,4) show ?thesis
    using service_frame_trans by blast
qed

lemma redirect_recover_roundtrip_witness:
  "\<exists>t u cur. redirect_all (mem_kube 7) ''web'' ''default''
      [GoMap [(KtTarget, ''a'')], GoMap [(KtRole, ''router'')]]
      (mem_prog \<lparr> ClPods = [], ClDeployments = [], ClServices = [mem_service ''web'' NilMap (GoMap [(''app'', ''web'')])], ClConfigMaps = [] \<rparr>)
      = ([Value (), Value ()], t) \<and>
    run_state (RecoverOriginalService (mem_kube 7) ''web'' ''default'') t = (Value (), u) \<and>
    find_obj (ClServices (World u)) ''default'' ''web'' = Some cur \<and>
    mlookup (Selector cur) ''app'' = Some ''web''"
proof -
  let ?svc = "mem_service ''web'' NilMap (GoMap [(''app'', ''web'')])"
  let ?s = "mem_prog \<lparr> ClPods = [], ClDeployments = [], ClServices = [?svc], ClConfigMaps = [] \<rparr>"
  have f: "find_obj (ClServices (World ?s)) ''default'' ''web'' = Some ?svc"
    by (simp add: mem_prog_def mem_service_def is_obj_def)
  have p: "plain_service ?svc"
    by (simp add: plain_service_def mem_service_def mget_def mlookup_def mwf_def)
  have l: "mlookup (Selector ?svc) ''app'' = Some ''web''" by (simp add: mem_service_def mlookup_def)
  from redirect_recover_roundtrip [OF mem_kube_ok [of 7] f p,
      of "[GoMap [(KtTarget, ''a'')], GoMap [(KtRole, ''router'')]]"] l
  show ?thesis unfolding restored_def by (auto simp: numeral_2_eq_2)
qed

text \<open>
  While a service is redirected its record stays that of the first user: a further
  \<open>UpdateServiceSelector\<close> keeps the \<open>kt-selector\<close> annotation, whatever the selector is now, and
  the service then selects what was asked for (or something that \<open>MapEquals\<close> calls equal to it).
\<close>
theorem redirect_keeps_record:
  assumes "api_server k view"
    and "find_obj (ClServices (view (World s))) namespace name = Some cur"
    and "mlookup (Annotations cur) KtSelector = Some rec" and "rec \<noteq> []"
  shows "\<exists>t cur'. run_state (UpdateServiceSelector k name namespace sel) s = (Value (), t) \<and>
    find_obj (ClServices (view (World t))) namespace name = Some cur' \<and>
    mlookup (Annotations cur') KtSelector = Some rec \<and>
    (Selector cur' = sel \<or> Selector cur' = Selector cur \<and> MapEquals (Selector cur) sel)"
proof -
  have m: "mget (Annotations cur) KtSelector = rec" "Annotations cur \<noteq> NilMap"
    using assms(3) by (auto simp: mget_def)
  then have r: "record_selector cur = Value (cur, rec)" using assms(4) by (simp add: record_selector_def)
  note nm = find_obj_Some [OF assms(2)]
  show ?thesis
  proof (cases "MapEquals (Selector cur) sel")
    case True
    then have "run_state (UpdateServiceSelector k name namespace sel) s = (Value (), s)"
      using r m by (simp add: UpdateServiceSelector_def GetService_found [OF assms(1,2)] isServiceChanged_def)
    with True assms(2,3) show ?thesis by auto
  next
    case False
    let ?svc = "cur\<lparr>Selector := sel\<rparr>"
    obtain t where t: "run_state (UpdateService k ?svc) s = (Value (bump ?svc), t)"
      "find_obj (ClServices (view (World t))) namespace name = Some (bump ?svc)"
      using UpdateService_found [OF assms(1,2), of ?svc] nm by auto
    have "run_state (UpdateServiceSelector k name namespace sel) s = (Value (), t)"
      using r False t(1) by (simp add: UpdateServiceSelector_def GetService_found [OF assms(1,2)] isServiceChanged_def)
    then show ?thesis using t(2) assms(3) by (auto simp: bump_def)
  qed
qed

lemma redirect_keeps_record_witness:
  "\<exists>t cur'. run_state (UpdateServiceSelector (mem_kube 7) ''web'' ''default'' (GoMap [(KtTarget, ''b'')]))
      (mem_prog \<lparr> ClPods = [], ClDeployments = [], ClServices = [mem_service ''web'' (GoMap [(KtSelector, ''null'')]) (GoMap [(KtTarget, ''a'')])], ClConfigMaps = [] \<rparr>)
      = (Value (), t) \<and>
    find_obj (ClServices (World t)) ''default'' ''web'' = Some cur' \<and>
    mlookup (Annotations cur') KtSelector = Some ''null''"
proof -
  let ?svc = "mem_service ''web'' (GoMap [(KtSelector, ''null'')]) (GoMap [(KtTarget, ''a'')])"
  let ?s = "mem_prog \<lparr> ClPods = [], ClDeployments = [], ClServices = [?svc], ClConfigMaps = [] \<rparr>"
  have f: "find_obj (ClServices (World ?s)) ''default'' ''web'' = Some ?svc"
    by (simp add: mem_prog_def mem_service_def is_obj_def)
  have m: "mlookup (Annotations ?svc) KtSelector = Some ''null''" by (simp add: mem_service_def mlookup_def)
  from redirect_keeps_record [OF mem_kube_ok [of 7] f m, of "GoMap [(KtTarget, ''b'')]"] show ?thesis by auto
qed

text \<open>
  The selector annotation: what \<open>json.Marshal\<close> writes for a map of strings is read back by
  \<open>json.Unmarshal\<close> as a map with the same entries, a nil map as a nil map.
\<close>
theorem selector_json_roundtrip:
  assumes "mwf m"
  shows "\<exists>m'. json_unmarshal (json_marshal m) = Value m' \<and> (m' = NilMap \<longleftrightarrow> m = NilMap) \<and>
    mlookup m' = mlookup m"
  by (rule json.round_trip [OF assms])

lemma selector_json_roundtrip_witness:
  "\<exists>m'. json_unmarshal (json_marshal (GoMap [(''tier'', ''a<b''), (''app'', ''web'')])) = Value m' \<and>
     mlookup m' ''tier'' = Some ''a<b''"
proof -
  have "mwf (GoMap [(''tier'', ''a<b''), (''app'', ''web'')])" by (simp add: mwf_def)
  moreover have "mlookup (GoMap [(''tier'', ''a<b''), (''app'', ''web'')]) ''tier'' = Some ''a<b''"
    by (simp add: mlookup_def)
  ultimately show ?thesis using selector_json_roundtrip by fastforce
qed

end
