(* ===== verification/ServiceLock.thy ===== *)
theory ServiceLock
  imports ServiceOps
begin

text \<open>
  \<open>pkg/kt/command/general/lock.go\<close>: the lock that a session takes on a service before it changes the
  service's selector.  The lock is a time stamp in the \<open>kt-lock\<close> annotation; it is taken by an
  update that the API server refuses when the service has changed since it was read, and it is
  ignored after three minutes.  The first part is the code as one session runs it, the second part
  lets the API calls of any number of sessions interleave.
\<close>

section \<open>One session\<close>

definition LockTimeout :: int where
  "LockTimeout = 3 * 60"

text \<open>\<open>util.GetTime() - util.ParseTimestamp(lock) < LockTimeout\<close> for a lock that exists.\<close>

definition lock_alive :: "int \<Rightarrow> string option \<Rightarrow> bool" where
  "lock_alive time lock = (case lock of None \<Rightarrow> False | Some l \<Rightarrow> time - ParseTimestamp l < LockTimeout)"

definition lock_annotations :: "service \<Rightarrow> smap" where
  "lock_annotations svc = (case Annotations svc of NilMap \<Rightarrow> GoMap [] | GoMap al \<Rightarrow> GoMap al)"

definition lock_error :: "string \<Rightarrow> go_error" where
  "lock_error serviceName =
     Errorf (''failed to obtain kt lock of service '' @ serviceName @ '', please try again later'')"

function LockService :: "'w kube \<Rightarrow> string \<Rightarrow> string \<Rightarrow> nat \<Rightarrow> ('w prog, service outcome) state" where
  "LockService k serviceName namespace tries =
     (if tries > 10
      then State_Monad.return (Fail (lock_error serviceName))
      else go_try (GetService k serviceName namespace) (\<lambda>svc.
        State_Monad.bind (now k) (\<lambda>time.
          if lock_alive time (mlookup (lock_annotations svc) KtLock)
          then State_Monad.bind (sleep k 3) (\<lambda>_. LockService k serviceName namespace (Suc tries))
          else State_Monad.bind (now k) (\<lambda>time'.
            go_catch (UpdateService k (svc\<lparr>Annotations := mput (lock_annotations svc) KtLock (GetTimestamp time')\<rparr>))
              (\<lambda>svc'. State_Monad.return (Value svc'))
              (\<lambda>_. LockService k serviceName namespace (Suc tries))))))"
  by pat_completeness auto
termination
  by (relation "measure (\<lambda>(k, n, ns, tries). 11 - tries)") auto

declare LockService.simps [simp del]

definition UnlockService :: "'w kube \<Rightarrow> string \<Rightarrow> string \<Rightarrow> ('w prog, unit outcome) state" where
  "UnlockService k serviceName namespace =
     go_catch (GetService k serviceName namespace) (\<lambda>svc.
       if mlookup (Annotations svc) KtLock \<noteq> None
       then go_catch (UpdateService k (svc\<lparr>Annotations := mdelete (Annotations svc) KtLock\<rparr>))
              (\<lambda>_. State_Monad.return (Value ())) (\<lambda>_. State_Monad.return (Value ()))
       else State_Monad.return (Value ()))
     (\<lambda>_. State_Monad.return (Value ()))"

text \<open>The time that a state of the program reads.\<close>

definition time_of :: "'w kube \<Rightarrow> 'w prog \<Rightarrow> int" where
  "time_of k s = fst (run_state (GetTime k) (World s))"

lemma run_now: "api_server k view \<Longrightarrow> run_state (now k) s = (time_of k s, s)"
  using api_time [of k view "World s"] by (simp add: now_def time_of_def split_def)

lemma mlookup_lock_annotations [simp]: "mlookup (lock_annotations svc) j = mlookup (Annotations svc) j"
  by (simp add: lock_annotations_def split: gomap.split)

lemma LockService_free:
  assumes a: "api_server k view" and f: "find_obj (ClServices (view (World s))) ns n = Some svc"
    and free: "\<not> lock_alive (time_of k s) (mlookup (Annotations svc) KtLock)" and t: "tries \<le> 10"
  shows "\<exists>s' svc'. run_state (LockService k n ns tries) s = (Value svc', s') \<and>
    find_obj (ClServices (view (World s'))) ns n = Some svc' \<and> same_service svc svc' \<and>
    Selector svc' = Selector svc \<and>
    mlookup (Annotations svc') = (mlookup (Annotations svc))(KtLock \<mapsto> GetTimestamp (time_of k s)) \<and>
    service_frame view ns n s s'"
proof -
  let ?svc = "svc\<lparr>Annotations := mput (lock_annotations svc) KtLock (GetTimestamp (time_of k s))\<rparr>"
  obtain s' where s': "run_state (UpdateService k ?svc) s = (Value (bump ?svc), s')"
    "find_obj (ClServices (view (World s'))) ns n = Some (bump ?svc)" "service_frame view ns n s s'"
    using UpdateService_found [OF a f, of ?svc] find_obj_Some [OF f] by auto
  have "run_state (LockService k n ns tries) s = (Value (bump ?svc), s')"
    using t free s'(1) by (subst LockService.simps) (simp add: GetService_found [OF a f] run_now [OF a])
  then show ?thesis
    using s'(2,3) by (auto simp: same_service_def bump_def fun_eq_iff)
qed

lemma UnlockService_free:
  assumes a: "api_server k view" and f: "find_obj (ClServices (view (World s))) ns n = Some svc"
  shows "\<exists>s' svc'. run_state (UnlockService k n ns) s = (Value (), s') \<and>
    find_obj (ClServices (view (World s'))) ns n = Some svc' \<and> same_service svc svc' \<and>
    Selector svc' = Selector svc \<and>
    mlookup (Annotations svc') = (mlookup (Annotations svc))(KtLock := None) \<and> service_frame view ns n s s'"
proof (cases "mlookup (Annotations svc) KtLock")
  case None
  then have "run_state (UnlockService k n ns) s = (Value (), s)"
    by (simp add: UnlockService_def GetService_found [OF a f])
  with f None show ?thesis by (auto simp: same_service_def fun_eq_iff)
next
  case (Some l)
  let ?svc = "svc\<lparr>Annotations := mdelete (Annotations svc) KtLock\<rparr>"
  obtain s' where s': "run_state (UpdateService k ?svc) s = (Value (bump ?svc), s')"
    "find_obj (ClServices (view (World s'))) ns n = Some (bump ?svc)" "service_frame view ns n s s'"
    using UpdateService_found [OF a f, of ?svc] find_obj_Some [OF f] by auto
  have "run_state (UnlockService k n ns) s = (Value (), s')"
    using Some s'(1) by (simp add: UnlockService_def GetService_found [OF a f])
  then show ?thesis
    using s'(2,3) by (auto simp: same_service_def bump_def fun_eq_iff)
qed

text \<open>Waiting for a lock that stays alive: eleven reads, no write of a service, then the error.\<close>

lemma run_sleep: "run_state (sleep k n) s = ((), s\<lparr>World := snd (run_state (Sleep k n) (World s))\<rparr>)"
  by (simp add: sleep_def split_def)

lemma LockService_blocked:
  assumes a: "api_server k view" and l: "mlookup (Annotations svc) KtLock = Some l"
    and alive: "\<And>u :: 'w prog. lock_alive (time_of k u) (Some l)"
  shows "find_obj (ClServices (view (World s))) ns n = Some svc \<Longrightarrow>
    \<exists>s'. run_state (LockService k n ns tries) (s :: 'w prog) =
      (Fail (lock_error n), s') \<and>
      ClServices (view (World s')) = ClServices (view (World s))"
proof (induction "11 - tries" arbitrary: tries s)
  case 0
  then show ?case by (subst LockService.simps) auto
next
  case (Suc d)
  let ?s = "s\<lparr>World := snd (run_state (Sleep k 3) (World s))\<rparr>"
  have d: "d = 11 - Suc tries" using Suc(2) by simp
  have v: "ClServices (view (World ?s)) = ClServices (view (World s))" using runs_services [OF api_sleep [OF a]] by simp
  then obtain s' where "run_state (LockService k n ns (Suc tries)) ?s =
      (Fail (lock_error n), s')"
    "ClServices (view (World s')) = ClServices (view (World ?s))"
    using Suc(1) [OF d, of ?s] Suc(3) by auto
  moreover have "\<not> 10 < tries" using Suc(2) by simp
  ultimately show ?case
    using v alive l by (subst LockService.simps)
      (simp add: GetService_found [OF a Suc(3)] run_now [OF a] run_sleep)
qed

section \<open>Many sessions\<close>

text \<open>
  What the server holds of the service: its version and its lock.  A session reads the service, and
  then either takes the lock or starts again; a session that holds the lock reads the service again
  to give it back.  The times are those the session has read from the clock.
\<close>

record lock_server =
  Version :: nat
  Lock :: "string option"
  Clock :: int

datatype session =
    Idle
  | Fetched nat "string option"
  | Holding int
  | Releasing int nat

record lock_state =
  Server :: lock_server
  Sessions :: "nat \<Rightarrow> session"

definition in_section :: "session \<Rightarrow> int \<Rightarrow> bool" where
  "in_section c t \<longleftrightarrow> c = Holding t \<or> (\<exists>v. c = Releasing t v)"

definition set_session :: "nat \<Rightarrow> session \<Rightarrow> lock_state \<Rightarrow> lock_state" where
  "set_session i c s = s\<lparr>Sessions := (Sessions s)(i := c)\<rparr>"

definition write_lock :: "string option \<Rightarrow> lock_state \<Rightarrow> lock_state" where
  "write_lock l s = s\<lparr>Server := (Server s)\<lparr>Version := Suc (Version (Server s)), Lock := l\<rparr>\<rparr>"

text \<open>
  The steps: the read of \<open>LockService\<close>, its wait on a live lock, its update that succeeds or is
  refused, the read and the update of \<open>UnlockService\<close>, an update of the service by anybody that
  keeps its annotations, and the passing of time.  Time passes only as long as no session holds the
  lock beyond its timeout.
\<close>

inductive lock_step :: "lock_state \<Rightarrow> lock_state \<Rightarrow> bool" where
  Fetch: "Sessions s i = Idle \<Longrightarrow>
    lock_step s (set_session i (Fetched (Version (Server s)) (Lock (Server s))) s)"
| Wait: "Sessions s i = Fetched v l \<Longrightarrow> lock_alive (Clock (Server s)) l \<Longrightarrow>
    lock_step s (set_session i Idle s)"
| Acquire: "Sessions s i = Fetched v l \<Longrightarrow> \<not> lock_alive (Clock (Server s)) l \<Longrightarrow> v = Version (Server s) \<Longrightarrow>
    lock_step s (set_session i (Holding (Clock (Server s)))
      (write_lock (Some (GetTimestamp (Clock (Server s)))) s))"
| Refused: "Sessions s i = Fetched v l \<Longrightarrow> \<not> lock_alive (Clock (Server s)) l \<Longrightarrow> v \<noteq> Version (Server s) \<Longrightarrow>
    lock_step s (set_session i Idle s)"
| Fetch_unlock: "Sessions s i = Holding t \<Longrightarrow>
    lock_step s (set_session i (Releasing t (Version (Server s))) s)"
| Unlock: "Sessions s i = Releasing t v \<Longrightarrow> v = Version (Server s) \<Longrightarrow>
    lock_step s (set_session i Idle (write_lock None s))"
| Unlock_refused: "Sessions s i = Releasing t v \<Longrightarrow> v \<noteq> Version (Server s) \<Longrightarrow>
    lock_step s (set_session i Idle s)"
| Touch: "lock_step s (write_lock (Lock (Server s)) s)"
| Tick: "0 \<le> d \<Longrightarrow> Clock (Server s) + d < 2 ^ 62 \<Longrightarrow>
    (\<forall>i t. in_section (Sessions s i) t \<longrightarrow> Clock (Server s) + d - t < LockTimeout) \<Longrightarrow>
    lock_step s (s\<lparr>Server := (Server s)\<lparr>Clock := Clock (Server s) + d\<rparr>\<rparr>)"

definition lock_start :: "lock_state \<Rightarrow> bool" where
  "lock_start s \<longleftrightarrow> 0 \<le> Clock (Server s) \<and> Clock (Server s) < 2 ^ 62 \<and> (\<forall>i. Sessions s i = Idle)"

inductive lock_reachable :: "lock_state \<Rightarrow> bool" where
  Start: "lock_start s \<Longrightarrow> lock_reachable s"
| Step: "lock_reachable s \<Longrightarrow> lock_step s t \<Longrightarrow> lock_reachable t"

inductive_cases lock_stepE: "lock_step s t"

text \<open>
  The invariant: whoever is in the section wrote the lock that the server holds, not longer than the
  timeout ago, and the view of a waiting session is either current or out of date.
\<close>

definition lock_inv :: "lock_state \<Rightarrow> bool" where
  "lock_inv s \<longleftrightarrow> 0 \<le> Clock (Server s) \<and> Clock (Server s) < 2 ^ 62 \<and>
     (\<forall>i t. in_section (Sessions s i) t \<longrightarrow>
        Lock (Server s) = Some (GetTimestamp t) \<and> 0 \<le> t \<and> t < 2 ^ 62 \<and> Clock (Server s) - t < LockTimeout) \<and>
     (\<forall>i j t u. in_section (Sessions s i) t \<and> in_section (Sessions s j) u \<longrightarrow> i = j) \<and>
     (\<forall>i v l. Sessions s i = Fetched v l \<longrightarrow>
        v \<le> Version (Server s) \<and> (v = Version (Server s) \<longrightarrow> l = Lock (Server s))) \<and>
     (\<forall>i t v. Sessions s i = Releasing t v \<longrightarrow> v \<le> Version (Server s))"

lemma lock_invD:
  assumes "lock_inv s"
  shows "0 \<le> Clock (Server s)" "Clock (Server s) < 2 ^ 62"
    "in_section (Sessions s i) t \<Longrightarrow>
      Lock (Server s) = Some (GetTimestamp t) \<and> 0 \<le> t \<and> t < 2 ^ 62 \<and> Clock (Server s) - t < LockTimeout"
    "in_section (Sessions s i) t \<Longrightarrow> in_section (Sessions s j) u \<Longrightarrow> i = j"
    "Sessions s i = Fetched v l \<Longrightarrow> v \<le> Version (Server s) \<and> (v = Version (Server s) \<longrightarrow> l = Lock (Server s))"
    "Sessions s i = Releasing t v \<Longrightarrow> v \<le> Version (Server s)"
  using assms unfolding lock_inv_def by blast+

lemma in_section_simps [simp]:
  "\<not> in_section Idle t" "\<not> in_section (Fetched v l) t" "in_section (Holding u) t \<longleftrightarrow> u = t"
  "in_section (Releasing u v) t \<longleftrightarrow> u = t"
  by (auto simp: in_section_def)

lemma session_simps [simp]:
  "Server (set_session i c s) = Server s" "Sessions (set_session i c s) = (Sessions s)(i := c)"
  "Sessions (write_lock l s) = Sessions s" "Lock (Server (write_lock l s)) = l"
  "Version (Server (write_lock l s)) = Suc (Version (Server s))" "Clock (Server (write_lock l s)) = Clock (Server s)"
  by (simp_all add: set_session_def write_lock_def)

lemma ParseTimestamp_GetTimestamp: "0 \<le> t \<Longrightarrow> t < 2 ^ 62 \<Longrightarrow> ParseTimestamp (GetTimestamp t) = t"
  by (simp add: ParseTimestamp_def GetTimestamp_def atoi_itoa)

lemma free_no_section:
  assumes "lock_inv s" and "\<not> lock_alive (Clock (Server s)) (Lock (Server s))"
  shows "\<not> in_section (Sessions s i) t"
proof
  assume "in_section (Sessions s i) t"
  from lock_invD(3) [OF assms(1) this] have "lock_alive (Clock (Server s)) (Lock (Server s))"
    by (simp add: lock_alive_def ParseTimestamp_GetTimestamp)
  with assms(2) show False ..
qed

lemma fetched_old:
  assumes "lock_inv s" and "Sessions s i = Fetched v l"
  shows "v \<le> Suc (Version (Server s)) \<and> (v = Suc (Version (Server s)) \<longrightarrow> l = x)"
  using lock_invD(5) [OF assms] by auto

lemma releasing_old: "lock_inv s \<Longrightarrow> Sessions s i = Releasing t v \<Longrightarrow> v \<le> Suc (Version (Server s))"
  using lock_invD(6) by fastforce

lemma lock_inv_leave [kt_invs]: "lock_inv s \<Longrightarrow> lock_inv (set_session i Idle s)"
  unfolding lock_inv_def by simp

lemma lock_inv_fetch [kt_invs]:
  "lock_inv s \<Longrightarrow> lock_inv (set_session i (Fetched (Version (Server s)) (Lock (Server s))) s)"
  unfolding lock_inv_def by simp

lemma lock_inv_acquire [kt_invs]:
  assumes "lock_inv s" "Sessions s i = Fetched v l" "\<not> lock_alive (Clock (Server s)) l" "v = Version (Server s)"
  shows "lock_inv (set_session i (Holding (Clock (Server s))) (write_lock (Some (GetTimestamp (Clock (Server s)))) s))"
proof -
  have "l = Lock (Server s)" using lock_invD(5) [OF assms(1,2)] assms(4) by simp
  then have no: "\<not> in_section (Sessions s j) t" for j t
    using free_no_section [OF assms(1)] assms(3) by simp
  show ?thesis
    unfolding lock_inv_def
    using no lock_invD(1,2) [OF assms(1)] fetched_old [OF assms(1)] releasing_old [OF assms(1)]
    by (simp add: LockTimeout_def) blast
qed

lemma lock_inv_fetch_unlock [kt_invs]:
  assumes "lock_inv s" "Sessions s i = Holding t"
  shows "lock_inv (set_session i (Releasing t (Version (Server s))) s)"
proof -
  have i: "in_section (Sessions s i) t" using assms(2) by simp
  show ?thesis
    unfolding lock_inv_def
    using lock_invD [OF assms(1)] lock_invD(3) [OF assms(1) i] lock_invD(4) [OF assms(1) i]
    by (auto split: if_splits)
qed

lemma lock_inv_unlock [kt_invs]:
  assumes "lock_inv s" "Sessions s i = Releasing t v"
  shows "lock_inv (set_session i Idle (write_lock None s))"
proof -
  have i: "in_section (Sessions s i) t" using assms(2) by simp
  then have no: "j \<noteq> i \<Longrightarrow> \<not> in_section (Sessions s j) u" for j u
    using lock_invD(4) [OF assms(1) i] by blast
  show ?thesis
    unfolding lock_inv_def
    using no lock_invD(1,2) [OF assms(1)] fetched_old [OF assms(1)] releasing_old [OF assms(1)]
    by simp blast
qed

lemma lock_inv_touch [kt_invs]: "lock_inv s \<Longrightarrow> lock_inv (write_lock (Lock (Server s)) s)"
  unfolding lock_inv_def [of "write_lock (Lock (Server s)) s"]
  using lock_invD(1-4) [of s] fetched_old [of s] releasing_old [of s]
  by simp (metis (no_types))

lemma lock_inv_tick [kt_invs]:
  assumes "lock_inv s" "0 \<le> d" "Clock (Server s) + d < 2 ^ 62"
    "\<forall>i t. in_section (Sessions s i) t \<longrightarrow> Clock (Server s) + d - t < LockTimeout"
  shows "lock_inv (s\<lparr>Server := (Server s)\<lparr>Clock := Clock (Server s) + d\<rparr>\<rparr>)"
  using assms unfolding lock_inv_def by simp

lemma lock_inv_step: "lock_step s t \<Longrightarrow> lock_inv s \<Longrightarrow> lock_inv t"
  by (erule lock_stepE) (simp_all add: kt_invs)

lemma lock_reachable_inv: "lock_reachable s \<Longrightarrow> lock_inv s"
proof (induction rule: lock_reachable.induct)
  case (Start s)
  then show ?case by (simp add: lock_start_def lock_inv_def)
qed (rule lock_inv_step)

section \<open>The properties\<close>

text \<open>
  C13. Mutual exclusion of the service lock: in every interleaving of the API calls of any number of
  sessions (and of other writers of the service) at most one session is between taking and giving
  back the lock, as long as none of them holds it beyond its timeout; the lock on the server is then
  the time stamp of that session.
\<close>
theorem lock_mutual_exclusion:
  assumes "lock_reachable s" and "in_section (Sessions s i) t" and "in_section (Sessions s j) u"
  shows "i = j \<and> t = u \<and> Lock (Server s) = Some (GetTimestamp t) \<and> Clock (Server s) - t < LockTimeout"
proof -
  note inv = lock_reachable_inv [OF assms(1)]
  have i: "i = j" using lock_invD(4) [OF inv assms(2,3)] .
  then have "t = u" using assms(2,3) by (auto simp: in_section_def)
  with i show ?thesis using lock_invD(3) [OF inv assms(2)] by simp
qed

definition lock_example :: lock_state where
  "lock_example = \<lparr> Server = \<lparr> Version = 4, Lock = None, Clock = 1000 \<rparr>, Sessions = (\<lambda>i. Idle) \<rparr>"

lemma lock_mutual_exclusion_witness:
  "\<exists>s. lock_reachable s \<and> in_section (Sessions s 2) 1000 \<and> Lock (Server s) = Some (GetTimestamp 1000)"
proof -
  let ?s1 = "set_session 2 (Fetched 4 None) lock_example"
  let ?s2 = "set_session 2 (Holding 1000) (write_lock (Some (GetTimestamp 1000)) ?s1)"
  have "lock_reachable lock_example"
    by (rule lock_reachable.Start) (simp add: lock_start_def lock_example_def)
  moreover have "lock_step lock_example ?s1"
    using lock_step.Fetch [of lock_example 2] by (simp add: lock_example_def)
  ultimately have r1: "lock_reachable ?s1" by (rule lock_reachable.Step)
  have "lock_step ?s1 ?s2"
    using lock_step.Acquire [of ?s1 2 4 None] by (simp add: lock_example_def lock_alive_def)
  with r1 have r2: "lock_reachable ?s2" by (rule lock_reachable.Step)
  have i: "in_section (Sessions ?s2 2) 1000" by simp
  from lock_mutual_exclusion [OF r2 i i] r2 i show ?thesis by blast
qed

text \<open>
  \<open>LockService\<close> on a service whose lock is missing or overdue: it succeeds at the first attempt,
  writes the current time into the lock annotation and changes nothing else; \<open>UnlockService\<close> then
  removes the lock, so that the service has the annotations it had without a lock.
\<close>
theorem lock_and_unlock:
  assumes "api_server k view"
    and "find_obj (ClServices (view (World s))) namespace name = Some svc"
    and "\<not> lock_alive (time_of k s) (mlookup (Annotations svc) KtLock)" and "tries \<le> 10"
  shows "\<exists>s1 svc1 s2 svc2. run_state (LockService k name namespace tries) s = (Value svc1, s1) \<and>
    mlookup (Annotations svc1) = (mlookup (Annotations svc))(KtLock \<mapsto> GetTimestamp (time_of k s)) \<and>
    Selector svc1 = Selector svc \<and>
    run_state (UnlockService k name namespace) s1 = (Value (), s2) \<and>
    find_obj (ClServices (view (World s2))) namespace name = Some svc2 \<and> same_service svc svc2 \<and>
    Selector svc2 = Selector svc \<and> mlookup (Annotations svc2) = (mlookup (Annotations svc))(KtLock := None) \<and>
    service_frame view namespace name s s2"
proof -
  obtain s1 svc1 where l: "run_state (LockService k name namespace tries) s = (Value svc1, s1)"
    "find_obj (ClServices (view (World s1))) namespace name = Some svc1" "same_service svc svc1"
    "Selector svc1 = Selector svc"
    "mlookup (Annotations svc1) = (mlookup (Annotations svc))(KtLock \<mapsto> GetTimestamp (time_of k s))"
    "service_frame view namespace name s s1"
    using LockService_free [OF assms] by blast
  obtain s2 svc2 where u: "run_state (UnlockService k name namespace) s1 = (Value (), s2)"
    "find_obj (ClServices (view (World s2))) namespace name = Some svc2" "same_service svc1 svc2"
    "Selector svc2 = Selector svc1" "mlookup (Annotations svc2) = (mlookup (Annotations svc1))(KtLock := None)"
    "service_frame view namespace name s1 s2"
    using UnlockService_free [OF assms(1) l(2)] by blast
  have "same_service svc svc2" using l(3) u(3) by (simp add: same_service_def)
  moreover have "mlookup (Annotations svc2) = (mlookup (Annotations svc))(KtLock := None)"
    using u(5) l(5) by (simp add: fun_eq_iff)
  moreover note service_frame_trans [OF l(6) u(6)]
  ultimately show ?thesis using l u by auto
qed

lemma lock_and_unlock_witness:
  "\<exists>s1 svc1. run_state (LockService (mem_kube 1000) ''web'' ''default'' 0)
      (mem_prog \<lparr> ClPods = [], ClDeployments = [],
         ClServices = [mem_service ''web'' (GoMap [(KtLock, itoa 700)]) (GoMap [(''app'', ''web'')])],
         ClConfigMaps = [] \<rparr>) = (Value svc1, s1) \<and>
     mlookup (Annotations svc1) KtLock = Some (GetTimestamp 1000)"
proof -
  let ?svc = "mem_service ''web'' (GoMap [(KtLock, itoa 700)]) (GoMap [(''app'', ''web'')])"
  let ?s = "mem_prog \<lparr> ClPods = [], ClDeployments = [], ClServices = [?svc], ClConfigMaps = [] \<rparr>"
  have f: "find_obj (ClServices (World ?s)) ''default'' ''web'' = Some ?svc"
    by (simp add: mem_prog_def mem_service_def is_obj_def)
  have t: "time_of (mem_kube 1000) ?s = 1000"
    by (simp add: time_of_def mem_kube_def)
  have "mlookup (Annotations ?svc) KtLock = Some (GetTimestamp 700)"
    by (simp add: mem_service_def mlookup_def GetTimestamp_def)
  then have "\<not> lock_alive (time_of (mem_kube 1000) ?s) (mlookup (Annotations ?svc) KtLock)"
    by (simp add: t lock_alive_def ParseTimestamp_GetTimestamp LockTimeout_def)
  from lock_and_unlock [OF mem_kube_ok f this, of 0] t show ?thesis by auto
qed

text \<open>
  \<open>LockService\<close> while somebody else's lock stays alive: it gives up with an error after its
  eleven attempts, and has not changed any service.
\<close>
theorem lock_gives_up:
  assumes "api_server k view"
    and "find_obj (ClServices (view (World (s :: 'w prog)))) namespace name = Some svc"
    and "mlookup (Annotations svc) KtLock = Some l"
    and "\<And>u :: 'w prog. time_of k u - ParseTimestamp l < LockTimeout"
  shows "\<exists>s'. run_state (LockService k name namespace 0) s = (Fail (lock_error name), s') \<and>
    ClServices (view (World s')) = ClServices (view (World s))"
  using LockService_blocked [OF assms(1,3) _ assms(2)] assms(4) by (simp add: lock_alive_def)

lemma lock_gives_up_witness:
  "\<exists>s'. run_state (LockService (mem_kube 1000) ''web'' ''default'' 0)
      (mem_prog \<lparr> ClPods = [], ClDeployments = [],
         ClServices = [mem_service ''web'' (GoMap [(KtLock, itoa 900)]) NilMap], ClConfigMaps = [] \<rparr>)
     = (Fail (lock_error ''web''), s')"
proof -
  let ?svc = "mem_service ''web'' (GoMap [(KtLock, itoa 900)]) NilMap"
  let ?s = "mem_prog \<lparr> ClPods = [], ClDeployments = [], ClServices = [?svc], ClConfigMaps = [] \<rparr>"
  have f: "find_obj (ClServices (World ?s)) ''default'' ''web'' = Some ?svc"
    by (simp add: mem_prog_def mem_service_def is_obj_def)
  have l: "mlookup (Annotations ?svc) KtLock = Some (GetTimestamp 900)"
    by (simp add: mem_service_def mlookup_def GetTimestamp_def)
  have t: "time_of (mem_kube 1000) u - ParseTimestamp (GetTimestamp 900) < LockTimeout" for u
    by (simp add: time_of_def mem_kube_def ParseTimestamp_GetTimestamp LockTimeout_def)
  from lock_gives_up [OF mem_kube_ok f l t] show ?thesis by blast
qed

end
