(* ===== verification/Heartbeat.thy ===== *)
theory Heartbeat
  imports ClusterOps
begin

text \<open>
  Heartbeats of the objects of the program: \<open>heartbeat.go\<close> and the updaters
  \<open>UpdatePodHeartBeat\<close>, \<open>UpdateDeploymentHeartBeat\<close>, \<open>UpdateServiceHeartBeat\<close> and
  \<open>UpdateConfigMapHeartBeat\<close>.  An updater patches the time stamp annotation and remembers whether
  that worked, so that an outage is reported once.  \<open>status_map\<close> is the contract of the memory.
\<close>

section \<open>The memory of the last status\<close>

definition HeartBeatStatus_Get :: "bool gomap \<Rightarrow> string \<Rightarrow> bool \<times> bool" where
  "HeartBeatStatus_Get status key =
     (case mlookup status key of Some value \<Rightarrow> (value, True) | None \<Rightarrow> (False, False))"

definition HeartBeatStatus_Set :: "bool gomap \<Rightarrow> string \<Rightarrow> bool \<Rightarrow> bool gomap" where
  "HeartBeatStatus_Set status key value = mput status key value"

locale status_map =
  fixes get :: "'m \<Rightarrow> string \<Rightarrow> bool \<times> bool"
    and set_status :: "'m \<Rightarrow> string \<Rightarrow> bool \<Rightarrow> 'm"
  assumes get_same: "get (set_status m x v) x = (v, True)"
    and get_other: "x \<noteq> y \<Longrightarrow> get (set_status m x v) y = get m y"
begin

definition reported :: "'m \<Rightarrow> string \<Rightarrow> bool" where
  "reported m x \<longleftrightarrow> (case get m x of (healthy, exists) \<Rightarrow> healthy \<or> \<not> exists)"

lemma reported_set [simp]:
  "reported (set_status m x v) y = (if x = y then v else reported m y)"
  by (simp add: reported_def get_same get_other)

lemma set_set: "get (set_status (set_status m x v) x u) y = get (set_status m x u) y"
  by (cases "x = y") (simp_all add: get_same get_other)

end

interpretation beat: status_map HeartBeatStatus_Get HeartBeatStatus_Set
  by unfold_locales (simp_all add: HeartBeatStatus_Get_def HeartBeatStatus_Set_def)

section \<open>The updaters\<close>

text \<open>What is written to the log: a warning, or a line for debugging.\<close>

datatype beat_log = Warn | Debug

definition resourceHeartbeatPatch :: "int \<Rightarrow> string" where
  "resourceHeartbeatPatch time =
     (let q = [CHR 0x22] in
      ''[ { '' @ q @ ''op'' @ q @ '' : '' @ q @ ''replace'' @ q @ '' , '' @ q @ ''path'' @ q @ '' : '' @ q
      @ ''/metadata/annotations/'' @ KtLastHeartBeat @ q @ '' , '' @ q @ ''value'' @ q @ '' : '' @ q
      @ GetTimestamp time @ q @ '' } ]'')"

definition update_heart_beat ::
  "'w kube \<Rightarrow> string \<Rightarrow> (string \<Rightarrow> string \<Rightarrow> string \<Rightarrow> ('w, unit outcome) state) \<Rightarrow> string \<Rightarrow> string \<Rightarrow>
   ('w prog, beat_log) state" where
  "update_heart_beat k kind patch name namespace = do {
     time \<leftarrow> now k;
     r \<leftarrow> lift_io (patch namespace name (resourceHeartbeatPatch time));
     (let key = kind @ name
      in State (\<lambda>p. (case r of
           Value _ \<Rightarrow> (Debug, p\<lparr>LastHeartBeatStatus := HeartBeatStatus_Set (LastHeartBeatStatus p) key True\<rparr>)
         | _ \<Rightarrow> (case HeartBeatStatus_Get (LastHeartBeatStatus p) key of (healthy, exists) \<Rightarrow>
             (if healthy \<or> \<not> exists then Warn else Debug,
              p\<lparr>LastHeartBeatStatus := HeartBeatStatus_Set (LastHeartBeatStatus p) key False\<rparr>)))))
   }"

definition UpdatePodHeartBeat :: "'w kube \<Rightarrow> string \<Rightarrow> string \<Rightarrow> ('w prog, beat_log) state" where
  "UpdatePodHeartBeat k = update_heart_beat k ''pod_'' (api_patch (PodsApi k))"

definition UpdateDeploymentHeartBeat :: "'w kube \<Rightarrow> string \<Rightarrow> string \<Rightarrow> ('w prog, beat_log) state" where
  "UpdateDeploymentHeartBeat k = update_heart_beat k ''deployment_'' (api_patch (DeploymentsApi k))"

definition UpdateServiceHeartBeat :: "'w kube \<Rightarrow> string \<Rightarrow> string \<Rightarrow> ('w prog, beat_log) state" where
  "UpdateServiceHeartBeat k = update_heart_beat k ''service_'' (api_patch (ServicesApi k))"

definition UpdateConfigMapHeartBeat :: "'w kube \<Rightarrow> string \<Rightarrow> string \<Rightarrow> ('w prog, beat_log) state" where
  "UpdateConfigMapHeartBeat k = update_heart_beat k ''configmap_'' (api_patch (ConfigMapsApi k))"

section \<open>Time difference\<close>

text \<open>
  The difference that \<open>SetupTimeDifference\<close> keeps, from the seconds the rectifier pod prints and the
  local clock.
\<close>

definition time_difference :: "string \<Rightarrow> int \<Rightarrow> int outcome" where
  "time_difference stdout local_time = obind (atoi_err stdout) (\<lambda>remoteTime. Value (remoteTime - local_time))"

section \<open>An outage is reported once\<close>

text \<open>Ticks of one object: whether each patch worked, and what was logged.\<close>

fun beat_logs :: "bool gomap \<Rightarrow> string \<Rightarrow> bool list \<Rightarrow> beat_log list" where
  "beat_logs status key [] = []"
| "beat_logs status key (ok # oks) =
     (if \<not> ok \<and> beat.reported status key then Warn else Debug)
     # beat_logs (HeartBeatStatus_Set status key ok) key oks"

fun ticks :: "('w prog, beat_log) state \<Rightarrow> nat \<Rightarrow> 'w prog \<Rightarrow> beat_log list \<times> 'w prog" where
  "ticks m 0 s = ([], s)"
| "ticks m (Suc n) s = (case run_state m s of (l, t) \<Rightarrow> map_prod ((#) l) id (ticks m n t))"

text \<open>The patches of a world that answers in the order of a list of results.\<close>

definition patch_answers ::
  "'w kube \<Rightarrow> (string \<Rightarrow> string \<Rightarrow> string \<Rightarrow> ('w, unit outcome) state) \<Rightarrow> ('w \<Rightarrow> bool list) \<Rightarrow> bool" where
  "patch_answers k patch answers \<longleftrightarrow>
     (\<forall>w. \<exists>t. run_state (GetTime k) w = (t, w)) \<and>
     (\<forall>w ns n body. answers (snd (run_state (patch ns n body) w)) = tl (answers w) \<and>
        (answers w \<noteq> [] \<longrightarrow> is_value (fst (run_state (patch ns n body) w)) = hd (answers w)))"

lemma tick_log:
  assumes "patch_answers k patch answers" and "answers (World s) = ok # oks"
  shows "\<exists>w. run_state (update_heart_beat k kind patch name ns) s =
      (if \<not> ok \<and> beat.reported (LastHeartBeatStatus s) (kind @ name) then Warn else Debug,
       s\<lparr>LastHeartBeatStatus := HeartBeatStatus_Set (LastHeartBeatStatus s) (kind @ name) ok, World := w\<rparr>) \<and>
    answers w = oks"
proof -
  obtain t where t: "run_state (GetTime k) (World s) = (t, World s)"
    using assms(1) unfolding patch_answers_def by blast
  obtain r w where r: "run_state (patch ns name (resourceHeartbeatPatch t)) (World s) = (r, w)" by fastforce
  have w: "answers w = oks" and v: "is_value r = ok"
    using assms r unfolding patch_answers_def by (metis fst_conv snd_conv list.sel list.simps(3))+
  show ?thesis
    using t r w v
    by (intro exI [of _ w]; cases r)
       (auto simp: update_heart_beat_def now_def is_value_def beat.reported_def Let_def split: prod.splits)
qed

lemma ticks_logs:
  assumes p: "patch_answers k patch answers"
  shows "answers (World s) = oks @ rest \<Longrightarrow>
    fst (ticks (update_heart_beat k kind patch name ns) (length oks) s)
      = beat_logs (LastHeartBeatStatus s) (kind @ name) oks"
proof (induction oks arbitrary: s)
  case (Cons ok oks)
  then obtain w where "run_state (update_heart_beat k kind patch name ns) s =
      (if \<not> ok \<and> beat.reported (LastHeartBeatStatus s) (kind @ name) then Warn else Debug,
       s\<lparr>LastHeartBeatStatus := HeartBeatStatus_Set (LastHeartBeatStatus s) (kind @ name) ok, World := w\<rparr>)"
    "answers w = oks @ rest"
    using tick_log [OF p, of s ok "oks @ rest" kind name ns] by auto
  with Cons.IH [of "s\<lparr>LastHeartBeatStatus := HeartBeatStatus_Set (LastHeartBeatStatus s) (kind @ name) ok, World := w\<rparr>"]
  show ?case by simp
qed simp

lemma beat_logs_nth:
  "i < length oks \<Longrightarrow> beat_logs status key oks ! i =
    (if \<not> oks ! i \<and> (if i = 0 then beat.reported status key else oks ! (i - 1)) then Warn else Debug)"
proof (induction oks arbitrary: status i)
  case (Cons ok oks)
  then show ?case by (cases i; cases "i - 1") auto
qed simp

section \<open>The properties\<close>

text \<open>
  An outage is reported once: over the ticks of one object, whatever the API server answers, a
  warning is logged exactly for a failed patch after a patch that worked (for the first tick: when no
  earlier failure is remembered).
\<close>
theorem outage_reported_once:
  assumes "patch_answers k patch answers" and "answers (World s) = oks" and "i < length oks"
  shows "fst (ticks (update_heart_beat k kind patch name namespace) (length oks) s) ! i =
    (if \<not> oks ! i \<and> (if i = 0 then beat.reported (LastHeartBeatStatus s) (kind @ name) else oks ! (i - 1))
     then Warn else Debug)"
  using ticks_logs [OF assms(1), of s oks "[]" kind name namespace] beat_logs_nth [OF assms(3)] assms(2)
  by simp

definition scripted_patch :: "string \<Rightarrow> string \<Rightarrow> string \<Rightarrow> (bool list, unit outcome) state" where
  "scripted_patch ns n body = State (\<lambda>w. (if w \<noteq> [] \<and> hd w then Value () else Fail NotFound, tl w))"

definition absent_crud :: "('w, 'o) crud" where
  "absent_crud = \<lparr> api_get = (\<lambda>ns n. State_Monad.return (Fail NotFound)),
     api_list = (\<lambda>ns l. State_Monad.return (Value [])),
     api_create = (\<lambda>ns ob. State_Monad.return (Fail NotFound)),
     api_update = (\<lambda>ns ob. State_Monad.return (Fail NotFound)),
     api_delete = (\<lambda>ns n. State_Monad.return (Fail NotFound)),
     api_patch = (\<lambda>ns n b. State_Monad.return (Fail NotFound)) \<rparr>"

definition scripted_kube :: "bool list kube" where
  "scripted_kube = \<lparr> PodsApi = absent_crud\<lparr>api_patch := scripted_patch\<rparr>, DeploymentsApi = absent_crud,
     ServicesApi = absent_crud, ConfigMapsApi = absent_crud,
     ExecApi = (\<lambda>c p ns cmd. State_Monad.return ([], [], None)), GetTime = State_Monad.return 7,
     Sleep = (\<lambda>n. State_Monad.return ()), RemoveFile = (\<lambda>f. State_Monad.return (Value ())),
     GenerateKey = (\<lambda>p. State_Monad.return (Fail NotFound)),
     WritePrivateKey = (\<lambda>p x. State_Monad.return (Value ())), EnvoyFiltersApi = Fail NotFound,
     LocalUserName = ''dev'', KeyDir = ''/tmp'', QuantityOk = (\<lambda>q. True) \<rparr>"

lemma outage_reported_once_witness:
  "fst (ticks (UpdatePodHeartBeat scripted_kube ''p'' ''default'') 4
     \<lparr> Store = Store (mem_prog \<lparr> ClPods = [], ClDeployments = [], ClServices = [], ClConfigMaps = [] \<rparr>),
        Heartbeats = [], LastHeartBeatStatus = GoMap [], World = [True, False, False, True] \<rparr>) ! 2
   = Debug"
proof -
  have p: "patch_answers (scripted_kube) scripted_patch (\<lambda>w. w)"
    by (auto simp: patch_answers_def scripted_kube_def scripted_patch_def is_value_def)
  let ?s = "\<lparr> Store = Store (mem_prog \<lparr> ClPods = [], ClDeployments = [], ClServices = [], ClConfigMaps = [] \<rparr>), Heartbeats = [], LastHeartBeatStatus = GoMap [],
              World = [True, False, False, True] \<rparr> :: bool list prog"
  have w: "World ?s = [True, False, False, True]" by simp
  from outage_reported_once [OF p w, of 2 "''pod_''" "''p''" "''default''"] show ?thesis
    by (simp add: numeral_eq_Suc UpdatePodHeartBeat_def scripted_kube_def)
qed

end
