(* ===== verification/Mesh.thy ===== *)
theory Mesh
  imports ServiceLock Heartbeat
begin

text \<open>
  \<open>pkg/kt/command/mesh\<close>: sharing a service by version.  \<open>AutoMesh\<close> keeps the original pods behind
  a stuntman service, gives every user a shadow service, and lets the original service select a
  router pod that tells the requests apart.  The random strings of the code (version, targets) and
  the port forwarding of \<open>pkg/kt/transmission\<close> are arguments.
\<close>

section \<open>Shadow and inbound forwarding\<close>

type_synonym 'w forwarder = "string \<Rightarrow> string \<Rightarrow> string \<Rightarrow> ('w, int outcome) state"

definition CreateShadowAndInbound ::
  "'w kube \<Rightarrow> kt_options \<Rightarrow> 'w forwarder \<Rightarrow> string \<Rightarrow> string \<Rightarrow> smap \<Rightarrow> smap \<Rightarrow> (int \<times> string) list \<Rightarrow>
   ('w prog, unit outcome) state" where
  "CreateShadowAndInbound k opts forward shadowPodName portsToExpose labels annotations portNameDict =
     go_try (GetOrCreateShadow k opts shadowPodName labels annotations (GoMap []) portsToExpose portNameDict)
       (\<lambda>(_, podName, privateKeyPath).
         go_try (lift_io (forward portsToExpose podName privateKeyPath)) (\<lambda>_. State_Monad.return (Value ())))"

text \<open>
  The label map of the caller afterwards: \<open>GetOrCreateShadow\<close> writes the labels of the option
  \<open>withLabel\<close> into it.
\<close>

definition labels_after :: "kt_options \<Rightarrow> smap \<Rightarrow> smap" where
  "labels_after opts labels =
     (case set_entries labels (entries (String2Map (Global_WithLabel opts))) of Value l \<Rightarrow> l | _ \<Rightarrow> labels)"

section \<open>Versions\<close>

definition is_lower :: "char \<Rightarrow> bool" where
  "is_lower c \<longleftrightarrow> 97 \<le> (of_char c :: nat) \<and> (of_char c :: nat) \<le> 122"

text \<open>The pattern \<open>^[a-z][a-z0-9_-]*$\<close>.\<close>

definition isValidKey :: "string \<Rightarrow> bool" where
  "isValidKey key =
     (case key of [] \<Rightarrow> False
      | c # cs \<Rightarrow> is_lower c \<and> list_all (\<lambda>x. is_lower x \<or> is_digit x \<or> x = CHR ''_'' \<or> x = CHR ''-'') cs)"

definition getVersion :: "string \<Rightarrow> string \<Rightarrow> string \<times> string" where
  "getVersion random versionMark =
     (if versionMark = [] then (''version'', to_lower random)
      else (let versionParts = split_on CHR '':'' versionMark
            in if length versionParts > 1
               then (if isValidKey (versionParts ! 0) then versionParts ! 0 else ''version'',
                     if versionParts ! 1 \<noteq> [] then versionParts ! 1 else to_lower random)
               else (''version'', versionParts ! 0)))"

section \<open>Ports\<close>

fun mesh_ports :: "(int \<times> string) list \<Rightarrow> string \<Rightarrow> service_port list \<Rightarrow> (int \<times> int) list \<Rightarrow> (int \<times> int) list outcome" where
  "mesh_ports portToNames svcName [] ports = Value ports"
| "mesh_ports portToNames svcName (p # ps) ports =
     (case TargetPort p of
        IntPort n \<Rightarrow> mesh_ports portToNames svcName ps (AList.update (Port p) n ports)
      | StrPort portName \<Rightarrow>
          (case find (\<lambda>(_, n). n = portName) portToNames of
             Some (podPort, _) \<Rightarrow>
               if podPort < 0
               then Fail (Errorf (''cannot found port number of target port '' @ quoted portName @ '' of service '' @ svcName))
               else mesh_ports portToNames svcName ps (AList.update (Port p) podPort ports)
           | None \<Rightarrow> Fail (Errorf (''cannot found port number of target port '' @ quoted portName @ '' of service '' @ svcName))))"

definition toPortMapParameter :: "(int \<times> int) list \<Rightarrow> string" where
  "toPortMapParameter ports =
     (if ports = [] then []
      else tl (concat (map (\<lambda>(a, b). '','' @ itoa a @ '':'' @ itoa b) ports)))"

section \<open>Checks\<close>

function isNameUsable :: "'w kube \<Rightarrow> kt_options \<Rightarrow> string \<Rightarrow> string \<Rightarrow> nat \<Rightarrow> ('w prog, unit outcome) state" where
  "isNameUsable k opts name meshVersion tries =
     (if tries > 10
      then State_Monad.return (Fail (Errorf (''meshing pod for service '' @ name @ '' still terminating, please try again later'')))
      else go_catch (GetPod k (name @ MeshPodInfix @ meshVersion) (Global_Namespace opts))
        (\<lambda>p. if DeletionTimestamp p = None
             then State_Monad.return (Fail (Errorf (''Another user is meshing service '' @ quoted name @ '' via version ''
                    @ quoted meshVersion @
                    (if Mesh_VersionMark opts \<noteq> [] then '', please specify a different version mark''
                     else '', please retry or use versionMark parameter to spcify an uniq one''))))
             else State_Monad.bind (sleep k 3) (\<lambda>_. isNameUsable k opts name meshVersion (Suc tries)))
        (\<lambda>_. State_Monad.return (Value ())))"
  by pat_completeness auto
termination
  by (relation "measure (\<lambda>(k, opts, n, v, tries). 11 - tries)") auto

declare isNameUsable.simps [simp del]

definition sanityCheck :: "service \<Rightarrow> unit outcome" where
  "sanityCheck svc =
     (if Annotations svc \<noteq> NilMap \<and> mget (Annotations svc) KtSelector \<noteq> []
      then Fail (Errorf (''service '' @ Name svc @ '' should not have kt-selector annotation''))
      else if mget (Selector svc) KtRole \<noteq> []
      then Fail (Errorf (''service '' @ Name svc @ '' should not point to kt pods''))
      else Value ())"

section \<open>Services and router\<close>

definition plain_service_meta :: "kt_options \<Rightarrow> string \<Rightarrow> (int \<times> int) list \<Rightarrow> smap \<Rightarrow> svc_meta_and_spec" where
  "plain_service_meta opts name ports sel =
     \<lparr> SvcMeta = \<lparr> MetaName = name, MetaNamespace = Global_Namespace opts, MetaLabels = GoMap [],
                   MetaAnnotations = GoMap [] \<rparr>,
       External = False, MetaPorts = ports, Selectors = sel \<rparr>"

definition createShadowService ::
  "'w kube \<Rightarrow> kt_options \<Rightarrow> string \<Rightarrow> (int \<times> int) list \<Rightarrow> smap \<Rightarrow> ('w prog, unit outcome) state" where
  "createShadowService k opts shadowSvcName ports selectors =
     go_try (CreateService k (plain_service_meta opts shadowSvcName ports selectors)) (\<lambda>_. do {
       set_store (\<lambda>s. s\<lparr>Store_Service := shadowSvcName\<rparr>);
       State_Monad.return (Value ())
     })"

definition createStuntmanService ::
  "'w kube \<Rightarrow> kt_options \<Rightarrow> service \<Rightarrow> (int \<times> int) list \<Rightarrow> ('w prog, unit outcome) state" where
  "createStuntmanService k opts svc ports =
     (let stuntmanSvcName = Name svc @ StuntmanServiceSuffix; namespace = Global_Namespace opts
      in go_catch (GetService k stuntmanSvcName namespace)
           (\<lambda>stuntmanSvc.
             if mget (Labels stuntmanSvc) ControlBy \<noteq> KubernetesToolkit
             then State_Monad.return (Fail (Errorf (''service '' @ stuntmanSvcName @ '' exists, but not created by kt'')))
             else do {
               _ \<leftarrow> UpdateServiceHeartBeat k stuntmanSvcName namespace;
               State_Monad.return (Value ())
             })
           (\<lambda>err.
             if err \<noteq> NotFound then State_Monad.return (Fail err)
             else go_try (State_Monad.return (sanityCheck svc)) (\<lambda>_.
                  go_try (CreateService k (plain_service_meta opts stuntmanSvcName ports (Selector svc))) (\<lambda>_.
                  State_Monad.return (Value ())))))"

text \<open>The result of a command in the router pod.\<close>

definition router_command :: "'w kube \<Rightarrow> kt_options \<Rightarrow> string \<Rightarrow> string list \<Rightarrow> ('w prog, unit outcome) state" where
  "router_command k opts routerPodName cmd = do {
     r \<leftarrow> ExecInPod k DefaultContainer routerPodName (Global_Namespace opts) (''/usr/sbin/router'' # cmd);
     State_Monad.return (case r of (_, _, None) \<Rightarrow> Value () | (_, _, Some err) \<Rightarrow> Fail err)
   }"

text \<open>The router pod, waiting for the end of one that terminates.\<close>

definition current_router :: "'w kube \<Rightarrow> kt_options \<Rightarrow> string \<Rightarrow> ('w prog, pod outcome) state" where
  "current_router k opts routerPodName =
     go_try (GetPod k routerPodName (Global_Namespace opts)) (\<lambda>p.
       if DeletionTimestamp p \<noteq> None then waitPodTerminate k routerPodName (Global_Namespace opts) 0
       else State_Monad.return (Value p))"

text \<open>The result is the label map, to which the target of the router has been added.\<close>

definition createRouter ::
  "'w kube \<Rightarrow> kt_options \<Rightarrow> string \<Rightarrow> string \<Rightarrow> string \<Rightarrow> (int \<times> int) list \<Rightarrow> smap \<Rightarrow> string \<Rightarrow>
   ('w prog, smap outcome) state" where
  "createRouter k opts random routerPodName svcName ports labels versionMark =
     go_catch (current_router k opts routerPodName)
       (\<lambda>routerPod. \<comment> \<open>the router pod exists\<close>
         (let labels' = mput labels KtTarget (mget (Labels routerPod) KtTarget)
          in do {
            _ \<leftarrow> UpdatePodHeartBeat k routerPodName (Global_Namespace opts);
            go_try (State_Monad.return (atoi_err (mget (Annotations routerPod) KtRefCount))) (\<lambda>_.
            go_try (IncreasePodRef k routerPodName (Global_Namespace opts)) (\<lambda>_.
            go_try (router_command k opts routerPodName [''add'', versionMark]) (\<lambda>_. do {
              set_store (\<lambda>s. s\<lparr>Store_Router := routerPodName\<rparr>);
              State_Monad.return (Value labels')
            })))
          }))
       (\<lambda>err.
         if err \<noteq> NotFound then State_Monad.return (Fail err)
         else (let labels' = mput labels KtTarget random;
                   annotations = GoMap [(KtRefCount, ''1''), (KtConfig, ''service='' @ svcName)]
               in go_try (CreateRouterPod k opts routerPodName labels' annotations ports) (\<lambda>_.
                  go_try (router_command k opts routerPodName
                            [''setup'', svcName, toPortMapParameter ports, versionMark]) (\<lambda>_. do {
                    set_store (\<lambda>s. s\<lparr>Store_Router := routerPodName\<rparr>);
                    State_Monad.return (Value labels')
                  }))))"

section \<open>AutoMesh and ManualMesh\<close>

text \<open>What \<open>AutoMesh\<close> does while it holds the lock; \<open>rnd\<close> gives its random strings.\<close>

definition auto_mesh_locked ::
  "'w kube \<Rightarrow> kt_options \<Rightarrow> 'w forwarder \<Rightarrow> string \<Rightarrow> (nat \<Rightarrow> string) \<Rightarrow> service \<Rightarrow> ('w prog, unit outcome) state" where
  "auto_mesh_locked k opts forward expose rnd svc =
     (if Annotations svc \<noteq> NilMap \<and> mget (Annotations svc) KtSelector \<noteq> [] \<and>
         mget (Selector svc) KtRole = ''shadow-exchange''
      then State_Monad.bind (GetOccupiedUser k opts (Selector svc)) (\<lambda>user.
        State_Monad.return (Fail (Errorf (''another user'' @ user @ '' is exchanging service '' @ quoted (Name svc)
          @ '', cannot apply mesh''))))
      else (case getVersion (rnd 0) (Mesh_VersionMark opts) of (meshKey, meshVersion) \<Rightarrow>
        (let versionMark = meshKey @ '':'' @ meshVersion;
             namespace = Global_Namespace opts;
             shadowName = Name svc @ MeshPodInfix @ meshVersion;
             shadowLabels = GoMap [(KtRole, ''shadow-mesh''), (KtTarget, rnd 1)]
         in do {
           set_store (\<lambda>s. s\<lparr>Store_Mesh := versionMark\<rparr>);
           go_try (GetTargetPorts k opts svc) (\<lambda>portToNames.
           go_try (State_Monad.return (mesh_ports portToNames (Name svc) (SvcPorts svc) [])) (\<lambda>ports.
           go_try (isNameUsable k opts (Name svc) meshVersion 0) (\<lambda>_.
           go_try (createStuntmanService k opts svc ports) (\<lambda>_.
           go_try (createShadowService k opts shadowName ports shadowLabels) (\<lambda>_.
           go_try (createRouter k opts (rnd 2) (Name svc @ RouterPodSuffix) (Name svc) ports
                     (GoMap [(KtRole, ''router'')]) versionMark) (\<lambda>routerLabels.
           go_try (UpdateServiceSelector k (Name svc) namespace routerLabels) (\<lambda>_. do {
             set_store (\<lambda>s. s\<lparr>Store_Origin := Name svc\<rparr>);
             CreateShadowAndInbound k opts forward shadowName expose shadowLabels
               (GoMap [(KtConfig, ''service='' @ shadowName)]) portToNames
           })))))))
         })))"

definition AutoMesh ::
  "'w kube \<Rightarrow> kt_options \<Rightarrow> 'w forwarder \<Rightarrow> string \<Rightarrow> (nat \<Rightarrow> string) \<Rightarrow> service \<Rightarrow> ('w prog, unit outcome) state" where
  "AutoMesh k opts forward expose rnd svc0 =
     go_try (LockService k (Name svc0) (Global_Namespace opts) 0) (\<lambda>svc.
       go_defer (auto_mesh_locked k opts forward expose rnd svc)
                (UnlockService k (Name svc) (Global_Namespace opts)))"

definition getMeshLabels :: "string \<Rightarrow> string \<Rightarrow> service \<Rightarrow> smap" where
  "getMeshLabels meshKey meshVersion svc =
     mput (mput (put_all (GoMap []) (entries (Selector svc))) KtRole ''shadow-mesh'') meshKey meshVersion"

definition ManualMesh ::
  "'w kube \<Rightarrow> kt_options \<Rightarrow> 'w forwarder \<Rightarrow> string \<Rightarrow> (nat \<Rightarrow> string) \<Rightarrow> service \<Rightarrow> ('w prog, unit outcome) state" where
  "ManualMesh k opts forward expose rnd svc =
     (case getVersion (rnd 0) (Mesh_VersionMark opts) of (meshKey, meshVersion) \<Rightarrow>
       go_try (GetTargetPorts k opts svc) (\<lambda>portToNames.
         CreateShadowAndInbound k opts forward (Name svc @ MeshPodInfix @ meshVersion) expose
           (getMeshLabels meshKey meshVersion svc) (GoMap []) portToNames))"

text \<open>The part of the command that follows the setup of the process.\<close>

definition Mesh ::
  "'w kube \<Rightarrow> kt_options \<Rightarrow> 'w forwarder \<Rightarrow> (string \<Rightarrow> bool) \<Rightarrow> bool \<Rightarrow> string \<Rightarrow> string \<Rightarrow> (nat \<Rightarrow> string) \<Rightarrow> string \<Rightarrow>
   ('w prog, unit outcome) state" where
  "Mesh k opts forward dial skipPortChecking mode expose rnd resourceName =
     (if skipPortChecking \<and> FindBrokenLocalPort dial expose \<noteq> []
      then State_Monad.return (Fail (Errorf (''no application is running on port '' @ FindBrokenLocalPort dial expose)))
      else go_try (GetServiceByResourceName k resourceName (Global_Namespace opts)) (\<lambda>svc.
           go_try (GetTargetPorts k opts svc) (\<lambda>svcPorts.
             if FindInvalidRemotePort expose svcPorts \<noteq> []
             then State_Monad.return (Fail (Errorf (''target port '' @ FindInvalidRemotePort expose svcPorts
                    @ '' not exists in service '' @ Name svc)))
             else if mode = ''manual'' then ManualMesh k opts forward expose rnd svc
             else if mode = ''auto'' then AutoMesh k opts forward expose rnd svc
             else State_Monad.return (Fail (Errorf (''invalid mesh method '' @ quoted mode))))))"

end
