(* ===== verification/Exchange.thy ===== *)
theory Exchange
  imports Mesh
begin

text \<open>
  \<open>pkg/kt/command/exchange\<close> and \<open>preview\<close>: taking over all requests of a service by scaling its
  deployment down (\<open>ByScale\<close>), by changing its selector (\<open>BySelector\<close>) or by a container added to
  its pods (\<open>ByEphemeralContainer\<close>), and offering a local program as a new service (\<open>Expose\<close>).
\<close>

section \<open>By scale\<close>

definition getExchangeAnnotation :: "runtime_store \<Rightarrow> smap" where
  "getExchangeAnnotation st =
     GoMap [(KtConfig, ''app='' @ Store_Origin st @ '',replicas='' @ itoa (Store_Replicas st))]"

definition getExchangeLabels :: "deployment \<Rightarrow> smap" where
  "getExchangeLabels origin = put_all (GoMap [(KtRole, ''shadow-exchange'')]) (entries (MatchLabels origin))"

definition ByScale ::
  "'w kube \<Rightarrow> kt_options \<Rightarrow> 'w forwarder \<Rightarrow> string \<Rightarrow> (nat \<Rightarrow> string) \<Rightarrow> string \<Rightarrow> ('w prog, unit outcome) state" where
  "ByScale k opts forward expose rnd resourceName =
     go_try (GetDeploymentByResourceName k resourceName (Global_Namespace opts)) (\<lambda>app. do {
       set_store (\<lambda>s. s\<lparr>Store_Origin := Name app, Store_Replicas := Replicas app\<rparr>);
       st \<leftarrow> get_store;
       go_try (CreateShadowAndInbound k opts forward (Name app @ ExchangePodInfix @ to_lower (rnd 0)) expose
                 (getExchangeLabels app) (getExchangeAnnotation st) []) (\<lambda>_.
         ScaleTo k (Name app) (Global_Namespace opts) 0)
     })"

section \<open>By selector\<close>

text \<open>What is refused before the exchange: None where the service is free.\<close>

definition exchange_conflict :: "service \<Rightarrow> (string \<Rightarrow> go_error) option" where
  "exchange_conflict svc =
     (if Annotations svc \<noteq> NilMap \<and> mget (Annotations svc) KtSelector \<noteq> [] then
        Some (\<lambda>user.
          if mget (Selector svc) KtRole = ''shadow-exchange''
          then Errorf (''service '' @ quoted (Name svc) @ '' is already exchanging by another user'' @ user
                 @ '', cannot apply exchange'')
          else if mget (Selector svc) KtRole = ''router''
          then Errorf (''another user is meshing service '' @ quoted (Name svc) @ '', cannot apply exchange'')
          else Errorf (''service '' @ quoted (Name svc)
                 @ '' in invalid status, please manually remove kt-selector annotation before exchange''))
      else None)"

definition selector_exchange_locked ::
  "'w kube \<Rightarrow> kt_options \<Rightarrow> 'w forwarder \<Rightarrow> string \<Rightarrow> (nat \<Rightarrow> string) \<Rightarrow> service \<Rightarrow> ('w prog, unit outcome) state" where
  "selector_exchange_locked k opts forward expose rnd svc =
     (case exchange_conflict svc of
        Some err \<Rightarrow> State_Monad.bind
          (if mget (Selector svc) KtRole = ''shadow-exchange'' then GetOccupiedUser k opts (Selector svc)
           else State_Monad.return [])
          (\<lambda>user. State_Monad.return (Fail (err user)))
      | None \<Rightarrow>
          (let shadowLabels = GoMap [(KtRole, ''shadow-exchange''), (KtTarget, rnd 1)]
           in go_try (GetTargetPorts k opts svc) (\<lambda>portNameDict.
              go_try (CreateShadowAndInbound k opts forward (Name svc @ ExchangePodInfix @ to_lower (rnd 0)) expose
                        shadowLabels (GoMap [(KtConfig, ''service='' @ Name svc)]) portNameDict) (\<lambda>_. do {
                set_store (\<lambda>s. s\<lparr>Store_Origin := Name svc\<rparr>);
                UpdateServiceSelector k (Name svc) (Global_Namespace opts) (labels_after opts shadowLabels)
              }))))"

definition BySelector ::
  "'w kube \<Rightarrow> kt_options \<Rightarrow> 'w forwarder \<Rightarrow> string \<Rightarrow> (nat \<Rightarrow> string) \<Rightarrow> string \<Rightarrow> ('w prog, unit outcome) state" where
  "BySelector k opts forward expose rnd resourceName =
     go_try (GetServiceByResourceName k resourceName (Global_Namespace opts)) (\<lambda>svc0.
     go_try (GetTargetPorts k opts svc0) (\<lambda>svcPorts.
       if FindInvalidRemotePort expose svcPorts \<noteq> []
       then State_Monad.return (Fail (Errorf (''target port '' @ FindInvalidRemotePort expose svcPorts
              @ '' not exists in service '' @ Name svc0)))
       else go_try (LockService k (Name svc0) (Global_Namespace opts) 0) (\<lambda>svc.
         go_defer (selector_exchange_locked k opts forward expose rnd svc)
                  (UnlockService k (Name svc) (Global_Namespace opts)))))"

section \<open>By ephemeral container\<close>

definition getPodsOfService :: "'w kube \<Rightarrow> string \<Rightarrow> string \<Rightarrow> ('w prog, pod list outcome) state" where
  "getPodsOfService k serviceName namespace =
     go_try (GetService k serviceName namespace) (\<lambda>svc. GetPodsByLabel k (Selector svc) namespace)"

definition getPodsOfResource :: "'w kube \<Rightarrow> string \<Rightarrow> string \<Rightarrow> ('w prog, pod list outcome) state" where
  "getPodsOfResource k resourceName namespace =
     go_try (State_Monad.return (ParseResourceName resourceName)) (\<lambda>(resourceType, name).
       if resourceType = ''pod'' then go_try (GetPod k name namespace) (\<lambda>p. State_Monad.return (Value [p]))
       else if resourceType = ''svc'' \<or> resourceType = ''service'' then getPodsOfService k name namespace
       else State_Monad.return (Fail (Errorf (''invalid resource type: '' @ resourceType))))"

text \<open>
  The status of the ephemeral containers of a pod, as the API reports it: name, running, and the
  exit code of one that has terminated.
\<close>

type_synonym container_status = "string \<times> bool \<times> int option"

fun ready_loop :: "string \<Rightarrow> container_status list \<Rightarrow> bool outcome" where
  "ready_loop containerName [] = Value False"
| "ready_loop containerName ((n, running, terminated) # rest) =
     (if n = containerName then
        (if running then Value True
         else (case terminated of
                 Some code \<Rightarrow> Fail (Errorf (''ephemeral container '' @ containerName @ '' is terminated, code: '' @ itoa code))
               | None \<Rightarrow> ready_loop containerName rest))
      else ready_loop containerName rest)"

definition isEphemeralContainerReady ::
  "'w kube \<Rightarrow> (pod \<Rightarrow> container_status list) \<Rightarrow> string \<Rightarrow> string \<Rightarrow> string \<Rightarrow> ('w prog, bool outcome) state" where
  "isEphemeralContainerReady k statuses podName containerName namespace =
     go_try (GetPod k podName namespace) (\<lambda>p. State_Monad.return (ready_loop containerName (statuses p)))"

text \<open>The ten attempts; the code passes the container's name where the pod's name is expected.\<close>

fun wait_ephemeral ::
  "'w kube \<Rightarrow> (pod \<Rightarrow> container_status list) \<Rightarrow> string \<Rightarrow> string \<Rightarrow> string \<Rightarrow> nat \<Rightarrow> ('w prog, unit outcome) state" where
  "wait_ephemeral k statuses containerName podName namespace 0 = State_Monad.return (Value ())"
| "wait_ephemeral k statuses containerName podName namespace (Suc n) =
     go_try (isEphemeralContainerReady k statuses containerName podName namespace) (\<lambda>ready.
       if ready then State_Monad.return (Value ())
       else State_Monad.bind (sleep k 5) (\<lambda>_. wait_ephemeral k statuses containerName podName namespace n))"

definition createEphemeralContainer ::
  "'w kube \<Rightarrow> kt_options \<Rightarrow> (pod \<Rightarrow> ('w, pod outcome) state) \<Rightarrow> (string \<Rightarrow> string) \<Rightarrow> string \<Rightarrow>
   (pod \<Rightarrow> container_status list) \<Rightarrow> string \<Rightarrow> string \<Rightarrow> ('w prog, string outcome) state" where
  "createEphemeralContainer k opts update_ephemeral base64 img statuses containerName podName =
     go_try (AddEphemeralContainer k opts update_ephemeral base64 img containerName podName (GoMap [])) (\<lambda>privateKey.
     go_try (wait_ephemeral k statuses containerName podName (Global_Namespace opts) 10) (\<lambda>_.
     State_Monad.return (Value privateKey)))"

text \<open>The listening ports that the remote script prints, one per line; other lines are skipped.\<close>

fun listened_loop :: "string list \<Rightarrow> int list \<Rightarrow> int list" where
  "listened_loop [] ports = ports"
| "listened_loop (l # ls) ports =
     listened_loop ls (if l = [] then ports else case atoi l of None \<Rightarrow> ports | Some p \<Rightarrow> List.insert p ports)"

definition getListenedPorts :: "string \<Rightarrow> int list" where
  "getListenedPorts script_output = listened_loop (split_on (CHR 0x0A) script_output) []"

text \<open>The first of a hundred random ports that is not listened on, -1 where there is none.\<close>

definition randPort :: "(nat \<Rightarrow> int) \<Rightarrow> int list \<Rightarrow> int" where
  "randPort random listenedPorts =
     (case find (\<lambda>p. p \<notin> set listenedPorts) (map random [0..<100]) of Some p \<Rightarrow> p | None \<Rightarrow> -1)"

fun redirect_loop ::
  "(nat \<Rightarrow> nat \<Rightarrow> int) \<Rightarrow> int list \<Rightarrow> nat \<Rightarrow> string list \<Rightarrow> (int \<times> int) list \<Rightarrow> (int \<times> int) list outcome" where
  "redirect_loop random listenedPorts i [] m = Value m"
| "redirect_loop random listenedPorts i (e # es) m =
     (case ParsePortMapping e of
        Fail err \<Rightarrow> Fail err
      | Panic \<Rightarrow> Panic
      | Value (_, remotePort) \<Rightarrow>
          (let p = randPort (random i) listenedPorts
           in if p = -1 then Fail (Errorf (''failed to find redirect port for port: '' @ itoa remotePort))
              else redirect_loop random listenedPorts (Suc i) es (AList.update remotePort p m)))"

definition remoteRedirectPort :: "(nat \<Rightarrow> nat \<Rightarrow> int) \<Rightarrow> string \<Rightarrow> int list \<Rightarrow> (int \<times> int) list outcome" where
  "remoteRedirectPort random exposePorts listenedPorts =
     redirect_loop random listenedPorts 0 (split_on CHR '','' exposePorts) []"

text \<open>
  The argument of the script that sets up the redirection: the pairs, joined by commas.  Cutting off
  the last comma fails at run time when there is no pair.
\<close>

definition redirect_text :: "(int \<times> int) list \<Rightarrow> string outcome" where
  "redirect_text m =
     (if m = [] then Panic else Value (butlast (concat (map (\<lambda>(p, q). itoa p @ '':'' @ itoa q @ '','') m))))"

text \<open>
  The remote scripts (\<open>list_ports\<close>, \<open>setup_iptables\<close>) and the SSH tunnel of the ports are arguments.
\<close>

definition exchangeWithEphemeralContainer ::
  "('w, string outcome) state \<Rightarrow> (string \<Rightarrow> ('w, unit outcome) state) \<Rightarrow> ('w, unit outcome) state \<Rightarrow>
   (nat \<Rightarrow> nat \<Rightarrow> int) \<Rightarrow> string \<Rightarrow> ('w prog, unit outcome) state" where
  "exchangeWithEphemeralContainer list_ports setup_iptables ssh_tunnel random exposePorts =
     go_try (lift_io list_ports) (\<lambda>out.
     go_try (State_Monad.return (remoteRedirectPort random exposePorts (getListenedPorts out))) (\<lambda>redirectPorts.
     go_try (State_Monad.return (redirect_text redirectPorts)) (\<lambda>redirectPortStr.
     go_try (lift_io (setup_iptables redirectPortStr)) (\<lambda>_.
     lift_io ssh_tunnel))))"

fun ephemeral_loop ::
  "'w kube \<Rightarrow> kt_options \<Rightarrow> (string \<Rightarrow> ('w prog, string outcome) state) \<Rightarrow> 'w forwarder \<Rightarrow>
   (int \<Rightarrow> string \<Rightarrow> ('w prog, unit outcome) state) \<Rightarrow> string \<Rightarrow> pod list \<Rightarrow> ('w prog, unit outcome) state" where
  "ephemeral_loop k opts create forward exch expose [] = State_Monad.return (Value ())"
| "ephemeral_loop k opts create forward exch expose (p # ps) =
     (if Phase p \<noteq> ''Running'' then ephemeral_loop k opts create forward exch expose ps
      else go_try (create (Name p)) (\<lambda>privateKey. do {
             set_store (\<lambda>s. s\<lparr>Store_Shadow := Append (Store_Shadow s) (Name p)\<rparr>);
             go_try (lift_io (forward expose (Name p) privateKey)) (\<lambda>localSSHPort.
             go_try (exch localSSHPort privateKey) (\<lambda>_.
             ephemeral_loop k opts create forward exch expose ps))
           }))"

text \<open>
  An error of \<open>getPodsOfResource\<close> is dropped: the loop over its empty result does nothing, and the
  command reports success.
\<close>

definition ByEphemeralContainer ::
  "'w kube \<Rightarrow> kt_options \<Rightarrow> (string \<Rightarrow> ('w prog, string outcome) state) \<Rightarrow> 'w forwarder \<Rightarrow>
   (int \<Rightarrow> string \<Rightarrow> ('w prog, unit outcome) state) \<Rightarrow> string \<Rightarrow> string \<Rightarrow> ('w prog, unit outcome) state" where
  "ByEphemeralContainer k opts create forward exch expose resourceName =
     go_catch (getPodsOfResource k resourceName (Global_Namespace opts))
       (ephemeral_loop k opts create forward exch expose)
       (\<lambda>_. ephemeral_loop k opts create forward exch expose [])"

section \<open>The exchange command\<close>

definition toTypeAndName :: "string \<Rightarrow> string \<times> string" where
  "toTypeAndName name =
     (let parts = split_on CHR ''/'' name
      in if length parts > 1 then (parts ! 0, parts ! 1) else (''service'', parts ! 0))"

definition Exchange ::
  "('w prog, unit outcome) state \<Rightarrow> ('w prog, unit outcome) state \<Rightarrow> ('w prog, unit outcome) state \<Rightarrow>
   kt_options \<Rightarrow> (string \<Rightarrow> bool) \<Rightarrow> bool \<Rightarrow> string \<Rightarrow> ('w prog, unit outcome) state" where
  "Exchange by_scale by_ephemeral by_selector opts dial skipPortChecking expose =
     (if skipPortChecking \<and> FindBrokenLocalPort dial expose \<noteq> []
      then State_Monad.return (Fail (Errorf (''no application is running on port '' @ FindBrokenLocalPort dial expose)))
      else if Exchange_Mode opts = ''scale'' then by_scale
      else if Exchange_Mode opts = ''ephemeral'' then by_ephemeral
      else if Exchange_Mode opts = ''selector'' then by_selector
      else State_Monad.return (Fail (Errorf (''invalid exchange method '' @ quoted (Exchange_Mode opts)))))"

section \<open>Preview\<close>

text \<open>
  The ports of the new service.  Where an entry does not parse, the code returns the outer error
  variable, which is nil: the command ends without an error and without a service.
\<close>

fun preview_ports :: "string list \<Rightarrow> (int \<times> int) list \<Rightarrow> (int \<times> int) list option" where
  "preview_ports [] ports = Some ports"
| "preview_ports (e # es) ports =
     (case ParsePortMapping e of
        Value (_, remotePort) \<Rightarrow> preview_ports es (AList.update remotePort remotePort ports)
      | _ \<Rightarrow> None)"

definition exposeLocalService ::
  "'w kube \<Rightarrow> kt_options \<Rightarrow> 'w forwarder \<Rightarrow> string \<Rightarrow> bool \<Rightarrow> string \<Rightarrow> string \<Rightarrow> smap \<Rightarrow> smap \<Rightarrow>
   ('w prog, unit outcome) state" where
  "exposeLocalService k opts forward expose external serviceName shadowPodName labels annotations =
     go_try (GetOrCreateShadow k opts shadowPodName labels annotations (GoMap []) expose [])
       (\<lambda>(_, podName, privateKeyPath).
         (case preview_ports (split_on CHR '','' expose) [] of
            None \<Rightarrow> State_Monad.return (Value ())
          | Some ports \<Rightarrow>
              go_try (CreateService k
                ((plain_service_meta opts serviceName ports (labels_after opts labels))\<lparr>External := external\<rparr>)) (\<lambda>_. do {
                set_store (\<lambda>s. s\<lparr>Store_Service := serviceName\<rparr>);
                go_try (lift_io (forward expose podName privateKeyPath)) (\<lambda>_. State_Monad.return (Value ()))
              })))"

definition Expose ::
  "'w kube \<Rightarrow> kt_options \<Rightarrow> 'w forwarder \<Rightarrow> string \<Rightarrow> bool \<Rightarrow> (nat \<Rightarrow> string) \<Rightarrow> string \<Rightarrow> ('w prog, unit outcome) state" where
  "Expose k opts forward expose external rnd serviceName =
     exposeLocalService k opts forward expose external serviceName
       (serviceName @ ''-kt-'' @ to_lower (rnd 0))
       (GoMap [(KtRole, ''shadow-preview''), (KtTarget, rnd 1)])
       (GoMap [(KtConfig, ''service='' @ serviceName)])"

end
