(* ===== verification/Teardown.thy ===== *)
theory Teardown
  imports Exchange
begin

text \<open>
  \<open>pkg/kt/command/general/teardown.go\<close>: what a session leaves behind is taken away when it ends.
  The steps that belong to the local machine (pid file, hosts file, routes, tun device) are arguments
  where the package that does them is another one.  Every error is only logged, so that the
  operations return an error never; a panic would end them.
\<close>

section \<open>Local files\<close>

text \<open>\<open>pid_file\<close> is \<open>KtPidDir\<close>/component-pid.pid.\<close>

definition cleanLocalFiles :: "'w kube \<Rightarrow> string \<Rightarrow> ('w prog, unit outcome) state" where
  "cleanLocalFiles k pid_file = do {
     s \<leftarrow> get_store;
     if Store_Component s = [] then State_Monad.return (Value ())
     else go_catch (lift_io (RemoveFile k pid_file))
       (\<lambda>_. if Store_Shadow s \<noteq> []
            then go_each (\<lambda>sshcm. lift_io (RemoveFile k (PrivateKeyPathOf k sshcm))) (split_on CHR '','' (Store_Shadow s))
            else State_Monad.return (Value ()))
       (\<lambda>_. if Store_Shadow s \<noteq> []
            then go_each (\<lambda>sshcm. lift_io (RemoveFile k (PrivateKeyPathOf k sshcm))) (split_on CHR '','' (Store_Shadow s))
            else State_Monad.return (Value ()))
   }"

text \<open>\<open>drop_hosts\<close>, \<open>restore_route\<close> and \<open>shutdown\<close> are the calls into the packages dns and tun.\<close>

definition recoverGlobalHostsAndProxy ::
  "kt_options \<Rightarrow> ('w, unit) state \<Rightarrow> ('w, unit outcome) state \<Rightarrow> ('w prog, unit outcome) state" where
  "recoverGlobalHostsAndProxy opts drop_hosts restore_route = do {
     _ \<leftarrow> (if has_prefix (Connect_DnsMode opts) ''hosts'' \<or> has_prefix (Connect_DnsMode opts) ''localDNS''
          then lift_io drop_hosts else State_Monad.return ());
     if has_prefix (Connect_DnsMode opts) ''localDNS''
     then go_catch (lift_io restore_route) (\<lambda>_. State_Monad.return (Value ())) (\<lambda>_. State_Monad.return (Value ()))
     else State_Monad.return (Value ())
   }"

definition shutdownTunDevice :: "kt_options \<Rightarrow> ('w, unit outcome) state \<Rightarrow> ('w prog, unit outcome) state" where
  "shutdownTunDevice opts shutdown =
     (if Connect_DisableTunDevice opts then State_Monad.return (Value ())
      else go_catch (lift_io shutdown) (\<lambda>_. State_Monad.return (Value ())) (\<lambda>_. State_Monad.return (Value ())))"

section \<open>Exchange\<close>

fun wait_recover_loop :: "'w kube \<Rightarrow> string \<Rightarrow> string \<Rightarrow> int \<Rightarrow> nat \<Rightarrow> ('w prog, bool outcome) state" where
  "wait_recover_loop k origin namespace replicas 0 = State_Monad.return (Value False)"
| "wait_recover_loop k origin namespace replicas (Suc n) =
     go_catch (GetDeployment k origin namespace)
       (\<lambda>d. if ReadyReplicas d = replicas then State_Monad.return (Value True)
            else State_Monad.bind (sleep k 5) (\<lambda>_. wait_recover_loop k origin namespace replicas n))
       (\<lambda>_. State_Monad.return (Value False))"

text \<open>The result tells whether the deployment has recovered in time.\<close>

definition waitDeploymentRecoverComplete :: "'w kube \<Rightarrow> kt_options \<Rightarrow> ('w prog, bool outcome) state" where
  "waitDeploymentRecoverComplete k opts = do {
     s \<leftarrow> get_store;
     wait_recover_loop k (Store_Origin s) (Global_Namespace opts) (Store_Replicas s)
       (nat (go_div (Exchange_RecoverWaitTime opts) 5))
   }"

text \<open>In scale mode the wait may also be ended by a signal; the model waits to its end.\<close>

definition recoverExchangedTarget :: "'w kube \<Rightarrow> kt_options \<Rightarrow> ('w prog, unit outcome) state" where
  "recoverExchangedTarget k opts = do {
     s \<leftarrow> get_store;
     if Store_Origin s = [] then State_Monad.return (Value ())
     else if Exchange_Mode opts = ''scale'' then
       go_catch (ScaleTo k (Store_Origin s) (Global_Namespace opts) (Store_Replicas s))
         (\<lambda>_. go_try (waitDeploymentRecoverComplete k opts) (\<lambda>_. State_Monad.return (Value ())))
         (\<lambda>_. go_try (waitDeploymentRecoverComplete k opts) (\<lambda>_. State_Monad.return (Value ())))
     else if Exchange_Mode opts = ''selector'' then
       RecoverOriginalService k (Store_Origin s) (Global_Namespace opts)
     else State_Monad.return (Value ())
   }"

section \<open>Mesh\<close>

definition recoverService :: "'w kube \<Rightarrow> kt_options \<Rightarrow> string \<Rightarrow> ('w prog, unit outcome) state" where
  "recoverService k opts originSvcName =
     go_try (RecoverOriginalService k originSvcName (Global_Namespace opts)) (\<lambda>_.
     go_catch (RemoveService k (originSvcName @ StuntmanServiceSuffix) (Global_Namespace opts))
       (\<lambda>_. State_Monad.return (Value ())) (\<lambda>_. State_Monad.return (Value ())))"

definition recoverAutoMeshRoute :: "'w kube \<Rightarrow> kt_options \<Rightarrow> ('w prog, unit outcome) state" where
  "recoverAutoMeshRoute k opts = do {
     s \<leftarrow> get_store;
     if Store_Router s = [] then State_Monad.return (Value ())
     else go_catch (GetPod k (Store_Router s) (Global_Namespace opts))
       (\<lambda>routerPod.
         go_catch (DecreasePodRef k (Store_Router s) (Global_Namespace opts))
           (\<lambda>shouldDelRouter.
             if shouldDelRouter then
               go_try (recoverService k opts (mget (String2Map (mget (Annotations routerPod) KtConfig)) ''service'')) (\<lambda>_.
               go_catch (RemovePod k (Store_Router s) (Global_Namespace opts))
                 (\<lambda>_. State_Monad.return (Value ())) (\<lambda>_. State_Monad.return (Value ())))
             else do {
               _ \<leftarrow> ExecInPod k DefaultContainer (Store_Router s) (Global_Namespace opts)
                     [''/usr/sbin/router'', ''remove'', Store_Mesh s];
               State_Monad.return (Value ())
             })
           (\<lambda>_. State_Monad.return (Value ())))
       (\<lambda>_. if Store_Origin s \<noteq> [] then recoverService k opts (Store_Origin s)
            else State_Monad.return (Value ()))
   }"

section \<open>Services and shadows\<close>

definition cleanService :: "'w kube \<Rightarrow> kt_options \<Rightarrow> ('w prog, unit outcome) state" where
  "cleanService k opts = do {
     s \<leftarrow> get_store;
     if Store_Service s \<noteq> []
     then go_catch (RemoveService k (Store_Service s) (Global_Namespace opts))
            (\<lambda>_. State_Monad.return (Value ())) (\<lambda>_. State_Monad.return (Value ()))
     else State_Monad.return (Value ())
   }"

definition lane_labels :: "runtime_store \<Rightarrow> smap" where
  "lane_labels s = GoMap [(KtRole, ''shadow-connect''), (KtLane, Store_Lane s), (KtSession, Store_Session s)]"

definition shouldCleanLaneSessionResources :: "runtime_store \<Rightarrow> bool" where
  "shouldCleanLaneSessionResources s \<longleftrightarrow>
     Store_Component s = ''connect'' \<and> Store_Lane s \<noteq> [] \<and> Store_Session s \<noteq> [] \<and> Store_Shadow s = []"

definition shouldCleanLaneEnvoyFilters :: "runtime_store \<Rightarrow> bool" where
  "shouldCleanLaneEnvoyFilters s \<longleftrightarrow>
     Store_Component s = ''connect'' \<and> Store_Lane s \<noteq> [] \<and> Store_Session s \<noteq> []"

text \<open>The filter of the session by name, and then the others with its labels.\<close>

definition cleanLaneSessionEnvoyFilters :: "'w kube \<Rightarrow> smap \<Rightarrow> string \<Rightarrow> ('w prog, unit outcome) state" where
  "cleanLaneSessionEnvoyFilters k labels namespace = do {
     s \<leftarrow> get_store;
     (case EnvoyFiltersApi k of
        Value api \<Rightarrow> do {
          _ \<leftarrow> (if Store_LaneEnvoyFilter s \<noteq> [] then lift_io (api_delete api namespace (Store_LaneEnvoyFilter s))
               else State_Monad.return (Value ()));
          go_catch (lift_io (api_list api namespace labels))
            (\<lambda>items. go_each (\<lambda>f. lift_io (api_delete api namespace (Name f)))
               (filter (\<lambda>f. \<not> (Store_LaneEnvoyFilter s \<noteq> [] \<and> Name f = Store_LaneEnvoyFilter s)) items))
            (\<lambda>_. State_Monad.return (Value ()))
        }
      | _ \<Rightarrow> State_Monad.return (Value ()))
   }"

definition remove_listed ::
  "('w prog, 'm object_meta_scheme list outcome) state \<Rightarrow> (string \<Rightarrow> ('w prog, unit outcome) state) \<Rightarrow>
   ('w prog, unit outcome) state" where
  "remove_listed list_them remove =
     go_catch list_them (\<lambda>items. go_each (\<lambda>ob. remove (Name ob)) items) (\<lambda>_. State_Monad.return (Value ()))"

definition cleanLaneSessionResources :: "'w kube \<Rightarrow> kt_options \<Rightarrow> ('w prog, unit outcome) state" where
  "cleanLaneSessionResources k opts = do {
     s \<leftarrow> get_store;
     (let labels = lane_labels s; namespace = Global_Namespace opts
      in go_defer
        (go_try (remove_listed (GetConfigMapsByLabel k labels namespace) (\<lambda>n. RemoveConfigMap k n namespace)) (\<lambda>_.
         if Global_UseShadowDeployment opts
         then remove_listed (GetDeploymentsByLabel k labels namespace) (\<lambda>n. RemoveDeployment k n namespace)
         else remove_listed (GetPodsByLabel k labels namespace) (\<lambda>n. RemovePod k n namespace)))
        (cleanLaneSessionEnvoyFilters k labels namespace))
   }"

text \<open>Whether the shadow is to be removed; the error of a shared one is logged.\<close>

definition should_remove_shadow :: "'w kube \<Rightarrow> kt_options \<Rightarrow> string \<Rightarrow> ('w prog, bool outcome) state" where
  "should_remove_shadow k opts shadow =
     (if Connect_ShareShadow opts
      then go_catch (if Global_UseShadowDeployment opts
                     then DecreaseDeploymentRef k shadow (Global_Namespace opts)
                     else DecreasePodRef k shadow (Global_Namespace opts))
             (\<lambda>b. State_Monad.return (Value b)) (\<lambda>_. State_Monad.return (Value False))
      else State_Monad.return (Value True))"

definition remove_shadow :: "'w kube \<Rightarrow> kt_options \<Rightarrow> string \<Rightarrow> ('w prog, unit outcome) state" where
  "remove_shadow k opts shadow =
     (let remove_pod = (if Global_UseShadowDeployment opts
                        then RemoveDeployment k shadow (Global_Namespace opts)
                        else RemovePod k shadow (Global_Namespace opts))
      in go_catch (RemoveConfigMap k shadow (Global_Namespace opts)) (\<lambda>_. remove_pod) (\<lambda>_. remove_pod))"

definition clean_shadows :: "'w kube \<Rightarrow> kt_options \<Rightarrow> string \<Rightarrow> ('w prog, unit outcome) state" where
  "clean_shadows k opts shadows =
     go_try (should_remove_shadow k opts shadows) (\<lambda>shouldDel.
     go_try (if shouldDel then go_each (remove_shadow k opts) (split_on CHR '','' shadows)
             else State_Monad.return (Value ())) (\<lambda>_.
     if Exchange_Mode opts = ''ephemeral''
     then go_each (\<lambda>shadow. RemoveEphemeralContainer k ''kt-exchange'' shadow (Global_Namespace opts))
            (split_on CHR '','' shadows)
     else State_Monad.return (Value ())))"

definition cleanShadowPodAndConfigMap :: "'w kube \<Rightarrow> kt_options \<Rightarrow> ('w prog, unit outcome) state" where
  "cleanShadowPodAndConfigMap k opts = do {
     s \<leftarrow> get_store;
     if shouldCleanLaneSessionResources s then cleanLaneSessionResources k opts
     else go_defer
       (if Store_Shadow s \<noteq> [] then clean_shadows k opts (Store_Shadow s) else State_Monad.return (Value ()))
       (if shouldCleanLaneEnvoyFilters s
        then cleanLaneSessionEnvoyFilters k (lane_labels s) (Global_Namespace opts)
        else State_Monad.return (Value ()))
   }"

section \<open>CleanupWorkspace\<close>

text \<open>\<open>local_steps\<close> are the two steps of the connect command, which only concern the machine.\<close>

definition CleanupWorkspace ::
  "'w kube \<Rightarrow> kt_options \<Rightarrow> string \<Rightarrow> ('w prog, unit outcome) state \<Rightarrow> ('w prog, unit outcome) state" where
  "CleanupWorkspace k opts pid_file local_steps = do {
     s \<leftarrow> get_store;
     go_try (cleanLocalFiles k pid_file) (\<lambda>_.
     go_try (if Store_Component s = ''connect'' then local_steps else State_Monad.return (Value ())) (\<lambda>_.
     go_try (if Store_Component s = ''exchange'' then recoverExchangedTarget k opts
             else if Store_Component s = ''mesh'' then recoverAutoMeshRoute k opts
             else State_Monad.return (Value ())) (\<lambda>_.
     go_try (cleanService k opts) (\<lambda>_.
     cleanShadowPodAndConfigMap k opts))))
   }"

end
