(* ===== verification/ClusterEffects.thy ===== *)
theory ClusterEffects
  imports ClusterOps
begin

text \<open>
  How computations change the cluster: the effect of each remove call as a function on the objects,
  and the rules that compose such effects over \<open>go_try\<close>, \<open>go_catch\<close> and \<open>go_each\<close>.  The cleanup
  of a session and the clean command are both proved with them.
\<close>

section \<open>Removing an object\<close>

definition drop_obj :: "string \<Rightarrow> string \<Rightarrow> 'm object_meta_scheme list \<Rightarrow> 'm object_meta_scheme list" where
  "drop_obj namespace name obs = filter (\<lambda>x. \<not> is_obj namespace name x) obs"

definition drop_pod :: "string \<Rightarrow> string \<Rightarrow> cluster_objects \<Rightarrow> cluster_objects" where
  "drop_pod namespace name c = set_pods (drop_obj namespace name (ClPods c)) c"
definition drop_deployment :: "string \<Rightarrow> string \<Rightarrow> cluster_objects \<Rightarrow> cluster_objects" where
  "drop_deployment namespace name c = set_deployments (drop_obj namespace name (ClDeployments c)) c"
definition drop_service :: "string \<Rightarrow> string \<Rightarrow> cluster_objects \<Rightarrow> cluster_objects" where
  "drop_service namespace name c = set_services (drop_obj namespace name (ClServices c)) c"
definition drop_config_map :: "string \<Rightarrow> string \<Rightarrow> cluster_objects \<Rightarrow> cluster_objects" where
  "drop_config_map namespace name c = set_config_maps (drop_obj namespace name (ClConfigMaps c)) c"

lemmas drop_defs = drop_pod_def drop_deployment_def drop_service_def drop_config_map_def set_kinds

lemma find_drop_obj:
  "find_obj (drop_obj ns n obs) ms m = (if ms = ns \<and> m = n then None else find_obj obs ms m)"
  unfolding drop_obj_def by (rule find_filter_obj)

lemma drop_obj_absent: "find_obj obs ns n = None \<Longrightarrow> drop_obj ns n obs = obs"
  by (simp add: drop_obj_def find_obj_None)

lemma crud_delete_view:
  assumes c: "crud_ok c view sel upd" and u: "\<And>v. upd (sel v) v = v"
    and r: "run_state (api_delete c ns n) w = (r, w')"
  shows "view w' = upd (drop_obj ns n (sel (view w))) (view w) \<and> r \<noteq> Panic"
  using crud_delete [OF c r] drop_obj_absent [of "sel (view w)" ns n] u
  by (auto simp: delete_spec_def drop_obj_def split: option.splits)

text \<open>
  A computation that may fail but not panic, keeps the store, and changes the view of the cluster
  by a function.
\<close>

definition acts ::
  "('w \<Rightarrow> cluster_objects) \<Rightarrow> ('w prog, 'a outcome) state \<Rightarrow> (cluster_objects \<Rightarrow> cluster_objects) \<Rightarrow> 'w prog \<Rightarrow> bool" where
  "acts view m f s \<longleftrightarrow> (case run_state m s of (r, t) \<Rightarrow>
     r \<noteq> Panic \<and> Store t = Store s \<and> view (World t) = f (view (World s)))"

lemma actsE:
  assumes "acts view m f s"
  obtains r t where "run_state m s = (r, t)" "r \<noteq> Panic" "Store t = Store s" "view (World t) = f (view (World s))"
  using assms unfolding acts_def by (cases "run_state m s") auto

lemma actsI: "run_state m s = (r, t) \<Longrightarrow> r \<noteq> Panic \<Longrightarrow> Store t = Store s \<Longrightarrow>
    view (World t) = f (view (World s)) \<Longrightarrow> acts view m f s"
  by (simp add: acts_def)

lemma acts_RemovePod: "api_server k view \<Longrightarrow> acts view (RemovePod k n ns) (drop_pod ns n) s"
  using crud_delete_view [OF api_pods, of k view ns n "World s"]
  by (auto simp: acts_def RemovePod_def drop_pod_def set_kinds split: prod.splits)

lemma acts_RemoveDeployment: "api_server k view \<Longrightarrow> acts view (RemoveDeployment k n ns) (drop_deployment ns n) s"
  using crud_delete_view [OF api_deployments, of k view ns n "World s"]
  by (auto simp: acts_def RemoveDeployment_def drop_deployment_def set_kinds split: prod.splits)

lemma acts_RemoveService: "api_server k view \<Longrightarrow> acts view (RemoveService k n ns) (drop_service ns n) s"
  using crud_delete_view [OF api_services, of k view ns n "World s"]
  by (auto simp: acts_def RemoveService_def drop_service_def set_kinds split: prod.splits)

lemma acts_RemoveConfigMap: "api_server k view \<Longrightarrow> acts view (RemoveConfigMap k n ns) (drop_config_map ns n) s"
  using crud_delete_view [OF api_config_maps, of k view ns n "World s"]
  by (auto simp: acts_def RemoveConfigMap_def drop_config_map_def set_kinds split: prod.splits)

lemma acts_return: "r \<noteq> Panic \<Longrightarrow> acts view (State_Monad.return r) (\<lambda>c. c) s"
  by (simp add: acts_def)

lemma acts_catch:
  assumes "acts view m f s"
    and "\<And>x t. Store t = Store s \<Longrightarrow> view (World t) = f (view (World s)) \<Longrightarrow> acts view (g x) f' t"
    and "\<And>e t. Store t = Store s \<Longrightarrow> view (World t) = f (view (World s)) \<Longrightarrow> acts view (h e) f' t"
  shows "acts view (go_catch m g h) (\<lambda>c. f' (f c)) s"
proof -
  obtain r t where t: "run_state m s = (r, t)" "r \<noteq> Panic" "Store t = Store s" "view (World t) = f (view (World s))"
    using assms(1) by (rule actsE)
  show ?thesis
  proof (cases r)
    case (Value x)
    with t assms(2) [OF t(3,4), of x] show ?thesis by (auto simp: acts_def split: prod.splits)
  next
    case (Fail e)
    with t assms(3) [OF t(3,4), of e] show ?thesis by (auto simp: acts_def split: prod.splits)
  qed (use t in simp)
qed

lemma acts_each:
  assumes "\<And>x t. Store t = Store s \<Longrightarrow> acts view (g x) (f x) t"
  shows "Store t = Store s \<Longrightarrow> acts view (go_each g xs) (fold f xs) t"
proof (induction xs arbitrary: t)
  case Nil
  then show ?case by (simp add: acts_def)
next
  case (Cons x xs)
  have "acts view (go_catch (g x) (\<lambda>_. go_each g xs) (\<lambda>_. go_each g xs)) (\<lambda>c. fold f xs (f x c)) t"
    using Cons by (intro acts_catch assms) simp_all
  then show ?case by (simp add: comp_def)
qed

text \<open>A step that succeeds always, followed by another.\<close>

definition acts_ok ::
  "('w \<Rightarrow> cluster_objects) \<Rightarrow> ('w prog, unit outcome) state \<Rightarrow> (cluster_objects \<Rightarrow> cluster_objects) \<Rightarrow> 'w prog \<Rightarrow> bool" where
  "acts_ok view m f s \<longleftrightarrow> acts view m f s \<and> fst (run_state m s) = Value ()"

lemma acts_ok_try:
  assumes "acts_ok view m f s"
    and "\<And>t. Store t = Store s \<Longrightarrow> view (World t) = f (view (World s)) \<Longrightarrow> acts_ok view (g ()) f' t"
  shows "acts_ok view (go_try m g) (\<lambda>c. f' (f c)) s"
proof -
  obtain r t where t: "run_state m s = (r, t)" "Store t = Store s" "view (World t) = f (view (World s))"
    using assms(1) actsE unfolding acts_ok_def by blast
  moreover have "r = Value ()" using assms(1) t(1) by (simp add: acts_ok_def)
  ultimately show ?thesis
    using assms(2) [OF t(2,3)] by (auto simp: acts_ok_def acts_def split: prod.splits)
qed

lemma acts_okE:
  assumes "acts_ok view m f s"
  obtains t where "run_state m s = (Value (), t)" "Store t = Store s" "view (World t) = f (view (World s))"
  using assms by (cases "run_state m s") (auto simp: acts_ok_def acts_def)

lemma acts_ok_return: "acts_ok view (State_Monad.return (Value ())) (\<lambda>c. c) s"
  by (simp add: acts_ok_def acts_def)

lemma acts_ok_ignore:
  assumes "acts view m f s"
  shows "acts_ok view (go_catch m (\<lambda>_. State_Monad.return (Value ())) (\<lambda>_. State_Monad.return (Value ()))) f s"
  using acts_catch [OF assms, of "\<lambda>_. State_Monad.return (Value ())" "\<lambda>c. c" "\<lambda>_. State_Monad.return (Value ())"]
    assms
  by (cases "run_state m s"; cases "fst (run_state m s)") (auto simp: acts_ok_def acts_def)

lemma acts_ok_each:
  assumes "\<And>x t. Store t = Store s \<Longrightarrow> acts view (g x) (f x) t"
  shows "Store t = Store s \<Longrightarrow> acts_ok view (go_each g xs) (fold f xs) t"
proof (induction xs arbitrary: t)
  case Nil
  then show ?case by (simp add: acts_ok_def acts_def)
next
  case (Cons x xs)
  obtain r u where u: "run_state (g x) t = (r, u)" "r \<noteq> Panic" "Store u = Store t" "view (World u) = f x (view (World t))"
    using assms [OF Cons.prems, of x] by (rule actsE)
  then have "acts_ok view (go_each g xs) (fold f xs) u" using Cons by simp
  with u show ?case by (cases r) (auto simp: acts_ok_def acts_def split: prod.splits)
qed

text \<open>The objects of a namespace with the given names are gone, and every other object is still there.\<close>

definition removed ::
  "string \<Rightarrow> string set \<Rightarrow> 'm object_meta_scheme list \<Rightarrow> 'm object_meta_scheme list \<Rightarrow> bool" where
  "removed namespace names obs obs' \<longleftrightarrow> (\<forall>ns n. find_obj obs' ns n =
     (if ns = namespace \<and> n \<in> names then None else find_obj obs ns n))"

end
