(* ===== verification/TeardownProps.thy ===== *)
theory TeardownProps
  imports Teardown RefCount ClusterEffects
begin

text \<open>
  What the cleanup of a session does to the cluster.  \<open>cleanup_spec\<close> is the abstract specification:
  the service and the shadows that the store names are removed, and nothing else is.  The code
  refines it on an API server that keeps its promises.
\<close>

section \<open>The specification\<close>

definition remove_shadow_spec :: "kt_options \<Rightarrow> string \<Rightarrow> cluster_objects \<Rightarrow> cluster_objects" where
  "remove_shadow_spec opts shadow c =
     (if Global_UseShadowDeployment opts then drop_deployment (Global_Namespace opts) shadow
      else drop_pod (Global_Namespace opts) shadow) (drop_config_map (Global_Namespace opts) shadow c)"

definition clean_service_spec :: "kt_options \<Rightarrow> runtime_store \<Rightarrow> cluster_objects \<Rightarrow> cluster_objects" where
  "clean_service_spec opts st c =
     (if Store_Service st \<noteq> [] then drop_service (Global_Namespace opts) (Store_Service st) c else c)"

definition clean_shadows_spec :: "kt_options \<Rightarrow> runtime_store \<Rightarrow> cluster_objects \<Rightarrow> cluster_objects" where
  "clean_shadows_spec opts st c =
     (if Store_Shadow st \<noteq> [] then fold (remove_shadow_spec opts) (split_on CHR '','' (Store_Shadow st)) c else c)"

definition cleanup_spec :: "kt_options \<Rightarrow> runtime_store \<Rightarrow> cluster_objects \<Rightarrow> cluster_objects" where
  "cleanup_spec opts st c = clean_shadows_spec opts st (clean_service_spec opts st c)"

section \<open>The code refines it\<close>

lemma acts_remove_shadow:
  assumes "api_server k view"
  shows "acts view (remove_shadow k opts shadow) (remove_shadow_spec opts shadow) s"
proof -
  have "acts view (if Global_UseShadowDeployment opts then RemoveDeployment k shadow (Global_Namespace opts)
        else RemovePod k shadow (Global_Namespace opts))
      (if Global_UseShadowDeployment opts then drop_deployment (Global_Namespace opts) shadow
        else drop_pod (Global_Namespace opts) shadow) t" for t
    by (simp add: acts_RemoveDeployment [OF assms] acts_RemovePod [OF assms])
  then show ?thesis
    unfolding remove_shadow_def remove_shadow_spec_def Let_def
    by (intro acts_catch acts_RemoveConfigMap [OF assms])
qed

lemma acts_cleanService:
  assumes "api_server k view"
  shows "acts_ok view (cleanService k opts) (clean_service_spec opts (Store s)) s"
  using acts_ok_ignore [OF acts_RemoveService [OF assms], of "Store_Service (Store s)" "Global_Namespace opts" s]
  by (auto simp: cleanService_def clean_service_spec_def acts_ok_def acts_def)

lemma acts_clean_shadows:
  assumes a: "api_server k view" and o: "\<not> Connect_ShareShadow opts" "Exchange_Mode opts \<noteq> ''ephemeral''"
  shows "acts_ok view (clean_shadows k opts shadows) (fold (remove_shadow_spec opts) (split_on CHR '','' shadows)) s"
proof -
  have "acts_ok view (go_each (remove_shadow k opts) (split_on CHR '','' shadows))
      (fold (remove_shadow_spec opts) (split_on CHR '','' shadows)) s"
    by (rule acts_ok_each [OF acts_remove_shadow [OF a] refl])
  then show ?thesis
    using o by (auto simp: clean_shadows_def should_remove_shadow_def acts_ok_def acts_def split: prod.splits)
qed

lemma acts_cleanShadowPodAndConfigMap:
  assumes a: "api_server k view" and o: "\<not> Connect_ShareShadow opts" "Exchange_Mode opts \<noteq> ''ephemeral''"
    and l: "Store_Lane (Store s) = []"
  shows "acts_ok view (cleanShadowPodAndConfigMap k opts) (clean_shadows_spec opts (Store s)) s"
  using acts_clean_shadows [OF a o, of "Store_Shadow (Store s)" s] l
  by (auto simp: cleanShadowPodAndConfigMap_def clean_shadows_spec_def acts_ok_def acts_def
      shouldCleanLaneSessionResources_def shouldCleanLaneEnvoyFilters_def split: prod.splits)

lemma acts_RemoveFile: "api_server k view \<Longrightarrow> acts view (lift_io (RemoveFile k f)) (\<lambda>c. c) s"
  using api_remove_file [of k view f "World s"] api_remove_file_ok [of k view f "World s"]
  by (auto simp: acts_def split: prod.splits)

lemma fold_keep: "fold (\<lambda>x c. c) xs = (\<lambda>c. c)"
  by (induction xs) auto

lemma acts_cleanLocalFiles:
  assumes a: "api_server k view"
  shows "acts_ok view (cleanLocalFiles k pid_file) (\<lambda>c. c) s"
proof -
  obtain r t where t: "run_state (lift_io (RemoveFile k pid_file)) s = (r, t)" "r \<noteq> Panic" "Store t = Store s"
    "view (World t) = view (World s)"
    using acts_RemoveFile [OF a, of pid_file s] by (rule actsE)
  have "acts_ok view (go_each (\<lambda>x. lift_io (RemoveFile k (PrivateKeyPathOf k x))) xs) (\<lambda>c. c) t" for xs
    using acts_ok_each [of t view "\<lambda>x. lift_io (RemoveFile k (PrivateKeyPathOf k x))" "\<lambda>x c. c" t xs]
      acts_RemoveFile [OF a] by (simp add: fold_keep)
  with t show ?thesis
    by (cases r) (auto simp: cleanLocalFiles_def acts_ok_def acts_def split: prod.splits)
qed

section \<open>CleanupWorkspace\<close>

text \<open>The steps of the connect command leave cluster and store alone.\<close>

definition local_steps_ok :: "('w \<Rightarrow> cluster_objects) \<Rightarrow> ('w prog, unit outcome) state \<Rightarrow> bool" where
  "local_steps_ok view m \<longleftrightarrow> (\<forall>s. acts_ok view m (\<lambda>c. c) s)"

lemma acts_ok_store: "acts_ok view m f s \<Longrightarrow> run_state m s = (r, t) \<Longrightarrow>
    r = Value () \<and> Store t = Store s \<and> view (World t) = f (view (World s))"
  by (simp add: acts_ok_def acts_def)

lemma CleanupWorkspace_tail:
  assumes a: "api_server k view" and o: "\<not> Connect_ShareShadow opts" "Exchange_Mode opts \<noteq> ''ephemeral''"
    and l: "Store_Lane (Store s) = []"
  shows "acts_ok view (go_try (cleanService k opts) (\<lambda>_. cleanShadowPodAndConfigMap k opts))
    (cleanup_spec opts (Store s)) s"
proof -
  have "acts_ok view (cleanShadowPodAndConfigMap k opts) (clean_shadows_spec opts (Store s)) t"
    if "Store t = Store s" for t
    using acts_cleanShadowPodAndConfigMap [OF a o, of t] l that by simp
  from acts_ok_try [OF acts_cleanService [OF a] this] show ?thesis
    by (simp add: cleanup_spec_def [abs_def])
qed

text \<open>The common part of all components: what precedes the recovery of exchange and mesh.\<close>

lemma CleanupWorkspace_split:
  assumes a: "api_server k view" and loc: "local_steps_ok view local_steps"
  shows "\<exists>t. Store t = Store s \<and> view (World t) = view (World s) \<and>
    run_state (CleanupWorkspace k opts pid_file local_steps) s = run_state
      (go_try (if Store_Component (Store s) = ''exchange'' then recoverExchangedTarget k opts
               else if Store_Component (Store s) = ''mesh'' then recoverAutoMeshRoute k opts
               else State_Monad.return (Value ()))
        (\<lambda>_. go_try (cleanService k opts) (\<lambda>_. cleanShadowPodAndConfigMap k opts))) t"
proof -
  obtain t where t: "run_state (cleanLocalFiles k pid_file) s = (Value (), t)" "Store t = Store s"
    "view (World t) = view (World s)"
    using acts_cleanLocalFiles [OF a] by (rule acts_okE)
  have "acts_ok view local_steps (\<lambda>c. c) t" using loc by (simp add: local_steps_ok_def)
  then obtain u where u: "run_state local_steps t = (Value (), u)" "Store u = Store t"
    "view (World u) = view (World t)"
    by (rule acts_okE)
  show ?thesis
  proof (cases "Store_Component (Store s) = ''connect''")
    case True
    with t u show ?thesis by (intro exI [of _ u]) (simp add: CleanupWorkspace_def)
  next
    case False
    with t show ?thesis by (intro exI [of _ t]) (simp add: CleanupWorkspace_def)
  qed
qed

lemma CleanupWorkspace_plain:
  assumes a: "api_server k view" and o: "\<not> Connect_ShareShadow opts" "Exchange_Mode opts \<noteq> ''ephemeral''"
    and l: "Store_Lane (Store s) = []" and c: "Store_Component (Store s) \<notin> {''exchange'', ''mesh''}"
    and loc: "local_steps_ok view local_steps"
  shows "acts_ok view (CleanupWorkspace k opts pid_file local_steps) (cleanup_spec opts (Store s)) s"
proof -
  obtain t where t: "Store t = Store s" "view (World t) = view (World s)"
    "run_state (CleanupWorkspace k opts pid_file local_steps) s =
      run_state (go_try (cleanService k opts) (\<lambda>_. cleanShadowPodAndConfigMap k opts)) t"
    using CleanupWorkspace_split [OF a loc, of s opts pid_file] c by auto
  have "acts_ok view (go_try (cleanService k opts) (\<lambda>_. cleanShadowPodAndConfigMap k opts))
      (cleanup_spec opts (Store s)) t"
    using CleanupWorkspace_tail [OF a o, of t] l t(1) by simp
  then show ?thesis unfolding acts_ok_def acts_def t by simp
qed

section \<open>What the specification removes\<close>

lemma remove_shadow_spec_services [simp]: "ClServices (remove_shadow_spec opts x c) = ClServices c"
  by (simp add: remove_shadow_spec_def drop_defs)

lemma fold_remove_services [simp]: "ClServices (fold (remove_shadow_spec opts) xs c) = ClServices c"
  by (induction xs arbitrary: c) simp_all

lemma remove_shadow_spec_config_maps:
  "find_obj (ClConfigMaps (remove_shadow_spec opts x c)) ns n =
    (if ns = Global_Namespace opts \<and> n = x then None else find_obj (ClConfigMaps c) ns n)"
  by (simp add: remove_shadow_spec_def drop_defs find_drop_obj)

lemma fold_remove_config_maps:
  "find_obj (ClConfigMaps (fold (remove_shadow_spec opts) xs c)) ns n =
    (if ns = Global_Namespace opts \<and> n \<in> set xs then None else find_obj (ClConfigMaps c) ns n)"
  by (induction xs arbitrary: c) (auto simp: remove_shadow_spec_config_maps)

lemma fold_remove_pods:
  "find_obj (ClPods (fold (remove_shadow_spec opts) xs c)) ns n =
    (if \<not> Global_UseShadowDeployment opts \<and> ns = Global_Namespace opts \<and> n \<in> set xs then None
     else find_obj (ClPods c) ns n)"
  by (induction xs arbitrary: c) (auto simp: remove_shadow_spec_def drop_defs find_drop_obj)

lemma fold_remove_deployments:
  "find_obj (ClDeployments (fold (remove_shadow_spec opts) xs c)) ns n =
    (if Global_UseShadowDeployment opts \<and> ns = Global_Namespace opts \<and> n \<in> set xs then None
     else find_obj (ClDeployments c) ns n)"
  by (induction xs arbitrary: c) (auto simp: remove_shadow_spec_def drop_defs find_drop_obj)

text \<open>The names of the shadows in the store.\<close>

definition shadow_names :: "runtime_store \<Rightarrow> string set" where
  "shadow_names st = (if Store_Shadow st = [] then {} else set (split_on CHR '','' (Store_Shadow st)))"

definition service_names :: "runtime_store \<Rightarrow> string set" where
  "service_names st = (if Store_Service st = [] then {} else {Store_Service st})"

lemma cleanup_spec_removed:
  "removed (Global_Namespace opts) (service_names st) (ClServices c) (ClServices (cleanup_spec opts st c)) \<and>
   removed (Global_Namespace opts) (shadow_names st) (ClConfigMaps c) (ClConfigMaps (cleanup_spec opts st c)) \<and>
   removed (Global_Namespace opts) (if Global_UseShadowDeployment opts then {} else shadow_names st)
     (ClPods c) (ClPods (cleanup_spec opts st c)) \<and>
   removed (Global_Namespace opts) (if Global_UseShadowDeployment opts then shadow_names st else {})
     (ClDeployments c) (ClDeployments (cleanup_spec opts st c))"
  unfolding removed_def cleanup_spec_def clean_shadows_spec_def clean_service_spec_def service_names_def
    shadow_names_def
  by (auto simp: fold_remove_config_maps fold_remove_pods fold_remove_deployments drop_defs find_drop_obj)

section \<open>Exchange and mesh sessions\<close>

lemma restorable_found:
  "find_obj (ClServices c) ns n = Some cur \<Longrightarrow> restorable orig cur \<Longrightarrow> Name orig = n \<and> Namespace orig = ns"
  using find_obj_Some [of "ClServices c" ns n cur] by (simp add: restorable_def same_service_def)

lemma cleanup_exchange:
  assumes a: "api_server k view" and loc: "local_steps_ok view local_steps"
    and o: "\<not> Connect_ShareShadow opts" "Exchange_Mode opts = ''selector''" "Store_Lane (Store s) = []"
    and c: "Store_Component (Store s) = ''exchange''" and org: "Store_Origin (Store s) = name" "name \<noteq> []"
    and f: "find_obj (ClServices (view (World s))) (Global_Namespace opts) name = Some cur"
    and r: "plain_service orig" "restorable orig cur"
  shows "\<exists>t mid cur'. run_state (CleanupWorkspace k opts pid_file local_steps) s = (Value (), t) \<and>
    view (World t) = cleanup_spec opts (Store s) (view (World mid)) \<and>
    find_obj (ClServices (view (World mid))) (Global_Namespace opts) name = Some cur' \<and> restored orig cur' \<and>
    service_frame view (Global_Namespace opts) name s mid"
proof -
  obtain t where t: "Store t = Store s" "view (World t) = view (World s)"
    "run_state (CleanupWorkspace k opts pid_file local_steps) s = run_state (go_try (recoverExchangedTarget k opts)
      (\<lambda>_. go_try (cleanService k opts) (\<lambda>_. cleanShadowPodAndConfigMap k opts))) t"
    using CleanupWorkspace_split [OF a loc, of s opts pid_file] c by auto
  obtain u cur' where u: "run_state (RecoverOriginalService k name (Global_Namespace opts)) t = (Value (), u)"
    "find_obj (ClServices (view (World u))) (Global_Namespace opts) name = Some cur'" "restored orig cur'"
    "service_frame view (Global_Namespace opts) name t u"
    using RecoverOriginalService_restored [OF a _ r, of t "Global_Namespace opts" name] f t(2) by auto
  have rec: "run_state (recoverExchangedTarget k opts) t = (Value (), u)"
    using u(1) o(2) org t(1) by (simp add: recoverExchangedTarget_def)
  have st: "Store u = Store s" using u(4) t(1) by (simp add: service_frame_def)
  have "acts_ok view (go_try (cleanService k opts) (\<lambda>_. cleanShadowPodAndConfigMap k opts))
      (cleanup_spec opts (Store s)) u"
    using CleanupWorkspace_tail [OF a o(1), of u] o(2,3) st by simp
  then obtain v where v: "run_state (go_try (cleanService k opts) (\<lambda>_. cleanShadowPodAndConfigMap k opts)) u = (Value (), v)"
    "view (World v) = cleanup_spec opts (Store s) (view (World u))"
    by (rule acts_okE)
  have "run_state (CleanupWorkspace k opts pid_file local_steps) s = (Value (), v)"
    unfolding t(3) using rec v(1) by simp
  moreover have "\<exists>mid. view (World mid) = view (World u) \<and> service_frame view (Global_Namespace opts) name s mid"
    using u(4) t(2) by (intro exI [of _ "s\<lparr>World := World u\<rparr>"]) (simp add: service_frame_def)
  ultimately show ?thesis using u(2,3) v(2) by metis
qed

lemma run_ExecInPod_view:
  assumes "api_server k view"
  shows "\<exists>r w. run_state (ExecInPod k c p ns cmd) s = (r, s\<lparr>World := w\<rparr>) \<and> view w = view (World s)"
  using api_exec [OF assms, of c p ns cmd "World s"]
  by (cases "run_state (ExecApi k c p ns cmd) (World s)") (auto simp: ExecInPod_def Let_def split: prod.splits)

text \<open>A user who leaves while others mesh the service: no service changes, and the router pod stays.\<close>

lemma mesh_leave_shared:
  assumes a: "api_server k view" and rt: "Store_Router (Store s) = router" "router \<noteq> []"
    and f: "find_obj (ClPods (view (World s))) (Global_Namespace opts) router = Some p"
    and h: "mget (Annotations p) KtRefCount = itoa h" "1 < h" "h < 2 ^ 62"
  shows "\<exists>t p'. run_state (recoverAutoMeshRoute k opts) s = (Value (), t) \<and>
    ClServices (view (World t)) = ClServices (view (World s)) \<and>
    find_obj (ClPods (view (World t))) (Global_Namespace opts) router = Some p' \<and>
    mget (Annotations p') KtRefCount = itoa (h - 1) \<and> mget (Annotations p') KtConfig = mget (Annotations p) KtConfig \<and>
    DeletionTimestamp p' = DeletionTimestamp p"
proof -
  let ?ns = "Global_Namespace opts"
  let ?a = "mput (Annotations p) KtRefCount (itoa (h - 1))"
  have at: "atoi (itoa h) = Some h" using h by (simp add: atoi_itoa)
  have nn: "mget (Annotations p) KtRefCount \<noteq> []" using h(1) at by (auto simp: atoi_def)
  obtain u where u: "run_state (UpdatePod k (p\<lparr>Annotations := ?a\<rparr>)) s = (Value (bump (p\<lparr>Annotations := ?a\<rparr>)), u)"
    "find_obj (ClPods (view (World u))) ?ns router = Some (bump (p\<lparr>Annotations := ?a\<rparr>))"
    using pod_annotation_update [OF a f] by blast
  have sv: "ClServices (view (World u)) = ClServices (view (World s))"
  proof -
    obtain r w where r: "run_state (api_update (PodsApi k) (Namespace p) (p\<lparr>Annotations := ?a\<rparr>)) (World s) = (r, w)"
      by fastforce
    with u(1) have "World u = w" by (auto simp: UpdatePod_def)
    with crud_update [OF api_pods [OF a] r] show ?thesis by (simp add: set_pods_def)
  qed
  have "itoa h \<noteq> ''1''" using itoa_eq_one [of h] at h by auto
  then have d: "run_state (DecreasePodRef k router ?ns) s = (Value False, u)"
    using u(1) h(1) at MapPut_text [OF nn]
    by (simp add: DecreasePodRef_def GetPod_found [OF a f] decreaseRef_def atoi_err_def)
  obtain r w where e: "run_state (ExecInPod k DefaultContainer router ?ns
      [''/usr/sbin/router'', ''remove'', Store_Mesh (Store s)]) u = (r, u\<lparr>World := w\<rparr>)" "view w = view (World u)"
    using run_ExecInPod_view [OF a] by blast
  have "run_state (recoverAutoMeshRoute k opts) s = (Value (), u\<lparr>World := w\<rparr>)"
    using rt d e(1) by (simp add: recoverAutoMeshRoute_def GetPod_found [OF a f])
  then show ?thesis using u(2) sv e(2) by (simp add: bump_def)
qed

lemma String2Map_service: "CHR '','' \<notin> set n \<Longrightarrow> mget (String2Map (''service='' @ n)) ''service'' = n"
proof -
  assume n: "CHR '','' \<notin> set n"
  have "split_once CHR ''='' (''service'' @ CHR ''='' # n) = (''service'', Some n)"
    by (rule split_once_append) simp
  then have "split_once CHR ''='' (''service='' @ n) = (''service'', Some n)" by simp
  then show ?thesis
    using n split_on_no_sep [of "CHR '',''" "''service='' @ n"] by (simp add: String2Map_def)
qed

lemma recoverService_restored:
  assumes a: "api_server k view" and f: "find_obj (ClServices (view (World s))) (Global_Namespace opts) name = Some cur"
    and r: "plain_service orig" "restorable orig cur"
  shows "\<exists>t cur'. run_state (recoverService k opts name) s = (Value (), t) \<and>
    find_obj (ClServices (view (World t))) (Global_Namespace opts) name = Some cur' \<and> restored orig cur' \<and>
    find_obj (ClServices (view (World t))) (Global_Namespace opts) (name @ StuntmanServiceSuffix) = None \<and>
    (\<forall>ms m. (ms, m) \<notin> {(Global_Namespace opts, name), (Global_Namespace opts, name @ StuntmanServiceSuffix)} \<longrightarrow>
       find_obj (ClServices (view (World t))) ms m = find_obj (ClServices (view (World s))) ms m) \<and>
    ClPods (view (World t)) = ClPods (view (World s)) \<and> Store t = Store s"
proof -
  let ?ns = "Global_Namespace opts"
  obtain u cur' where u: "run_state (RecoverOriginalService k name ?ns) s = (Value (), u)"
    "find_obj (ClServices (view (World u))) ?ns name = Some cur'" "restored orig cur'" "service_frame view ?ns name s u"
    using RecoverOriginalService_restored [OF a f r] by blast
  obtain t where t: "run_state (go_catch (RemoveService k (name @ StuntmanServiceSuffix) ?ns)
      (\<lambda>_. State_Monad.return (Value ())) (\<lambda>_. State_Monad.return (Value ()))) u = (Value (), t)"
    "Store t = Store u" "view (World t) = drop_service ?ns (name @ StuntmanServiceSuffix) (view (World u))"
    using acts_ok_ignore [OF acts_RemoveService [OF a]] by (rule acts_okE)
  have "run_state (recoverService k opts name) s = (Value (), t)"
    using u(1) t(1) by (simp add: recoverService_def)
  then show ?thesis
    using u(2,3,4) t(2,3) by (auto simp: drop_defs find_drop_obj service_frame_def)
qed

text \<open>The last user: the service is restored, the stuntman service and the router pod are removed.\<close>

lemma mesh_leave_last:
  assumes a: "api_server k view" and rt: "Store_Router (Store s) = router" "router \<noteq> []"
    and p: "find_obj (ClPods (view (World s))) (Global_Namespace opts) router = Some p"
    and h: "mget (Annotations p) KtRefCount = ''1''" "mget (Annotations p) KtConfig = ''service='' @ name" "CHR '','' \<notin> set name"
    and f: "find_obj (ClServices (view (World s))) (Global_Namespace opts) name = Some cur"
    and r: "plain_service orig" "restorable orig cur"
  shows "\<exists>t cur'. run_state (recoverAutoMeshRoute k opts) s = (Value (), t) \<and>
    find_obj (ClServices (view (World t))) (Global_Namespace opts) name = Some cur' \<and> restored orig cur' \<and>
    find_obj (ClServices (view (World t))) (Global_Namespace opts) (name @ StuntmanServiceSuffix) = None \<and>
    (\<forall>ms m. (ms, m) \<notin> {(Global_Namespace opts, name), (Global_Namespace opts, name @ StuntmanServiceSuffix)} \<longrightarrow>
       find_obj (ClServices (view (World t))) ms m = find_obj (ClServices (view (World s))) ms m) \<and>
    removed (Global_Namespace opts) {router} (ClPods (view (World s))) (ClPods (view (World t))) \<and> Store t = Store s"
proof -
  let ?ns = "Global_Namespace opts"
  obtain u cur' where u: "run_state (recoverService k opts name) s = (Value (), u)"
    "find_obj (ClServices (view (World u))) ?ns name = Some cur'" "restored orig cur'"
    "find_obj (ClServices (view (World u))) ?ns (name @ StuntmanServiceSuffix) = None"
    "\<forall>ms m. (ms, m) \<notin> {(?ns, name), (?ns, name @ StuntmanServiceSuffix)} \<longrightarrow>
       find_obj (ClServices (view (World u))) ms m = find_obj (ClServices (view (World s))) ms m"
    "ClPods (view (World u)) = ClPods (view (World s))" "Store u = Store s"
    using recoverService_restored [OF a f r] by blast
  obtain t where t: "run_state (go_catch (RemovePod k router ?ns)
      (\<lambda>_. State_Monad.return (Value ())) (\<lambda>_. State_Monad.return (Value ()))) u = (Value (), t)"
    "Store t = Store u" "view (World t) = drop_pod ?ns router (view (World u))"
    using acts_ok_ignore [OF acts_RemovePod [OF a]] by (rule acts_okE)
  have "run_state (DecreasePodRef k router ?ns) s = (Value True, s)"
    using h(1) by (simp add: DecreasePodRef_def GetPod_found [OF a p])
  then have "run_state (recoverAutoMeshRoute k opts) s = (Value (), t)"
    using rt h(2) u(1) t(1) String2Map_service [OF h(3)]
    by (simp add: recoverAutoMeshRoute_def GetPod_found [OF a p])
  moreover have "removed ?ns {router} (ClPods (view (World s))) (ClPods (view (World t)))"
    using t(3) u(6) by (simp add: removed_def drop_defs find_drop_obj)
  moreover have "ClServices (view (World t)) = ClServices (view (World u))"
    using t(3) by (simp add: drop_defs)
  ultimately show ?thesis using u(2-5,7) t(2) by auto
qed

section \<open>The properties\<close>


definition mem_session :: "string \<Rightarrow> string \<Rightarrow> string \<Rightarrow> string \<Rightarrow> cluster_objects \<Rightarrow> cluster_objects prog" where
  "mem_session component shadow svc origin c = (mem_prog c)\<lparr>Store := (Store (mem_prog c))\<lparr>
     Store_Component := component, Store_Shadow := shadow, Store_Service := svc, Store_Origin := origin\<rparr>\<rparr>"

lemma mem_session_simps [simp]:
  "World (mem_session a b c d w) = w" "Store_Component (Store (mem_session a b c d w)) = a"
  "Store_Shadow (Store (mem_session a b c d w)) = b" "Store_Service (Store (mem_session a b c d w)) = c"
  "Store_Origin (Store (mem_session a b c d w)) = d" "Store_Lane (Store (mem_session a b c d w)) = []"
  by (simp_all add: mem_session_def mem_prog_def)

lemma local_nothing: "local_steps_ok view (State_Monad.return (Value ()))"
  by (simp add: local_steps_ok_def acts_ok_return)


text \<open>
  C15. Cleanup of an exchange by selector: the service of the exchange gets back the selector and the
  annotations it had, no other service changes, and the config maps and pods of the shadow are gone.
\<close>
theorem cleanup_recovers_exchange:
  assumes "api_server k view" and "local_steps_ok view local_steps"
    and "\<not> Connect_ShareShadow opts" and "\<not> Global_UseShadowDeployment opts"
    and "Exchange_Mode opts = ''selector''" and "Store_Lane (Store s) = []"
    and "Store_Component (Store s) = ''exchange''" and "Store_Origin (Store s) = name" and "name \<noteq> []"
    and "Store_Service (Store s) = []"
    and "find_obj (ClServices (view (World s))) (Global_Namespace opts) name = Some cur"
    and "plain_service orig" and "restorable orig cur"
  shows "\<exists>t cur'. run_state (CleanupWorkspace k opts pid_file local_steps) s = (Value (), t) \<and>
    find_obj (ClServices (view (World t))) (Global_Namespace opts) name = Some cur' \<and> restored orig cur' \<and>
    (\<forall>ms m. (ms, m) \<noteq> (Global_Namespace opts, name) \<longrightarrow>
       find_obj (ClServices (view (World t))) ms m = find_obj (ClServices (view (World s))) ms m) \<and>
    removed (Global_Namespace opts) (shadow_names (Store s)) (ClPods (view (World s))) (ClPods (view (World t))) \<and>
    removed (Global_Namespace opts) (shadow_names (Store s)) (ClConfigMaps (view (World s))) (ClConfigMaps (view (World t)))"
proof -
  obtain t mid cur' where t: "run_state (CleanupWorkspace k opts pid_file local_steps) s = (Value (), t)"
    "view (World t) = cleanup_spec opts (Store s) (view (World mid))"
    "find_obj (ClServices (view (World mid))) (Global_Namespace opts) name = Some cur'" "restored orig cur'"
    "service_frame view (Global_Namespace opts) name s mid"
    using cleanup_exchange [OF assms(1,2,3,5,6,7,8,9,11,12,13), of pid_file] by blast
  have "ClServices (view (World t)) = ClServices (view (World mid))"
    using t(2) assms(10) by (simp add: cleanup_spec_def clean_shadows_spec_def clean_service_spec_def)
  moreover have "ClPods (view (World mid)) = ClPods (view (World s))"
    "ClConfigMaps (view (World mid)) = ClConfigMaps (view (World s))"
    using t(5) by (simp_all add: service_frame_def)
  ultimately show ?thesis
    using t cleanup_spec_removed [of opts "Store s" "view (World mid)"] assms(4)
    unfolding service_frame_def by auto
qed

lemma cleanup_recovers_exchange_witness:
  "\<exists>t cur'. run_state (CleanupWorkspace (mem_kube 7) mem_opts ''p.pid'' (State_Monad.return (Value ())))
      (mem_session ''exchange'' ''web-kt-exchange-abcde'' [] ''web'' \<lparr> ClPods = [mem_pod ''web-kt-exchange-abcde'' NilMap NilMap],
         ClDeployments = [], ClServices = [mem_service ''web'' (GoMap [(KtSelector, json_marshal (GoMap [(''app'', ''web'')]))])
           (GoMap [(KtRole, ''shadow-exchange'')])], ClConfigMaps = [] \<rparr>) = (Value (), t) \<and>
    find_obj (ClServices (World t)) ''default'' ''web'' = Some cur' \<and>
    mlookup (Selector cur') ''app'' = Some ''web'' \<and>
    find_obj (ClPods (World t)) ''default'' ''web-kt-exchange-abcde'' = None"
proof -
  let ?sel = "GoMap [(''app'', ''web'')]"
  let ?cur = "mem_service ''web'' (GoMap [(KtSelector, json_marshal ?sel)]) (GoMap [(KtRole, ''shadow-exchange'')])"
  let ?orig = "mem_service ''web'' NilMap ?sel"
  let ?c = "\<lparr> ClPods = [mem_pod ''web-kt-exchange-abcde'' NilMap NilMap], ClDeployments = [],
              ClServices = [?cur], ClConfigMaps = [] \<rparr>"
  let ?s = "mem_session ''exchange'' ''web-kt-exchange-abcde'' [] ''web'' ?c"
  have h: "\<not> Connect_ShareShadow mem_opts" "\<not> Global_UseShadowDeployment mem_opts" "Exchange_Mode mem_opts = ''selector''"
    "Store_Lane (Store ?s) = []" "Store_Component (Store ?s) = ''exchange''" "Store_Origin (Store ?s) = ''web''"
    "''web'' \<noteq> []" "Store_Service (Store ?s) = []" by simp_all
  have f: "find_obj (ClServices (World ?s)) (Global_Namespace mem_opts) ''web'' = Some ?cur"
    by (simp add: mem_service_def is_obj_def)
  have p: "plain_service ?orig" "restorable ?orig ?cur" "mlookup (Selector ?orig) ''app'' = Some ''web''"
    by (simp_all add: plain_service_def restorable_def same_service_def same_annotations_def mem_service_def
        mget_def mlookup_def mwf_def)
  have n: "shadow_names (Store ?s) = {''web-kt-exchange-abcde''}" by (simp add: shadow_names_def)
  from cleanup_recovers_exchange [OF mem_kube_ok [of 7] local_nothing h f p(1,2), of "''p.pid''"] p(3) show ?thesis
    unfolding removed_def n restored_def by auto
qed

text \<open>
  Leaving a mesh that others still use: the router pod stays and counts one user less, and no
  service of the cluster changes.
\<close>
theorem mesh_leave_keeps_router:
  assumes "api_server k view" and "Store_Router (Store s) = router" and "router \<noteq> []"
    and "find_obj (ClPods (view (World s))) (Global_Namespace opts) router = Some p"
    and "mget (Annotations p) KtRefCount = itoa h" and "1 < h" and "h < 2 ^ 62"
  shows "\<exists>t p'. run_state (recoverAutoMeshRoute k opts) s = (Value (), t) \<and>
    ClServices (view (World t)) = ClServices (view (World s)) \<and>
    find_obj (ClPods (view (World t))) (Global_Namespace opts) router = Some p' \<and>
    mget (Annotations p') KtRefCount = itoa (h - 1)"
  using mesh_leave_shared [OF assms] by blast

definition mem_mesh :: "string \<Rightarrow> cluster_objects \<Rightarrow> cluster_objects prog" where
  "mem_mesh router c = (mem_prog c)\<lparr>Store := (Store (mem_prog c))\<lparr>Store_Component := ''mesh'', Store_Router := router\<rparr>\<rparr>"

lemma mem_mesh_simps [simp]:
  "World (mem_mesh r w) = w" "Store_Router (Store (mem_mesh r w)) = r"
  by (simp_all add: mem_mesh_def mem_prog_def)

lemma mesh_leave_keeps_router_witness:
  "\<exists>t p'. run_state (recoverAutoMeshRoute (mem_kube 7) mem_opts)
      (mem_mesh ''web-kt-router'' \<lparr> ClPods = [mem_pod ''web-kt-router'' NilMap (GoMap [(KtRefCount, itoa 2)])],
         ClDeployments = [], ClServices = [], ClConfigMaps = [] \<rparr>) = (Value (), t) \<and>
    find_obj (ClPods (World t)) ''default'' ''web-kt-router'' = Some p' \<and>
    mget (Annotations p') KtRefCount = itoa 1"
proof -
  let ?p = "mem_pod ''web-kt-router'' NilMap (GoMap [(KtRefCount, itoa 2)])"
  let ?s = "mem_mesh ''web-kt-router'' \<lparr> ClPods = [?p], ClDeployments = [], ClServices = [], ClConfigMaps = [] \<rparr>"
  have f: "find_obj (ClPods (World ?s)) (Global_Namespace mem_opts) ''web-kt-router'' = Some ?p"
    by (simp add: mem_pod_def is_obj_def)
  have m: "mget (Annotations ?p) KtRefCount = itoa 2" by (simp add: mem_pod_def mget_def mlookup_def)
  have r: "Store_Router (Store ?s) = ''web-kt-router''" "''web-kt-router'' \<noteq> []" by simp_all
  from mesh_leave_keeps_router [OF mem_kube_ok [of 7] r f m] show ?thesis by auto
qed

text \<open>
  The last user leaves a mesh: the service gets back its selector and annotations, the stuntman
  service and the router pod are removed, and no other service or pod changes.
\<close>
theorem mesh_last_leave_recovers:
  assumes "api_server k view" and "Store_Router (Store s) = router" and "router \<noteq> []"
    and "find_obj (ClPods (view (World s))) (Global_Namespace opts) router = Some p"
    and "mget (Annotations p) KtRefCount = ''1''"
    and "mget (Annotations p) KtConfig = ''service='' @ name" and "CHR '','' \<notin> set name"
    and "find_obj (ClServices (view (World s))) (Global_Namespace opts) name = Some cur"
    and "plain_service orig" and "restorable orig cur"
  shows "\<exists>t cur'. run_state (recoverAutoMeshRoute k opts) s = (Value (), t) \<and>
    find_obj (ClServices (view (World t))) (Global_Namespace opts) name = Some cur' \<and> restored orig cur' \<and>
    find_obj (ClServices (view (World t))) (Global_Namespace opts) (name @ StuntmanServiceSuffix) = None \<and>
    (\<forall>ms m. (ms, m) \<notin> {(Global_Namespace opts, name), (Global_Namespace opts, name @ StuntmanServiceSuffix)} \<longrightarrow>
       find_obj (ClServices (view (World t))) ms m = find_obj (ClServices (view (World s))) ms m) \<and>
    removed (Global_Namespace opts) {router} (ClPods (view (World s))) (ClPods (view (World t)))"
  using mesh_leave_last [OF assms] by blast

lemma mesh_last_leave_recovers_witness:
  "\<exists>t cur'. run_state (recoverAutoMeshRoute (mem_kube 7) mem_opts)
      (mem_mesh ''web-kt-router'' \<lparr> ClPods = [mem_pod ''web-kt-router'' NilMap
           (GoMap [(KtRefCount, ''1''), (KtConfig, ''service='' @ ''web'')])],
         ClDeployments = [], ClServices = [mem_service ''web''
           (GoMap [(KtSelector, json_marshal (GoMap [(''app'', ''web'')]))]) (GoMap [(KtRole, ''router'')]),
           mem_service (''web'' @ StuntmanServiceSuffix) NilMap (GoMap [(''app'', ''web'')])],
         ClConfigMaps = [] \<rparr>) = (Value (), t) \<and>
    find_obj (ClServices (World t)) ''default'' ''web'' = Some cur' \<and>
    mlookup (Selector cur') ''app'' = Some ''web'' \<and>
    find_obj (ClPods (World t)) ''default'' ''web-kt-router'' = None"
proof -
  let ?p = "mem_pod ''web-kt-router'' NilMap (GoMap [(KtRefCount, ''1''), (KtConfig, ''service='' @ ''web'')])"
  let ?sel = "GoMap [(''app'', ''web'')]"
  let ?cur = "mem_service ''web'' (GoMap [(KtSelector, json_marshal ?sel)]) (GoMap [(KtRole, ''router'')])"
  let ?orig = "mem_service ''web'' NilMap ?sel"
  let ?s = "mem_mesh ''web-kt-router'' \<lparr> ClPods = [?p], ClDeployments = [],
     ClServices = [?cur, mem_service (''web'' @ StuntmanServiceSuffix) NilMap ?sel], ClConfigMaps = [] \<rparr>"
  have f: "find_obj (ClPods (World ?s)) (Global_Namespace mem_opts) ''web-kt-router'' = Some ?p"
    by (simp add: mem_pod_def is_obj_def)
  have m: "mget (Annotations ?p) KtRefCount = ''1''" "mget (Annotations ?p) KtConfig = ''service='' @ ''web''"
    "CHR '','' \<notin> set ''web''"
    by (simp_all add: mem_pod_def mget_def mlookup_def)
  have r: "Store_Router (Store ?s) = ''web-kt-router''" "''web-kt-router'' \<noteq> []" by simp_all
  have g: "find_obj (ClServices (World ?s)) (Global_Namespace mem_opts) ''web'' = Some ?cur"
    by (simp add: mem_service_def is_obj_def)
  have q: "plain_service ?orig" "restorable ?orig ?cur" "mlookup (Selector ?orig) ''app'' = Some ''web''"
    by (simp_all add: plain_service_def restorable_def same_service_def same_annotations_def mem_service_def
        mget_def mlookup_def mwf_def)
  from mesh_last_leave_recovers [OF mem_kube_ok [of 7] r f m g q(1,2)] q(3) show ?thesis
    unfolding restored_def removed_def by auto
qed

end
