(* ===== verification/Clean.thy ===== *)
theory Clean
  imports Exchange
begin

text \<open>
  The clean command: \<open>pkg/kt/command/clean.go\<close> and \<open>pkg/kt/command/clean/common.go\<close>.  The plan
  \<open>ResourceToClean\<close> is computed from the objects of the program whose heartbeat has stopped and from
  the services that a dead session left locked or redirected; then it is carried out, and every
  error on the way is only logged.
\<close>

record clean_options =
  Clean_DryRun :: bool
  Clean_ThresholdInMinus :: int
  Clean_LocalOnly :: bool

record resource_to_clean =
  PodsToDelete :: "string list"
  ServicesToDelete :: "string list"
  ConfigMapsToDelete :: "string list"
  DeploymentsToDelete :: "string list"
  DeploymentsToScale :: "int gomap"
  ServicesToRecover :: "string list"
  ServicesToUnlock :: "string list"

definition no_resources :: resource_to_clean where
  "no_resources = \<lparr> PodsToDelete = [], ServicesToDelete = [], ConfigMapsToDelete = [],
     DeploymentsToDelete = [], DeploymentsToScale = GoMap [], ServicesToRecover = [], ServicesToUnlock = [] \<rparr>"

section \<open>strconv.ParseInt with 32 bits\<close>

text \<open>
  The value that is returned together with an error: 0 for a syntax error, the nearest number for
  one that is out of range, which is noticed at the digit that leaves the range.
\<close>

fun parse_uint32 :: "nat \<Rightarrow> string \<Rightarrow> nat option" where
  "parse_uint32 n [] = Some n"
| "parse_uint32 n (c # cs) =
     (if \<not> is_digit c then None
      else let n1 = 10 * n + digit_val c in if n1 \<ge> 2 ^ 32 then Some (2 ^ 32 - 1) else parse_uint32 n1 cs)"

definition ParseInt32 :: "string \<Rightarrow> int" where
  "ParseInt32 s =
     (let (neg, ds) = (case s of [] \<Rightarrow> (False, [])
                       | c # cs \<Rightarrow> if c = CHR ''-'' then (True, cs)
                                 else if c = CHR ''+'' then (False, cs) else (False, c # cs))
      in if ds = [] then 0
         else (case parse_uint32 0 ds of
                 None \<Rightarrow> 0
               | Some un \<Rightarrow>
                   if \<not> neg \<and> un \<ge> 2 ^ 31 then 2 ^ 31 - 1
                   else if neg \<and> un > 2 ^ 31 then - (2 ^ 31)
                   else if neg then - int un else int un))"

section \<open>The plan\<close>

definition isExpired :: "'w kube \<Rightarrow> int \<Rightarrow> int \<Rightarrow> ('w prog, bool) state" where
  "isExpired k lastHeartBeat cleanThresholdInMinus =
     State_Monad.bind (now k) (\<lambda>time. State_Monad.return (time - lastHeartBeat > cleanThresholdInMinus * 60))"

definition analysisConfigAnnotation :: "string \<Rightarrow> smap \<Rightarrow> resource_to_clean \<Rightarrow> resource_to_clean" where
  "analysisConfigAnnotation role config r =
     (let r1 = (if role = ''shadow-exchange'' then
                  (let replica = ParseInt32 (mget config ''replicas''); app = mget config ''app''
                   in if replica > 0 \<and> app \<noteq> []
                      then r\<lparr>DeploymentsToScale := mput (DeploymentsToScale r) app replica\<rparr> else r)
                else r)
      in if role = ''router'' \<or> role = ''shadow-exchange'' then
           (case mlookup config ''service'' of
              Some svc \<Rightarrow> r1\<lparr>ServicesToRecover := ServicesToRecover r1 @ [svc]\<rparr>
            | None \<Rightarrow> r1)
         else r1)"

definition lastHeartBeat :: "'m object_meta_scheme \<Rightarrow> int" where
  "lastHeartBeat ob = ParseTimestamp (mget (Annotations ob) KtLastHeartBeat)"

definition analysis_expired ::
  "'w kube \<Rightarrow> int \<Rightarrow> 'm object_meta_scheme \<Rightarrow> (resource_to_clean \<Rightarrow> resource_to_clean) \<Rightarrow>
   resource_to_clean \<Rightarrow> ('w prog, resource_to_clean) state" where
  "analysis_expired k threshold ob mark r =
     (if lastHeartBeat ob < 0 then State_Monad.return r
      else State_Monad.bind (isExpired k (lastHeartBeat ob) threshold) (\<lambda>expired.
        State_Monad.return (if expired then mark r else r)))"

definition analysisExpiredPods ::
  "'w kube \<Rightarrow> int \<Rightarrow> pod \<Rightarrow> resource_to_clean \<Rightarrow> ('w prog, resource_to_clean) state" where
  "analysisExpiredPods k threshold p = analysis_expired k threshold p (\<lambda>r.
     analysisConfigAnnotation (mget (Labels p) KtRole) (String2Map (mget (Annotations p) KtConfig))
       (if DeletionTimestamp p = None then r\<lparr>PodsToDelete := PodsToDelete r @ [Name p]\<rparr> else r))"

definition analysisExpiredConfigmaps ::
  "'w kube \<Rightarrow> int \<Rightarrow> config_map \<Rightarrow> resource_to_clean \<Rightarrow> ('w prog, resource_to_clean) state" where
  "analysisExpiredConfigmaps k threshold cf = analysis_expired k threshold cf (\<lambda>r.
     r\<lparr>ConfigMapsToDelete := ConfigMapsToDelete r @ [Name cf]\<rparr>)"

definition analysisExpiredDeployments ::
  "'w kube \<Rightarrow> int \<Rightarrow> deployment \<Rightarrow> resource_to_clean \<Rightarrow> ('w prog, resource_to_clean) state" where
  "analysisExpiredDeployments k threshold app = analysis_expired k threshold app (\<lambda>r.
     analysisConfigAnnotation (mget (Labels app) KtRole) (String2Map (mget (Annotations app) KtConfig))
       (r\<lparr>DeploymentsToDelete := DeploymentsToDelete r @ [Name app]\<rparr>))"

definition analysisExpiredServices ::
  "'w kube \<Rightarrow> int \<Rightarrow> service \<Rightarrow> resource_to_clean \<Rightarrow> ('w prog, resource_to_clean) state" where
  "analysisExpiredServices k threshold svc = analysis_expired k threshold svc (\<lambda>r.
     r\<lparr>ServicesToDelete := ServicesToDelete r @ [Name svc]\<rparr>)"

definition isShadowPodExist :: "'w kube \<Rightarrow> smap \<Rightarrow> string \<Rightarrow> string \<Rightarrow> string \<Rightarrow> ('w prog, bool outcome) state" where
  "isShadowPodExist k sel svcName namespace suffix =
     go_catch (GetPodsByLabel k sel namespace)
       (\<lambda>pods. State_Monad.return (Value (list_ex (\<lambda>p. has_prefix (Name p) (svcName @ ''-'' @ suffix @ ''-'')) pods)))
       (\<lambda>_. State_Monad.return (Value False))"

definition isRouterPodExist :: "'w kube \<Rightarrow> string \<Rightarrow> string \<Rightarrow> ('w prog, bool outcome) state" where
  "isRouterPodExist k svcName namespace =
     go_catch (GetPod k (svcName @ RouterPodSuffix) namespace)
       (\<lambda>_. State_Monad.return (Value True)) (\<lambda>_. State_Monad.return (Value False))"

definition stale_lock :: "'w kube \<Rightarrow> service \<Rightarrow> ('w prog, bool) state" where
  "stale_lock k svc = (case mlookup (Annotations svc) KtLock of
     None \<Rightarrow> State_Monad.return False
   | Some lock \<Rightarrow> State_Monad.bind (now k) (\<lambda>time. State_Monad.return (time - ParseTimestamp lock > LockTimeout)))"

definition is_orphan :: "'w kube \<Rightarrow> service \<Rightarrow> ('w prog, bool outcome) state" where
  "is_orphan k svc =
     (if mget (Annotations svc) KtSelector = [] then State_Monad.return (Value False)
      else go_try (if mget (Selector svc) KtRole = ''router''
                   then isRouterPodExist k (Name svc) (Namespace svc)
                   else isShadowPodExist k (Selector svc) (Name svc) (Namespace svc) ''kt-exchange'')
             (\<lambda>found. State_Monad.return (Value (\<not> found))))"

fun analysisLockAndOrphanServices ::
  "'w kube \<Rightarrow> service list \<Rightarrow> resource_to_clean \<Rightarrow> ('w prog, resource_to_clean outcome) state" where
  "analysisLockAndOrphanServices k [] r = State_Monad.return (Value r)"
| "analysisLockAndOrphanServices k (svc # svcs) r =
     (if Annotations svc = NilMap then analysisLockAndOrphanServices k svcs r
      else State_Monad.bind (stale_lock k svc) (\<lambda>stale.
        go_try (is_orphan k svc) (\<lambda>orphan.
          (let r1 = (if stale then r\<lparr>ServicesToUnlock := ServicesToUnlock r @ [Name svc]\<rparr> else r)
           in analysisLockAndOrphanServices k svcs
                (if orphan then r1\<lparr>ServicesToRecover := ServicesToRecover r1 @ [Name svc]\<rparr> else r1)))))"

text \<open>A loop over the objects of one kind.\<close>

fun analysis_each :: "('a \<Rightarrow> 'r \<Rightarrow> ('s, 'r) state) \<Rightarrow> 'a list \<Rightarrow> 'r \<Rightarrow> ('s, 'r) state" where
  "analysis_each f [] r = State_Monad.return r"
| "analysis_each f (x # xs) r = State_Monad.bind (f x r) (analysis_each f xs)"

text \<open>The error of the last list call is not looked at: the list is empty then.\<close>

definition CheckClusterResources ::
  "'w kube \<Rightarrow> kt_options \<Rightarrow> clean_options \<Rightarrow> ('w prog, resource_to_clean outcome) state" where
  "CheckClusterResources k opts copts =
     (let threshold = Clean_ThresholdInMinus copts in
      go_try (GetKtResources k (Global_Namespace opts)) (\<lambda>(pods, cfs, apps, svcs). do {
        r1 \<leftarrow> analysis_each (analysisExpiredPods k threshold) pods no_resources;
        r2 \<leftarrow> analysis_each (analysisExpiredConfigmaps k threshold) cfs r1;
        r3 \<leftarrow> analysis_each (analysisExpiredDeployments k threshold) apps r2;
        r4 \<leftarrow> analysis_each (analysisExpiredServices k threshold) svcs r3;
        go_catch (GetAllServiceInNamespace k (Global_Namespace opts))
          (\<lambda>svcList. analysisLockAndOrphanServices k svcList r4)
          (\<lambda>_. analysisLockAndOrphanServices k [] r4)
      }))"

definition isEmpty :: "resource_to_clean \<Rightarrow> bool" where
  "isEmpty r \<longleftrightarrow> length (PodsToDelete r) = 0 \<and> length (ConfigMapsToDelete r) = 0 \<and>
     length (DeploymentsToDelete r) = 0 \<and> mlen (DeploymentsToScale r) = 0 \<and>
     length (ServicesToDelete r) = 0 \<and> length (ServicesToUnlock r) = 0 \<and> length (ServicesToRecover r) = 0"

section \<open>Carrying it out\<close>

definition unlock_stale :: "'w kube \<Rightarrow> string \<Rightarrow> string \<Rightarrow> ('w prog, unit outcome) state" where
  "unlock_stale k namespace name =
     go_catch (GetService k name namespace)
       (\<lambda>app. go_catch (UpdateService k (app\<lparr>Annotations := mdelete (Annotations app) KtLock\<rparr>))
          (\<lambda>_. State_Monad.return (Value ())) (\<lambda>_. State_Monad.return (Value ())))
       (\<lambda>_. State_Monad.return (Value ()))"

definition TidyClusterResources :: "'w kube \<Rightarrow> kt_options \<Rightarrow> resource_to_clean \<Rightarrow> ('w prog, unit outcome) state" where
  "TidyClusterResources k opts r =
     (let ns = Global_Namespace opts in
      go_try (go_each (\<lambda>name. RemovePod k name ns) (PodsToDelete r)) (\<lambda>_.
      go_try (go_each (\<lambda>name. RemoveConfigMap k name ns) (ConfigMapsToDelete r)) (\<lambda>_.
      go_try (go_each (\<lambda>name. RemoveDeployment k name ns) (DeploymentsToDelete r)) (\<lambda>_.
      go_try (go_each (\<lambda>(name, replica). ScaleTo k name ns replica) (entries (DeploymentsToScale r))) (\<lambda>_.
      go_try (go_each (\<lambda>name. RemoveService k name ns) (ServicesToDelete r)) (\<lambda>_.
      go_try (go_each (\<lambda>name. RecoverOriginalService k name ns) (ServicesToRecover r)) (\<lambda>_.
      go_each (unlock_stale k ns) (ServicesToUnlock r))))))))"

section \<open>Local files\<close>

fun find_char_from :: "nat \<Rightarrow> char \<Rightarrow> string \<Rightarrow> int" where
  "find_char_from i c [] = -1"
| "find_char_from i c (x # xs) = (if x = c then int i else find_char_from (Suc i) c xs)"

fun find_last_from :: "nat \<Rightarrow> char \<Rightarrow> string \<Rightarrow> int \<Rightarrow> int" where
  "find_last_from i c [] acc = acc"
| "find_last_from i c (x # xs) acc = find_last_from (Suc i) c xs (if x = c then int i else acc)"

text \<open>\<open>strings.Index\<close> and \<open>strings.LastIndex\<close> of a byte: -1 where it is missing.\<close>

definition index_char :: "string \<Rightarrow> char \<Rightarrow> int" where
  "index_char s c = find_char_from 0 c s"
definition last_index_char :: "string \<Rightarrow> char \<Rightarrow> int" where
  "last_index_char s c = find_last_from 0 c s (-1)"

definition substring :: "string \<Rightarrow> int \<Rightarrow> int \<Rightarrow> string" where
  "substring s i j = take (nat (j - i)) (drop (nat i) s)"

definition parseComponentAndPid :: "string \<Rightarrow> string \<times> int" where
  "parseComponentAndPid pidFileName =
     (let startPos = last_index_char pidFileName CHR ''-''; endPos = index_char pidFileName CHR ''.''
      in if startPos > 0 \<and> endPos > startPos then
           (case atoi (substring pidFileName (startPos + 1) endPos) of
              None \<Rightarrow> ([], -1)
            | Some pid \<Rightarrow> (substring pidFileName 0 startPos, pid))
         else ([], -1))"

text \<open>The directory \<open>dir\<close> holds \<open>files\<close>; \<open>process_exists\<close> is \<open>util.IsProcessExist\<close>.\<close>

definition cleanPidFiles ::
  "'w kube \<Rightarrow> string \<Rightarrow> string list \<Rightarrow> (int \<Rightarrow> bool) \<Rightarrow> ('w prog, unit outcome) state" where
  "cleanPidFiles k dir files process_exists =
     go_each (\<lambda>f. if has_suffix f ''.pid'' \<and> \<not> process_exists (snd (parseComponentAndPid f))
                  then lift_io (RemoveFile k (dir @ ''/'' @ f)) else State_Monad.return (Value ())) files"

text \<open>
  The machine as the command finds it.  \<open>drop_hosts\<close>, \<open>restore_name_server\<close> and \<open>restore_route\<close> are
  the calls into the packages dns and tun, \<open>clean_logs\<close> and \<open>clean_keys\<close> those that remove old files.
\<close>

record 'w local_machine =
  PidDir :: string
  PidFiles :: "string list"
  ProcessExists :: "int \<Rightarrow> bool"
  DaemonRunning :: int
  RunAsAdmin :: bool
  CleanKeys :: "('w, unit) state"
  CleanLogs :: "('w, unit) state"
  DropHostsCall :: "('w, unit) state"
  RestoreNameServerCall :: "('w, unit) state"
  RestoreRouteCall :: "('w, unit outcome) state"

definition TidyLocalResources :: "'w kube \<Rightarrow> 'w local_machine \<Rightarrow> ('w prog, unit outcome) state" where
  "TidyLocalResources k mach =
     go_try (cleanPidFiles k (PidDir mach) (PidFiles mach) (ProcessExists mach)) (\<lambda>_. do {
       _ \<leftarrow> lift_io (CleanKeys mach);
       _ \<leftarrow> lift_io (CleanLogs mach);
       if DaemonRunning mach < 0 \<and> RunAsAdmin mach then do {
         _ \<leftarrow> lift_io (DropHostsCall mach);
         _ \<leftarrow> lift_io (RestoreNameServerCall mach);
         go_catch (lift_io (RestoreRouteCall mach)) (\<lambda>_. State_Monad.return (Value ())) (\<lambda>_. State_Monad.return (Value ()))
       }
       else State_Monad.return (Value ())
     })"

section \<open>The command\<close>

definition clean_cluster :: "'w kube \<Rightarrow> kt_options \<Rightarrow> clean_options \<Rightarrow> ('w prog, unit outcome) state" where
  "clean_cluster k opts copts =
     go_catch (CheckClusterResources k opts copts)
       (\<lambda>r. if isEmpty r \<or> Clean_DryRun copts then State_Monad.return (Value ()) else TidyClusterResources k opts r)
       (\<lambda>_. State_Monad.return (Value ()))"

definition Clean :: "'w kube \<Rightarrow> kt_options \<Rightarrow> clean_options \<Rightarrow> 'w local_machine \<Rightarrow> ('w prog, unit outcome) state" where
  "Clean k opts copts mach =
     go_try (if Clean_LocalOnly copts then State_Monad.return (Value ()) else clean_cluster k opts copts) (\<lambda>_.
     if Clean_DryRun copts then State_Monad.return (Value ()) else TidyLocalResources k mach)"

end
