(* ===== verification/Recover.thy ===== *)
theory Recover
  imports Clean
begin

text \<open>
  The recover command: \<open>pkg/kt/command/recover.go\<close> and \<open>pkg/kt/command/recover/common.go\<close>, which
  give one service back to its owner after an exchange or a mesh that was not ended properly.
\<close>

section \<open>What selects the pods of the service\<close>

text \<open>The first deployment with a role, or the first live pod with one if there is no deployment.\<close>

fun first_app_role :: "deployment list \<Rightarrow> (deployment \<times> string) option" where
  "first_app_role [] = None"
| "first_app_role (app # apps) =
     (case mlookup (Labels app) KtRole of Some role \<Rightarrow> Some (app, role) | None \<Rightarrow> first_app_role apps)"

fun first_pod_role :: "pod list \<Rightarrow> (pod \<times> string) option" where
  "first_pod_role [] = None"
| "first_pod_role (p # pods) =
     (if DeletionTimestamp p = None \<and> mlookup (Labels p) KtRole \<noteq> None
      then Some (p, mget (Labels p) KtRole) else first_pod_role pods)"

definition fetchTargetRole :: "deployment list \<Rightarrow> pod list \<Rightarrow> deployment option \<times> pod option \<times> string" where
  "fetchTargetRole apps pods =
     (if length apps > 0 then
        (case first_app_role apps of Some (app, role) \<Rightarrow> (Some app, None, role) | None \<Rightarrow> (None, None, []))
      else if length pods > 0 then
        (case first_pod_role pods of Some (p, role) \<Rightarrow> (None, Some p, role) | None \<Rightarrow> (None, None, []))
      else (None, None, []))"

definition checkAndMarkUnlock :: "service \<Rightarrow> service \<times> bool" where
  "checkAndMarkUnlock svc =
     (if mlookup (Annotations svc) KtLock \<noteq> None
      then (svc\<lparr>Annotations := mdelete (Annotations svc) KtLock\<rparr>, True) else (svc, False))"

section \<open>The handlers\<close>

text \<open>\<open>_ = f()\<close>, and a result whose error is only logged.\<close>

abbreviation ignore_error :: "('s, 'a outcome) state \<Rightarrow> ('s, unit outcome) state" where
  "ignore_error m \<equiv> go_catch m (\<lambda>_. State_Monad.return (Value ())) (\<lambda>_. State_Monad.return (Value ()))"

definition UnlockServiceOnly :: "'w kube \<Rightarrow> service \<Rightarrow> ('w prog, unit outcome) state" where
  "UnlockServiceOnly k svc = go_try (UpdateService k svc) (\<lambda>_. State_Monad.return (Value ()))"

definition HandleServiceSelectorAndRemotePods ::
  "'w kube \<Rightarrow> service \<Rightarrow> deployment option \<Rightarrow> pod option \<Rightarrow> ('w prog, unit outcome) state" where
  "HandleServiceSelectorAndRemotePods k svc app p =
     go_try (UpdateService k svc) (\<lambda>_.
     go_try (case app of Some d \<Rightarrow> ignore_error (RemoveDeployment k (Name d) (Namespace d))
                       | None \<Rightarrow> State_Monad.return (Value ())) (\<lambda>_.
     (case p of Some pd \<Rightarrow> ignore_error (RemovePod k (Name pd) (Namespace pd))
              | None \<Rightarrow> State_Monad.return (Value ()))))"

definition HandleMeshedByManualService ::
  "'w kube \<Rightarrow> service \<Rightarrow> deployment option \<Rightarrow> pod option \<Rightarrow> ('w prog, unit outcome) state" where
  "HandleMeshedByManualService k svc app p = HandleServiceSelectorAndRemotePods k svc app p"

definition HandleExchangedBySelectorService ::
  "'w kube \<Rightarrow> service \<Rightarrow> deployment option \<Rightarrow> pod option \<Rightarrow> ('w prog, unit outcome) state" where
  "HandleExchangedBySelectorService k svc app p = HandleServiceSelectorAndRemotePods k svc app p"

text \<open>The configuration of the shadow: of its pod, or of its deployment if the pod tells nothing.\<close>

definition config_of_pod :: "'w kube \<Rightarrow> pod option \<Rightarrow> ('w prog, smap outcome) state" where
  "config_of_pod k p = (case p of
     Some pd \<Rightarrow> (if Annotations pd \<noteq> NilMap
       then go_try (ignore_error (RemovePod k (Name pd) (Namespace pd)))
              (\<lambda>_. State_Monad.return (Value (String2Map (mget (Annotations pd) KtConfig))))
       else State_Monad.return (Value (GoMap [])))
   | None \<Rightarrow> State_Monad.return (Value (GoMap [])))"

definition config_of_app :: "'w kube \<Rightarrow> deployment option \<Rightarrow> smap \<Rightarrow> ('w prog, smap outcome) state" where
  "config_of_app k app config = (case app of
     Some d \<Rightarrow> (if mlen config = 0 \<and> Annotations d \<noteq> NilMap
       then go_try (ignore_error (RemoveDeployment k (Name d) (Namespace d)))
              (\<lambda>_. State_Monad.return (Value (String2Map (mget (Annotations d) KtConfig))))
       else State_Monad.return (Value config))
   | None \<Rightarrow> State_Monad.return (Value config))"

definition HandleExchangedByScaleService ::
  "'w kube \<Rightarrow> service \<Rightarrow> deployment option \<Rightarrow> pod option \<Rightarrow> ('w prog, unit outcome) state" where
  "HandleExchangedByScaleService k svc app p =
     go_try (UpdateService k svc) (\<lambda>_.
     go_try (config_of_pod k p) (\<lambda>config0.
     go_try (config_of_app k app config0) (\<lambda>config.
       (let replica = ParseInt32 (mget config ''replicas''); target = mget config ''app''
        in if replica > 0 \<and> target \<noteq> [] then ScaleTo k target (Namespace svc) replica
           else State_Monad.return (Value ())))))"

text \<open>The shadows of a mesh: their names are the names of the services to be removed as well.\<close>

definition shadow_mesh_labels :: smap where
  "shadow_mesh_labels = GoMap [(ControlBy, KubernetesToolkit), (KtRole, ''shadow-mesh'')]"

definition mesh_shadows :: "string \<Rightarrow> 'm object_meta_scheme list \<Rightarrow> 'm object_meta_scheme list" where
  "mesh_shadows svcName = filter (\<lambda>ob. has_prefix (Name ob) (svcName @ MeshPodInfix))"

definition remove_mesh_deployments :: "'w kube \<Rightarrow> service \<Rightarrow> ('w prog, string list outcome) state" where
  "remove_mesh_deployments k svc =
     go_catch (GetDeploymentsByLabel k shadow_mesh_labels (Namespace svc))
       (\<lambda>apps. (let shadows = mesh_shadows (Name svc) apps in
          go_try (go_each (\<lambda>d. RemoveDeployment k (Name d) (Namespace d)) shadows)
            (\<lambda>_. State_Monad.return (Value (map Name shadows)))))
       (\<lambda>_. State_Monad.return (Value []))"

definition remove_mesh_pods :: "'w kube \<Rightarrow> service \<Rightarrow> ('w prog, string list outcome) state" where
  "remove_mesh_pods k svc =
     go_catch (GetPodsByLabel k shadow_mesh_labels (Namespace svc))
       (\<lambda>pods. (let shadows = filter (\<lambda>p. DeletionTimestamp p = None) (mesh_shadows (Name svc) pods) in
          go_try (go_each (\<lambda>p. RemovePod k (Name p) (Namespace p)) shadows)
            (\<lambda>_. State_Monad.return (Value (map Name shadows)))))
       (\<lambda>_. State_Monad.return (Value []))"

definition HandleMeshedByAutoService ::
  "'w kube \<Rightarrow> service \<Rightarrow> deployment option \<Rightarrow> pod option \<Rightarrow> ('w prog, unit outcome) state" where
  "HandleMeshedByAutoService k svc app p =
     (case (app, p) of
        (Some _, _) \<Rightarrow> State_Monad.return (Fail (Errorf (''service '' @ quoted (Name svc)
          @ '' is meshed but selecting more than a router pod, cannot auto recover'')))
      | (None, None) \<Rightarrow> State_Monad.return (Fail (Errorf (''service '' @ quoted (Name svc)
          @ '' is meshed without selecting a router pod, cannot auto recover'')))
      | (None, Some pd) \<Rightarrow>
          go_try (ignore_error (RemovePod k (Name pd) (Namespace pd))) (\<lambda>_.
          State_Monad.bind (sleep k 1) (\<lambda>_.
          go_try (UpdateService k svc) (\<lambda>_.
          go_try (ignore_error (RemoveService k (Name svc @ StuntmanServiceSuffix) (Namespace svc))) (\<lambda>_.
          go_try (remove_mesh_deployments k svc) (\<lambda>appNames.
          go_try (remove_mesh_pods k svc) (\<lambda>podNames.
          go_each (\<lambda>shadowSvc. RemoveService k shadowSvc (Namespace svc)) (appNames @ podNames))))))))"

section \<open>The command\<close>

text \<open>
  When the service cannot be read the error is only logged, and the command goes on with the empty
  object that the client returns.
\<close>

definition empty_service :: service where
  "empty_service = \<lparr> Name = [], Namespace = [], Labels = NilMap, Annotations = NilMap,
     DeletionTimestamp = None, ResourceVersion = 0, Selector = NilMap, SvcPorts = [], SvcType = [],
     ClusterIP = [] \<rparr>"

definition recover_service ::
  "'w kube \<Rightarrow> service \<Rightarrow> deployment option \<Rightarrow> pod option \<Rightarrow> string \<Rightarrow> ('w prog, unit outcome) state" where
  "recover_service k svc0 app p targetRole =
     (case checkAndMarkUnlock svc0 of (svc, needUnlock) \<Rightarrow>
       (case mlookup (Annotations svc) KtSelector of
          Some originSelector \<Rightarrow>
            (case json_unmarshal originSelector of
               Value sel \<Rightarrow>
                 (let svc' = svc\<lparr>Selector := sel, Annotations := mdelete (Annotations svc) KtSelector\<rparr>
                  in if targetRole = ''router'' then HandleMeshedByAutoService k svc' app p
                     else if targetRole = ''shadow-exchange'' then HandleExchangedBySelectorService k svc' app p
                     else HandleServiceSelectorAndRemotePods k svc' app p)
             | Fail _ \<Rightarrow> State_Monad.return (Fail (Errorf (''service '' @ Name svc
                 @ '' has kt-selector annotation, but selecting nothing'')))
             | Panic \<Rightarrow> State_Monad.return Panic)
        | None \<Rightarrow>
            if targetRole = ''shadow-mesh'' then HandleMeshedByManualService k svc app p
            else if targetRole = ''shadow-exchange'' then HandleExchangedByScaleService k svc app p
            else if needUnlock then UnlockServiceOnly k svc
            else State_Monad.return (Value ())))"

definition Recover :: "'w kube \<Rightarrow> kt_options \<Rightarrow> string \<Rightarrow> ('w prog, unit outcome) state" where
  "Recover k opts serviceName =
     go_try (go_catch (GetService k serviceName (Global_Namespace opts))
       (\<lambda>svc. State_Monad.return (Value svc)) (\<lambda>_. State_Monad.return (Value empty_service))) (\<lambda>svc.
     go_try (GetDeploymentsByLabel k (Selector svc) (Namespace svc)) (\<lambda>apps.
     go_try (GetPodsByLabel k (Selector svc) (Namespace svc)) (\<lambda>pods.
       (case fetchTargetRole apps pods of (app, p, targetRole) \<Rightarrow>
         if Annotations svc = NilMap \<and> targetRole = [] then State_Monad.return (Value ())
         else recover_service k
           (if Annotations svc = NilMap then svc\<lparr>Annotations := GoMap []\<rparr> else svc) app p targetRole))))"

end
