(* ===== verification/CleanProps.thy ===== *)
theory CleanProps
  imports Clean ClusterEffects
begin

text \<open>
  What the clean command plans and what it removes: exactly the objects of the program whose
  heartbeat can be read and is older than the threshold, and in the services only locks that are
  stale and records whose shadow or router is gone.
\<close>

section \<open>The plan as a function of the objects and the time\<close>

definition listed_in :: "string \<Rightarrow> smap \<Rightarrow> 'm object_meta_scheme list \<Rightarrow> 'm object_meta_scheme list" where
  "listed_in namespace sel = filter (\<lambda>ob. (namespace = [] \<or> Namespace ob = namespace) \<and> label_match sel ob)"

definition stale :: "int \<Rightarrow> int \<Rightarrow> 'm object_meta_scheme \<Rightarrow> bool" where
  "stale time threshold ob \<longleftrightarrow> 0 \<le> lastHeartBeat ob \<and> threshold * 60 < time - lastHeartBeat ob"

definition stale_lock_of :: "int \<Rightarrow> service \<Rightarrow> bool" where
  "stale_lock_of time svc \<longleftrightarrow>
     (\<exists>lock. mlookup (Annotations svc) KtLock = Some lock \<and> LockTimeout < time - ParseTimestamp lock)"

definition orphan_of :: "pod list \<Rightarrow> service \<Rightarrow> bool" where
  "orphan_of pods svc \<longleftrightarrow> mget (Annotations svc) KtSelector \<noteq> [] \<and>
     (if mget (Selector svc) KtRole = ''router''
      then find_obj pods (Namespace svc) (Name svc @ RouterPodSuffix) = None
      else \<not> list_ex (\<lambda>p. has_prefix (Name p) (Name svc @ ''-kt-exchange-'')) (listed_in (Namespace svc) (Selector svc) pods))"

lemma run_analysis_expired:
  "api_server k view \<Longrightarrow> run_state (analysis_expired k th ob mark r) s =
    (if stale (time_of k s) th ob then mark r else r, s)"
  by (simp add: analysis_expired_def isExpired_def run_now stale_def not_less)

lemma run_analysis_each:
  assumes "\<And>x r. run_state (f x r) s = (g x r, s)"
  shows "run_state (analysis_each f xs r) s = (fold g xs r, s)"
  by (induction xs arbitrary: r) (simp_all add: assms)

lemma mget_nonempty_NilMap: "mget m x \<noteq> [] \<Longrightarrow> m \<noteq> NilMap"
  by auto

lemma list_services: "api_server k view \<Longrightarrow>
  run_state (GetAllServiceInNamespace k ns) s = (Value (listed_in ns (GoMap []) (ClServices (view (World s)))), s)"
  by (simp add: GetAllServiceInNamespace_def crud_list [OF api_services] list_spec_def listed_in_def)

lemma run_stale_lock: "api_server k view \<Longrightarrow> run_state (stale_lock k svc) s = (stale_lock_of (time_of k s) svc, s)"
  by (simp add: stale_lock_def stale_lock_of_def run_now split: option.splits)

lemma run_is_orphan:
  assumes "api_server k view"
  shows "run_state (is_orphan k svc) s = (Value (orphan_of (ClPods (view (World s))) svc), s)"
  using crud_get [OF api_pods [OF assms]] crud_list [OF api_pods [OF assms]]
  by (simp add: is_orphan_def orphan_of_def isRouterPodExist_def isShadowPodExist_def GetPod_def
      GetPodsByLabel_def get_spec_def list_spec_def listed_in_def split: option.splits)

definition mark_service :: "int \<Rightarrow> pod list \<Rightarrow> service \<Rightarrow> resource_to_clean \<Rightarrow> resource_to_clean" where
  "mark_service time pods svc r =
     r\<lparr>ServicesToUnlock := ServicesToUnlock r @ (if stale_lock_of time svc then [Name svc] else []),
       ServicesToRecover := ServicesToRecover r @ (if orphan_of pods svc then [Name svc] else [])\<rparr>"

lemma run_analysisLockAndOrphanServices:
  assumes a: "api_server k view"
  shows "run_state (analysisLockAndOrphanServices k svcs r) s =
    (Value (fold (mark_service (time_of k s) (ClPods (view (World s)))) svcs r), s)"
proof (induction svcs arbitrary: r)
  case (Cons svc svcs)
  show ?case
  proof (cases "Annotations svc")
    case NilMap
    then have "mark_service (time_of k s) (ClPods (view (World s))) svc r = r"
      by (simp add: mark_service_def stale_lock_of_def orphan_of_def)
    with NilMap Cons show ?thesis by simp
  next
    case (GoMap al)
    with Cons show ?thesis
      by (simp add: run_stale_lock [OF a] run_is_orphan [OF a] mark_service_def Let_def)
  qed
qed simp

section \<open>The effect of a mark on each list\<close>

lemma analysisConfigAnnotation_keeps [simp]:
  "PodsToDelete (analysisConfigAnnotation role config r) = PodsToDelete r"
  "ServicesToDelete (analysisConfigAnnotation role config r) = ServicesToDelete r"
  "ConfigMapsToDelete (analysisConfigAnnotation role config r) = ConfigMapsToDelete r"
  "DeploymentsToDelete (analysisConfigAnnotation role config r) = DeploymentsToDelete r"
  "ServicesToUnlock (analysisConfigAnnotation role config r) = ServicesToUnlock r"
  by (simp_all add: analysisConfigAnnotation_def Let_def split: option.split)

lemma fold_field:
  assumes "\<And>x r. sel (f x r) = sel r @ (if P x then [g x] else [])"
  shows "sel (fold f xs r) = sel r @ map g (filter P xs)"
  by (induction xs arbitrary: r) (simp_all add: assms)

lemma fold_keeps_field:
  assumes "\<And>x r. sel (f x r) = sel r"
  shows "sel (fold f xs r) = sel r"
  by (induction xs arbitrary: r) (simp_all add: assms)

definition mark_pod :: "int \<Rightarrow> int \<Rightarrow> pod \<Rightarrow> resource_to_clean \<Rightarrow> resource_to_clean" where
  "mark_pod time th p r = (if stale time th p
     then analysisConfigAnnotation (mget (Labels p) KtRole) (String2Map (mget (Annotations p) KtConfig))
       (if DeletionTimestamp p = None then r\<lparr>PodsToDelete := PodsToDelete r @ [Name p]\<rparr> else r) else r)"

definition mark_config_map :: "int \<Rightarrow> int \<Rightarrow> config_map \<Rightarrow> resource_to_clean \<Rightarrow> resource_to_clean" where
  "mark_config_map time th cf r =
     (if stale time th cf then r\<lparr>ConfigMapsToDelete := ConfigMapsToDelete r @ [Name cf]\<rparr> else r)"

definition mark_deployment :: "int \<Rightarrow> int \<Rightarrow> deployment \<Rightarrow> resource_to_clean \<Rightarrow> resource_to_clean" where
  "mark_deployment time th app r = (if stale time th app
     then analysisConfigAnnotation (mget (Labels app) KtRole) (String2Map (mget (Annotations app) KtConfig))
       (r\<lparr>DeploymentsToDelete := DeploymentsToDelete r @ [Name app]\<rparr>) else r)"

definition mark_stale_service :: "int \<Rightarrow> int \<Rightarrow> service \<Rightarrow> resource_to_clean \<Rightarrow> resource_to_clean" where
  "mark_stale_service time th svc r =
     (if stale time th svc then r\<lparr>ServicesToDelete := ServicesToDelete r @ [Name svc]\<rparr> else r)"

lemmas mark_defs = mark_pod_def mark_config_map_def mark_deployment_def mark_stale_service_def mark_service_def

definition clean_plan :: "int \<Rightarrow> int \<Rightarrow> string \<Rightarrow> cluster_objects \<Rightarrow> resource_to_clean" where
  "clean_plan time th ns c =
     fold (mark_service time (ClPods c)) (listed_in ns (GoMap []) (ClServices c))
       (fold (mark_stale_service time th) (listed_in ns kt_label (ClServices c))
         (fold (mark_deployment time th) (listed_in ns kt_label (ClDeployments c))
           (fold (mark_config_map time th) (listed_in ns kt_label (ClConfigMaps c))
             (fold (mark_pod time th) (listed_in ns kt_label (ClPods c)) no_resources))))"

lemma run_GetKtResources:
  assumes "api_server k view"
  shows "run_state (GetKtResources k ns) s = (Value
    (listed_in ns kt_label (ClPods (view (World s))), listed_in ns kt_label (ClConfigMaps (view (World s))),
     listed_in ns kt_label (ClDeployments (view (World s))), listed_in ns kt_label (ClServices (view (World s)))), s)"
  by (simp add: GetKtResources_def api_call_defs list_spec_def listed_in_def
      crud_list [OF api_pods [OF assms]] crud_list [OF api_config_maps [OF assms]]
      crud_list [OF api_deployments [OF assms]] crud_list [OF api_services [OF assms]])

lemma run_CheckClusterResources:
  assumes a: "api_server k view"
  shows "run_state (CheckClusterResources k opts copts) s =
    (Value (clean_plan (time_of k s) (Clean_ThresholdInMinus copts) (Global_Namespace opts) (view (World s))), s)"
proof -
  note e = run_analysis_expired [OF a]
  note each = run_analysis_each [of "analysisExpiredPods k th" s "mark_pod (time_of k s) th" for th]
    run_analysis_each [of "analysisExpiredConfigmaps k th" s "mark_config_map (time_of k s) th" for th]
    run_analysis_each [of "analysisExpiredDeployments k th" s "mark_deployment (time_of k s) th" for th]
    run_analysis_each [of "analysisExpiredServices k th" s "mark_stale_service (time_of k s) th" for th]
  have "run_state (analysis_each (analysisExpiredPods k th) xs r) s = (fold (mark_pod (time_of k s) th) xs r, s)" for th xs r
    by (rule each) (simp add: analysisExpiredPods_def e mark_pod_def)
  moreover have "run_state (analysis_each (analysisExpiredConfigmaps k th) xs r) s =
      (fold (mark_config_map (time_of k s) th) xs r, s)" for th xs r
    by (rule each) (simp add: analysisExpiredConfigmaps_def e mark_config_map_def)
  moreover have "run_state (analysis_each (analysisExpiredDeployments k th) xs r) s =
      (fold (mark_deployment (time_of k s) th) xs r, s)" for th xs r
    by (rule each) (simp add: analysisExpiredDeployments_def e mark_deployment_def)
  moreover have "run_state (analysis_each (analysisExpiredServices k th) xs r) s =
      (fold (mark_stale_service (time_of k s) th) xs r, s)" for th xs r
    by (rule each) (simp add: analysisExpiredServices_def e mark_stale_service_def)
  ultimately show ?thesis
    by (simp add: CheckClusterResources_def run_GetKtResources [OF a] list_services [OF a]
        run_analysisLockAndOrphanServices [OF a] clean_plan_def Let_def)
qed

lemma clean_plan_lists:
  "PodsToDelete (clean_plan time th ns c) =
     map Name (filter (\<lambda>p. stale time th p \<and> DeletionTimestamp p = None) (listed_in ns kt_label (ClPods c)))"
  "ConfigMapsToDelete (clean_plan time th ns c) = map Name (filter (stale time th) (listed_in ns kt_label (ClConfigMaps c)))"
  "DeploymentsToDelete (clean_plan time th ns c) = map Name (filter (stale time th) (listed_in ns kt_label (ClDeployments c)))"
  "ServicesToDelete (clean_plan time th ns c) = map Name (filter (stale time th) (listed_in ns kt_label (ClServices c)))"
  "ServicesToUnlock (clean_plan time th ns c) = map Name (filter (stale_lock_of time) (listed_in ns (GoMap []) (ClServices c)))"
proof -
  note k = fold_keeps_field and f = fold_field
  show "PodsToDelete (clean_plan time th ns c) =
      map Name (filter (\<lambda>p. stale time th p \<and> DeletionTimestamp p = None) (listed_in ns kt_label (ClPods c)))"
    unfolding clean_plan_def
    by (simp add: k [of PodsToDelete "mark_service time (ClPods c)"] k [of PodsToDelete "mark_stale_service time th"]
        k [of PodsToDelete "mark_deployment time th"] k [of PodsToDelete "mark_config_map time th"] mark_defs
        f [of PodsToDelete "mark_pod time th" "\<lambda>p. stale time th p \<and> DeletionTimestamp p = None" Name] no_resources_def)
  show "ConfigMapsToDelete (clean_plan time th ns c) = map Name (filter (stale time th) (listed_in ns kt_label (ClConfigMaps c)))"
    unfolding clean_plan_def
    by (simp add: k [of ConfigMapsToDelete "mark_service time (ClPods c)"] k [of ConfigMapsToDelete "mark_stale_service time th"]
        k [of ConfigMapsToDelete "mark_deployment time th"] k [of ConfigMapsToDelete "mark_pod time th"] mark_defs
        f [of ConfigMapsToDelete "mark_config_map time th" "stale time th" Name] no_resources_def)
  show "DeploymentsToDelete (clean_plan time th ns c) = map Name (filter (stale time th) (listed_in ns kt_label (ClDeployments c)))"
    unfolding clean_plan_def
    by (simp add: k [of DeploymentsToDelete "mark_service time (ClPods c)"] k [of DeploymentsToDelete "mark_stale_service time th"]
        k [of DeploymentsToDelete "mark_config_map time th"] k [of DeploymentsToDelete "mark_pod time th"] mark_defs
        f [of DeploymentsToDelete "mark_deployment time th" "stale time th" Name] no_resources_def)
  show "ServicesToDelete (clean_plan time th ns c) = map Name (filter (stale time th) (listed_in ns kt_label (ClServices c)))"
    unfolding clean_plan_def
    by (simp add: k [of ServicesToDelete "mark_service time (ClPods c)"] k [of ServicesToDelete "mark_deployment time th"]
        k [of ServicesToDelete "mark_config_map time th"] k [of ServicesToDelete "mark_pod time th"] mark_defs
        f [of ServicesToDelete "mark_stale_service time th" "stale time th" Name] no_resources_def)
  show "ServicesToUnlock (clean_plan time th ns c) = map Name (filter (stale_lock_of time) (listed_in ns (GoMap []) (ClServices c)))"
    unfolding clean_plan_def
    by (simp add: k [of ServicesToUnlock "mark_stale_service time th"] k [of ServicesToUnlock "mark_deployment time th"]
        k [of ServicesToUnlock "mark_config_map time th"] k [of ServicesToUnlock "mark_pod time th"] mark_defs
        f [of ServicesToUnlock "mark_service time (ClPods c)" "stale_lock_of time" Name] no_resources_def)
qed

section \<open>The effect of carrying it out\<close>

text \<open>A computation that does not panic and leaves pods and config maps as they are.\<close>

definition keeps_pods :: "('w \<Rightarrow> cluster_objects) \<Rightarrow> ('w prog, 'a outcome) state \<Rightarrow> bool" where
  "keeps_pods view m \<longleftrightarrow> (\<forall>s. case run_state m s of (r, t) \<Rightarrow> r \<noteq> Panic \<and>
     ClPods (view (World t)) = ClPods (view (World s)) \<and> ClConfigMaps (view (World t)) = ClConfigMaps (view (World s)))"

named_theorems keeps_intros

lemma keeps_return [keeps_intros]: "r \<noteq> Panic \<Longrightarrow> keeps_pods view (State_Monad.return r)"
  by (simp add: keeps_pods_def)

lemma keeps_try [keeps_intros]:
  "keeps_pods view m \<Longrightarrow> (\<And>x. keeps_pods view (f x)) \<Longrightarrow> keeps_pods view (go_try m f)"
  unfolding keeps_pods_def by (fastforce split: prod.splits outcome.splits)

lemma keeps_catch [keeps_intros]:
  "keeps_pods view m \<Longrightarrow> (\<And>x. keeps_pods view (f x)) \<Longrightarrow> (\<And>e. keeps_pods view (h e)) \<Longrightarrow>
   keeps_pods view (go_catch m f h)"
  unfolding keeps_pods_def by (fastforce split: prod.splits outcome.splits)

lemma keeps_each [keeps_intros]: "(\<And>x. keeps_pods view (f x)) \<Longrightarrow> keeps_pods view (go_each f xs)"
  by (induction xs) (auto intro: keeps_intros)

lemma keeps_get:
  "crud_ok c view sel upd \<Longrightarrow> keeps_pods view (lift_io (api_get c ns n))"
  by (simp add: keeps_pods_def crud_get get_spec_def split: option.splits)

lemma keeps_update:
  "crud_ok c view sel upd \<Longrightarrow> (\<And>x v. ClPods (upd x v) = ClPods v \<and> ClConfigMaps (upd x v) = ClConfigMaps v) \<Longrightarrow>
   keeps_pods view (lift_io (api_update c ns ob))"
  by (auto simp: keeps_pods_def update_spec_def dest!: crud_update split: prod.splits option.splits if_splits)

lemma keeps_delete:
  "crud_ok c view sel upd \<Longrightarrow> (\<And>x v. ClPods (upd x v) = ClPods v \<and> ClConfigMaps (upd x v) = ClConfigMaps v) \<Longrightarrow>
   keeps_pods view (lift_io (api_delete c ns n))"
  by (auto simp: keeps_pods_def delete_spec_def dest!: crud_delete split: prod.splits option.splits)

lemma json_unmarshal_no_panic: "json_unmarshal s \<noteq> Panic"
  by (simp add: json_unmarshal_def Let_def split: option.split prod.split list.split)

lemma keeps_calls:
  assumes a: "api_server k view"
  shows "keeps_pods view (GetService k n ns)" "keeps_pods view (GetDeployment k n ns)"
    "keeps_pods view (UpdateService k svc)" "keeps_pods view (UpdateDeployment k d)"
    "keeps_pods view (RemoveService k n ns)" "keeps_pods view (RemoveDeployment k n ns)"
  unfolding api_call_defs
  by (rule keeps_get keeps_update keeps_delete, rule api_services [OF a] api_deployments [OF a], (simp add: set_kinds)?)+

lemma keeps_ScaleTo: "api_server k view \<Longrightarrow> keeps_pods view (ScaleTo k n ns r)"
  unfolding ScaleTo_def by (intro keeps_intros keeps_calls) (auto intro!: keeps_intros keeps_calls)

lemma keeps_RecoverOriginalService: "api_server k view \<Longrightarrow> keeps_pods view (RecoverOriginalService k n ns)"
  unfolding RecoverOriginalService_def using json_unmarshal_no_panic
  by (auto intro!: keeps_intros keeps_calls split: gomap.split option.split outcome.split)

lemma keeps_unlock_stale: "api_server k view \<Longrightarrow> keeps_pods view (unlock_stale k ns n)"
  unfolding unlock_stale_def by (intro keeps_intros keeps_calls) simp_all

section \<open>The command\<close>

text \<open>The calls into other packages do not change the objects of the cluster.\<close>

definition machine_ok :: "('w \<Rightarrow> cluster_objects) \<Rightarrow> 'w local_machine \<Rightarrow> bool" where
  "machine_ok view mach \<longleftrightarrow>
     (\<forall>w. view (snd (run_state (CleanKeys mach) w)) = view w \<and> view (snd (run_state (CleanLogs mach) w)) = view w \<and>
        view (snd (run_state (DropHostsCall mach) w)) = view w \<and>
        view (snd (run_state (RestoreNameServerCall mach) w)) = view w \<and>
        view (snd (run_state (RestoreRouteCall mach) w)) = view w \<and> fst (run_state (RestoreRouteCall mach) w) \<noteq> Panic)"

definition keeps_view :: "('w \<Rightarrow> cluster_objects) \<Rightarrow> ('w prog, unit outcome) state \<Rightarrow> bool" where
  "keeps_view view m \<longleftrightarrow> (\<forall>s. case run_state m s of (r, t) \<Rightarrow> r = Value () \<and> view (World t) = view (World s))"

lemma keeps_view_each:
  assumes "\<And>x s. case run_state (f x) s of (r, t) \<Rightarrow> r \<noteq> Panic \<and> view (World t) = view (World s)"
  shows "keeps_view view (go_each f xs)"
proof (induction xs)
  case (Cons x xs)
  have "case run_state (go_each f (x # xs)) s of (r, t) \<Rightarrow> r = Value () \<and> view (World t) = view (World s)" for s
    using assms [where x = x and s = s] Cons [unfolded keeps_view_def, rule_format, of "snd (run_state (f x) s)"]
    by (cases "run_state (f x) s"; cases "fst (run_state (f x) s)") (auto split: prod.splits)
  then show ?case by (simp add: keeps_view_def)
qed (simp add: keeps_view_def)

lemma keeps_TidyLocalResources:
  assumes a: "api_server k view" and m: "machine_ok view mach"
  shows "keeps_view view (TidyLocalResources k mach)"
proof -
  let ?rest = "do {
       _ \<leftarrow> lift_io (CleanKeys mach);
       _ \<leftarrow> lift_io (CleanLogs mach);
       if DaemonRunning mach < 0 \<and> RunAsAdmin mach then do {
         _ \<leftarrow> lift_io (DropHostsCall mach);
         _ \<leftarrow> lift_io (RestoreNameServerCall mach);
         go_catch (lift_io (RestoreRouteCall mach)) (\<lambda>_. State_Monad.return (Value ())) (\<lambda>_. State_Monad.return (Value ()))
       }
       else State_Monad.return (Value ())
     }"
  have pid: "keeps_view view (cleanPidFiles k (PidDir mach) (PidFiles mach) (ProcessExists mach))"
    unfolding cleanPidFiles_def
    using api_remove_file [OF a] api_remove_file_ok [OF a]
    by (intro keeps_view_each) (simp split: prod.split, metis fst_conv snd_conv)
  have "case run_state ?rest s of (r, t) \<Rightarrow> r = Value () \<and> view (World t) = view (World s)" for s
  proof -
    note d = m [unfolded machine_ok_def, rule_format]
    let ?w1 = "snd (run_state (CleanKeys mach) (World s))"
    let ?w2 = "snd (run_state (CleanLogs mach) ?w1)"
    let ?w3 = "snd (run_state (DropHostsCall mach) ?w2)"
    let ?w4 = "snd (run_state (RestoreNameServerCall mach) ?w3)"
    have "view ?w1 = view (World s)" "view ?w2 = view ?w1" "view ?w3 = view ?w2" "view ?w4 = view ?w3"
      "view (snd (run_state (RestoreRouteCall mach) ?w4)) = view ?w4" "fst (run_state (RestoreRouteCall mach) ?w4) \<noteq> Panic"
      using d by blast+
    then show ?thesis
      by (cases "fst (run_state (RestoreRouteCall mach) ?w4)") (auto simp: split_def)
  qed
  with pid show ?thesis unfolding TidyLocalResources_def keeps_view_def by (fastforce split: prod.splits)
qed

lemma fold_drop_pods [simp]:
  "ClPods (fold (drop_pod ns) names c) = fold (drop_obj ns) names (ClPods c)"
  "ClConfigMaps (fold (drop_pod ns) names c) = ClConfigMaps c"
  by (induction names arbitrary: c) (simp_all add: drop_defs)

lemma fold_drop_config_maps [simp]:
  "ClConfigMaps (fold (drop_config_map ns) names c) = fold (drop_obj ns) names (ClConfigMaps c)"
  "ClPods (fold (drop_config_map ns) names c) = ClPods c"
  by (induction names arbitrary: c) (simp_all add: drop_defs)

lemma find_fold_drop:
  "find_obj (fold (drop_obj ns) names obs) ms m = (if ms = ns \<and> m \<in> set names then None else find_obj obs ms m)"
  by (induction names arbitrary: obs) (auto simp: find_drop_obj)

lemma ends_each: "fst (run_state (go_each f xs) s) \<in> {Value (), Panic}"
proof (induction xs arbitrary: s)
  case (Cons x xs)
  then show ?case by (cases "run_state (f x) s"; cases "fst (run_state (f x) s)") auto
qed simp

lemma ends_try:
  assumes "\<And>s. fst (run_state m s) \<in> {Value (), Panic}" and "\<And>x s. fst (run_state (f x) s) \<in> {Value (), Panic}"
  shows "fst (run_state (go_try m f) s) \<in> {Value (), Panic}"
  using assms(1) [of s] assms(2) [where x = "()" and s = "snd (run_state m s)"]
  by (cases "run_state m s") auto

lemma TidyClusterResources_effect:
  assumes a: "api_server k view"
  shows "\<exists>t. run_state (TidyClusterResources k opts plan) s = (Value (), t) \<and>
    ClPods (view (World t)) = fold (drop_obj (Global_Namespace opts)) (PodsToDelete plan) (ClPods (view (World s))) \<and>
    ClConfigMaps (view (World t)) = fold (drop_obj (Global_Namespace opts)) (ConfigMapsToDelete plan) (ClConfigMaps (view (World s)))"
proof -
  let ?ns = "Global_Namespace opts"
  let ?rest = "go_try (go_each (\<lambda>name. RemoveDeployment k name ?ns) (DeploymentsToDelete plan)) (\<lambda>_.
      go_try (go_each (\<lambda>(name, replica). ScaleTo k name ?ns replica) (entries (DeploymentsToScale plan))) (\<lambda>_.
      go_try (go_each (\<lambda>name. RemoveService k name ?ns) (ServicesToDelete plan)) (\<lambda>_.
      go_try (go_each (\<lambda>name. RecoverOriginalService k name ?ns) (ServicesToRecover plan)) (\<lambda>_.
      go_each (unlock_stale k ?ns) (ServicesToUnlock plan)))))"
  have ends: "fst (run_state ?rest u) \<in> {Value (), Panic}" for u
    by (intro ends_try ends_each)
  have rest: "keeps_pods view ?rest"
    by (intro keeps_intros) (auto intro!: keeps_calls [OF a] keeps_ScaleTo [OF a]
        keeps_RecoverOriginalService [OF a] keeps_unlock_stale [OF a] split: prod.split)
  obtain t1 where t1: "run_state (go_each (\<lambda>name. RemovePod k name ?ns) (PodsToDelete plan)) s = (Value (), t1)"
    "view (World t1) = fold (drop_pod ?ns) (PodsToDelete plan) (view (World s))"
    using acts_ok_each [OF acts_RemovePod [OF a] refl] by (rule acts_okE)
  obtain t2 where t2: "run_state (go_each (\<lambda>name. RemoveConfigMap k name ?ns) (ConfigMapsToDelete plan)) t1 = (Value (), t2)"
    "view (World t2) = fold (drop_config_map ?ns) (ConfigMapsToDelete plan) (view (World t1))"
    using acts_ok_each [OF acts_RemoveConfigMap [OF a] refl] by (rule acts_okE)
  obtain r t where t: "run_state ?rest t2 = (r, t)" by fastforce
  have "run_state (TidyClusterResources k opts plan) s = (r, t)"
    using t1(1) t2(1) t by (simp only: TidyClusterResources_def Let_def run_go_try prod.case outcome.case)
  moreover have "r \<noteq> Panic \<and> ClPods (view (World t)) = ClPods (view (World t2)) \<and>
      ClConfigMaps (view (World t)) = ClConfigMaps (view (World t2))"
    using rest [unfolded keeps_pods_def, rule_format, of t2] unfolding t by simp
  moreover have "r = Value ()" using calculation(2) ends [of t2] unfolding t by simp
  ultimately show ?thesis using t1(2) t2(2) by (intro exI [of _ t]) simp
qed

text \<open>What is left of the objects of one kind when the stale ones of a namespace are gone.\<close>

definition swept :: "string \<Rightarrow> ('m object_meta_scheme \<Rightarrow> bool) \<Rightarrow> 'm object_meta_scheme list \<Rightarrow> 'm object_meta_scheme list \<Rightarrow> bool" where
  "swept namespace gone obs obs' \<longleftrightarrow> (\<forall>ns n. find_obj obs' ns n =
     (case find_obj obs ns n of
        None \<Rightarrow> None
      | Some ob \<Rightarrow> if ns = namespace \<and> gone ob then None else Some ob))"

lemma swept_fold:
  assumes "namespace \<noteq> []" and "unique_objs obs"
    and "names = map Name (filter gone (listed_in namespace sel obs))"
  shows "swept namespace (\<lambda>ob. label_match sel ob \<and> gone ob) obs (fold (drop_obj namespace) names obs)"
  unfolding swept_def
proof (intro allI)
  fix ns n
  show "find_obj (fold (drop_obj namespace) names obs) ns n = (case find_obj obs ns n of None \<Rightarrow> None
      | Some ob \<Rightarrow> if ns = namespace \<and> label_match sel ob \<and> gone ob then None else Some ob)"
  proof (cases "find_obj obs ns n")
    case None
    then show ?thesis by (simp add: find_fold_drop)
  next
    case (Some ob)
    note o = find_obj_Some [OF Some]
    have "ns = namespace \<Longrightarrow> n \<in> set names \<longleftrightarrow> label_match sel ob \<and> gone ob"
    proof
      assume ns: "ns = namespace" and "n \<in> set names"
      then obtain ob' where ob': "ob' \<in> set obs" "Name ob' = n" "Namespace ob' = namespace" "label_match sel ob'" "gone ob'"
        using assms(1,3) by (auto simp: listed_in_def)
      then have "find_obj obs ns n = Some ob'" using find_unique [OF assms(2) ob'(1)] ns by simp
      with Some ob' show "label_match sel ob \<and> gone ob" by simp
    next
      assume "ns = namespace" and "label_match sel ob \<and> gone ob"
      with o show "n \<in> set names" unfolding assms(3) by (force simp: listed_in_def)
    qed
    with Some show ?thesis by (auto simp: find_fold_drop)
  qed
qed

lemma swept_nothing: "\<forall>ob \<in> set obs. \<not> gone ob \<Longrightarrow> swept ns gone obs obs"
  by (auto simp: swept_def dest: find_obj_Some split: option.split)

lemma clean_cluster_effect:
  assumes a: "api_server k view" and o: "\<not> Clean_DryRun copts" and ns: "Global_Namespace opts \<noteq> []"
    and u: "unique_objs (ClPods (view (World s)))" "unique_objs (ClConfigMaps (view (World s)))"
  shows "\<exists>t. run_state (clean_cluster k opts copts) s = (Value (), t) \<and>
    swept (Global_Namespace opts) (\<lambda>p. label_match kt_label p \<and> stale (time_of k s) (Clean_ThresholdInMinus copts) p
        \<and> DeletionTimestamp p = None) (ClPods (view (World s))) (ClPods (view (World t))) \<and>
    swept (Global_Namespace opts) (\<lambda>cm. label_match kt_label cm \<and> stale (time_of k s) (Clean_ThresholdInMinus copts) cm)
      (ClConfigMaps (view (World s))) (ClConfigMaps (view (World t)))"
proof -
  let ?th = "Clean_ThresholdInMinus copts" and ?ns = "Global_Namespace opts" and ?c = "view (World s)"
  let ?plan = "clean_plan (time_of k s) ?th ?ns ?c"
  note lists = clean_plan_lists [of "time_of k s" ?th ?ns ?c]
  have sw: "swept ?ns (\<lambda>p. label_match kt_label p \<and> stale (time_of k s) ?th p \<and> DeletionTimestamp p = None)
      (ClPods ?c) (fold (drop_obj ?ns) (PodsToDelete ?plan) (ClPods ?c))"
    "swept ?ns (\<lambda>cm. label_match kt_label cm \<and> stale (time_of k s) ?th cm)
      (ClConfigMaps ?c) (fold (drop_obj ?ns) (ConfigMapsToDelete ?plan) (ClConfigMaps ?c))"
    by (rule swept_fold [OF ns u(1) lists(1)], rule swept_fold [OF ns u(2) lists(2)])
  show ?thesis
  proof (cases "isEmpty ?plan")
    case True
    then have "PodsToDelete ?plan = []" "ConfigMapsToDelete ?plan = []" by (simp_all add: isEmpty_def)
    with sw True show ?thesis
      by (simp add: clean_cluster_def run_CheckClusterResources [OF a])
  next
    case False
    obtain t where t: "run_state (TidyClusterResources k opts ?plan) s = (Value (), t)"
      "ClPods (view (World t)) = fold (drop_obj ?ns) (PodsToDelete ?plan) (ClPods ?c)"
      "ClConfigMaps (view (World t)) = fold (drop_obj ?ns) (ConfigMapsToDelete ?plan) (ClConfigMaps ?c)"
      using TidyClusterResources_effect [OF a] by blast
    with sw False o show ?thesis
      by (simp add: clean_cluster_def run_CheckClusterResources [OF a])
  qed
qed

section \<open>The properties\<close>

text \<open>
  C10. The clean command ends without error, and of all pods and config maps it removes exactly those
  that are labelled as the program's own, lie in the namespace of the command, and carry a readable
  heartbeat that is older than the threshold (a pod that is being deleted already is left alone).
\<close>
theorem clean_removes_only_stale:
  assumes "api_server k view" and "machine_ok view mach"
    and "\<not> Clean_DryRun copts" and "\<not> Clean_LocalOnly copts" and "Global_Namespace opts \<noteq> []"
    and "unique_objs (ClPods (view (World s)))" and "unique_objs (ClConfigMaps (view (World s)))"
  shows "\<exists>t. run_state (Clean k opts copts mach) s = (Value (), t) \<and>
    swept (Global_Namespace opts) (\<lambda>p. label_match kt_label p \<and> stale (time_of k s) (Clean_ThresholdInMinus copts) p
        \<and> DeletionTimestamp p = None) (ClPods (view (World s))) (ClPods (view (World t))) \<and>
    swept (Global_Namespace opts) (\<lambda>cm. label_match kt_label cm \<and> stale (time_of k s) (Clean_ThresholdInMinus copts) cm)
      (ClConfigMaps (view (World s))) (ClConfigMaps (view (World t)))"
proof -
  let ?th = "Clean_ThresholdInMinus copts" and ?ns = "Global_Namespace opts" and ?c = "view (World s)"
  obtain u where u: "run_state (clean_cluster k opts copts) s = (Value (), u)"
    "swept ?ns (\<lambda>p. label_match kt_label p \<and> stale (time_of k s) ?th p \<and> DeletionTimestamp p = None)
      (ClPods ?c) (ClPods (view (World u)))"
    "swept ?ns (\<lambda>cm. label_match kt_label cm \<and> stale (time_of k s) ?th cm) (ClConfigMaps ?c) (ClConfigMaps (view (World u)))"
    using clean_cluster_effect [OF assms(1,3,5,6,7)] by blast
  obtain r t where t: "run_state (TidyLocalResources k mach) u = (r, t)" by fastforce
  then have "r = Value ()" "view (World t) = view (World u)"
    using keeps_TidyLocalResources [OF assms(1,2), unfolded keeps_view_def, rule_format, of u] by simp_all
  with u t assms(3,4) show ?thesis by (simp add: Clean_def)
qed

definition idle_machine :: "cluster_objects local_machine" where
  "idle_machine = \<lparr> PidDir = ''/home/dev/.kt/pid'', PidFiles = [''connect-123.pid''], ProcessExists = (\<lambda>p. False),
     DaemonRunning = -1, RunAsAdmin = True, CleanKeys = State_Monad.return (), CleanLogs = State_Monad.return (),
     DropHostsCall = State_Monad.return (), RestoreNameServerCall = State_Monad.return (),
     RestoreRouteCall = State_Monad.return (Value ()) \<rparr>"

lemma idle_machine_ok: "machine_ok view idle_machine"
  by (simp add: machine_ok_def idle_machine_def)

definition mem_clean_options :: "bool \<Rightarrow> clean_options" where
  "mem_clean_options dry = \<lparr> Clean_DryRun = dry, Clean_ThresholdInMinus = 15, Clean_LocalOnly = False \<rparr>"

definition beating_pod :: "string \<Rightarrow> int \<Rightarrow> pod" where
  "beating_pod n t = mem_pod n kt_label (GoMap [(KtLastHeartBeat, GetTimestamp t)])"

lemma beating_pod_stale:
  "0 \<le> t \<Longrightarrow> t < 2 ^ 62 \<Longrightarrow> stale time th (beating_pod n t) \<longleftrightarrow> th * 60 < time - t"
  by (simp add: stale_def lastHeartBeat_def beating_pod_def mem_pod_def mget_def mlookup_def ParseTimestamp_def
      GetTimestamp_def atoi_itoa)

lemma mem_prog_World: "World (mem_prog c) = c"
  by (simp add: mem_prog_def)

lemma clean_removes_only_stale_witness:
  "\<exists>t. run_state (Clean (mem_kube 2000) mem_opts (mem_clean_options False) idle_machine)
      (mem_prog \<lparr> ClPods = [beating_pod ''old'' 1000, beating_pod ''live'' 1900], ClDeployments = [], ClServices = [],
         ClConfigMaps = [] \<rparr>) = (Value (), t) \<and>
    find_obj (ClPods (World t)) ''default'' ''old'' = None \<and>
    find_obj (ClPods (World t)) ''default'' ''live'' = Some (beating_pod ''live'' 1900)"
proof -
  let ?c = "\<lparr> ClPods = [beating_pod ''old'' 1000, beating_pod ''live'' 1900], ClDeployments = [], ClServices = [],
         ClConfigMaps = [] \<rparr> :: cluster_objects"
  have o: "\<not> Clean_DryRun (mem_clean_options False)" "\<not> Clean_LocalOnly (mem_clean_options False)"
    "Global_Namespace mem_opts \<noteq> []"
    by (simp_all add: mem_clean_options_def)
  note w = mem_prog_World
  have u: "unique_objs (ClPods (World (mem_prog ?c)))" "unique_objs (ClConfigMaps (World (mem_prog ?c)))"
    by (simp_all add: w unique_objs_def beating_pod_def mem_pod_def)
  have n: "is_obj ns m (beating_pod x t) \<longleftrightarrow> ns = ''default'' \<and> m = x" "DeletionTimestamp (beating_pod x t) = None"
    "label_match kt_label (beating_pod x t)" for ns m x t
    by (auto simp: is_obj_def beating_pod_def mem_pod_def label_match_def kt_label_def mlookup_def)
  have t: "time_of (mem_kube 2000) (mem_prog ?c) = 2000" "Clean_ThresholdInMinus (mem_clean_options False) = 15"
    by (simp_all add: time_of_def mem_kube_def mem_clean_options_def)
  from clean_removes_only_stale [OF mem_kube_ok [of 2000] idle_machine_ok o u]
  show ?thesis unfolding swept_def t w by (auto simp: n beating_pod_stale)
qed

text \<open>
  A dry run of the clean command reports success and changes nothing at all.
\<close>
theorem clean_dry_run:
  assumes "api_server k view" and "Clean_DryRun copts"
  shows "run_state (Clean k opts copts mach) s = (Value (), s)"
  using assms by (simp add: Clean_def clean_cluster_def run_CheckClusterResources)

lemma clean_dry_run_witness:
  "run_state (Clean (mem_kube 2000) mem_opts (mem_clean_options True) idle_machine)
      (mem_prog \<lparr> ClPods = [beating_pod ''old'' 1000], ClDeployments = [], ClServices = [], ClConfigMaps = [] \<rparr>)
    = (Value (), mem_prog \<lparr> ClPods = [beating_pod ''old'' 1000], ClDeployments = [], ClServices = [], ClConfigMaps = [] \<rparr>)"
  by (rule clean_dry_run [OF mem_kube_ok [of 2000]]) (simp add: mem_clean_options_def)

text \<open>
  C30. The plan: for every kind the objects to delete are the stale ones of the program in the order
  of the listing, a service is unlocked exactly when its lock is older than \<open>LockTimeout\<close>, and the
  computation of the plan changes nothing.
\<close>
theorem clean_plan_exact:
  assumes "api_server k view" and "c = view (World s)" and "th = Clean_ThresholdInMinus copts"
    and "ns = Global_Namespace opts" and "time = time_of k s"
  shows "\<exists>r. run_state (CheckClusterResources k opts copts) s = (Value r, s) \<and>
    PodsToDelete r = map Name (filter (\<lambda>p. stale time th p \<and> DeletionTimestamp p = None) (listed_in ns kt_label (ClPods c))) \<and>
    ConfigMapsToDelete r = map Name (filter (stale time th) (listed_in ns kt_label (ClConfigMaps c))) \<and>
    DeploymentsToDelete r = map Name (filter (stale time th) (listed_in ns kt_label (ClDeployments c))) \<and>
    ServicesToDelete r = map Name (filter (stale time th) (listed_in ns kt_label (ClServices c))) \<and>
    ServicesToUnlock r = map Name (filter (stale_lock_of time) (listed_in ns (GoMap []) (ClServices c)))"
  using assms by (simp add: run_CheckClusterResources clean_plan_lists)

lemma clean_plan_exact_witness:
  "\<exists>r. run_state (CheckClusterResources (mem_kube 2000) mem_opts (mem_clean_options True))
      (mem_prog \<lparr> ClPods = [beating_pod ''old'' 1000, beating_pod ''live'' 1900], ClDeployments = [], ClServices = [],
         ClConfigMaps = [] \<rparr>) = (Value r,
       mem_prog \<lparr> ClPods = [beating_pod ''old'' 1000, beating_pod ''live'' 1900], ClDeployments = [], ClServices = [],
         ClConfigMaps = [] \<rparr>) \<and> PodsToDelete r = [''old'']"
proof -
  let ?c = "\<lparr> ClPods = [beating_pod ''old'' 1000, beating_pod ''live'' 1900], ClDeployments = [], ClServices = [],
         ClConfigMaps = [] \<rparr> :: cluster_objects"
  have e: "?c = World (mem_prog ?c)" "15 = Clean_ThresholdInMinus (mem_clean_options True)"
    "''default'' = Global_Namespace mem_opts" "2000 = time_of (mem_kube 2000) (mem_prog ?c)"
    by (simp_all add: mem_prog_def mem_clean_options_def time_of_def mem_kube_def)
  have n: "listed_in ''default'' kt_label (ClPods ?c) = ClPods ?c"
    by (simp add: listed_in_def beating_pod_def mem_pod_def label_match_def kt_label_def mlookup_def)
  have d: "DeletionTimestamp (beating_pod x t) = None" "Name (beating_pod x t) = x" for x t
    by (simp_all add: beating_pod_def mem_pod_def)
  from clean_plan_exact [OF mem_kube_ok [of 2000] e]
  show ?thesis unfolding n by (auto simp: beating_pod_stale d)
qed

end
