(* ===== verification/RecoverProps.thy ===== *)
theory RecoverProps
  imports Recover CleanProps
begin

text \<open>
  What the recover command achieves: a service that an exchange or a mesh has left redirected gets
  back the selector and the annotations of its owner, and the pod that took its traffic is removed.
\<close>

text \<open>The service as a dead session leaves it: the record is there, and perhaps the lock.\<close>

definition abandoned :: "service \<Rightarrow> service \<Rightarrow> bool" where
  "abandoned orig cur \<longleftrightarrow> same_service orig cur \<and> mwf (Selector orig) \<and>
     mlookup (Annotations cur) KtSelector = Some (json_marshal (Selector orig)) \<and>
     mlookup (Annotations orig) KtSelector = None \<and> mlookup (Annotations orig) KtLock = None \<and>
     (\<forall>j. j \<notin> {KtSelector, KtLock} \<longrightarrow> mlookup (Annotations orig) j = mlookup (Annotations cur) j)"

lemma checkAndMarkUnlock_lookup:
  "checkAndMarkUnlock svc = (svc', b) \<Longrightarrow> mlookup (Annotations svc') = (mlookup (Annotations svc))(KtLock := None) \<and>
    same_service svc svc' \<and> Name svc' = Name svc \<and> Namespace svc' = Namespace svc \<and>
    ResourceVersion svc' = ResourceVersion svc \<and> Selector svc' = Selector svc"
  by (auto simp: checkAndMarkUnlock_def same_service_def fun_eq_iff split: if_splits)

lemma first_pod_role_mem: "first_pod_role pods = Some (p, role) \<Longrightarrow> p \<in> set pods"
  by (induction pods) (auto split: if_splits)

lemma not_own_prefix: "has_prefix n (x @ y) \<Longrightarrow> y \<noteq> [] \<Longrightarrow> n \<noteq> x"
  by (auto simp: has_prefix_iff)

text \<open>The shadows of a mesh are removed without touching a service; their names carry the prefix.\<close>

lemma fold_drop_pod_effect:
  "ClServices (fold (\<lambda>p. drop_pod (Namespace p) (Name p)) ps c) = ClServices c"
  "find_obj (ClPods c) ns n = None \<Longrightarrow>
   find_obj (ClPods (fold (\<lambda>p. drop_pod (Namespace p) (Name p)) ps c)) ns n = None"
  by (induction ps arbitrary: c) (simp_all add: drop_defs find_drop_obj)

lemma fold_drop_deployment_effect:
  "ClServices (fold (\<lambda>d. drop_deployment (Namespace d) (Name d)) ds c) = ClServices c"
  "ClPods (fold (\<lambda>d. drop_deployment (Namespace d) (Name d)) ds c) = ClPods c"
  by (induction ds arbitrary: c) (simp_all add: drop_defs)

lemma fold_drop_service_effect:
  "ClPods (fold (\<lambda>n. drop_service ns n) names c) = ClPods c"
  "ClServices (fold (\<lambda>n. drop_service ns n) names c) = fold (drop_obj ns) names (ClServices c)"
  by (induction names arbitrary: c) (simp_all add: drop_defs)

lemma run_remove_mesh_deployments:
  assumes a: "api_server k view"
  obtains names t where "run_state (remove_mesh_deployments k svc) s = (Value names, t)"
    "ClServices (view (World t)) = ClServices (view (World s))" "ClPods (view (World t)) = ClPods (view (World s))"
    "\<forall>n \<in> set names. has_prefix n (Name svc @ MeshPodInfix)"
proof -
  let ?ds = "mesh_shadows (Name svc) (listed_in (Namespace svc) shadow_mesh_labels (ClDeployments (view (World s))))"
  have l: "run_state (GetDeploymentsByLabel k shadow_mesh_labels (Namespace svc)) s =
      (Value (listed_in (Namespace svc) shadow_mesh_labels (ClDeployments (view (World s)))), s)"
    by (simp add: GetDeploymentsByLabel_def crud_list [OF api_deployments [OF a]] list_spec_def listed_in_def)
  obtain t where t: "run_state (go_each (\<lambda>d. RemoveDeployment k (Name d) (Namespace d)) ?ds) s = (Value (), t)"
    "view (World t) = fold (\<lambda>d. drop_deployment (Namespace d) (Name d)) ?ds (view (World s))"
    using acts_ok_each [OF acts_RemoveDeployment [OF a] refl] by (rule acts_okE)
  show thesis
    by (rule that [of "map Name ?ds" t])
      (use l t in \<open>auto simp: remove_mesh_deployments_def fold_drop_deployment_effect mesh_shadows_def Let_def\<close>)
qed

lemma run_remove_mesh_pods:
  assumes a: "api_server k view"
  obtains names t where "run_state (remove_mesh_pods k svc) s = (Value names, t)"
    "ClServices (view (World t)) = ClServices (view (World s))"
    "\<forall>ns n. find_obj (ClPods (view (World s))) ns n = None \<longrightarrow> find_obj (ClPods (view (World t))) ns n = None"
    "\<forall>n \<in> set names. has_prefix n (Name svc @ MeshPodInfix)"
proof -
  let ?ps = "filter (\<lambda>p. DeletionTimestamp p = None)
     (mesh_shadows (Name svc) (listed_in (Namespace svc) shadow_mesh_labels (ClPods (view (World s)))))"
  have l: "run_state (GetPodsByLabel k shadow_mesh_labels (Namespace svc)) s =
      (Value (listed_in (Namespace svc) shadow_mesh_labels (ClPods (view (World s)))), s)"
    by (simp add: GetPodsByLabel_def crud_list [OF api_pods [OF a]] list_spec_def listed_in_def)
  obtain t where t: "run_state (go_each (\<lambda>p. RemovePod k (Name p) (Namespace p)) ?ps) s = (Value (), t)"
    "view (World t) = fold (\<lambda>p. drop_pod (Namespace p) (Name p)) ?ps (view (World s))"
    using acts_ok_each [OF acts_RemovePod [OF a] refl] by (rule acts_okE)
  show thesis
    by (rule that [of "map Name ?ps" t])
      (use l t in \<open>auto simp: remove_mesh_pods_def fold_drop_pod_effect mesh_shadows_def Let_def\<close>)
qed

lemma run_ignore_RemovePod:
  assumes a: "api_server k view"
  obtains t where "run_state (ignore_error (RemovePod k n ns)) s = (Value (), t)"
    "view (World t) = drop_pod ns n (view (World s))"
  using acts_ok_ignore [OF acts_RemovePod [OF a]] by (rule acts_okE)

text \<open>The service that the handlers write.\<close>

lemma handed_over:
  assumes "abandoned orig cur" and "checkAndMarkUnlock cur = (svc, b)"
  shows "\<exists>sel. json_unmarshal (json_marshal (Selector orig)) = Value sel \<and>
    restored orig (bump (svc\<lparr>Selector := sel, Annotations := mdelete (Annotations svc) KtSelector\<rparr>))"
proof -
  obtain sel where "json_unmarshal (json_marshal (Selector orig)) = Value sel"
    "sel = NilMap \<longleftrightarrow> Selector orig = NilMap" "mlookup sel = mlookup (Selector orig)"
    using json.round_trip [of "Selector orig"] assms(1) by (auto simp: abandoned_def)
  note sel = this
  note l = checkAndMarkUnlock_lookup [OF assms(2)] and ab = assms(1) [unfolded abandoned_def]
  let ?new = "bump (svc\<lparr>Selector := sel, Annotations := mdelete (Annotations svc) KtSelector\<rparr>)"
  have "same_service orig cur" "same_service cur svc" using ab l by blast+
  then have same: "same_service orig ?new" by (simp add: same_service_def bump_def)
  have o: "mlookup (Annotations orig) KtSelector = None" "mlookup (Annotations orig) KtLock = None"
    and e: "\<forall>j. j \<notin> {KtSelector, KtLock} \<longrightarrow> mlookup (Annotations orig) j = mlookup (Annotations cur) j"
    using ab by blast+
  have ann: "mlookup (Annotations ?new) j = mlookup (Annotations orig) j" for j
  proof -
    have "mlookup (Annotations ?new) j = (if j \<in> {KtSelector, KtLock} then None else mlookup (Annotations cur) j)"
      using l by (auto simp: bump_def)
    also have "\<dots> = mlookup (Annotations orig) j"
      using o e [rule_format, of j] by (cases "j \<in> {KtSelector, KtLock}") auto
    finally show ?thesis .
  qed
  have "restored orig ?new"
    unfolding restored_def
  proof (intro conjI)
    show "mlookup (Annotations ?new) = mlookup (Annotations orig)" by (rule ext) (rule ann)
  qed (use same sel(2,3) in \<open>simp_all add: bump_def\<close>)
  with sel(1) show ?thesis by blast
qed

lemma recovered_by_rest:
  assumes a: "api_server k view"
    and f: "find_obj (ClServices (view (World s))) (Global_Namespace opts) name = Some cur"
    and u: "Name svc = name" "Namespace svc = Global_Namespace opts" "ResourceVersion svc = ResourceVersion cur"
  shows "\<exists>t. run_state (HandleServiceSelectorAndRemotePods k svc None (Some p)) s = (Value (), t) \<and>
    find_obj (ClServices (view (World t))) (Global_Namespace opts) name = Some (bump svc) \<and>
    find_obj (ClPods (view (World t))) (Namespace p) (Name p) = None"
proof -
  obtain s1 where s1: "run_state (UpdateService k svc) s = (Value (bump svc), s1)"
    "find_obj (ClServices (view (World s1))) (Global_Namespace opts) name = Some (bump svc)"
    using UpdateService_found [OF a f u] by blast
  obtain t where t: "run_state (ignore_error (RemovePod k (Name p) (Namespace p))) s1 = (Value (), t)"
    "view (World t) = drop_pod (Namespace p) (Name p) (view (World s1))"
    by (rule run_ignore_RemovePod [OF a])
  show ?thesis
    by (intro exI [of _ t]) (use s1 t in \<open>simp add: HandleServiceSelectorAndRemotePods_def drop_defs find_drop_obj\<close>)
qed

lemma recovered_by_router:
  assumes a: "api_server k view"
    and f: "find_obj (ClServices (view (World s))) (Global_Namespace opts) name = Some cur"
    and u: "Name svc = name" "Namespace svc = Global_Namespace opts" "ResourceVersion svc = ResourceVersion cur"
  shows "\<exists>t. run_state (HandleMeshedByAutoService k svc None (Some p)) s = (Value (), t) \<and>
    find_obj (ClServices (view (World t))) (Global_Namespace opts) name = Some (bump svc) \<and>
    find_obj (ClServices (view (World t))) (Global_Namespace opts) (name @ StuntmanServiceSuffix) = None \<and>
    find_obj (ClPods (view (World t))) (Namespace p) (Name p) = None"
proof -
  let ?ns = "Global_Namespace opts"
  obtain s0 where s0: "run_state (ignore_error (RemovePod k (Name p) (Namespace p))) s = (Value (), s0)"
    "view (World s0) = drop_pod (Namespace p) (Name p) (view (World s))"
    by (rule run_ignore_RemovePod [OF a])
  obtain s1 where s1: "run_state (sleep k 1) s0 = ((), s1)" "cluster_runs (view (World s0)) (view (World s1))"
    using api_sleep [OF a, where n = 1 and w = "World s0"] by (cases "run_state (Sleep k 1) (World s0)") (auto simp: sleep_def)
  have "find_obj (ClServices (view (World s1))) ?ns name = Some cur"
    using f s0(2) runs_services [OF s1(2)] by (simp add: drop_defs)
  then obtain s2 where s2: "run_state (UpdateService k svc) s1 = (Value (bump svc), s2)"
    "find_obj (ClServices (view (World s2))) ?ns name = Some (bump svc)" "service_frame view ?ns name s1 s2"
    using UpdateService_found [OF a _ u] by blast
  obtain s3 where s3: "run_state (ignore_error (RemoveService k (name @ StuntmanServiceSuffix) ?ns)) s2 = (Value (), s3)"
    "view (World s3) = drop_service ?ns (name @ StuntmanServiceSuffix) (view (World s2))"
    using acts_ok_ignore [OF acts_RemoveService [OF a]] by (rule acts_okE)
  obtain ns1 s4 where s4: "run_state (remove_mesh_deployments k svc) s3 = (Value ns1, s4)"
    "ClServices (view (World s4)) = ClServices (view (World s3))" "ClPods (view (World s4)) = ClPods (view (World s3))"
    "\<forall>n \<in> set ns1. has_prefix n (Name svc @ MeshPodInfix)"
    by (rule run_remove_mesh_deployments [OF a])
  obtain ns2 s5 where s5: "run_state (remove_mesh_pods k svc) s4 = (Value ns2, s5)"
    "ClServices (view (World s5)) = ClServices (view (World s4))"
    "\<forall>ns n. find_obj (ClPods (view (World s4))) ns n = None \<longrightarrow> find_obj (ClPods (view (World s5))) ns n = None"
    "\<forall>n \<in> set ns2. has_prefix n (Name svc @ MeshPodInfix)"
    by (rule run_remove_mesh_pods [OF a])
  obtain t where t: "run_state (go_each (\<lambda>n. RemoveService k n ?ns) (ns1 @ ns2)) s5 = (Value (), t)"
    "view (World t) = fold (\<lambda>n. drop_service ?ns n) (ns1 @ ns2) (view (World s5))"
    using acts_ok_each [OF acts_RemoveService [OF a] refl] by (rule acts_okE)
  have other: "name \<notin> set (ns1 @ ns2)"
    using s4(4) s5(4) u(1) not_own_prefix [of name name MeshPodInfix] by auto
  have sv: "find_obj (ClServices (view (World t))) ?ns m =
      (if m \<in> set (ns1 @ ns2) \<or> m = name @ StuntmanServiceSuffix then None else find_obj (ClServices (view (World s2))) ?ns m)" for m
    unfolding t(2) fold_drop_service_effect find_fold_drop s5(2) s4(2) s3(2) by (simp add: drop_defs find_drop_obj)
  have "find_obj (ClPods (view (World s4))) (Namespace p) (Name p) = None"
    using s2(3) s4(3) s3(2) runs_no_pod [OF s1(2)] s0(2) by (simp add: drop_defs find_drop_obj service_frame_def)
  then have "find_obj (ClPods (view (World t))) (Namespace p) (Name p) = None"
    using s5(3) t(2) by (simp only: fold_drop_service_effect)
  moreover have "run_state (HandleMeshedByAutoService k svc None (Some p)) s = (Value (), t)"
    using s0(1) s1(1) s2(1) s3(1) s4(1) s5(1) t(1) u by (simp add: HandleMeshedByAutoService_def)
  ultimately show ?thesis using sv [of name] sv [of "name @ StuntmanServiceSuffix"] other s2(2) by auto
qed

lemma run_Recover:
  assumes a: "api_server k view" and ns: "ns = Global_Namespace opts" "ns \<noteq> []"
    and f: "find_obj (ClServices (view (World s))) ns name = Some cur"
    and d: "listed_in ns (Selector cur) (ClDeployments (view (World s))) = []"
    and p: "first_pod_role (listed_in ns (Selector cur) (ClPods (view (World s)))) = Some (p, role)"
    and n: "Annotations cur \<noteq> NilMap"
  shows "run_state (Recover k opts name) s = run_state (recover_service k cur None (Some p) role) s"
proof -
  have c: "Name cur = name" "Namespace cur = ns" using find_obj_Some [OF f] by simp_all
  have "run_state (GetService k name ns) s = (Value cur, s)" by (rule GetService_found [OF a f])
  moreover have "run_state (GetDeploymentsByLabel k (Selector cur) ns) s = (Value [], s)"
    using d by (simp add: GetDeploymentsByLabel_def crud_list [OF api_deployments [OF a]] list_spec_def listed_in_def)
  moreover have "run_state (GetPodsByLabel k (Selector cur) ns) s =
      (Value (listed_in ns (Selector cur) (ClPods (view (World s)))), s)"
    by (simp add: GetPodsByLabel_def crud_list [OF api_pods [OF a]] list_spec_def listed_in_def)
  moreover have "fetchTargetRole [] (listed_in ns (Selector cur) (ClPods (view (World s)))) = (None, Some p, role)"
    using p by (cases "listed_in ns (Selector cur) (ClPods (view (World s)))") (simp_all add: fetchTargetRole_def)
  ultimately show ?thesis using n c ns by (simp add: Recover_def)
qed

section \<open>The property\<close>

text \<open>
  C18. The recover command on a service that a dead session has left redirected, with its record and
  perhaps its lock, and that selects a pod of the program: the command succeeds, the service has the
  selector and the annotations of its owner again, and the pod is removed; when the pod is the
  router of a mesh the stuntman service is removed as well.
\<close>
theorem recover_gives_back:
  assumes "api_server k view" and "ns = Global_Namespace opts" and "ns \<noteq> []"
    and "find_obj (ClServices (view (World s))) ns name = Some cur" and "abandoned orig cur"
    and "listed_in ns (Selector cur) (ClDeployments (view (World s))) = []"
    and "first_pod_role (listed_in ns (Selector cur) (ClPods (view (World s)))) = Some (p, role)"
  shows "\<exists>t cur'. run_state (Recover k opts name) s = (Value (), t) \<and>
    find_obj (ClServices (view (World t))) ns name = Some cur' \<and> restored orig cur' \<and>
    find_obj (ClPods (view (World t))) ns (Name p) = None \<and>
    (role = ''router'' \<longrightarrow> find_obj (ClServices (view (World t))) ns (name @ StuntmanServiceSuffix) = None)"
proof -
  obtain svc b where c: "checkAndMarkUnlock cur = (svc, b)" by fastforce
  note l = checkAndMarkUnlock_lookup [OF c]
  obtain sel where sel: "json_unmarshal (json_marshal (Selector orig)) = Value sel"
    "restored orig (bump (svc\<lparr>Selector := sel, Annotations := mdelete (Annotations svc) KtSelector\<rparr>))"
    using handed_over [OF assms(5) c] by blast
  let ?svc = "svc\<lparr>Selector := sel, Annotations := mdelete (Annotations svc) KtSelector\<rparr>"
  have key: "mlookup (Annotations cur) KtSelector = Some (json_marshal (Selector orig))"
    using assms(5) by (simp add: abandoned_def)
  then have nil: "Annotations cur \<noteq> NilMap" by auto
  have u: "Name ?svc = name" "Namespace ?svc = Global_Namespace opts" "ResourceVersion ?svc = ResourceVersion cur"
    using find_obj_Some [OF assms(4)] l assms(2) by simp_all
  have pns: "Namespace p = ns"
    using first_pod_role_mem [OF assms(7)] assms(3) by (simp add: listed_in_def)
  note f = assms(4) [unfolded assms(2)]
  have run: "run_state (Recover k opts name) s =
      run_state (if role = ''router'' then HandleMeshedByAutoService k ?svc None (Some p)
                 else HandleServiceSelectorAndRemotePods k ?svc None (Some p)) s"
    using run_Recover [OF assms(1,2,3,4,6,7) nil] l key sel(1)
    by (simp add: recover_service_def c HandleExchangedBySelectorService_def Let_def)
  show ?thesis
  proof (cases "role = ''router''")
    case True
    with recovered_by_router [OF assms(1) f u, of p] run sel(2) pns assms(2) show ?thesis by auto
  next
    case False
    with recovered_by_rest [OF assms(1) f u, of p] run sel(2) pns assms(2) show ?thesis by auto
  qed
qed

lemma recover_gives_back_witness:
  "\<exists>t cur'. run_state (Recover (mem_kube 7) mem_opts ''web'') (mem_prog \<lparr>
       ClPods = [mem_pod ''web-kt-router'' (GoMap [(KtRole, ''router'')]) NilMap], ClDeployments = [],
       ClServices = [mem_service ''web'' (GoMap [(KtSelector, json_marshal (GoMap [(''app'', ''web'')])), (KtLock, ''3'')])
         (GoMap [(KtRole, ''router'')]), mem_service (''web'' @ StuntmanServiceSuffix) NilMap (GoMap [(''app'', ''web'')])],
       ClConfigMaps = [] \<rparr>) = (Value (), t) \<and>
    find_obj (ClServices (World t)) ''default'' ''web'' = Some cur' \<and>
    mlookup (Selector cur') ''app'' = Some ''web'' \<and> mlookup (Annotations cur') KtLock = None \<and>
    find_obj (ClPods (World t)) ''default'' ''web-kt-router'' = None"
proof -
  let ?p = "mem_pod ''web-kt-router'' (GoMap [(KtRole, ''router'')]) NilMap"
  let ?cur = "mem_service ''web'' (GoMap [(KtSelector, json_marshal (GoMap [(''app'', ''web'')])), (KtLock, ''3'')])
    (GoMap [(KtRole, ''router'')])"
  let ?orig = "mem_service ''web'' NilMap (GoMap [(''app'', ''web'')])"
  let ?c = "\<lparr> ClPods = [?p], ClDeployments = [], ClServices = [?cur,
     mem_service (''web'' @ StuntmanServiceSuffix) NilMap (GoMap [(''app'', ''web'')])], ClConfigMaps = [] \<rparr> :: cluster_objects"
  have w: "World (mem_prog ?c) = ?c" by (rule mem_prog_World)
  have h: "''default'' = Global_Namespace mem_opts" "''default'' \<noteq> []" by simp_all
  have f: "find_obj (ClServices (World (mem_prog ?c))) ''default'' ''web'' = Some ?cur"
    unfolding w by (simp add: mem_service_def is_obj_def)
  have ab: "abandoned ?orig ?cur"
    by (simp add: abandoned_def same_service_def mem_service_def mwf_def mlookup_def)
  have d: "listed_in ''default'' (Selector ?cur) (ClDeployments (World (mem_prog ?c))) = []"
    unfolding w by (simp add: listed_in_def)
  have r: "first_pod_role (listed_in ''default'' (Selector ?cur) (ClPods (World (mem_prog ?c)))) = Some (?p, ''router'')"
    unfolding w by (simp add: listed_in_def label_match_def mem_pod_def mem_service_def mlookup_def mget_def)
  have o: "mlookup (Selector ?orig) ''app'' = Some ''web''" "mlookup (Annotations ?orig) KtLock = None" "Name ?p = ''web-kt-router''"
    by (simp_all add: mem_service_def mem_pod_def mlookup_def)
  from recover_gives_back [OF mem_kube_ok [of 7] h f ab d r] o show ?thesis
    unfolding restored_def by auto
qed

end
