(* ===== verification/Hosts.thy ===== *)
theory Hosts
  imports KubeApi
begin

text \<open>
  \<open>pkg/kt/service/dns/hosts.go\<close>: the block of host names that the program keeps in the hosts file.
  A file is the list of its lines.  The state is the file, whether it can be read, locked and
  written, and the variable \<open>doNotDump\<close>.  The last part shows that the lines of the user survive
  any sequence of dumps and the final drop.
\<close>

abbreviation (input) "ktHostsEscapeBegin \<equiv> ''# Kt Hosts Begin''"
abbreviation (input) "ktHostsEscapeEnd \<equiv> ''# Kt Hosts End''"

record hosts_state =
  HostLines :: "string list"
  HostsReadable :: bool
  HostsLockFree :: bool
  HostsWritable :: bool
  DoNotDump :: bool

section \<open>The block of the program\<close>

text \<open>
  The match of \<open>.+ [^.]+$\<close>: a blank that is not the first byte, and then at least one byte up to the
  end, none of them a dot.
\<close>

definition short_domain_line :: "string \<Rightarrow> bool" where
  "short_domain_line l \<longleftrightarrow> list_ex (\<lambda>i. 1 \<le> i \<and> l ! i = CHR '' '' \<and> drop (Suc i) l \<noteq> [] \<and>
     CHR ''.'' \<notin> set (drop (Suc i) l)) [0..<length l]"

definition keep_record :: "string \<Rightarrow> string \<Rightarrow> string \<Rightarrow> string \<Rightarrow> bool" where
  "keep_record clusterDomain namespace namespaceToDrop l =
     (if short_domain_line l then namespaceToDrop \<noteq> namespace
      else \<not> has_suffix l (''.'' @ namespaceToDrop) \<and>
           \<not> has_suffix l (''.'' @ namespaceToDrop @ ''.svc.'' @ clusterDomain))"

text \<open>The loop: the index of the line, the last begin and end seen, and the records to keep.\<close>

fun drop_loop :: "(string \<Rightarrow> bool) \<Rightarrow> bool \<Rightarrow> nat \<Rightarrow> string list \<Rightarrow> int \<Rightarrow> int \<Rightarrow> string list \<Rightarrow>
    int \<times> int \<times> string list" where
  "drop_loop keep dropping i [] b e ks = (b, e, ks)"
| "drop_loop keep dropping i (l # ls) b e ks =
     (if l = ktHostsEscapeBegin then drop_loop keep dropping (Suc i) ls (int i) e ks
      else if l = ktHostsEscapeEnd then drop_loop keep dropping (Suc i) ls b (int i) ks
      else if b \<ge> 0 \<and> e < 0 \<and> dropping \<and> keep l then drop_loop keep dropping (Suc i) ls b e (ks @ [l])
      else drop_loop keep dropping (Suc i) ls b e ks)"

definition invalid_hosts :: "int \<Rightarrow> int \<Rightarrow> go_error" where
  "invalid_hosts b e = Errorf (''invalid hosts file: recordBegin='' @ itoa b @ '', recordEnd='' @ itoa e)"

definition dropHosts :: "string \<Rightarrow> string \<Rightarrow> string list \<Rightarrow> string \<Rightarrow> (string list \<times> string list) outcome" where
  "dropHosts clusterDomain namespace rawLines namespaceToDrop =
     (case drop_loop (keep_record clusterDomain namespace namespaceToDrop) (namespaceToDrop \<noteq> []) 0 rawLines (-1) (-1) [] of
        (b, e, ks) \<Rightarrow>
          if e < b then Fail (invalid_hosts b e)
          else if b \<ge> 0 \<and> e > 0 then Value (take (nat b) rawLines @ drop (nat e + 1) rawLines, ks)
          else if b \<ge> 0 \<or> e > 0 then Fail (invalid_hosts b e)
          else Value (rawLines, []))"

definition dumpHosts :: "smap \<Rightarrow> string list \<Rightarrow> string list" where
  "dumpHosts hostsMap linesToKeep =
     ktHostsEscapeBegin # map (\<lambda>(host, ip). ip @ '' '' @ host) (filter (\<lambda>(host, ip). ip \<noteq> []) (entries hostsMap))
     @ linesToKeep @ [ktHostsEscapeEnd]"

definition mergeLines :: "string list \<Rightarrow> string list \<Rightarrow> string list" where
  "mergeLines linesBefore linesAfter =
     (if linesAfter = [] then linesBefore @ [[], []] else linesBefore @ [[]] @ linesAfter @ [[]])"

section \<open>The file\<close>

definition loadHostsFile :: "hosts_state \<Rightarrow> string list outcome" where
  "loadHostsFile s = (if HostsReadable s then Value (HostLines s) else Fail (OtherError ''open hosts file''))"

text \<open>The loop that writes: an empty line after an empty line is left out.\<close>

fun squeeze :: "bool \<Rightarrow> string list \<Rightarrow> string list" where
  "squeeze continualEmptyLine [] = []"
| "squeeze continualEmptyLine (l # ls) =
     (if continualEmptyLine \<and> l = [] then squeeze continualEmptyLine ls else l # squeeze (l = []) ls)"

definition updateHostsFile :: "string list \<Rightarrow> hosts_state \<Rightarrow> unit outcome \<times> hosts_state" where
  "updateHostsFile ls s =
     (if \<not> HostsLockFree s then (Fail (Errorf ''failed to require hosts lock''), s)
      else if \<not> HostsWritable s then (Fail (OtherError ''create hosts file''), s)
      else (Value (), s\<lparr>HostLines := squeeze False ls\<rparr>))"

text \<open>Every error of \<open>DropHosts\<close> is only logged.\<close>

definition DropHosts :: "string \<Rightarrow> string \<Rightarrow> hosts_state \<Rightarrow> hosts_state" where
  "DropHosts clusterDomain namespace s0 =
     (let s = s0\<lparr>DoNotDump := True\<rparr> in
      (case loadHostsFile s of
         Value ls \<Rightarrow>
           (case dropHosts clusterDomain namespace ls [] of
              Value (linesAfterDrop, _) \<Rightarrow>
                if length linesAfterDrop < length ls then snd (updateHostsFile linesAfterDrop s) else s
            | _ \<Rightarrow> s)
       | _ \<Rightarrow> s))"

definition DumpHosts ::
  "string \<Rightarrow> string \<Rightarrow> smap \<Rightarrow> string \<Rightarrow> hosts_state \<Rightarrow> unit outcome \<times> hosts_state" where
  "DumpHosts clusterDomain namespace hostsMap namespaceToDrop s =
     (if DoNotDump s then (Value (), s)
      else (case loadHostsFile s of
              Value ls \<Rightarrow>
                (case dropHosts clusterDomain namespace ls namespaceToDrop of
                   Value (linesBeforeDump, linesToKeep) \<Rightarrow>
                     updateHostsFile (mergeLines linesBeforeDump (dumpHosts hostsMap linesToKeep)) s
                 | Fail e \<Rightarrow> (Fail e, s)
                 | Panic \<Rightarrow> (Panic, s))
            | Fail e \<Rightarrow> (Fail e, s)
            | Panic \<Rightarrow> (Panic, s)))"

section \<open>Files with one block\<close>

definition no_markers :: "string list \<Rightarrow> bool" where
  "no_markers ls \<longleftrightarrow> ktHostsEscapeBegin \<notin> set ls \<and> ktHostsEscapeEnd \<notin> set ls"

text \<open>A block between its two markers.\<close>

definition block :: "string list \<Rightarrow> string list" where
  "block rs = ktHostsEscapeBegin # rs @ [ktHostsEscapeEnd]"

lemma no_markers_append [simp]: "no_markers (a @ b) \<longleftrightarrow> no_markers a \<and> no_markers b"
  by (auto simp: no_markers_def)

lemma no_markers_Cons [simp]:
  "no_markers (l # ls) \<longleftrightarrow> l \<noteq> ktHostsEscapeBegin \<and> l \<noteq> ktHostsEscapeEnd \<and> no_markers ls"
  by (auto simp: no_markers_def)

lemma no_markers_Nil [simp]: "no_markers []"
  by (simp add: no_markers_def)

lemma drop_loop_append:
  "drop_loop keep d i (xs @ ys) b e ks =
    (case drop_loop keep d i xs b e ks of (b', e', ks') \<Rightarrow> drop_loop keep d (i + length xs) ys b' e' ks')"
  by (induction xs arbitrary: i b e ks) (auto split: prod.split)

lemma drop_loop_outside: "no_markers xs \<Longrightarrow> b < 0 \<or> e \<ge> 0 \<Longrightarrow> drop_loop keep d i xs b e ks = (b, e, ks)"
  by (induction xs arbitrary: i) auto

lemma drop_loop_inside:
  "no_markers xs \<Longrightarrow> b \<ge> 0 \<Longrightarrow> e < 0 \<Longrightarrow>
   drop_loop keep d i xs b e ks = (b, e, ks @ (if d then filter keep xs else []))"
  by (induction xs arbitrary: i ks) auto

lemma dropHosts_clean: "no_markers ls \<Longrightarrow> dropHosts cdom ns ls drp = Value (ls, [])"
  by (simp add: dropHosts_def drop_loop_outside)

lemma dropHosts_block:
  assumes "no_markers a" and "no_markers rs" and "no_markers c"
  shows "dropHosts cdom ns (a @ block rs @ c) drp =
    Value (a @ c, if drp \<noteq> [] then filter (keep_record cdom ns drp) rs else [])"
proof -
  have "drop_loop keep d 0 (a @ block rs @ c) (-1) (-1) [] =
      (int (length a), int (length a + 1 + length rs), if d then filter keep rs else [])" for keep d
    using assms by (simp add: block_def drop_loop_append drop_loop_outside drop_loop_inside)
  moreover have "nat (1 + (int (length a) + int (length rs))) = Suc (length a + length rs)" by simp
  ultimately show ?thesis
    by (simp add: dropHosts_def block_def)
qed

section \<open>What the writer keeps\<close>

lemma squeeze_filter: "filter (\<lambda>l. l \<noteq> []) (squeeze b ls) = filter (\<lambda>l. l \<noteq> []) ls"
  by (induction ls arbitrary: b) auto

lemma squeeze_append_nonempty:
  "l \<noteq> [] \<Longrightarrow> squeeze b (xs @ l # ys) = squeeze b xs @ l # squeeze False ys"
  by (induction xs arbitrary: b) auto

lemma squeeze_all_nonempty: "\<forall>l \<in> set xs. l \<noteq> [] \<Longrightarrow> squeeze b xs = xs"
  by (induction xs arbitrary: b) auto

lemma set_squeeze: "set (squeeze b ls) \<subseteq> set ls"
  by (induction ls arbitrary: b) auto

lemma no_markers_squeeze: "no_markers ls \<Longrightarrow> no_markers (squeeze b ls)"
  using set_squeeze [of b ls] by (auto simp: no_markers_def)

lemma squeeze_snoc_idem: "squeeze b (squeeze b (ls @ [[]]) @ [[]]) = squeeze b (ls @ [[]])"
  by (induction ls arbitrary: b) auto

lemma squeeze_idem [simp]: "squeeze b (squeeze b ls) = squeeze b ls"
  by (induction ls arbitrary: b) auto

lemma squeeze_twice: "squeeze b (xs @ [[], []]) = squeeze b (xs @ [[]])"
  by (induction xs arbitrary: b) auto

lemma squeeze_block:
  assumes "\<forall>l \<in> set rs. l \<noteq> []"
  shows "squeeze False (ls @ [[]] @ block rs @ [[]]) = squeeze False (ls @ [[]]) @ block rs @ [[]]"
  using squeeze_append_nonempty [of ktHostsEscapeBegin False "ls @ [[]]" "rs @ [ktHostsEscapeEnd, []]"]
    squeeze_append_nonempty [of ktHostsEscapeEnd False rs "[[]]"] squeeze_all_nonempty [OF assms, of False]
  by (simp add: block_def)

section \<open>Dumping and dropping\<close>

text \<open>The lines of the entries of a map, and maps whose lines are no comments.\<close>

definition host_records :: "smap \<Rightarrow> string list" where
  "host_records m = map (\<lambda>(host, ip). ip @ '' '' @ host) (filter (\<lambda>(host, ip). ip \<noteq> []) (entries m))"

definition plain_hosts :: "smap \<Rightarrow> bool" where
  "plain_hosts m \<longleftrightarrow> (\<forall>(host, ip) \<in> set (entries m). ip \<noteq> [] \<longrightarrow> hd ip \<noteq> CHR ''#'')"

lemma dumpHosts_block: "dumpHosts m ks = block (host_records m @ ks)"
  by (simp add: dumpHosts_def block_def host_records_def)

lemma host_records_plain:
  assumes "plain_hosts m"
  shows "no_markers (host_records m)" and "\<forall>l \<in> set (host_records m). l \<noteq> []"
proof -
  have "l \<noteq> [] \<and> hd l \<noteq> CHR ''#''" if l: "l \<in> set (host_records m)" for l
  proof -
    from l obtain host ip where "(host, ip) \<in> set (entries m)" "ip \<noteq> []" "l = ip @ '' '' @ host"
      by (auto simp: host_records_def)
    with assms show ?thesis by (auto simp: plain_hosts_def)
  qed
  then show "no_markers (host_records m)" "\<forall>l \<in> set (host_records m). l \<noteq> []"
    by (fastforce simp: no_markers_def)+
qed

definition hosts_ready :: "hosts_state \<Rightarrow> bool" where
  "hosts_ready s \<longleftrightarrow> HostsReadable s \<and> HostsLockFree s \<and> HostsWritable s"

text \<open>The file while sessions run: the lines of the user, or these and one block at the end.\<close>

definition hosts_inv :: "string list \<Rightarrow> hosts_state \<Rightarrow> bool" where
  "hosts_inv user s \<longleftrightarrow> no_markers user \<and> hosts_ready s \<and> \<not> DoNotDump s \<and>
     (HostLines s = user \<or>
      (\<exists>rs. no_markers rs \<and> (\<forall>l \<in> set rs. l \<noteq> []) \<and>
         HostLines s = squeeze False (user @ [[]]) @ block rs @ [[]]))"

lemma DumpHosts_inv:
  assumes i: "hosts_inv user s" and m: "plain_hosts m"
  shows "\<exists>rs. DumpHosts cdom ns m drp s = (Value (), s\<lparr>HostLines := squeeze False (user @ [[]]) @ block rs @ [[]]\<rparr>) \<and>
    no_markers rs \<and> (\<forall>l \<in> set rs. l \<noteq> [])"
proof -
  have ready: "HostsReadable s" "HostsLockFree s" "HostsWritable s" "\<not> DoNotDump s" and user: "no_markers user"
    using i by (simp_all add: hosts_inv_def hosts_ready_def)
  note rec = host_records_plain [OF m]
  consider "HostLines s = user"
    | rs where "no_markers rs" "\<forall>l \<in> set rs. l \<noteq> []" "HostLines s = squeeze False (user @ [[]]) @ block rs @ [[]]"
    using i by (auto simp: hosts_inv_def)
  then show ?thesis
  proof cases
    case 1
    then show ?thesis
      using ready user rec squeeze_block [OF rec(2), of user]
      by (intro exI [of _ "host_records m"]) (simp add: DumpHosts_def loadHostsFile_def dropHosts_clean updateHostsFile_def mergeLines_def
          dumpHosts_block block_def)
  next
    case 2
    let ?ks = "if drp \<noteq> [] then filter (keep_record cdom ns drp) rs else []"
    have u: "no_markers (squeeze False (user @ [[]]))" using user by (intro no_markers_squeeze) simp
    have d: "dropHosts cdom ns (HostLines s) drp = Value (squeeze False (user @ [[]]) @ [[]], ?ks)"
      unfolding 2(3) by (rule dropHosts_block [OF u 2(1)]) simp
    have n: "\<forall>l \<in> set (host_records m @ ?ks). l \<noteq> []" and k: "no_markers (host_records m @ ?ks)"
      using rec 2 by (auto simp: no_markers_def)
    have "squeeze False ((squeeze False (user @ [[]]) @ [[]]) @ [[]] @ block (host_records m @ ?ks) @ [[]])
        = squeeze False (user @ [[]]) @ block (host_records m @ ?ks) @ [[]]"
      unfolding squeeze_block [OF n] using squeeze_snoc_idem [of False user] squeeze_twice [of False "squeeze False (user @ [[]])"]
      by simp
    then have "DumpHosts cdom ns m drp s =
        (Value (), s\<lparr>HostLines := squeeze False (user @ [[]]) @ block (host_records m @ ?ks) @ [[]]\<rparr>)"
      using ready d by (simp add: DumpHosts_def loadHostsFile_def updateHostsFile_def mergeLines_def dumpHosts_block block_def)
    with n k show ?thesis by blast
  qed
qed

text \<open>Dropping the block: the lines of the user are left, and no dump happens any more.\<close>

definition hosts_given_back :: "string list \<Rightarrow> hosts_state \<Rightarrow> bool" where
  "hosts_given_back user s \<longleftrightarrow> HostLines s \<in> {user, squeeze False (user @ [[]])} \<and> DoNotDump s"

lemma DropHosts_block:
  assumes "no_markers user" and "no_markers rs" and "hosts_ready s" and "HostLines s = squeeze False (user @ [[]]) @ block rs @ [[]]"
  shows "HostLines (DropHosts cdom ns s) = squeeze False (user @ [[]])"
proof -
  have u: "no_markers (squeeze False (user @ [[]]))" using assms(1) by (intro no_markers_squeeze) simp
  have "dropHosts cdom ns (squeeze False (user @ [[]]) @ block rs @ [[]]) [] = Value (squeeze False (user @ [[]]) @ [[]], [])"
    using dropHosts_block [OF u assms(2), of "[[]]" cdom ns "[]"] by simp
  with assms(3,4) squeeze_snoc_idem [of False user] show ?thesis
    by (simp add: DropHosts_def loadHostsFile_def hosts_ready_def updateHostsFile_def block_def)
qed

lemma DropHosts_clean: "no_markers (HostLines s) \<Longrightarrow> HostLines (DropHosts cdom ns s) = HostLines s"
  by (simp add: DropHosts_def loadHostsFile_def dropHosts_clean Let_def)

lemma DropHosts_given_back:
  assumes "hosts_inv user s"
  shows "hosts_given_back user (DropHosts cdom ns s)"
proof -
  have "DoNotDump (DropHosts cdom ns s)"
    by (simp add: DropHosts_def updateHostsFile_def Let_def split: outcome.split)
  with assms show ?thesis
    using DropHosts_block [of user _ s cdom ns] DropHosts_clean [of s cdom ns]
    by (auto simp: hosts_given_back_def hosts_inv_def)
qed

lemma DumpHosts_given_back: "hosts_given_back user s \<Longrightarrow> DumpHosts cdom ns m drp s = (Value (), s)"
  by (simp add: DumpHosts_def hosts_given_back_def)

text \<open>A sequence of dumps, each with its map and the namespace to drop.\<close>

fun dump_all :: "string \<Rightarrow> string \<Rightarrow> (smap \<times> string) list \<Rightarrow> hosts_state \<Rightarrow> hosts_state" where
  "dump_all cdom ns [] s = s"
| "dump_all cdom ns ((m, drp) # ds) s = dump_all cdom ns ds (snd (DumpHosts cdom ns m drp s))"

lemma dump_all_inv:
  "hosts_inv user s \<Longrightarrow> \<forall>(m, drp) \<in> set ds. plain_hosts m \<Longrightarrow> ds \<noteq> [] \<Longrightarrow>
   \<exists>rs. dump_all cdom ns ds s = s\<lparr>HostLines := squeeze False (user @ [[]]) @ block rs @ [[]]\<rparr> \<and>
     no_markers rs \<and> (\<forall>l \<in> set rs. l \<noteq> [])"
proof (induction ds arbitrary: s)
  case (Cons d ds)
  obtain m drp where d: "d = (m, drp)" by fastforce
  obtain rs where rs: "DumpHosts cdom ns m drp s = (Value (), s\<lparr>HostLines := squeeze False (user @ [[]]) @ block rs @ [[]]\<rparr>)"
    "no_markers rs" "\<forall>l \<in> set rs. l \<noteq> []"
    using DumpHosts_inv [OF Cons.prems(1), where m = m and cdom = cdom and ns = ns and drp = drp] Cons.prems(2) d by auto
  let ?s = "s\<lparr>HostLines := squeeze False (user @ [[]]) @ block rs @ [[]]\<rparr>"
  have inv: "hosts_inv user ?s"
    using Cons.prems(1) rs(2,3) by (auto simp: hosts_inv_def hosts_ready_def)
  show ?case
  proof (cases "ds = []")
    case True
    with rs d show ?thesis by auto
  next
    case False
    with Cons.IH [OF inv] Cons.prems(2) rs(1) d show ?thesis by simp
  qed
qed simp

section \<open>The properties\<close>

text \<open>
  Whatever sequence of dumps the sessions of the program make, dropping at the end gives the user's hosts
  file back: the same lines in the same order, where only empty lines that follow an empty line are
  left out and one empty line may have been added at the end.  Without a dump the file is not touched.
\<close>
theorem hosts_restored:
  assumes "no_markers user" and "HostLines s = user" and "hosts_ready s" and "\<not> DoNotDump s"
    and "\<forall>(m, drp) \<in> set dumps. plain_hosts m"
  shows "HostLines (DropHosts cdom ns (dump_all cdom ns dumps s)) =
    (if dumps = [] then user else squeeze False (user @ [[]]))"
proof (cases "dumps = []")
  case True
  with assms DropHosts_clean [of s cdom ns] show ?thesis by simp
next
  case False
  have "hosts_inv user s" using assms by (simp add: hosts_inv_def)
  then obtain rs where rs: "dump_all cdom ns dumps s = s\<lparr>HostLines := squeeze False (user @ [[]]) @ block rs @ [[]]\<rparr>"
    "no_markers rs" using dump_all_inv assms(5) False by blast
  then have "HostLines (DropHosts cdom ns (dump_all cdom ns dumps s)) = squeeze False (user @ [[]])"
    using assms(3) by (intro DropHosts_block [OF assms(1) rs(2)]) (simp_all add: hosts_ready_def)
  with False show ?thesis by simp
qed

lemma hosts_restored_witness:
  "HostLines (DropHosts ''cluster.local'' ''default''
     (dump_all ''cluster.local'' ''default'' [(GoMap [(''web'', ''10.1.0.1'')], []), (GoMap [(''db'', ''10.1.0.2'')], ''default'')]
       \<lparr> HostLines = [''127.0.0.1 localhost''], HostsReadable = True, HostsLockFree = True, HostsWritable = True,
         DoNotDump = False \<rparr>)) = [''127.0.0.1 localhost'', []]"
proof -
  have h: "no_markers [''127.0.0.1 localhost'']" by (simp add: no_markers_def)
  have d: "\<forall>(m, drp) \<in> set [(GoMap [(''web'', ''10.1.0.1'')], []), (GoMap [(''db'', ''10.1.0.2'')], ''default'')]. plain_hosts m"
    by (simp add: plain_hosts_def)
  show ?thesis
    by (subst hosts_restored [OF h _ _ _ d]) (simp_all add: hosts_ready_def)
qed

text \<open>
  A dump into a file that holds a block already replaces the block by the records of the map,
  followed by the old records of other namespaces (all old ones go when no namespace is named); the
  lines outside of the block stay.
\<close>
theorem hosts_dump_replaces:
  assumes "HostLines s = before @ block old @ after" and "hosts_ready s" and "\<not> DoNotDump s"
    and "no_markers before" and "no_markers old" and "no_markers after" and "\<forall>l \<in> set old. l \<noteq> []"
    and "plain_hosts m"
  shows "DumpHosts cdom ns m drp s = (Value (), s\<lparr>HostLines := squeeze False (before @ after @ [[]]) @
    block (host_records m @ filter (\<lambda>l. drp \<noteq> [] \<and> keep_record cdom ns drp l) old) @ [[]]\<rparr>)"
proof -
  let ?ks = "if drp \<noteq> [] then filter (keep_record cdom ns drp) old else []"
  have ks: "?ks = filter (\<lambda>l. drp \<noteq> [] \<and> keep_record cdom ns drp l) old" by simp
  have d: "dropHosts cdom ns (HostLines s) drp = Value (before @ after, ?ks)"
    unfolding assms(1) by (rule dropHosts_block [OF assms(4,5,6)])
  have "\<forall>l \<in> set (host_records m @ ?ks). l \<noteq> []"
    using host_records_plain(2) [OF assms(8)] assms(7) by auto
  note squeeze_block [OF this, of "before @ after"]
  with d assms(2,3) show ?thesis
    unfolding ks [symmetric]
    by (simp add: DumpHosts_def loadHostsFile_def hosts_ready_def updateHostsFile_def mergeLines_def dumpHosts_block block_def)
qed

lemma hosts_dump_replaces_witness:
  "DumpHosts ''cluster.local'' ''default'' (GoMap [(''web.dev'', ''10.1.0.9'')]) ''dev''
     \<lparr> HostLines = [''127.0.0.1 localhost''] @ block [''10.1.0.1 web.dev'', ''10.1.0.2 db.qa''] @ [[]],
       HostsReadable = True, HostsLockFree = True, HostsWritable = True, DoNotDump = False \<rparr>
   = (Value (), \<lparr> HostLines = [''127.0.0.1 localhost'', []] @ block [''10.1.0.9 web.dev'', ''10.1.0.2 db.qa''] @ [[]],
       HostsReadable = True, HostsLockFree = True, HostsWritable = True, DoNotDump = False \<rparr>)"
proof -
  have k: "\<not> keep_record ''cluster.local'' ''default'' ''dev'' ''10.1.0.1 web.dev''"
    "keep_record ''cluster.local'' ''default'' ''dev'' ''10.1.0.2 db.qa''"
    by (simp_all add: keep_record_def short_domain_line_def has_suffix_def upt_rec)
  show ?thesis
    by (subst hosts_dump_replaces [where before = "[''127.0.0.1 localhost'']" and old = "[''10.1.0.1 web.dev'', ''10.1.0.2 db.qa'']"
          and after = "[[]]"])
      (simp_all add: k hosts_ready_def plain_hosts_def host_records_def no_markers_def)
qed

end
