(* ===== verification/DnsCache.thy ===== *)
theory DnsCache
  imports ClusterObjects
begin

text \<open>
  \<open>pkg/common/dns_util.go\<close> and \<open>dns_error.go\<close>: the cache of both DNS servers and the lookup of one
  name.  The messages of the library miekg/dns are records with the fields the program uses, and its
  exchange with a server is a parameter.  \<open>dns_cache\<close> is the contract of the cache that the servers
  rely on.  A slice of answers is an option: None is the nil slice, which is told from the empty one.
\<close>

record rr =
  RrName :: string
  Rrtype :: int
  RrTtl :: int
  RrData :: string

record dns_msg =
  Rcode :: int
  Answer :: "rr list option"

record ns_entry =
  NsAnswer :: "rr list option"
  NsTimestamp :: int

datatype dns_error = DomainNotExistError string int | ResponseCode int | ExchangeError string

definition IsDomainNotExist :: "dns_error \<Rightarrow> bool" where
  "IsDomainNotExist err = (case err of DomainNotExistError _ _ \<Rightarrow> True | _ \<Rightarrow> False)"

text \<open>The state of a server: its cache and the network, with the clock and the exchange of messages.\<close>

record 'w dns_state =
  NsCache :: "ns_entry gomap"
  Net :: 'w

record 'w dns_net =
  Clock :: "'w \<Rightarrow> int"
  Exchange :: "string \<Rightarrow> string \<Rightarrow> string \<Rightarrow> int \<Rightarrow> 'w \<Rightarrow> (string + dns_msg) \<times> 'w"

section \<open>The cache\<close>

definition getCacheKey :: "string \<Rightarrow> int \<Rightarrow> string" where
  "getCacheKey name qtype = name @ '':'' @ itoa qtype"

definition notExpired :: "int \<Rightarrow> int \<Rightarrow> int \<Rightarrow> bool" where
  "notExpired time timestamp ttl \<longleftrightarrow> time < timestamp + ttl"

definition ReadCache :: "ns_entry gomap \<Rightarrow> int \<Rightarrow> string \<Rightarrow> int \<Rightarrow> int \<Rightarrow> rr list option" where
  "ReadCache nsCache time name qtype ttl =
     (case mlookup nsCache (getCacheKey name qtype) of
        Some entry \<Rightarrow> if notExpired time (NsTimestamp entry) ttl then NsAnswer entry else None
      | None \<Rightarrow> None)"

definition WriteCache ::
  "ns_entry gomap \<Rightarrow> string \<Rightarrow> int \<Rightarrow> rr list option \<Rightarrow> int \<Rightarrow> ns_entry gomap" where
  "WriteCache nsCache name qtype answer timestamp =
     mput nsCache (getCacheKey name qtype) \<lparr> NsAnswer = answer, NsTimestamp = timestamp \<rparr>"

section \<open>A lookup\<close>

text \<open>The response codes 0 and 3 are NOERROR and NXDOMAIN.\<close>

definition NsLookup ::
  "'w dns_net \<Rightarrow> string \<Rightarrow> int \<Rightarrow> string \<Rightarrow> string \<Rightarrow> 'w \<Rightarrow> (dns_error + dns_msg) \<times> 'w" where
  "NsLookup net name qtype proto dnsServerAddr w =
     (case Exchange net proto dnsServerAddr name qtype w of
        (Inl e, w') \<Rightarrow> (Inl (ExchangeError e), w')
      | (Inr res, w') \<Rightarrow>
          (if Rcode res = 3 then Inl (DomainNotExistError name qtype)
           else if Rcode res \<noteq> 0 then Inl (ResponseCode (Rcode res))
           else Inr res, w'))"

section \<open>The contract of the cache\<close>

locale dns_cache =
  fixes read :: "'c \<Rightarrow> int \<Rightarrow> string \<Rightarrow> int \<Rightarrow> int \<Rightarrow> rr list option"
    and put :: "'c \<Rightarrow> string \<Rightarrow> int \<Rightarrow> rr list option \<Rightarrow> int \<Rightarrow> 'c"
  assumes fresh: "time < t + ttl \<Longrightarrow> read (put c n q (Some rs) t) time n q ttl = Some rs"
    and expired: "t + ttl \<le> time \<Longrightarrow> read (put c n q a t) time n q ttl = None"
    and other: "(m, p) \<noteq> (n, q) \<Longrightarrow> read (put c n q a t) time m p ttl = read c time m p ttl"
begin

lemma overwritten: "time < t + ttl \<Longrightarrow> read (put (put c n q a u) n q (Some rs) t) time n q ttl = Some rs"
  by (rule fresh)

lemma read_put:
  "read (put c n q (Some rs) t) time m p ttl =
    (if (m, p) = (n, q) then (if time < t + ttl then Some rs else None) else read c time m p ttl)"
  using fresh expired other by (cases "(m, p) = (n, q)"; cases "time < t + ttl") auto

end

text \<open>Two questions share a key only when they are the same: a number has no colon.\<close>

lemma colon_not_in_itoa: "CHR '':'' \<notin> set (itoa n)"
proof -
  have "CHR '':'' \<notin> set (nat_str m)" for m using is_digit_nat_str colon_not_digit by blast
  then show ?thesis by (simp add: itoa_def)
qed

lemma itoa_inject: "itoa a = itoa b \<Longrightarrow> a = b"
proof -
  have n: "CHR ''-'' # nat_str x \<noteq> nat_str y" for x y
    using is_digit_nat_str [of "CHR ''-''" y] is_digit_not_sign by (metis list.set_intros(1))
  assume "itoa a = itoa b"
  then show ?thesis using n n [symmetric] by (auto simp: itoa_def split: if_splits)
qed

lemma getCacheKey_inject: "getCacheKey m p = getCacheKey n q \<longleftrightarrow> m = n \<and> p = q"
proof
  assume k: "getCacheKey m p = getCacheKey n q"
  have s: "split_once CHR '':'' (rev (getCacheKey x y)) = (rev (itoa y), Some (rev x))" for x y
  proof -
    have "rev (getCacheKey x y) = rev (itoa y) @ CHR '':'' # rev x" by (simp add: getCacheKey_def)
    then show ?thesis using colon_not_in_itoa [of y] by simp
  qed
  from arg_cong [OF k, of "\<lambda>t. split_once CHR '':'' (rev t)"] show "m = n \<and> p = q"
    unfolding s by (auto dest: itoa_inject)
qed simp

interpretation ns: dns_cache ReadCache WriteCache
  by unfold_locales
     (auto simp: ReadCache_def WriteCache_def notExpired_def getCacheKey_inject split: option.split)

end
