(* ===== verification/LocalDns.thy ===== *)
theory LocalDns
  imports DnsCache
begin

text \<open>
  The DNS server on the user's machine: \<open>pkg/kt/service/dns/dnsserver.go\<close>, and what \<open>dns_unix.go\<close>
  reads from resolv.conf.  A query is answered from the cache, from the ingress domains, or by the
  first server of the configured order that knows the name.
\<close>

record dns_options =
  Opt_IngressIp :: string
  Opt_DnsCacheTtl :: int

record dns_server =
  DnsAddresses :: "string list"
  ExtraDomains :: smap

section \<open>Ingress domains\<close>

text \<open>An ingress is the list of the hosts of its rules; None is an error of the list call.\<close>

definition ingress_hosts :: "string list list \<Rightarrow> string list" where
  "ingress_hosts ingresses = filter (\<lambda>h. h \<noteq> []) (concat ingresses)"

definition getIngressDomains :: "dns_options \<Rightarrow> string list list option \<Rightarrow> smap" where
  "getIngressDomains opts ingresses =
     (if Opt_IngressIp opts = [] \<or> \<not> IsValidIp (Opt_IngressIp opts) then GoMap []
      else (case ingresses of
              None \<Rightarrow> GoMap []
            | Some is \<Rightarrow> foldl (\<lambda>m h. mput m h (Opt_IngressIp opts)) (GoMap []) (ingress_hosts is)))"

section \<open>The order of the servers\<close>

text \<open>The pattern \<open>^([cdptu]{3}:)?upstream(:[0-9]+)?$\<close>, on the parts between the colons.\<close>

definition is_proto_part :: "string \<Rightarrow> bool" where
  "is_proto_part p \<longleftrightarrow> length p = 3 \<and> set p \<subseteq> set ''cdptu''"

definition is_number_part :: "string \<Rightarrow> bool" where
  "is_number_part p \<longleftrightarrow> p \<noteq> [] \<and> list_all is_digit p"

definition is_upstream :: "string \<Rightarrow> bool" where
  "is_upstream dnsAddr =
     (case split_on CHR '':'' dnsAddr of
        [a] \<Rightarrow> a = ''upstream''
      | [a, b] \<Rightarrow> a = ''upstream'' \<and> is_number_part b \<or> is_proto_part a \<and> b = ''upstream''
      | [a, b, c] \<Rightarrow> is_proto_part a \<and> b = ''upstream'' \<and> is_number_part c
      | _ \<Rightarrow> False)"

abbreviation (input) "StandardDnsPort \<equiv> 53"

definition upstream_address :: "string \<Rightarrow> string \<Rightarrow> string list" where
  "upstream_address upstreamDns dnsAddr =
     (let parts = split_on CHR '':'' dnsAddr
      in if upstreamDns = [] then []
         else if count_char dnsAddr CHR '':'' = 0 then [''udp:'' @ upstreamDns @ '':'' @ itoa StandardDnsPort]
         else if count_char dnsAddr CHR '':'' = 1 then
           (case atoi (parts ! 1) of
              Some _ \<Rightarrow> [''udp:'' @ upstreamDns @ '':'' @ parts ! 1]
            | None \<Rightarrow> [parts ! 0 @ '':'' @ upstreamDns @ '':'' @ itoa StandardDnsPort])
         else if count_char dnsAddr CHR '':'' = 2 then [parts ! 0 @ '':'' @ upstreamDns @ '':'' @ parts ! 2]
         else [])"

definition custom_address :: "string \<Rightarrow> string list" where
  "custom_address dnsAddr =
     (if count_char dnsAddr CHR '':'' = 0 then [''udp:'' @ dnsAddr @ '':'' @ itoa StandardDnsPort]
      else if count_char dnsAddr CHR '':'' = 1 then
        (case atoi (split_on CHR '':'' dnsAddr ! 1) of
           Some _ \<Rightarrow> [''udp:'' @ dnsAddr]
         | None \<Rightarrow> [dnsAddr @ '':'' @ itoa StandardDnsPort])
      else if count_char dnsAddr CHR '':'' = 2 then [dnsAddr]
      else [])"

definition getDnsAddresses :: "string list \<Rightarrow> string \<Rightarrow> int \<Rightarrow> string list" where
  "getDnsAddresses dnsOrder upstreamDns clusterDnsPort =
     concat (map (\<lambda>dnsAddr.
       if dnsAddr = ''cluster'' then [''tcp:127.0.0.1:'' @ itoa clusterDnsPort]
       else if is_upstream dnsAddr then upstream_address upstreamDns dnsAddr
       else custom_address dnsAddr) dnsOrder)"

section \<open>Matching a domain\<close>

text \<open>
  The pattern of \<open>wildcardMatch\<close> for host names: every star stands for any bytes of a line, every
  other byte for itself.  (Host names have no other byte with a meaning in regular expressions but
  the dot, which the code escapes.)
\<close>

fun glob :: "string \<Rightarrow> string \<Rightarrow> bool" where
  "glob [] s \<longleftrightarrow> s = []"
| "glob (p # ps) [] \<longleftrightarrow> p = CHR ''*'' \<and> glob ps []"
| "glob (p # ps) (c # cs) \<longleftrightarrow>
     (if p = CHR ''*'' then glob ps (c # cs) \<or> (c \<noteq> CHR 0x0A \<and> glob (p # ps) cs) else c = p \<and> glob ps cs)"

definition wildcardMatch :: "string \<Rightarrow> string \<Rightarrow> bool" where
  "wildcardMatch pattenDomain targetDomain =
     (let p = (if has_suffix pattenDomain ''.'' then pattenDomain else pattenDomain @ ''.'')
      in if contains_char p CHR ''*'' then glob p targetDomain else p = targetDomain)"

definition toARecord :: "string \<Rightarrow> string \<Rightarrow> rr" where
  "toARecord name ip = \<lparr> RrName = name, Rrtype = 1, RrTtl = 5, RrData = ip \<rparr>"

section \<open>A query\<close>

text \<open>\<open>strings.SplitN(dnsAddr, ":", 3)\<close>: protocol, address, and port; None where the code would panic.\<close>

definition dns_parts :: "string \<Rightarrow> (string \<times> string \<times> string) option" where
  "dns_parts dnsAddr =
     (case split_once CHR '':'' dnsAddr of
        (protocol, Some rest) \<Rightarrow>
          (case split_once CHR '':'' rest of (ip, Some port) \<Rightarrow> Some (protocol, ip, port) | _ \<Rightarrow> None)
      | _ \<Rightarrow> None)"

fun ask_servers ::
  "'w dns_net \<Rightarrow> int \<Rightarrow> string \<Rightarrow> int \<Rightarrow> string list \<Rightarrow> 'w dns_state \<Rightarrow> rr list outcome \<times> 'w dns_state" where
  "ask_servers net ttl name qtype [] s =
     (Value [], s\<lparr>NsCache := WriteCache (NsCache s) name qtype (Some []) (Clock net (Net s) - go_div ttl 2)\<rparr>)"
| "ask_servers net ttl name qtype (dnsAddr # addrs) s =
     (case dns_parts dnsAddr of
        None \<Rightarrow> (Panic, s)
      | Some (protocol, ip, port) \<Rightarrow>
          (case atoi port of
             None \<Rightarrow> ask_servers net ttl name qtype addrs s
           | Some n \<Rightarrow>
               if ip = [] \<or> protocol \<noteq> ''tcp'' \<and> protocol \<noteq> ''udp'' then ask_servers net ttl name qtype addrs s
               else (case NsLookup net name qtype protocol (ip @ '':'' @ itoa n) (Net s) of
                       (Inl _, w) \<Rightarrow> ask_servers net ttl name qtype addrs (s\<lparr>Net := w\<rparr>)
                     | (Inr res, w) \<Rightarrow>
                         (case Answer res of
                            Some (a # as) \<Rightarrow> (Value (a # as),
                              s\<lparr>NsCache := WriteCache (NsCache s) name qtype (Some (a # as)) (Clock net w), Net := w\<rparr>)
                          | _ \<Rightarrow> ask_servers net ttl name qtype addrs (s\<lparr>Net := w\<rparr>)))))"

text \<open>The questions of the request are given; the code takes the first.\<close>

definition query ::
  "'w dns_net \<Rightarrow> dns_options \<Rightarrow> dns_server \<Rightarrow> (string \<times> int) list \<Rightarrow> 'w dns_state \<Rightarrow> rr list outcome \<times> 'w dns_state" where
  "query net opts server req s =
     (case req of
        [] \<Rightarrow> (Panic, s)
      | (name, qtype) # _ \<Rightarrow>
          (case ReadCache (NsCache s) (Clock net (Net s)) name qtype (Opt_DnsCacheTtl opts) of
             Some answer \<Rightarrow> (Value answer, s)
           | None \<Rightarrow>
               (case find (\<lambda>(host, ip). wildcardMatch host name) (entries (ExtraDomains server)) of
                  Some (host, ip) \<Rightarrow> (Value [toARecord name ip], s)
                | None \<Rightarrow> ask_servers net (Opt_DnsCacheTtl opts) name qtype (DnsAddresses server) s)))"

text \<open>The server that \<open>SetupLocalDns\<close> starts.\<close>

definition local_server ::
  "dns_options \<Rightarrow> string list \<Rightarrow> string \<Rightarrow> int \<Rightarrow> string list list option \<Rightarrow> dns_server" where
  "local_server opts dnsOrder nameServer remoteDnsPort ingresses =
     \<lparr> DnsAddresses = getDnsAddresses dnsOrder nameServer remoteDnsPort,
       ExtraDomains = getIngressDomains opts ingresses \<rparr>"

section \<open>Reading resolv.conf\<close>

text \<open>The match of the address pattern at the head of a string: \<open>n\<close> numbers separated by dots.\<close>

fun starts_ip :: "nat \<Rightarrow> string \<Rightarrow> bool" where
  "starts_ip 0 s \<longleftrightarrow> True"
| "starts_ip (Suc n) s \<longleftrightarrow> takeWhile is_digit s \<noteq> [] \<and>
     (n = 0 \<or> (case dropWhile is_digit s of [] \<Rightarrow> False | c # cs \<Rightarrow> c = CHR ''.'' \<and> starts_ip n cs))"

definition is_blank :: "char \<Rightarrow> bool" where
  "is_blank c \<longleftrightarrow> c = CHR '' '' \<or> c = CHR 0x09"

definition nameserver_line :: "string \<Rightarrow> bool" where
  "nameserver_line l \<longleftrightarrow> has_prefix l ''nameserver'' \<and>
     (let rest = drop 10 l in takeWhile is_blank rest \<noteq> [] \<and> starts_ip 4 (dropWhile is_blank rest))"

text \<open>None is a file that cannot be opened.\<close>

definition fetchNameServerInConf :: "string list option \<Rightarrow> string" where
  "fetchNameServerInConf conf =
     (case conf of
        None \<Rightarrow> []
      | Some ls \<Rightarrow> (case find nameserver_line ls of
           Some l \<Rightarrow> trim_space (trim_prefix l ''nameserver'') | None \<Rightarrow> []))"

definition GetNameServer :: "bool \<Rightarrow> string list option \<Rightarrow> string list option \<Rightarrow> string" where
  "GetNameServer isLinux resolvConf resolvedConf =
     (let ns = fetchNameServerInConf resolvConf
      in if isLinux \<and> ns = ''127.0.0.53'' then fetchNameServerInConf resolvedConf else ns)"

definition local_domains_of :: "string \<Rightarrow> string list" where
  "local_domains_of l =
     (if has_prefix l ''domain'' then [trim_space (trim_prefix l ''domain'')]
      else if has_prefix l ''search'' then filter (\<lambda>s. s \<noteq> []) (split_on CHR '' '' (trim_prefix l ''search''))
      else [])"

definition GetLocalDomains :: "string list option \<Rightarrow> string" where
  "GetLocalDomains conf = (case conf of
     None \<Rightarrow> [] | Some ls \<Rightarrow> join_with '','' (concat (map local_domains_of ls)))"

section \<open>No address makes the server panic\<close>

lemma split_once_Some: "split_once c s = (a, Some r) \<Longrightarrow> s = a @ c # r \<and> c \<notin> set a"
  by (induction s arbitrary: a) (auto split: if_splits prod.splits)

lemma split_once_None: "split_once c s = (a, None) \<Longrightarrow> c \<notin> set s"
  by (induction s arbitrary: a) (auto split: if_splits prod.splits)

lemma count_char_simps [simp]:
  "count_char [] c = 0" "count_char (x # s) c = (if x = c then Suc (count_char s c) else count_char s c)"
  "count_char (s @ t) c = count_char s c + count_char t c"
  by (simp_all add: count_char_def)

lemma count_char_zero: "c \<notin> set s \<Longrightarrow> count_char s c = 0"
  by (auto simp: count_char_def filter_empty_conv)

lemma dns_parts_exists:
  assumes "2 \<le> count_char dnsAddr CHR '':''"
  shows "dns_parts dnsAddr \<noteq> None"
proof (cases "split_once CHR '':'' dnsAddr")
  case (Pair a r)
  show ?thesis
  proof (cases r)
    case None
    with Pair split_once_None assms show ?thesis by (metis count_char_zero not_numeral_le_zero)
  next
    case (Some rest)
    with Pair split_once_Some [of "CHR '':''" dnsAddr a rest] assms have "1 \<le> count_char rest CHR '':''"
      by (auto simp: count_char_zero)
    then have "snd (split_once CHR '':'' rest) \<noteq> None"
      by (metis count_char_zero not_one_le_zero prod.collapse split_once_None)
    with Pair Some show ?thesis by (auto simp: dns_parts_def split: prod.splits option.splits)
  qed
qed

lemma getDnsAddresses_colons:
  assumes "a \<in> set (getDnsAddresses dnsOrder upstreamDns port)"
  shows "2 \<le> count_char a CHR '':''"
proof -
  obtain d where "d \<in> set dnsOrder" and a: "a \<in> set (if d = ''cluster'' then [''tcp:127.0.0.1:'' @ itoa port]
      else if is_upstream d then upstream_address upstreamDns d else custom_address d)"
    using assms unfolding getDnsAddresses_def set_concat set_map by blast
  then show ?thesis
    by (auto simp: upstream_address_def custom_address_def Let_def split: if_splits option.splits)
qed

lemma ask_servers_no_panic:
  "\<forall>a \<in> set addrs. dns_parts a \<noteq> None \<Longrightarrow> fst (ask_servers net ttl name qtype addrs s) \<noteq> Panic"
proof (induction addrs arbitrary: s)
  case (Cons a addrs)
  then obtain protocol ip port where p: "dns_parts a = Some (protocol, ip, port)" by auto
  with Cons show ?case
    by (auto split: option.split prod.split sum.split list.split)
qed simp

section \<open>The second question\<close>

lemma ask_servers_cached:
  assumes "ask_servers net ttl name qtype addrs s = (Value rs, t)"
  shows "\<exists>u. NsCache t = WriteCache (NsCache s) name qtype (Some rs) u \<and>
    u = (if rs = [] then Clock net (Net t) - go_div ttl 2 else Clock net (Net t))"
  using assms
proof (induction addrs arbitrary: s)
  case (Cons a addrs)
  show ?case
  proof (cases "dns_parts a")
    case (Some q)
    obtain protocol ip port where q: "q = (protocol, ip, port)" by (cases q)
    show ?thesis
    proof (cases "atoi port")
      case None
      with Some q Cons show ?thesis by simp
    next
      case n: (Some n)
      show ?thesis
      proof (cases "ip = [] \<or> protocol \<noteq> ''tcp'' \<and> protocol \<noteq> ''udp''")
        case True
        with Some q n Cons show ?thesis by simp
      next
        case False
        obtain r w where r: "NsLookup net name qtype protocol (ip @ '':'' @ itoa n) (Net s) = (r, w)" by fastforce
        show ?thesis
        proof (cases "\<exists>res x xs. r = Inr res \<and> Answer res = Some (x # xs)")
          case True
          with Some q n False r Cons.prems show ?thesis by auto
        next
          case miss: False
          have "ask_servers net ttl name qtype (a # addrs) s = ask_servers net ttl name qtype addrs (s\<lparr>Net := w\<rparr>)"
            using Some q n False r miss
            by (cases r) (auto split: option.split list.split)
          with Cons.prems Cons.IH [of "s\<lparr>Net := w\<rparr>"] show ?thesis by simp
        qed
      qed
    qed
  qed (use Cons in simp)
qed auto

section \<open>Stars\<close>

lemma glob_literal: "CHR ''*'' \<notin> set p \<Longrightarrow> glob p s \<longleftrightarrow> s = p"
  by (induction p s rule: glob.induct) auto

lemma has_suffix_Cons: "has_suffix (c # s) p \<longleftrightarrow> p = c # s \<or> has_suffix s p"
  by (auto simp: has_suffix_iff Cons_eq_append_conv)

lemma glob_star: "CHR ''*'' \<notin> set p \<Longrightarrow> CHR 0x0A \<notin> set s \<Longrightarrow> glob (CHR ''*'' # p) s \<longleftrightarrow> has_suffix s p"
proof (induction s)
  case Nil
  then show ?case by (auto simp: glob_literal has_suffix_def)
next
  case (Cons c s)
  then show ?case by (auto simp: glob_literal has_suffix_Cons)
qed

section \<open>The properties\<close>

text \<open>
  C26. Whatever order the user configures, and whatever the name server in resolv.conf is, a request
  with a question never makes the server panic.
\<close>
theorem local_dns_no_panic:
  assumes "req \<noteq> []"
  shows "fst (query net opts (local_server opts' dnsOrder nameServer remoteDnsPort ingresses) req s) \<noteq> Panic"
proof -
  obtain name qtype others where r: "req = (name, qtype) # others" using assms by (cases req) auto
  have "\<forall>a \<in> set (getDnsAddresses dnsOrder nameServer remoteDnsPort). dns_parts a \<noteq> None"
    using getDnsAddresses_colons dns_parts_exists by blast
  note n = ask_servers_no_panic [OF this]
  show ?thesis
    by (simp add: query_def r local_server_def n split: option.split prod.split)
qed

definition one_answer_net :: "nat dns_net" where
  "one_answer_net = \<lparr> Clock = (\<lambda>w. 100), Exchange = (\<lambda>p a n q w.
     (if a = ''127.0.0.1:'' @ itoa 5353 then Inr \<lparr> Rcode = 0, Answer = Some [toARecord n ''10.1.0.7''] \<rparr> else Inl ''timeout'', Suc w)) \<rparr>"

definition mem_dns_options :: dns_options where
  "mem_dns_options = \<lparr> Opt_IngressIp = [], Opt_DnsCacheTtl = 60 \<rparr>"

lemma local_dns_no_panic_witness:
  "fst (query one_answer_net mem_dns_options
     (local_server mem_dns_options [''upstream:udp:x'', ''cluster''] [] 5353 None) [(''web.'', 1)]
     \<lparr> NsCache = GoMap [], Net = 0 \<rparr>) \<noteq> Panic"
  by (rule local_dns_no_panic) simp

text \<open>
  The answer that the servers of the configured order gave is the answer to the same question
  until its time is over, without any server being asked again; an empty answer is kept for the
  second half of that time only.
\<close>
theorem local_dns_cached:
  assumes "query net opts server ((name, qtype) # others) s = (Value rs, t)"
    and "ReadCache (NsCache s) (Clock net (Net s)) name qtype (Opt_DnsCacheTtl opts) = None"
    and "find (\<lambda>(host, ip). wildcardMatch host name) (entries (ExtraDomains server)) = None"
    and "NsCache u = NsCache t"
    and "Clock net (Net u) - Clock net (Net t) <
       (if rs = [] then Opt_DnsCacheTtl opts - go_div (Opt_DnsCacheTtl opts) 2 else Opt_DnsCacheTtl opts)"
  shows "query net opts server ((name, qtype) # others') u = (Value rs, u)"
proof -
  have "ask_servers net (Opt_DnsCacheTtl opts) name qtype (DnsAddresses server) s = (Value rs, t)"
    using assms(1-3) by (simp add: query_def)
  from ask_servers_cached [OF this] obtain w where
    w: "NsCache t = WriteCache (NsCache s) name qtype (Some rs) w"
    "w = (if rs = [] then Clock net (Net t) - go_div (Opt_DnsCacheTtl opts) 2 else Clock net (Net t))" by blast
  have "ReadCache (NsCache u) (Clock net (Net u)) name qtype (Opt_DnsCacheTtl opts) = Some rs"
    unfolding assms(4) w(1) using w(2) assms(5) by (intro ns.fresh) (auto split: if_splits)
  then show ?thesis by (simp add: query_def)
qed

lemma local_dns_cached_witness:
  "query one_answer_net mem_dns_options \<lparr> DnsAddresses = [''tcp:127.0.0.1:5353''], ExtraDomains = GoMap [] \<rparr> [(''web.'', 1)]
     \<lparr> NsCache = WriteCache (GoMap []) ''web.'' 1 (Some [toARecord ''web.'' ''10.1.0.7'']) 100, Net = 9 \<rparr>
   = (Value [toARecord ''web.'' ''10.1.0.7''],
     \<lparr> NsCache = WriteCache (GoMap []) ''web.'' 1 (Some [toARecord ''web.'' ''10.1.0.7'']) 100, Net = 9 \<rparr>)"
proof -
  let ?server = "\<lparr> DnsAddresses = [''tcp:127.0.0.1:5353''], ExtraDomains = GoMap [] \<rparr>"
  let ?s = "\<lparr> NsCache = GoMap [], Net = 0 :: nat \<rparr>"
  let ?t = "\<lparr> NsCache = WriteCache (GoMap []) ''web.'' 1 (Some [toARecord ''web.'' ''10.1.0.7'']) 100, Net = 1 :: nat \<rparr>"
  have p: "dns_parts ''tcp:127.0.0.1:5353'' = Some (''tcp'', ''127.0.0.1'', ''5353'')"
    by (simp add: dns_parts_def)
  have n: "atoi ''5353'' = Some 5353"
    by (simp add: atoi_def digits_val_def digit_val_def is_digit_def)
  have c: "ReadCache (NsCache ?s) (Clock one_answer_net (Net ?s)) ''web.'' 1 (Opt_DnsCacheTtl mem_dns_options) = None"
    by (simp add: ReadCache_def)
  have q: "query one_answer_net mem_dns_options ?server [(''web.'', 1)] ?s = (Value [toARecord ''web.'' ''10.1.0.7''], ?t)"
    using c by (simp add: query_def p n NsLookup_def one_answer_net_def)
  show ?thesis
    by (rule local_dns_cached [OF q c]) (simp_all add: one_answer_net_def mem_dns_options_def)
qed

text \<open>
  The wildcard of an ingress: \<open>*\<close> followed by a suffix matches exactly the names that end with the
  suffix and the final dot; without a star the name has to be equal.
\<close>
theorem wildcard_matches_suffix:
  assumes "CHR ''*'' \<notin> set sfx" and "\<not> has_suffix sfx ''.''" and "CHR 0x0A \<notin> set name" and "sfx \<noteq> []"
  shows "(wildcardMatch (CHR ''*'' # sfx) name \<longleftrightarrow> has_suffix name (sfx @ ''.'')) \<and>
    (wildcardMatch sfx name \<longleftrightarrow> name = sfx @ ''.'')"
proof -
  have "\<not> has_suffix (CHR ''*'' # sfx) ''.''" "CHR ''*'' \<notin> set (sfx @ ''.'')"
    using assms(1,2,4) by (simp_all add: has_suffix_Cons)
  with assms show ?thesis
    by (auto simp: wildcardMatch_def contains_char_def glob_star)
qed

lemma wildcard_matches_suffix_witness:
  "wildcardMatch ''*.example.com'' ''shop.example.com.''"
proof -
  have "CHR ''*'' \<notin> set ''.example.com''" "\<not> has_suffix ''.example.com'' ''.''"
    "CHR 0x0A \<notin> set ''shop.example.com.''" "''.example.com'' \<noteq> []"
    by (simp_all add: has_suffix_def)
  from wildcard_matches_suffix [OF this] show ?thesis by (simp add: has_suffix_def)
qed

end
