(* ===== verification/ResolvConf.thy ===== *)
theory ResolvConf
  imports LocalDns
begin

text \<open>
  \<open>pkg/kt/service/dns/dns_linux.go\<close>: the name server of the machine while the program runs.  The
  lines of resolv.conf that name a server are commented out with a mark and restored by it, and a
  rule of iptables redirects DNS requests to the port of the local server.
\<close>

abbreviation (input) "commentKtAdded \<equiv> '' # Added by KtConnect''"
abbreviation (input) "commentKtRemoved \<equiv> '' # Removed by KtConnect''"

section \<open>resolv.conf\<close>

text \<open>None: the server is there already, and the file is left alone.\<close>

fun setup_lines :: "string \<Rightarrow> string list \<Rightarrow> string list option" where
  "setup_lines sample [] = Some []"
| "setup_lines sample (l # ls) =
     (if has_prefix l sample then None
      else map_option ((#) (if has_prefix l ''nameserver'' then ''#'' @ l @ commentKtRemoved else l)) (setup_lines sample ls))"

definition setupResolvConf :: "string list \<Rightarrow> string \<Rightarrow> string list" where
  "setupResolvConf ls dnsServer =
     (let ip = hd (split_on CHR '':'' dnsServer); sample = ''nameserver '' @ ip @ '' ''
      in (case setup_lines sample ls of
            None \<Rightarrow> ls
          | Some new \<Rightarrow> new @ [''nameserver '' @ ip @ commentKtAdded]))"

definition restore_line :: "string \<Rightarrow> string list" where
  "restore_line l =
     (if has_suffix l commentKtRemoved then [trim_prefix (trim_suffix l commentKtRemoved) ''#'']
      else if has_suffix l commentKtAdded then [] else [l])"

definition restoreResolvConf :: "string list \<Rightarrow> string list" where
  "restoreResolvConf ls = concat (map restore_line ls)"

section \<open>iptables\<close>

text \<open>
  \<open>iptables\<close> runs the command with \<open>--insert\<close> or \<open>--delete\<close> and tells whether it succeeded.  The rule is
  deleted until the command fails, which need not happen, so that the loop is a partial function.
\<close>

datatype iptables_action = Insert | Delete

definition setupIptables :: "(iptables_action \<Rightarrow> 'w \<Rightarrow> bool \<times> 'w) \<Rightarrow> 'w \<Rightarrow> unit outcome \<times> 'w" where
  "setupIptables iptables w =
     (case iptables Insert w of (ok, w') \<Rightarrow> (if ok then Value () else Fail (OtherError ''iptables''), w'))"

partial_function (option) restoreIptables :: "(iptables_action \<Rightarrow> 'w \<Rightarrow> bool \<times> 'w) \<Rightarrow> 'w \<Rightarrow> 'w option" where
  "restoreIptables iptables w =
     (case iptables Delete w of (ok, w') \<Rightarrow> if ok then restoreIptables iptables w' else Some w')"

text \<open>The state of the machine, and the two halves of \<open>SetNameServer\<close>: before and after the signal.\<close>

record 'w name_service =
  ResolvLines :: "string list"
  Firewall :: 'w

definition set_name_server ::
  "(iptables_action \<Rightarrow> 'w \<Rightarrow> bool \<times> 'w) \<Rightarrow> string \<Rightarrow> string \<Rightarrow> 'w name_service \<Rightarrow> unit outcome \<times> 'w name_service" where
  "set_name_server iptables dnsMode dnsServer s =
     (if has_prefix dnsMode ''localDNS'' then
        (case setupIptables iptables (Firewall s) of
           (Value _, w) \<Rightarrow> (Value (), s\<lparr>Firewall := w, ResolvLines := setupResolvConf (ResolvLines s) dnsServer\<rparr>)
         | (r, w) \<Rightarrow> (r, s\<lparr>Firewall := w\<rparr>))
      else (Value (), s\<lparr>ResolvLines := setupResolvConf (ResolvLines s) dnsServer\<rparr>))"

definition after_signal ::
  "(iptables_action \<Rightarrow> 'w \<Rightarrow> bool \<times> 'w) \<Rightarrow> string \<Rightarrow> 'w name_service \<Rightarrow> 'w name_service option" where
  "after_signal iptables dnsMode s =
     (let s' = s\<lparr>ResolvLines := restoreResolvConf (ResolvLines s)\<rparr> in
      if has_prefix dnsMode ''localDNS''
      then map_option (\<lambda>w. s'\<lparr>Firewall := w\<rparr>) (restoreIptables iptables (Firewall s')) else Some s')"

definition RestoreNameServer ::
  "(iptables_action \<Rightarrow> 'w \<Rightarrow> bool \<times> 'w) \<Rightarrow> 'w name_service \<Rightarrow> 'w name_service option" where
  "RestoreNameServer iptables s =
     (let s' = s\<lparr>ResolvLines := restoreResolvConf (ResolvLines s)\<rparr>
      in map_option (\<lambda>w. s'\<lparr>Firewall := w\<rparr>) (restoreIptables iptables (Firewall s')))"

section \<open>Lemmas\<close>

text \<open>A file that carries no mark of the program.\<close>

definition unmarked :: "string list \<Rightarrow> bool" where
  "unmarked ls \<longleftrightarrow> (\<forall>l \<in> set ls. \<not> has_suffix l commentKtAdded \<and> \<not> has_suffix l commentKtRemoved)"

lemma restore_unmarked: "unmarked ls \<Longrightarrow> restoreResolvConf ls = ls"
  by (induction ls) (auto simp: unmarked_def restoreResolvConf_def restore_line_def)

lemma restore_line_removed: "restore_line (CHR ''#'' # l @ commentKtRemoved) = [l]"
proof -
  have "has_suffix (CHR ''#'' # l @ commentKtRemoved) commentKtRemoved"
    "trim_suffix (CHR ''#'' # l @ commentKtRemoved) commentKtRemoved = ''#'' @ l"
    using has_suffix_append [of "CHR ''#'' # l" commentKtRemoved] trim_suffix_append [of "CHR ''#'' # l" commentKtRemoved]
    by simp_all
  then show ?thesis
    unfolding restore_line_def using trim_prefix_append [of "''#''" l] by simp
qed

lemma restore_setup_lines:
  "unmarked ls \<Longrightarrow> setup_lines sample ls = Some new \<Longrightarrow> restoreResolvConf new = ls"
proof (induction ls arbitrary: new)
  case (Cons l ls)
  then obtain new' where n: "setup_lines sample ls = Some new'"
    "new = (if has_prefix l ''nameserver'' then CHR ''#'' # l @ commentKtRemoved else l) # new'"
    by (auto split: if_splits)
  have "restore_line (if has_prefix l ''nameserver'' then CHR ''#'' # l @ commentKtRemoved else l) = [l]"
    using Cons.prems(1) restore_line_removed [of l]
    by (cases "has_prefix l ''nameserver''") (simp_all add: unmarked_def restore_line_def)
  moreover have "restoreResolvConf new' = ls" using Cons n(1) by (simp add: unmarked_def)
  ultimately show ?case unfolding n(2) by (simp add: restoreResolvConf_def)
qed (simp add: restoreResolvConf_def)

lemma not_removed: "\<not> has_suffix (s @ commentKtAdded) commentKtRemoved"
proof
  assume "has_suffix (s @ commentKtAdded) commentKtRemoved"
  then obtain t where "s @ commentKtAdded = t @ commentKtRemoved" by (auto simp: has_suffix_iff)
  then have "rev (s @ commentKtAdded) = rev (t @ commentKtRemoved)" by simp
  then show False by simp
qed

lemma restore_setup: "unmarked ls \<Longrightarrow> restoreResolvConf (setupResolvConf ls dnsServer) = ls"
proof -
  assume u: "unmarked ls"
  have "restore_line (x @ commentKtAdded) = []" for x
    using not_removed [of x] has_suffix_append [of x commentKtAdded] by (simp add: restore_line_def)
  from this [of "''nameserver '' @ hd (split_on CHR '':'' dnsServer)"]
  show ?thesis
    using restore_unmarked [OF u] restore_setup_lines [OF u]
    by (auto simp: setupResolvConf_def Let_def restoreResolvConf_def split: option.split)
qed

text \<open>What iptables is documented to do: a rule that was inserted can be deleted as often as it is there.\<close>

definition counts_rules :: "(iptables_action \<Rightarrow> 'w \<Rightarrow> bool \<times> 'w) \<Rightarrow> ('w \<Rightarrow> nat) \<Rightarrow> bool" where
  "counts_rules iptables rules \<longleftrightarrow>
     (\<forall>w. case iptables Insert w of (ok, w') \<Rightarrow> rules w' = (if ok then Suc (rules w) else rules w)) \<and>
     (\<forall>w. case iptables Delete w of (ok, w') \<Rightarrow> (ok \<longrightarrow> rules w = Suc (rules w')) \<and> (\<not> ok \<longrightarrow> rules w = 0 \<and> rules w' = 0))"

lemma restoreIptables_ends:
  assumes "counts_rules iptables rules"
  shows "\<exists>w'. restoreIptables iptables w = Some w' \<and> rules w' = 0"
proof (induction "rules w" arbitrary: w rule: less_induct)
  case less
  obtain ok w' where d: "iptables Delete w = (ok, w')" by fastforce
  with assms have r: "ok \<longrightarrow> rules w = Suc (rules w')" "\<not> ok \<longrightarrow> rules w' = 0"
    unfolding counts_rules_def by (metis (mono_tags, lifting) case_prod_conv)+
  show ?case
  proof (cases ok)
    case True
    with r less [of w'] d show ?thesis by (simp add: restoreIptables.simps [of iptables w])
  next
    case False
    with r d show ?thesis by (simp add: restoreIptables.simps [of iptables w])
  qed
qed

text \<open>What \<open>SetNameServer\<close> has done is undone by the second half of its goroutine, in any variant of the mode.\<close>

lemma name_server_taken_back:
  assumes "unmarked (ResolvLines n)" and "counts_rules iptables rules" and mode: "has_prefix dnsMode ''localDNS''"
    and "set_name_server iptables dnsMode server n = (r, n')"
  shows "\<exists>u. after_signal iptables dnsMode n' = Some u \<and> ResolvLines u = ResolvLines n \<and> rules (Firewall u) = 0"
proof -
  have "ResolvLines n' \<in> {ResolvLines n, setupResolvConf (ResolvLines n) server}"
    using assms(4) by (auto simp: set_name_server_def split: if_splits prod.splits outcome.splits)
  then have l: "restoreResolvConf (ResolvLines n') = ResolvLines n" using restore_unmarked restore_setup assms(1) by auto
  obtain w where "restoreIptables iptables (Firewall n') = Some w" "rules w = 0" using restoreIptables_ends [OF assms(2)] by blast
  with l mode show ?thesis by (simp add: after_signal_def)
qed

section \<open>The properties\<close>

text \<open>
  The end of a session undoes its start: resolv.conf has its lines again, every one of them as it
  was, and no redirecting rule is left in the firewall, however many there were.
\<close>
theorem name_server_roundtrip:
  assumes "unmarked (ResolvLines s)" and "counts_rules iptables rules"
    and "set_name_server iptables ''localDNS'' dnsServer s = (r, t)"
  shows "\<exists>u. after_signal iptables ''localDNS'' t = Some u \<and> ResolvLines u = ResolvLines s \<and> rules (Firewall u) = 0"
  using name_server_taken_back [OF assms(1,2) _ assms(3)] by (simp add: has_prefix_def)

definition rule_counter :: "iptables_action \<Rightarrow> nat \<Rightarrow> bool \<times> nat" where
  "rule_counter a n = (case a of Insert \<Rightarrow> (True, Suc n) | Delete \<Rightarrow> (0 < n, n - 1))"

lemma rule_counter_ok: "counts_rules rule_counter (\<lambda>n. n)"
  by (simp add: counts_rules_def rule_counter_def)

lemma name_server_roundtrip_witness:
  "\<exists>u. after_signal rule_counter ''localDNS'' \<lparr> ResolvLines =
       [''#nameserver 10.0.0.2 # Removed by KtConnect'', ''search lan'', ''nameserver 127.0.0.1 # Added by KtConnect''],
       Firewall = 3 \<rparr> = Some u \<and>
     ResolvLines u = [''nameserver 10.0.0.2'', ''search lan''] \<and> Firewall u = 0"
proof -
  let ?s = "\<lparr> ResolvLines = [''nameserver 10.0.0.2'', ''search lan''], Firewall = 2 :: nat \<rparr>"
  let ?t = "\<lparr> ResolvLines = [''#nameserver 10.0.0.2 # Removed by KtConnect'', ''search lan'',
     ''nameserver 127.0.0.1 # Added by KtConnect''], Firewall = 3 :: nat \<rparr>"
  have u: "unmarked (ResolvLines ?s)" by (simp add: unmarked_def has_suffix_def)
  have "set_name_server rule_counter ''localDNS'' ''127.0.0.1:10053'' ?s = (Value (), ?t)"
    by (simp add: set_name_server_def setupIptables_def setupResolvConf_def rule_counter_def has_prefix_def)
  from name_server_roundtrip [OF u rule_counter_ok this] show ?thesis by simp
qed

end
