(* ===== verification/ShadowServer.thy ===== *)
theory ShadowServer
  imports LocalDns
begin

text \<open>
  What runs in the shadow pod: the DNS server of \<open>pkg/shadow/dnsserver/dnsserver_unix.go\<close>, which looks
  a short name up under the search domains of the cluster, the lane header of
  \<open>pkg/shadow/proxy/proxy.go\<close>, and the start of both in \<open>cmd/shadow/main.go\<close>.
\<close>

section \<open>The DNS server\<close>

record shadow_dns =
  LocalDomain :: string
  Servers :: "string list"
  Search :: "string list"
  DnsPort :: string

definition getSuffixes :: "shadow_dns \<Rightarrow> string list" where
  "getSuffixes s = map (\<lambda>d. if has_suffix d ''.'' then d else d @ ''.'') (Search s)"

definition fetchAllPossibleDomains :: "shadow_dns \<Rightarrow> string \<Rightarrow> string list" where
  "fetchAllPossibleDomains s name =
     (let count = count_char name CHR ''.''; suffixes = getSuffixes s; n = length suffixes
      in if count = 0 then []
         else if count = 1 then (if n > 0 then [name @ suffixes ! 0] else []) @ [name]
         else if count = 2 then (if n > 1 then [name @ suffixes ! 1, name @ suffixes ! 0] else []) @ [name]
         else if count = 3 then
           [name] @ (if n > 1 then [name @ suffixes ! 1] else []) @ (if n > 2 then [name @ suffixes ! 2] else [])
         else if count = 4 then [name] @ (if n > 2 then [name @ suffixes ! 2] else [])
         else [name])"

text \<open>\<open>net.JoinHostPort\<close>, which puts an address with a colon in brackets.\<close>

definition join_host_port :: "string \<Rightarrow> string \<Rightarrow> string" where
  "join_host_port host port = (if contains_char host CHR '':'' then ''['' @ host @ '']'' else host) @ '':'' @ port"

definition getResolveServer :: "shadow_dns \<Rightarrow> string option" where
  "getResolveServer s = (case Servers s of [] \<Rightarrow> None | a # _ \<Rightarrow> Some (join_host_port a (DnsPort s)))"

text \<open>The record type 5 is CNAME; its data is the target.\<close>

definition cname_chain :: "string \<Rightarrow> rr list \<Rightarrow> string list" where
  "cname_chain name answer = name # map RrData (filter (\<lambda>r. Rrtype r = 5) answer)"

definition convertAnswer :: "string \<Rightarrow> rr list \<Rightarrow> rr list" where
  "convertAnswer name answer =
     map (\<lambda>r. if Contains (cname_chain name answer) (RrName r) then r else r\<lparr>RrName := name\<rparr>) answer"

text \<open>An answer is an option: None is the nil slice of a reply without answers.\<close>

definition lookup ::
  "'w dns_net \<Rightarrow> shadow_dns \<Rightarrow> string \<Rightarrow> int \<Rightarrow> string \<Rightarrow> 'w \<Rightarrow> (rr list option) option \<times> 'w" where
  "lookup net s domain qtype name w =
     (case getResolveServer s of
        None \<Rightarrow> (None, w)
      | Some address \<Rightarrow>
          (case NsLookup net domain qtype ''udp'' address w of
             (Inl _, w') \<Rightarrow> (None, w')
           | (Inr res, w') \<Rightarrow> (Some (map_option (convertAnswer name) (Answer res)), w')))"

text \<open>The first name that the upstream server knows decides.\<close>

fun lookup_first ::
  "'w dns_net \<Rightarrow> shadow_dns \<Rightarrow> int \<Rightarrow> string \<Rightarrow> string list \<Rightarrow> 'w \<Rightarrow> rr list option \<times> 'w" where
  "lookup_first net s qtype name [] w = (Some [], w)"
| "lookup_first net s qtype name (d # ds) w =
     (case lookup net s d qtype name w of
        (Some r, w') \<Rightarrow> (r, w')
      | (None, w') \<Rightarrow> lookup_first net s qtype name ds w')"

text \<open>The local domain that ends the name is taken off.\<close>

fun strip_domain :: "string list \<Rightarrow> string \<Rightarrow> string" where
  "strip_domain [] name = name"
| "strip_domain (d # ds) name =
     (if has_suffix name (d @ ''.'') then take (length name - length d - 1) name else strip_domain ds name)"

definition looked_up_name :: "shadow_dns \<Rightarrow> string \<Rightarrow> string" where
  "looked_up_name s name =
     (if LocalDomain s = [] then name else strip_domain (split_on CHR '','' (LocalDomain s)) name)"

text \<open>The cache is read under the name of the question and written under the name without the local domain.\<close>

definition shadow_query ::
  "'w dns_net \<Rightarrow> shadow_dns \<Rightarrow> (string \<times> int) list \<Rightarrow> 'w dns_state \<Rightarrow> rr list option \<times> 'w dns_state" where
  "shadow_query net s req st =
     (case req of
        [] \<Rightarrow> (None, st)
      | (asked, qtype) # _ \<Rightarrow>
          (case ReadCache (NsCache st) (Clock net (Net st)) asked qtype 60 of
             Some answer \<Rightarrow> (Some answer, st)
           | None \<Rightarrow>
               (let name = looked_up_name s asked
                in case lookup_first net s qtype name (fetchAllPossibleDomains s name) (Net st) of
                     (r, w) \<Rightarrow> (r, \<lparr> NsCache = WriteCache (NsCache st) name qtype r (Clock net w), Net = w \<rparr>))))"

section \<open>The lane header\<close>

definition isLaneBaggageMember :: "string \<Rightarrow> bool" where
  "isLaneBaggageMember member =
     (case split_once CHR ''='' member of
        (key, Some _) \<Rightarrow> equal_fold (trim_space key) ''lane''
      | (_, None) \<Rightarrow> False)"

definition baggage_members :: "string list \<Rightarrow> string list" where
  "baggage_members values =
     filter (\<lambda>m. m \<noteq> [] \<and> \<not> isLaneBaggageMember m) (map trim_space (concat (map (split_on CHR '','') values)))"

definition mergeBaggage :: "string list \<Rightarrow> string \<Rightarrow> string" where
  "mergeBaggage values lane = join_with '','' (baggage_members values @ [''lane='' @ lane])"

text \<open>The headers of the request that the proxy sends on: the value of Baggage, or none.\<close>

definition rewrite_baggage :: "string \<Rightarrow> string list \<Rightarrow> string list" where
  "rewrite_baggage lane values = (if lane = [] then values else [mergeBaggage values lane])"

section \<open>The start of the shadow\<close>

fun arg_value :: "string \<Rightarrow> string list \<Rightarrow> string option" where
  "arg_value argVar [] = None"
| "arg_value argVar (a # as) =
     (case split_once CHR ''='' a of
        (key, Some v) \<Rightarrow> if key = argVar \<and> v \<noteq> [] then Some v else arg_value argVar as
      | (_, None) \<Rightarrow> arg_value argVar as)"

definition getParameter :: "(string \<Rightarrow> string) \<Rightarrow> string list \<Rightarrow> string \<Rightarrow> string \<Rightarrow> string \<Rightarrow> string" where
  "getParameter env args envVar argVar defaultValue =
     (if env envVar \<noteq> [] then env envVar
      else (case arg_value argVar args of Some v \<Rightarrow> v | None \<Rightarrow> defaultValue))"

datatype shadow_service = ProxyServer string | DnsService int string string

definition runShadow :: "string \<Rightarrow> string \<Rightarrow> string \<Rightarrow> shadow_service list" where
  "runShadow dnsProtocol localDomain lane =
     (if lane \<noteq> [] then [ProxyServer lane] else []) @ [DnsService 53 dnsProtocol localDomain]"

definition shadow_main :: "(string \<Rightarrow> string) \<Rightarrow> string list \<Rightarrow> shadow_service list" where
  "shadow_main env args =
     runShadow (getParameter env args ''KT_DNS_PROTOCOL'' ''--protocol'' ''udp'')
       (getParameter env args ''KT_LOCAL_DOMAIN'' ''--local-domain'' [])
       (getParameter env args ''KT_LANE'' ''--lane'' [])"

section \<open>Lemmas\<close>

lemma ReadCache_same_name: "Clock net w < Clock net w' + 60 \<Longrightarrow>
  ReadCache (WriteCache c name q (Some rs) (Clock net w')) (Clock net w) name q 60 = Some rs"
  by (rule ns.fresh)

lemma convertAnswer_names:
  "r \<in> set (convertAnswer name answer) \<Longrightarrow> RrName r \<in> set (cname_chain name answer)"
  by (auto simp: convertAnswer_def Contains_iff cname_chain_def)

lemma equal_fold_lane: "equal_fold (trim_space ''lane'') ''lane''"
  by (simp add: go_defs)

lemma lane_member: "isLaneBaggageMember (''lane='' @ lane)"
  using split_once_append [of "CHR ''=''" "''lane''" lane] equal_fold_lane by (simp add: isLaneBaggageMember_def)

lemma split_join_with: "xs \<noteq> [] \<Longrightarrow> \<forall>x \<in> set xs. c \<notin> set x \<Longrightarrow> split_on c (join_with [c] xs) = xs"
  by (rule split_join)

lemma set_dropWhile_sub: "set (dropWhile P s) \<subseteq> set s"
  by (metis set_dropWhileD subsetI)

lemma set_trim_space: "set (trim_space s) \<subseteq> set s"
  using set_dropWhile_sub [of is_space "rev (dropWhile is_space s)"] set_dropWhile_sub [of is_space s]
  by (auto simp: trim_space_def)

lemma dropWhile_id: "(s \<noteq> [] \<Longrightarrow> \<not> P (hd s)) \<Longrightarrow> dropWhile P s = s"
  by (cases s) auto

lemma trim_space_idem: "trim_space (trim_space s) = trim_space s"
proof -
  let ?t = "dropWhile is_space s"
  let ?u = "rev (dropWhile is_space (rev ?t))"
  have "?u = [] \<or> hd ?u = hd ?t"
  proof -
    have "?t = ?u @ rev (takeWhile is_space (rev ?t))"
      by (metis rev_append rev_rev_ident takeWhile_dropWhile_id)
    then show ?thesis by (metis hd_append2)
  qed
  moreover have "?t \<noteq> [] \<Longrightarrow> \<not> is_space (hd ?t)" by (rule hd_dropWhile)
  ultimately have "dropWhile is_space ?u = ?u"
    by (intro dropWhile_id) (metis dropWhile.simps(1) rev.simps(1))
  moreover have "dropWhile is_space (rev ?u) = rev ?u" by (simp add: dropWhile_idem)
  ultimately show ?thesis by (simp add: trim_space_def)
qed

lemma baggage_member_no_comma: "m \<in> set (baggage_members values) \<Longrightarrow> CHR '','' \<notin> set m"
  using set_trim_space split_on_elem_no_sep by (fastforce simp: baggage_members_def)

lemma lookup_first_names:
  "lookup_first net s qtype name ds w = (Some answer, w') \<Longrightarrow> \<exists>raw. answer = convertAnswer name raw"
proof (induction ds arbitrary: w)
  case Nil
  then show ?case by (auto simp: convertAnswer_def)
next
  case (Cons d ds)
  obtain r u where l: "lookup net s d qtype name w = (r, u)" by fastforce
  show ?case
  proof (cases r)
    case None
    with Cons l show ?thesis by simp
  next
    case (Some a)
    with Cons.prems l show ?thesis
      by (auto simp: lookup_def split: option.splits prod.splits sum.splits)
  qed
qed

lemma cname_chain_convert: "cname_chain name (convertAnswer name raw) = cname_chain name raw"
proof -
  have "map RrData (filter (\<lambda>r. Rrtype r = 5) (map (\<lambda>r. if P r then r else r\<lparr>RrName := n\<rparr>) xs))
      = map RrData (filter (\<lambda>r. Rrtype r = 5) xs)" for P n xs
    by (induction xs) auto
  then show ?thesis by (simp add: convertAnswer_def cname_chain_def)
qed

lemma lane_member_trimmed: "isLaneBaggageMember (trim_space (''lane='' @ lane))"
proof -
  let ?r = "dropWhile is_space (rev lane @ rev ''lane='')"
  have "\<exists>x. ?r = x @ rev ''lane=''"
  proof (cases "\<exists>c \<in> set (rev lane). \<not> is_space c")
    case True
    then show ?thesis by (auto simp: dropWhile_append1)
  next
    case False
    then have "?r = dropWhile is_space (rev ''lane='')" by (subst dropWhile_append2) auto
    then show ?thesis by (simp add: is_space_def)
  qed
  then obtain x where "?r = x @ rev ''lane=''" ..
  moreover have "dropWhile is_space (''lane='' @ lane) = ''lane='' @ lane" by (simp add: is_space_def)
  ultimately have "trim_space (''lane='' @ lane) = ''lane='' @ rev x" by (simp add: trim_space_def)
  then show ?thesis by (simp only: lane_member)
qed

lemma split_mergeBaggage:
  assumes "CHR '','' \<notin> set lane"
  shows "split_on CHR '','' (mergeBaggage values lane) = baggage_members values @ [''lane='' @ lane]"
  unfolding mergeBaggage_def using assms baggage_member_no_comma by (intro split_join) auto

lemma baggage_members_merged:
  assumes "CHR '','' \<notin> set lane"
  shows "baggage_members [mergeBaggage values lane] = baggage_members values"
proof -
  have t: "map trim_space (baggage_members values) = baggage_members values"
    by (rule map_idI) (auto simp: baggage_members_def trim_space_idem)
  have f: "filter (\<lambda>m. m \<noteq> [] \<and> \<not> isLaneBaggageMember m) (baggage_members values) = baggage_members values"
    by (rule filter_True) (auto simp: baggage_members_def)
  show ?thesis
    unfolding baggage_members_def [of "[mergeBaggage values lane]"]
    using lane_member_trimmed [of lane] by (simp add: split_mergeBaggage [OF assms] t f)
qed

section \<open>The properties\<close>

text \<open>
  The cache of the shadow: within a minute the same question is answered from the cache exactly
  when no local domain was taken off its name; with a local domain the answer is stored under
  another name than the one that is asked, so that the cache never serves it.
\<close>
theorem shadow_cache_hit:
  assumes "shadow_query net s ((asked, qtype) # others) st = (Some rs, t)"
    and "ReadCache (NsCache st) (Clock net (Net st)) asked qtype 60 = None"
    and "ReadCache (NsCache st) time asked qtype 60 = None"
    and "time < Clock net (Net t) + 60"
  shows "ReadCache (NsCache t) time asked qtype 60 = (if looked_up_name s asked = asked then Some rs else None)"
proof -
  have t: "NsCache t = WriteCache (NsCache st) (looked_up_name s asked) qtype (Some rs) (Clock net (Net t))"
    using assms(1,2) by (auto simp: shadow_query_def Let_def split: prod.splits)
  show ?thesis unfolding t ns.read_put using assms(3,4) by simp
qed

definition shadow_net :: "nat dns_net" where
  "shadow_net = \<lparr> Clock = (\<lambda>w. 100), Exchange = (\<lambda>p a n q w.
     (Inr \<lparr> Rcode = 0, Answer = Some [toARecord n ''10.1.0.7''] \<rparr>, Suc w)) \<rparr>"

definition shadow_conf :: "string \<Rightarrow> shadow_dns" where
  "shadow_conf domain = \<lparr> LocalDomain = domain, Servers = [''10.96.0.10''],
     Search = [''default.svc.cluster.local'', ''svc.cluster.local'', ''cluster.local''], DnsPort = ''53'' \<rparr>"

lemma shadow_cache_hit_witness:
  "ReadCache (NsCache (snd (shadow_query shadow_net (shadow_conf ''corp.com'') [(''web.corp.com.'', 1)]
     \<lparr> NsCache = GoMap [], Net = 0 \<rparr>))) 110 ''web.corp.com.'' 1 60 = None"
proof -
  let ?st = "\<lparr> NsCache = GoMap [], Net = 0 :: nat \<rparr>"
  have n: "looked_up_name (shadow_conf ''corp.com'') ''web.corp.com.'' = ''web.''"
    by (simp add: looked_up_name_def shadow_conf_def has_suffix_def)
  have c: "ReadCache (NsCache ?st) u ''web.corp.com.'' 1 60 = None" for u by (simp add: ReadCache_def)
  have q: "\<exists>rs. shadow_query shadow_net (shadow_conf ''corp.com'') [(''web.corp.com.'', 1)] ?st = (Some rs,
      \<lparr> NsCache = WriteCache (GoMap []) ''web.'' 1 (Some rs) 100, Net = 1 \<rparr>)"
    using c n
    by (simp add: shadow_query_def fetchAllPossibleDomains_def getSuffixes_def count_char_def shadow_conf_def
        lookup_def getResolveServer_def NsLookup_def shadow_net_def Let_def)
  then obtain rs where rs: "shadow_query shadow_net (shadow_conf ''corp.com'') [(''web.corp.com.'', 1)] ?st = (Some rs,
      \<lparr> NsCache = WriteCache (GoMap []) ''web.'' 1 (Some rs) 100, Net = 1 \<rparr>)" by blast
  have t: "(110 :: int) < Clock shadow_net (Net \<lparr> NsCache = WriteCache (GoMap []) ''web.'' 1 (Some rs) 100, Net = 1 \<rparr>) + 60"
    by (simp add: shadow_net_def)
  from shadow_cache_hit [OF rs c c t] show ?thesis unfolding rs n by simp
qed



text \<open>
  The Baggage header that the proxy of a lane sends on has the members of the request that name no
  lane, in their order, and then exactly one lane, the proxy's own; a second proxy on the way only
  replaces the lane.
\<close>
theorem lane_baggage_replaced:
  assumes "CHR '','' \<notin> set lane"
  shows "split_on CHR '','' (mergeBaggage values lane) = baggage_members values @ [''lane='' @ lane] \<and>
    filter isLaneBaggageMember (split_on CHR '','' (mergeBaggage values lane)) = [''lane='' @ lane] \<and>
    mergeBaggage [mergeBaggage values lane] lane' = mergeBaggage values lane'"
proof -
  have "filter isLaneBaggageMember (baggage_members values) = []"
    by (auto simp: baggage_members_def filter_empty_conv)
  then show ?thesis
    using split_mergeBaggage [OF assms, of "values"] lane_member [of lane] baggage_members_merged [OF assms, of "values"]
    by (simp add: mergeBaggage_def [of _ lane'])
qed

lemma lane_baggage_replaced_witness:
  "split_on CHR '','' (mergeBaggage [''a=1, lane=x'', ''lane = y''] ''dev'') = [''a=1'', ''lane=dev'']"
proof -
  have c: "CHR '','' \<notin> set ''dev''" by simp
  have m: "baggage_members [''a=1, lane=x'', ''lane = y''] = [''a=1'']"
    by (simp add: baggage_members_def trim_space_def is_space_def isLaneBaggageMember_def equal_fold_def to_lower_def lower_char_def)
  from lane_baggage_replaced [OF c, of "[''a=1, lane=x'', ''lane = y'']"] m show ?thesis by simp
qed

end
