(* ===== verification/Router.thy ===== *)
theory Router
  imports Mesh
begin

text \<open>
  The router pod of an auto mesh: \<open>cmd/router/main.go\<close> and \<open>pkg/router\<close>.  The program keeps the
  versions of a service in \<open>/etc/kt.conf\<close> and writes the nginx configuration from them.  A file is
  what can be read from it: \<open>KtConfFile\<close> holds the configuration (encoding/json reads back what it
  has written), \<open>RouteFile\<close> the upstreams and servers of the template \<open>route.conf\<close>.
\<close>

section \<open>Configuration\<close>

record kt_conf =
  ConfService :: string
  ConfPorts :: "string list list"
  ConfHeader :: string
  ConfVersions :: "string list"

text \<open>
  A server of the template listens on one port; a request whose header carries a version goes to the
  upstream of that version, every other to the upstream of the stuntman service.
\<close>

record upstream =
  UpName :: string
  UpServer :: string

record nginx_server =
  Listen :: string
  VersionRules :: "(string \<times> string) list"
  DefaultPass :: string

record nginx_conf =
  Upstreams :: "upstream list"
  ServersConf :: "nginx_server list"

datatype conf_file = NoConf | BadConf | ConfFile kt_conf

datatype route_file = NoRoutes | BrokenRoutes | Routes string nginx_conf

text \<open>The files, whether they can be written, whether the nginx process can be signalled, and how often it was.\<close>

record router_state =
  KtConfFile :: conf_file
  RouteFile :: route_file
  FilesWritable :: bool
  ProcessAlive :: bool
  Reloads :: nat

definition ReadKtConf :: "router_state \<Rightarrow> kt_conf outcome" where
  "ReadKtConf s = (case KtConfFile s of
     NoConf \<Rightarrow> Fail (Errorf ''failed to read kt configuration file'')
   | BadConf \<Rightarrow> Fail (Errorf ''failed to parse kt configuration file'')
   | ConfFile c \<Rightarrow> Value c)"

definition WriteKtConf :: "kt_conf \<Rightarrow> router_state \<Rightarrow> unit outcome \<times> router_state" where
  "WriteKtConf c s =
     (if FilesWritable s then (Value (), s\<lparr>KtConfFile := ConfFile c\<rparr>)
      else (Fail (Errorf ''failed to create kt configuration''), s))"

section \<open>The template\<close>

definition mesh_upstream :: "kt_conf \<Rightarrow> string \<Rightarrow> string \<Rightarrow> string" where
  "mesh_upstream c version port = ConfService c @ ''-kt-mesh-'' @ version @ ''-'' @ port"

definition stuntman_upstream :: "kt_conf \<Rightarrow> string \<Rightarrow> string" where
  "stuntman_upstream c port = ConfService c @ ''-kt-stuntman-'' @ port"

definition port_upstreams :: "kt_conf \<Rightarrow> string list \<Rightarrow> upstream list" where
  "port_upstreams c port =
     map (\<lambda>v. \<lparr> UpName = mesh_upstream c v (port ! 0), UpServer = ConfService c @ ''-kt-mesh-'' @ v @ '':'' @ port ! 0 \<rparr>) (ConfVersions c)
     @ [\<lparr> UpName = stuntman_upstream c (port ! 0), UpServer = ConfService c @ ''-kt-stuntman:'' @ port ! 0 \<rparr>]"

definition port_server :: "kt_conf \<Rightarrow> string list \<Rightarrow> nginx_server" where
  "port_server c port =
     \<lparr> Listen = port ! 1, VersionRules = map (\<lambda>v. (v, mesh_upstream c v (port ! 0))) (ConfVersions c),
       DefaultPass = stuntman_upstream c (port ! 0) \<rparr>"

text \<open>The template fails where a port has no second part.\<close>

definition route_template :: "kt_conf \<Rightarrow> nginx_conf option" where
  "route_template c =
     (if list_all (\<lambda>p. 2 \<le> length p) (ConfPorts c)
      then Some \<lparr> Upstreams = concat (map (port_upstreams c) (ConfPorts c)), ServersConf = map (port_server c) (ConfPorts c) \<rparr>
      else None)"

definition writeRouteConf :: "kt_conf \<Rightarrow> router_state \<Rightarrow> unit outcome \<times> router_state" where
  "writeRouteConf c s =
     (if \<not> FilesWritable s then (Fail (Errorf ''failed to create route configuration file''), s)
      else (case route_template c of
              Some n \<Rightarrow> (Value (), s\<lparr>RouteFile := Routes (ConfHeader c) n\<rparr>)
            | None \<Rightarrow> (Fail (Errorf ''failed to generate route configuration''), s\<lparr>RouteFile := BrokenRoutes\<rparr>)))"

definition removeRouteConf :: "router_state \<Rightarrow> unit outcome \<times> router_state" where
  "removeRouteConf s =
     (if FilesWritable s \<and> RouteFile s \<noteq> NoRoutes then (Value (), s\<lparr>RouteFile := NoRoutes\<rparr>)
      else (Fail (Errorf ''failed to remove route configuration''), s))"

definition reloadRouteConf :: "router_state \<Rightarrow> unit outcome \<times> router_state" where
  "reloadRouteConf s =
     (if ProcessAlive s then (Value (), s\<lparr>Reloads := Suc (Reloads s)\<rparr>)
      else (Fail (Errorf ''failed to reload route configuration''), s))"

definition andThen :: "unit outcome \<times> 's \<Rightarrow> ('s \<Rightarrow> unit outcome \<times> 's) \<Rightarrow> unit outcome \<times> 's" where
  "andThen p f = (case p of (Value _, s) \<Rightarrow> f s | (r, s) \<Rightarrow> (r, s))"

definition WriteAndReloadRouteConf :: "kt_conf \<Rightarrow> router_state \<Rightarrow> unit outcome \<times> router_state" where
  "WriteAndReloadRouteConf c s =
     andThen (if length (ConfVersions c) > 0 then writeRouteConf c s else removeRouteConf s) reloadRouteConf"

section \<open>The commands\<close>

definition splitVersionMark :: "string \<Rightarrow> (string \<times> string) outcome" where
  "splitVersionMark mark =
     (let splits = split_on CHR '':'' mark
      in if length splits < 2 then Panic else Value (replace_char (splits ! 0) CHR ''-'' ''_'', splits ! 1))"

definition getPorts :: "string \<Rightarrow> string list list" where
  "getPorts portsParameter = map (split_on CHR '':'') (split_on CHR '','' portsParameter)"

definition router_setup :: "string list \<Rightarrow> router_state \<Rightarrow> unit outcome \<times> router_state" where
  "router_setup args s =
     (if length args < 3 then (Value (), s)
      else (case splitVersionMark (args ! 2) of
              Value (header, version) \<Rightarrow>
                (let c = \<lparr> ConfService = args ! 0, ConfPorts = getPorts (args ! 1), ConfHeader = header,
                           ConfVersions = [version] \<rparr>
                 in andThen (WriteKtConf c s) (WriteAndReloadRouteConf c))
            | Fail e \<Rightarrow> (Fail e, s)
            | Panic \<Rightarrow> (Panic, s)))"

datatype route_action = AddVersion | RemoveVersion

definition change_versions :: "route_action \<Rightarrow> string \<Rightarrow> string list \<Rightarrow> string list" where
  "change_versions action version versions =
     (case action of AddVersion \<Rightarrow> versions @ [version] | RemoveVersion \<Rightarrow> remove1 version versions)"

definition updateRoute :: "string \<Rightarrow> string \<Rightarrow> route_action \<Rightarrow> router_state \<Rightarrow> unit outcome \<times> router_state" where
  "updateRoute header version action s =
     (case ReadKtConf s of
        Value c0 \<Rightarrow>
          (if ConfHeader c0 \<noteq> header
           then (Fail (Errorf (''specified header '' @ quoted header @ '' no match mesh pod header '' @ quoted (ConfHeader c0))), s)
           else (let c = c0\<lparr>ConfVersions := change_versions action version (ConfVersions c0)\<rparr>
                 in andThen (WriteKtConf c s) (WriteAndReloadRouteConf c)))
      | Fail e \<Rightarrow> (Fail e, s)
      | Panic \<Rightarrow> (Panic, s))"

definition change_route :: "route_action \<Rightarrow> string list \<Rightarrow> router_state \<Rightarrow> unit outcome \<times> router_state" where
  "change_route action args s =
     (case splitVersionMark (args ! 0) of
        Value (header, version) \<Rightarrow> updateRoute header version action s
      | Fail e \<Rightarrow> (Fail e, s)
      | Panic \<Rightarrow> (Panic, s))"

text \<open>The program; the result is what the handler met, which it only logs.\<close>

definition router_main :: "string list \<Rightarrow> router_state \<Rightarrow> unit outcome \<times> router_state" where
  "router_main args s =
     (if length args < 3 then (Value (), s)
      else if args ! 1 = ''setup'' then router_setup (drop 2 args) s
      else if args ! 1 = ''add'' then change_route AddVersion (drop 2 args) s
      else if args ! 1 = ''remove'' then change_route RemoveVersion (drop 2 args) s
      else (Value (), s))"

section \<open>Routing\<close>

text \<open>
  Where nginx sends a request, by the port it came in and the value of the version header: the rule
  of the version, or else the default.
\<close>

definition route_request :: "nginx_server \<Rightarrow> string option \<Rightarrow> string" where
  "route_request server value =
     (case value of
        None \<Rightarrow> DefaultPass server
      | Some v \<Rightarrow> (case map_of (VersionRules server) v of Some up \<Rightarrow> up | None \<Rightarrow> DefaultPass server))"

end
