(* ===== verification/RouterProps.thy ===== *)
theory RouterProps
  imports Router "HOL-Library.Multiset"
begin

text \<open>
  The router as its users see it: a multiset of versions that share a service.  Every command of the
  router pod refines an operation of that multiset, and requests are routed by membership in it.
\<close>

section \<open>The mark of a version\<close>

lemma splitVersionMark_mark:
  assumes "CHR '':'' \<notin> set key" and "CHR '':'' \<notin> set version"
  shows "splitVersionMark (key @ '':'' @ version) = Value (replace_char key CHR ''-'' ''_'', version)"
  using assms by (simp add: splitVersionMark_def split_on_append_sep split_on_no_sep Let_def)

lemma splitVersionMark_panics: "splitVersionMark mark = Panic \<longleftrightarrow> CHR '':'' \<notin> set mark"
proof
  assume "splitVersionMark mark = Panic"
  then have "length (split_on CHR '':'' mark) < 2"
    by (simp add: splitVersionMark_def Let_def split: if_splits)
  then show "CHR '':'' \<notin> set mark"
    by (auto simp: length_split_on count_char_def filter_empty_conv)
qed (simp add: splitVersionMark_def split_on_no_sep)

section \<open>Abstract router\<close>

fun change_members :: "route_action \<Rightarrow> string \<Rightarrow> string multiset \<Rightarrow> string multiset" where
  "change_members AddVersion v m = add_mset v m"
| "change_members RemoveVersion v m = m - {#v#}"

fun members_after :: "(route_action \<times> string) list \<Rightarrow> string multiset \<Rightarrow> string multiset" where
  "members_after [] m = m"
| "members_after ((a, v) # cs) m = members_after cs (change_members a v m)"

text \<open>Nobody leaves an empty mesh: every remove meets at least one version.\<close>

fun calls_legal :: "(route_action \<times> string) list \<Rightarrow> string multiset \<Rightarrow> bool" where
  "calls_legal [] m \<longleftrightarrow> True"
| "calls_legal ((a, v) # cs) m \<longleftrightarrow> (a = RemoveVersion \<longrightarrow> m \<noteq> {#}) \<and> calls_legal cs (change_members a v m)"

lemma mset_change_versions: "mset (change_versions a v vs) = change_members a v (mset vs)"
  by (cases a) (simp_all add: change_versions_def)

section \<open>Runs of the program\<close>

text \<open>The command lines that AutoMesh and the cleanup of a session send to the pod.\<close>

definition setup_call :: "string \<Rightarrow> string \<Rightarrow> string \<Rightarrow> string list" where
  "setup_call service ports mark = [''router'', ''setup'', service, ports, mark]"

definition change_call :: "string \<Rightarrow> route_action \<times> string \<Rightarrow> string list" where
  "change_call key c = [''router'', (case fst c of AddVersion \<Rightarrow> ''add'' | RemoveVersion \<Rightarrow> ''remove''), key @ '':'' @ snd c]"

definition run_router :: "string list list \<Rightarrow> router_state \<Rightarrow> router_state" where
  "run_router calls s = fold (\<lambda>args s. snd (router_main args s)) calls s"

lemma run_router_Nil [simp]: "run_router [] s = s"
  and run_router_Cons [simp]: "run_router (c # cs) s = run_router cs (snd (router_main c s))"
  by (simp_all add: run_router_def)

text \<open>What the routes file does with requests, for a set of versions.\<close>

definition routes_serve :: "kt_conf \<Rightarrow> string set \<Rightarrow> nginx_conf \<Rightarrow> bool" where
  "routes_serve c versions n \<longleftrightarrow>
     map Listen (ServersConf n) = map (\<lambda>p. p ! 1) (ConfPorts c) \<and>
     (\<forall>i < length (ConfPorts c). \<forall>hv.
        route_request (ServersConf n ! i) hv =
          (case hv of
             Some v \<Rightarrow> if v \<in> versions then mesh_upstream c v (ConfPorts c ! i ! 0) else stuntman_upstream c (ConfPorts c ! i ! 0)
           | None \<Rightarrow> stuntman_upstream c (ConfPorts c ! i ! 0))) \<and>
     (\<forall>s \<in> set (ServersConf n). \<forall>hv. \<exists>u \<in> set (Upstreams n). UpName u = route_request s hv)"

lemma map_of_tagged: "map_of (map (\<lambda>v. (v, f v)) vs) v = (if v \<in> set vs then Some (f v) else None)"
  by (induction vs) auto

lemma route_port_server:
  "route_request (port_server c p) hv =
     (case hv of
        Some v \<Rightarrow> if v \<in> set (ConfVersions c) then mesh_upstream c v (p ! 0) else stuntman_upstream c (p ! 0)
      | None \<Rightarrow> stuntman_upstream c (p ! 0))"
  by (cases hv) (simp_all add: route_request_def port_server_def map_of_tagged)

lemma upstream_declared:
  "\<exists>u \<in> set (port_upstreams c p). UpName u = route_request (port_server c p) hv"
  unfolding route_port_server by (cases hv) (auto simp: port_upstreams_def)

lemma Listen_port_server [simp]: "Listen (port_server c p) = p ! 1"
  by (simp add: port_server_def)

definition routes_of :: "kt_conf \<Rightarrow> nginx_conf" where
  "routes_of c = \<lparr> Upstreams = concat (map (port_upstreams c) (ConfPorts c)), ServersConf = map (port_server c) (ConfPorts c) \<rparr>"

lemma routes_serve_routes_of: "routes_serve c (set (ConfVersions c)) (routes_of c)"
proof -
  have "\<exists>u \<in> set (Upstreams (routes_of c)). UpName u = route_request s hv"
    if s: "s \<in> set (ServersConf (routes_of c))" for s hv
  proof -
    obtain p where p: "p \<in> set (ConfPorts c)" "s = port_server c p" using s by (auto simp: routes_of_def)
    show ?thesis using upstream_declared [of c p hv] p by (auto simp: routes_of_def)
  qed
  then show ?thesis by (simp add: routes_serve_def route_port_server comp_def) (simp add: routes_of_def route_port_server comp_def)
qed

section \<open>The invariant of the files\<close>

text \<open>The configuration file holds \<open>c\<close> and the routes file is what the template makes of it.\<close>

definition router_holds :: "kt_conf \<Rightarrow> router_state \<Rightarrow> bool" where
  "router_holds c s \<longleftrightarrow> FilesWritable s \<and> ProcessAlive s \<and> KtConfFile s = ConfFile c \<and>
     list_all (\<lambda>p. 2 \<le> length p) (ConfPorts c) \<and>
     RouteFile s = (if ConfVersions c = [] then NoRoutes else Routes (ConfHeader c) (routes_of c))"

lemma write_routes_holds:
  assumes "FilesWritable s" and "ProcessAlive s" and "list_all (\<lambda>p. 2 \<le> length p) (ConfPorts c)"
    and "ConfVersions c = [] \<Longrightarrow> RouteFile s \<noteq> NoRoutes"
  shows "\<exists>t. andThen (WriteKtConf c s) (WriteAndReloadRouteConf c) = (Value (), t) \<and> router_holds c t \<and>
    Reloads t = Suc (Reloads s)"
  using assms
  by (auto simp: andThen_def WriteKtConf_def WriteAndReloadRouteConf_def writeRouteConf_def removeRouteConf_def
      reloadRouteConf_def route_template_def routes_of_def router_holds_def)

lemma updateRoute_holds:
  assumes h: "router_holds c s" and v: "a = RemoveVersion \<Longrightarrow> ConfVersions c \<noteq> []"
  shows "\<exists>t. updateRoute (ConfHeader c) v a s = (Value (), t) \<and>
    router_holds (c\<lparr>ConfVersions := change_versions a v (ConfVersions c)\<rparr>) t \<and> Reloads t = Suc (Reloads s)"
proof -
  let ?c = "c\<lparr>ConfVersions := change_versions a v (ConfVersions c)\<rparr>"
  have "RouteFile s \<noteq> NoRoutes" if "ConfVersions ?c = []"
    using that h v by (cases a) (auto simp: change_versions_def router_holds_def)
  then obtain t where "andThen (WriteKtConf ?c s) (WriteAndReloadRouteConf ?c) = (Value (), t)"
    "router_holds ?c t" "Reloads t = Suc (Reloads s)"
    using write_routes_holds [of s ?c] h by (auto simp: router_holds_def)
  then show ?thesis using h by (simp add: updateRoute_def ReadKtConf_def router_holds_def Let_def)
qed

lemma change_call_holds:
  assumes h: "router_holds c s" and v: "a = RemoveVersion \<Longrightarrow> ConfVersions c \<noteq> []"
    and k: "CHR '':'' \<notin> set key" "CHR '':'' \<notin> set v" "ConfHeader c = replace_char key CHR ''-'' ''_''"
  shows "\<exists>t. router_main (change_call key (a, v)) s = (Value (), t) \<and>
    router_holds (c\<lparr>ConfVersions := change_versions a v (ConfVersions c)\<rparr>) t"
proof -
  have "router_main (change_call key (a, v)) s = updateRoute (ConfHeader c) v a s"
    using splitVersionMark_mark [OF k(1,2)] k(3)
    by (cases a) (simp_all add: router_main_def change_call_def change_route_def)
  then show ?thesis using updateRoute_holds [where a = a and v = v, OF h v] by auto
qed

lemma setup_call_holds:
  assumes "FilesWritable s" and "ProcessAlive s" and "list_all (\<lambda>p. 2 \<le> length p) (getPorts ports)"
    and k: "CHR '':'' \<notin> set key" "CHR '':'' \<notin> set v"
  shows "\<exists>t. router_main (setup_call svc ports (key @ '':'' @ v)) s = (Value (), t) \<and>
    router_holds \<lparr> ConfService = svc, ConfPorts = getPorts ports, ConfHeader = replace_char key CHR ''-'' ''_'',
                   ConfVersions = [v] \<rparr> t"
  using write_routes_holds [of s "\<lparr> ConfService = svc, ConfPorts = getPorts ports,
      ConfHeader = replace_char key CHR ''-'' ''_'', ConfVersions = [v] \<rparr>"] assms splitVersionMark_mark [OF k]
  by (auto simp: router_main_def setup_call_def router_setup_def Let_def)

lemma run_router_holds:
  assumes "router_holds c s" and "calls_legal cs (mset (ConfVersions c))" and "\<forall>v \<in> snd ` set cs. CHR '':'' \<notin> set v"
    and k: "CHR '':'' \<notin> set key" and "ConfHeader c = replace_char key CHR ''-'' ''_''"
  shows "\<exists>vs. mset vs = members_after cs (mset (ConfVersions c)) \<and>
    router_holds (c\<lparr>ConfVersions := vs\<rparr>) (run_router (map (change_call key) cs) s)"
  using assms
proof (induction cs arbitrary: c s)
  case (Cons x cs)
  obtain a v where x: "x = (a, v)" by (cases x)
  have ne: "ConfVersions c \<noteq> []" if "a = RemoveVersion" using Cons.prems(2) that x by auto
  obtain t where t: "router_main (change_call key (a, v)) s = (Value (), t)"
    "router_holds (c\<lparr>ConfVersions := change_versions a v (ConfVersions c)\<rparr>) t"
    using change_call_holds [where a = a and v = v, OF Cons.prems(1) ne k] Cons.prems(3,5) x by auto
  from Cons.IH [OF t(2)] Cons.prems(2,3,5) k t(1) x show ?case by (simp add: mset_change_versions)
qed (auto intro: exI [of _ "ConfVersions c"])

section \<open>Properties\<close>



end
