(* ===== verification/RedirectProps.thy ===== *)
theory RedirectProps
  imports Exchange
begin

text \<open>
  What mesh and exchange promise about the service they redirect, whatever happens on the way: the
  lock is given back and the original selector is never lost.  The proofs carry a predicate of one
  service through every call of the commands, by rules for the control structures and one rule per
  call.
\<close>

section \<open>Predicates that a computation keeps\<close>

definition stays :: "('w \<Rightarrow> bool) \<Rightarrow> ('w prog, 'a) state \<Rightarrow> bool" where
  "stays P m \<longleftrightarrow> (\<forall>s. P (World s) \<longrightarrow> P (World (snd (run_state m s))))"

named_theorems stays_intros \<open>control structures and calls that keep the predicate\<close>

lemma staysD: "stays P m \<Longrightarrow> run_state m s = (r, t) \<Longrightarrow> P (World s) \<Longrightarrow> P (World t)"
  unfolding stays_def by (metis snd_conv)

lemma stays_return [stays_intros]: "stays P (State_Monad.return a)"
  by (simp add: stays_def)

lemma stays_bind [stays_intros]: "stays P m \<Longrightarrow> (\<And>x. stays P (f x)) \<Longrightarrow> stays P (State_Monad.bind m f)"
  unfolding stays_def by (simp add: split_def)

lemma stays_try [stays_intros]: "stays P m \<Longrightarrow> (\<And>x. stays P (f x)) \<Longrightarrow> stays P (go_try m f)"
  unfolding go_try_def by (intro stays_bind) (auto intro: stays_return split: outcome.split)

lemma stays_catch [stays_intros]:
  "stays P m \<Longrightarrow> (\<And>x. stays P (f x)) \<Longrightarrow> (\<And>e. stays P (h e)) \<Longrightarrow> stays P (go_catch m f h)"
  unfolding go_catch_def by (intro stays_bind) (auto intro: stays_return split: outcome.split)

lemma stays_store [stays_intros]: "stays P (set_store f)" "stays P get_store" "stays P (SetupHeartBeat a b c)"
  by (simp_all add: stays_def)

lemma stays_prod [stays_intros]: "(\<And>a b. p = (a, b) \<Longrightarrow> stays P (f a b)) \<Longrightarrow> stays P (case p of (a, b) \<Rightarrow> f a b)"
  by (cases p) simp

lemma stays_option [stays_intros]:
  "(q = None \<Longrightarrow> stays P f) \<Longrightarrow> (\<And>x. q = Some x \<Longrightarrow> stays P (g x)) \<Longrightarrow> stays P (case q of None \<Rightarrow> f | Some x \<Rightarrow> g x)"
  by (cases q) simp_all

lemma stays_outcome [stays_intros]:
  "(\<And>x. q = Value x \<Longrightarrow> stays P (f x)) \<Longrightarrow> (\<And>e. q = Fail e \<Longrightarrow> stays P (g e)) \<Longrightarrow> (q = Panic \<Longrightarrow> stays P h) \<Longrightarrow>
   stays P (case q of Value x \<Rightarrow> f x | Fail e \<Rightarrow> g e | Panic \<Rightarrow> h)"
  by (cases q) simp_all

lemma stays_list [stays_intros]:
  "(q = [] \<Longrightarrow> stays P f) \<Longrightarrow> (\<And>x xs. q = x # xs \<Longrightarrow> stays P (g x xs)) \<Longrightarrow> stays P (case q of [] \<Rightarrow> f | x # xs \<Rightarrow> g x xs)"
  by (cases q) simp_all

lemma stays_if [stays_intros]: "(b \<Longrightarrow> stays P m) \<Longrightarrow> (\<not> b \<Longrightarrow> stays P n) \<Longrightarrow> stays P (if b then m else n)"
  by simp

lemma stays_lift: "(\<And>w. P w \<Longrightarrow> P (snd (run_state m w))) \<Longrightarrow> stays P (lift_io m)"
  by (simp add: stays_def split_def)

lemma stays_each: "(\<And>x. stays P (f x)) \<Longrightarrow> stays P (go_each f xs)"
  by (induction xs) (auto intro: stays_intros)

lemma stays_defer: "stays P m \<Longrightarrow> stays P c \<Longrightarrow> stays P (go_defer m c)"
  unfolding go_defer_def by (intro stays_intros)

text \<open>The waits poll the cluster and sleep.\<close>

lemma stays_waiting:
  assumes "\<And>x ms. stays P (GetPod k x ms)" and "\<And>l ms. stays P (GetPodsByLabel k l ms)" and "\<And>n. stays P (sleep k n)"
  shows "stays P (waitPodReady k x ms t tries)" "stays P (waitPodsReady k l ms t tries)" "stays P (waitPodTerminate k x ms tries)"
proof -
  show "stays P (waitPodReady k x ms t tries)"
    using assms by (induction k x ms t tries rule: waitPodReady.induct, subst waitPodReady.simps) (auto intro!: stays_intros)
  show "stays P (waitPodsReady k l ms t tries)"
    using assms by (induction k l ms t tries rule: waitPodsReady.induct, subst waitPodsReady.simps) (auto intro!: stays_intros)
  show "stays P (waitPodTerminate k x ms tries)"
    using assms by (induction k x ms tries rule: waitPodTerminate.induct, subst waitPodTerminate.simps) (auto intro!: stays_intros)
qed

text \<open>A continuation that is only asked about the values it is given, in a world with the invariant.\<close>

lemma stays_try_seen:
  assumes "stays (P :: 'w \<Rightarrow> bool) m" and "\<And>y s t. P (World s) \<Longrightarrow> run_state m s = (Value y, t) \<Longrightarrow> stays P (f y)"
  shows "stays P (go_try m f)"
  unfolding stays_def
proof (intro allI impI)
  fix s :: "'w prog" assume p: "P (World s)"
  obtain r t where m: "run_state m s = (r, t)" by fastforce
  with assms(1) p have "P (World t)" by (metis staysD)
  with assms(2) [OF p] m show "P (World (snd (run_state (go_try m f) s)))"
    by (cases r) (auto simp: stays_def)
qed

section \<open>One service of the cluster\<close>

definition svc_at :: "('w \<Rightarrow> cluster_objects) \<Rightarrow> string \<Rightarrow> string \<Rightarrow> (service \<Rightarrow> bool) \<Rightarrow> 'w \<Rightarrow> bool" where
  "svc_at view ns n Q w \<longleftrightarrow> (\<exists>svc. find_obj (ClServices (view w)) ns n = Some svc \<and> Q svc)"

lemma svc_at_view: "view w' = view w \<Longrightarrow> svc_at view ns n Q w \<Longrightarrow> svc_at view ns n Q w'"
  by (simp add: svc_at_def)

lemma svc_at_services: "ClServices (view w') = ClServices (view w) \<Longrightarrow> svc_at view ns n Q w \<Longrightarrow> svc_at view ns n Q w'"
  by (simp add: svc_at_def)

text \<open>
  The calls outside the API server: making a key, writing it and forwarding a port leave the cluster
  alone.  A patch (a heartbeat) changes the object it names, and no other.
\<close>

definition side_calls_ok :: "'w kube \<Rightarrow> ('w \<Rightarrow> cluster_objects) \<Rightarrow> 'w forwarder \<Rightarrow> bool" where
  "side_calls_ok k view forward \<longleftrightarrow>
     (\<forall>w p. view (snd (run_state (GenerateKey k p) w)) = view w) \<and>
     (\<forall>w p x. view (snd (run_state (WritePrivateKey k p x) w)) = view w) \<and>
     (\<forall>w a b c. view (snd (run_state (forward a b c) w)) = view w) \<and>
     (\<forall>w ns n body. ClServices (view (snd (run_state (api_patch (PodsApi k) ns n body) w))) = ClServices (view w)) \<and>
     (\<forall>w ns n body ms m. (ms, m) \<noteq> (ns, n) \<longrightarrow>
        find_obj (ClServices (view (snd (run_state (api_patch (ServicesApi k) ns n body) w)))) ms m =
        find_obj (ClServices (view w)) ms m)"

lemma svc_at_create: "svc_at view ns n Q w \<Longrightarrow> crud_ok c view ClServices set_services \<Longrightarrow>
  svc_at view ns n Q (snd (run_state (api_create c ms ob) w))"
  by (cases "run_state (api_create c ms ob) w")
     (auto simp: svc_at_def create_spec_def set_services_def find_obj_append dest!: crud_create split: option.splits)

lemma keeps_services:
  assumes "crud_ok c view sel upd" and "\<And>x v. ClServices (upd x v) = ClServices v"
  shows "ClServices (view (snd (run_state (api_create c ns ob) w))) = ClServices (view w)"
    and "ClServices (view (snd (run_state (api_update c ns ob) w))) = ClServices (view w)"
    and "ClServices (view (snd (run_state (api_delete c ns n) w))) = ClServices (view w)"
  using assms(2) crud_create [OF assms(1)] crud_update [OF assms(1)] crud_delete [OF assms(1)]
  by (metis prod.collapse)+

text \<open>Every call of the API, of the clock and of the machine keeps a predicate of the service.\<close>

lemma stays_reads [stays_intros]:
  assumes a: "api_server k view"
  shows "stays (svc_at view ns n Q) (GetPod k x ms)" "stays (svc_at view ns n Q) (GetPodsByLabel k l ms)"
    "stays (svc_at view ns n Q) (GetDeployment k x ms)" "stays (svc_at view ns n Q) (GetDeploymentsByLabel k l ms)"
    "stays (svc_at view ns n Q) (GetAllDeploymentInNamespace k ms)"
    "stays (svc_at view ns n Q) (GetService k x ms)" "stays (svc_at view ns n Q) (GetAllServiceInNamespace k ms)"
    "stays (svc_at view ns n Q) (GetConfigMap k x ms)"
  unfolding api_call_defs
  by (simp_all add: stays_def crud_get [OF api_pods [OF a]] crud_list [OF api_pods [OF a]]
      crud_get [OF api_deployments [OF a]] crud_list [OF api_deployments [OF a]]
      crud_get [OF api_services [OF a]] crud_list [OF api_services [OF a]]
      crud_get [OF api_config_maps [OF a]])

lemma stays_clock [stays_intros]:
  assumes a: "api_server k view"
  shows "stays (svc_at view ns n Q) (now k)" "stays (svc_at view ns n Q) (sleep k t)"
    "stays (svc_at view ns n Q) (ExecInPod k c p ms cmd)"
  unfolding now_def sleep_def ExecInPod_def
  by (auto simp: api_time [OF a] runs_services [OF api_sleep [OF a]] api_exec [OF a] svc_at_def Let_def intro!: stays_intros stays_lift)

lemma stays_writes [stays_intros]:
  assumes a: "api_server k view"
  shows "stays (svc_at view ns n Q) (lift_io (api_create (PodsApi k) ms p))" "stays (svc_at view ns n Q) (UpdatePod k p)"
    "stays (svc_at view ns n Q) (lift_io (api_create (DeploymentsApi k) ms d))" "stays (svc_at view ns n Q) (UpdateDeployment k d)"
    "stays (svc_at view ns n Q) (lift_io (api_create (ConfigMapsApi k) ms cm))"
    "stays (svc_at view ns n Q) (lift_io (api_create (ServicesApi k) ms svc))"
  unfolding api_call_defs
  using keeps_services [OF api_pods [OF a]] keeps_services [OF api_deployments [OF a]] keeps_services [OF api_config_maps [OF a]]
  by (auto intro!: stays_lift svc_at_create [OF _ api_services [OF a]] intro: svc_at_services simp: set_kinds)

lemma stays_side_calls [stays_intros]:
  assumes c: "side_calls_ok k view forward"
  shows "stays (svc_at view ns n Q) (lift_io (GenerateKey k p))" "stays (svc_at view ns n Q) (lift_io (WritePrivateKey k p x))"
    "stays (svc_at view ns n Q) (lift_io (forward e p x))"
  using c by (auto simp: side_calls_ok_def intro!: stays_lift intro: svc_at_view)

lemma stays_heart_beats:
  assumes a: "api_server k view" and c: "side_calls_ok k view forward"
  shows "stays (svc_at view ns n Q) (UpdatePodHeartBeat k x ms)"
    and "(ns, n) \<noteq> (ms, x) \<Longrightarrow> stays (svc_at view ns n Q) (UpdateServiceHeartBeat k x ms)"
proof -
  have P: "stays (svc_at view ns n Q) (lift_io (api_patch (PodsApi k) ms x body))" for body
    using c by (auto simp: side_calls_ok_def intro!: stays_lift intro: svc_at_services)
  have S: "stays (svc_at view ns n Q) (lift_io (api_patch (ServicesApi k) ms x body))" if "(ns, n) \<noteq> (ms, x)" for body
    using c that by (auto simp: side_calls_ok_def svc_at_def intro!: stays_lift)
  have U: "stays (svc_at view ns n Q) (update_heart_beat k kind patch x ms)"
    if "\<And>body. stays (svc_at view ns n Q) (lift_io (patch ms x body))" for kind patch
    unfolding update_heart_beat_def
    by (intro stays_bind stays_clock [OF a] that)
       (auto simp: stays_def Let_def split: outcome.split prod.split)
  show "stays (svc_at view ns n Q) (UpdatePodHeartBeat k x ms)" unfolding UpdatePodHeartBeat_def by (rule U) (rule P)
  show "(ns, n) \<noteq> (ms, x) \<Longrightarrow> stays (svc_at view ns n Q) (UpdateServiceHeartBeat k x ms)"
    unfolding UpdateServiceHeartBeat_def by (rule U) (rule S)
qed

section \<open>The operations of the cluster package\<close>

lemma stays_waits [stays_intros]:
  assumes a: "api_server k view"
  shows "stays (svc_at view ns n Q) (waitPodReady k x ms t tries)"
    and "stays (svc_at view ns n Q) (waitPodsReady k l ms t tries)"
    and "stays (svc_at view ns n Q) (waitPodTerminate k x ms tries)"
  by (rule stays_waiting; rule stays_reads [OF a] stays_clock [OF a])+

lemma stays_cluster_ops [stays_intros]:
  assumes a: "api_server k view"
  shows "stays (svc_at view ns n Q) (IncreasePodRef k x ms)" "stays (svc_at view ns n Q) (IncreaseDeploymentRef k x ms)"
    "stays (svc_at view ns n Q) (CreateService k m)" "stays (svc_at view ns n Q) (ScaleTo k x ms r)"
    "stays (svc_at view ns n Q) (createConfigMapWithSshKey k l cm ms g)"
    "stays (svc_at view ns n Q) (CreateRouterPod k opts x l an ports)"
  unfolding IncreasePodRef_def IncreaseDeploymentRef_def CreateService_def ScaleTo_def createConfigMapWithSshKey_def
    CreateRouterPod_def Let_def
  by (intro stays_intros a)+

lemma stays_create_shadow [stays_intros]:
  assumes a: "api_server k view" and c: "side_calls_ok k view forward"
  shows "stays (svc_at view ns n Q) (createShadow k opts m ssh)"
proof -
  have "stays (svc_at view ns n Q) (createAndGetPod k opts m cm)" for cm
    unfolding createAndGetPod_def createShadowDeployment_def createShadowPod_def by (intro stays_intros a)
  then show ?thesis unfolding createShadow_def by (intro stays_intros a stays_side_calls [OF c])
qed

lemma stays_existing_shadows:
  assumes a: "api_server k view" and c: "side_calls_ok k view forward"
  shows "stays (svc_at view ns n Q) (tryGetExistingShadows k opts r ssh)"
  unfolding tryGetExistingShadows_def existing_shadow_pod_def shadow_without_configmap_def Let_def
  by (intro stays_intros a stays_side_calls [OF c])

lemma stays_shadow_and_inbound:
  assumes a: "api_server k view" and c: "side_calls_ok k view forward"
  shows "stays (svc_at view ns n Q) (CreateShadowAndInbound k opts forward x e l an d)"
proof -
  have "stays (svc_at view ns n Q) (GetOrCreateShadow k opts x l an envs e d)" for envs
    unfolding GetOrCreateShadow_def Let_def
    by (intro stays_intros a stays_existing_shadows [OF a c] stays_create_shadow [OF a c])
  then show ?thesis
    unfolding CreateShadowAndInbound_def by (intro stays_intros stays_side_calls [OF c])
qed

section \<open>The parts of the commands\<close>

lemma stays_target_ports [stays_intros]:
  assumes a: "api_server k view"
  shows "stays (svc_at view ns n Q) (GetTargetPorts k opts svc)"
proof -
  have "stays (svc_at view ns n Q) (target_ports_loop k opts svc ps po m)" for ps po m
    by (induction ps arbitrary: po m) (auto intro!: stays_intros a split: int_or_string.split)
  then show ?thesis by (simp add: GetTargetPorts_def)
qed

lemma stays_name_usable [stays_intros]:
  "api_server k view \<Longrightarrow> stays (svc_at view ns n Q) (isNameUsable k opts x v tries)"
  by (induction k opts x v tries rule: isNameUsable.induct, subst isNameUsable.simps) (auto intro!: stays_intros)

lemma stays_router [stays_intros]:
  assumes a: "api_server k view" and c: "side_calls_ok k view forward"
  shows "stays (svc_at view ns n Q) (createRouter k opts r x y ports l v)"
  unfolding createRouter_def current_router_def router_command_def Let_def
  by (intro stays_intros a stays_heart_beats(1) [OF a c])

lemma stays_stuntman [stays_intros]:
  assumes a: "api_server k view" and c: "side_calls_ok k view forward" and n: "(ns, n) = (Global_Namespace opts, Name svc)"
  shows "stays (svc_at view ns n Q) (createStuntmanService k opts svc ports)"
proof -
  have "(ns, n) \<noteq> (Global_Namespace opts, Name svc @ StuntmanServiceSuffix)" using n by simp
  from stays_heart_beats(2) [OF a c this] show ?thesis
    unfolding createStuntmanService_def Let_def by (intro stays_intros a)
qed

lemma stays_occupied_user [stays_intros]:
  "api_server k view \<Longrightarrow> stays (svc_at view ns n Q) (GetOccupiedUser k opts l)"
  unfolding GetOccupiedUser_def by (intro stays_intros)

text \<open>The redirection itself keeps that the service can be restored.\<close>

lemma stays_update_selector:
  assumes a: "api_server k view" and p: "plain_service orig"
  shows "stays (svc_at view ns n (restorable orig)) (UpdateServiceSelector k n ns sel)"
  using UpdateServiceSelector_restorable [OF a _ p] unfolding stays_def svc_at_def
  by (metis snd_conv)

lemma stays_auto_mesh:
  assumes a: "api_server k view" and c: "side_calls_ok k view forward" and p: "plain_service orig"
    and n: "Name svc = n" "Global_Namespace opts = ns"
  shows "stays (svc_at view ns n (restorable orig)) (auto_mesh_locked k opts forward expose rnd svc)"
  unfolding auto_mesh_locked_def Let_def createShadowService_def n
  by (intro stays_intros a stays_stuntman [OF a c] stays_router [OF a c] stays_update_selector [OF a p]
      stays_shadow_and_inbound [OF a c]) (simp_all add: n)

section \<open>Holding the lock\<close>

definition unlocked :: "service \<Rightarrow> service" where
  "unlocked svc = svc\<lparr>Annotations := mdelete (Annotations svc) KtLock\<rparr>"

lemma restorable_locked:
  assumes "restorable orig cur" and "same_service cur svc" and "Selector svc = Selector cur"
    and "mlookup (Annotations svc) = (mlookup (Annotations cur))(KtLock \<mapsto> l)"
  shows "restorable (orig\<lparr>Annotations := mput (Annotations orig) KtLock l\<rparr>) svc"
  using assms by (auto simp: restorable_def same_service_def same_annotations_def)

lemma restorable_unlocked:
  assumes "restorable (orig\<lparr>Annotations := mput (Annotations orig) KtLock l\<rparr>) cur" and "same_service cur svc"
    and "Selector svc = Selector cur" and "mlookup (Annotations svc) = (mlookup (Annotations cur))(KtLock := None)"
  shows "restorable (unlocked orig) svc"
  using assms by (auto simp: restorable_def same_service_def same_annotations_def unlocked_def)

lemma plain_lock: "plain_service orig \<Longrightarrow> plain_service (orig\<lparr>Annotations := mput (Annotations orig) KtLock l\<rparr>)"
  "plain_service orig \<Longrightarrow> plain_service (unlocked orig)"
  by (simp_all add: plain_service_def unlocked_def)

lemma locked_section:
  assumes a: "api_server k view" and f: "find_obj (ClServices (view (World s))) ns n = Some cur"
    and r: "restorable orig cur" and p: "plain_service orig"
    and free: "\<not> lock_alive (time_of k s) (mlookup (Annotations cur) KtLock)"
    and body: "\<And>svc orig'. Name svc = n \<Longrightarrow> plain_service orig' \<Longrightarrow> stays (svc_at view ns n (restorable orig')) (body svc)"
  shows "\<exists>svc s1 t cur'. run_state (LockService k n ns 0) s = (Value svc, s1) \<and>
    run_state (go_try (LockService k n ns 0) (\<lambda>svc. go_defer (body svc) (UnlockService k (Name svc) ns))) s
      = (fst (run_state (body svc) s1), t) \<and>
    find_obj (ClServices (view (World s1))) ns n = Some svc \<and> same_service cur svc \<and> Selector svc = Selector cur \<and>
    mlookup (Annotations svc) = (mlookup (Annotations cur))(KtLock \<mapsto> GetTimestamp (time_of k s)) \<and>
    find_obj (ClServices (view (World t))) ns n = Some cur' \<and> restorable (unlocked orig) cur' \<and>
    mlookup (Annotations cur') KtLock = None \<and>
    (\<exists>c2. find_obj (ClServices (view (World (snd (run_state (body svc) s1))))) ns n = Some c2 \<and> Selector cur' = Selector c2)"
proof -
  let ?l = "GetTimestamp (time_of k s)"
  obtain s1 svc where l: "run_state (LockService k n ns 0) s = (Value svc, s1)"
    "find_obj (ClServices (view (World s1))) ns n = Some svc" "same_service cur svc" "Selector svc = Selector cur"
    "mlookup (Annotations svc) = (mlookup (Annotations cur))(KtLock \<mapsto> ?l)"
    using LockService_free [OF a f free, of 0] by auto
  have n: "Name svc = n" using find_obj_Some [OF l(2)] by simp
  obtain res s2 where b: "run_state (body svc) s1 = (res, s2)" by fastforce
  have "svc_at view ns n (restorable (orig\<lparr>Annotations := mput (Annotations orig) KtLock ?l\<rparr>)) (World s1)"
    using l(2) restorable_locked [OF r l(3-5)] by (auto simp: svc_at_def)
  from staysD [OF body [OF n plain_lock(1) [OF p]] b this]
  obtain c2 where c2: "find_obj (ClServices (view (World s2))) ns n = Some c2"
    "restorable (orig\<lparr>Annotations := mput (Annotations orig) KtLock ?l\<rparr>) c2" by (auto simp: svc_at_def)
  obtain t cur' where u: "run_state (UnlockService k n ns) s2 = (Value (), t)"
    "find_obj (ClServices (view (World t))) ns n = Some cur'" "same_service c2 cur'" "Selector cur' = Selector c2"
    "mlookup (Annotations cur') = (mlookup (Annotations c2))(KtLock := None)"
    using UnlockService_free [OF a c2(1)] by blast
  have "restorable (unlocked orig) cur'" "mlookup (Annotations cur') KtLock = None"
    using restorable_unlocked [OF c2(2) u(3-5)] u(5) by simp_all
  with l u(1,2,4) c2(1) b n show ?thesis by auto
qed

section \<open>The properties\<close>

text \<open>
  C2.  Whatever happens in an auto mesh (a refusal, an error of any call, a panic, or success), for a
  service that nobody holds locked: afterwards the service is not locked, it carries the record of its
  original selector or still has that selector, and recovering it gives the original back; and a
  service that is being exchanged is refused.
\<close>

theorem mesh_never_loses_selector:
  assumes "api_server k view" and "side_calls_ok k view forward"
    and "find_obj (ClServices (view (World s))) (Global_Namespace opts) (Name svc0) = Some cur"
    and "restorable orig cur" and "plain_service orig"
    and "\<not> lock_alive (time_of k s) (mlookup (Annotations cur) KtLock)"
  shows "\<exists>res t cur' u given. run_state (AutoMesh k opts forward expose rnd svc0) s = (res, t) \<and>
    find_obj (ClServices (view (World t))) (Global_Namespace opts) (Name svc0) = Some cur' \<and>
    mlookup (Annotations cur') KtLock = None \<and> restorable (unlocked orig) cur' \<and>
    (mlookup (Annotations cur) KtSelector \<noteq> None \<and> mget (Selector cur) KtRole = ''shadow-exchange'' \<longrightarrow>
       (\<exists>e. res = Fail e)) \<and>
    run_state (RecoverOriginalService k (Name svc0) (Global_Namespace opts)) t = (Value (), u) \<and>
    find_obj (ClServices (view (World u))) (Global_Namespace opts) (Name svc0) = Some given \<and> restored (unlocked orig) given"
proof -
  let ?ns = "Global_Namespace opts" and ?n = "Name svc0"
  have body: "stays (svc_at view ?ns ?n (restorable orig')) (auto_mesh_locked k opts forward expose rnd svc)"
    if "Name svc = ?n" "plain_service orig'" for svc orig'
    using stays_auto_mesh [OF assms(1,2) that(2,1)] by simp
  obtain svc s1 t cur' where l: "run_state (AutoMesh k opts forward expose rnd svc0) s
      = (fst (run_state (auto_mesh_locked k opts forward expose rnd svc) s1), t)"
    "Selector svc = Selector cur" "mlookup (Annotations svc) = (mlookup (Annotations cur))(KtLock \<mapsto> GetTimestamp (time_of k s))"
    and e: "find_obj (ClServices (view (World t))) ?ns ?n = Some cur'" "restorable (unlocked orig) cur'"
      "mlookup (Annotations cur') KtLock = None"
    using locked_section [where body = "auto_mesh_locked k opts forward expose rnd", OF assms(1,3,4,5,6) body]
    unfolding AutoMesh_def by blast
  obtain u given where u: "run_state (RecoverOriginalService k ?n ?ns) t = (Value (), u)"
    "find_obj (ClServices (view (World u))) ?ns ?n = Some given" "restored (unlocked orig) given"
    using RecoverOriginalService_restored [OF assms(1) e(1) plain_lock(2) [OF assms(5)] e(2)] by blast
  have "\<exists>e. fst (run_state (auto_mesh_locked k opts forward expose rnd svc) s1) = Fail e"
    if x: "mlookup (Annotations cur) KtSelector \<noteq> None" "mget (Selector cur) KtRole = ''shadow-exchange''"
  proof -
    have "mget (Annotations svc) KtSelector = json_marshal (Selector orig)"
      using x(1) assms(4) l(3) by (auto simp: restorable_def mget_def)
    then have "Annotations svc \<noteq> NilMap \<and> mget (Annotations svc) KtSelector \<noteq> []"
      using json.not_empty [of "Selector orig"] by auto
    with x(2) l(2) show ?thesis by (simp add: auto_mesh_locked_def split_def)
  qed
  with l(1) e u show ?thesis by blast
qed

lemma restorable_plain: "plain_service orig \<Longrightarrow> restorable orig orig"
  by (simp add: restorable_def same_service_def same_annotations_def plain_service_def)

text \<open>The concrete inputs: a server in memory, a forwarding that always works, and a service of its own.\<close>

definition mem_forward :: "cluster_objects forwarder" where
  "mem_forward a b c = State_Monad.return (Value 2222)"

definition mem_web :: service where
  "mem_web = mem_service ''web'' (GoMap []) (GoMap [(''app'', ''web'')])"

definition mem_web_prog :: "cluster_objects prog" where
  "mem_web_prog = mem_prog \<lparr> ClPods = [], ClDeployments = [], ClServices = [mem_web], ClConfigMaps = [] \<rparr>"

lemma mem_side_calls: "side_calls_ok (mem_kube t) (\<lambda>w. w) mem_forward"
  by (simp add: side_calls_ok_def mem_kube_def mem_crud_def mem_forward_def)

lemma live_side_calls: "side_calls_ok (live_kube t) (\<lambda>w. w) mem_forward"
  by (simp add: side_calls_ok_def live_kube_def mem_kube_def mem_crud_def mem_forward_def)

lemma mem_web_facts:
  "find_obj (ClServices (World mem_web_prog)) ''default'' ''web'' = Some mem_web" "plain_service mem_web"
  "mlookup (Annotations mem_web) j = None" "Name mem_web = ''web''"
  by (simp_all add: mem_web_prog_def mem_prog_def mem_web_def mem_service_def is_obj_def plain_service_def mget_def mlookup_def mwf_def)

lemma mesh_never_loses_selector_witness:
  "\<exists>res t. run_state (AutoMesh (mem_kube 1000) mem_opts mem_forward ''8080'' (\<lambda>i. ''abcde'') mem_web) mem_web_prog = (res, t) \<and>
     (\<exists>svc. find_obj (ClServices (World t)) ''default'' ''web'' = Some svc \<and> mlookup (Annotations svc) KtLock = None)"
proof -
  have "\<not> lock_alive (time_of (mem_kube 1000) mem_web_prog) (mlookup (Annotations mem_web) KtLock)"
    by (simp add: mem_web_facts lock_alive_def)
  from mesh_never_loses_selector [OF mem_kube_ok mem_side_calls _ restorable_plain [OF mem_web_facts(2)] mem_web_facts(2) this,
      where opts = mem_opts and ?svc0.0 = mem_web and expose = "''8080''" and rnd = "\<lambda>i. ''abcde''"]
  show ?thesis by (fastforce simp: mem_web_facts)
qed

lemma target_ports_read:
  assumes a: "api_server k view"
  shows "snd (run_state (GetTargetPorts k opts svc) s) = s"
proof -
  have "snd (run_state (target_ports_loop k opts svc ps po m) s) = s" for ps po m
    by (induction ps arbitrary: po m)
       (auto simp: GetPodsByLabel_def crud_list [OF api_pods [OF a]] list_spec_def split: int_or_string.split option.split list.split)
  then show ?thesis by (simp add: GetTargetPorts_def)
qed

lemma exchange_refused:
  assumes "restorable orig cur" and "Selector svc = Selector cur"
    and "mlookup (Annotations svc) = (mlookup (Annotations cur))(KtLock \<mapsto> l)" and "mlookup (Annotations cur) KtSelector \<noteq> None"
  shows "\<exists>e. fst (run_state (selector_exchange_locked k opts forward expose rnd svc) s) = Fail e"
proof -
  have "mget (Annotations svc) KtSelector = json_marshal (Selector orig)"
    using assms by (auto simp: restorable_def mget_def)
  then have "Annotations svc \<noteq> NilMap \<and> mget (Annotations svc) KtSelector \<noteq> []"
    using json.not_empty [of "Selector orig"] by auto
  then show ?thesis by (auto simp: selector_exchange_locked_def exchange_conflict_def split_def)
qed

lemma stays_selector_exchange:
  assumes a: "api_server k view" and c: "side_calls_ok k view forward" and p: "plain_service orig"
    and n: "Name svc = n" "Global_Namespace opts = ns"
  shows "stays (svc_at view ns n (restorable orig)) (selector_exchange_locked k opts forward expose rnd svc)"
  unfolding selector_exchange_locked_def Let_def n
  by (intro stays_intros a stays_update_selector [OF a p] stays_shadow_and_inbound [OF a c])

lemma exchange_selects_shadow:
  assumes a: "api_server k view" and c: "side_calls_ok k view forward" and p: "plain_service orig"
    and n: "Name svc = n" "Global_Namespace opts = ns"
    and f: "svc_at view ns n (restorable orig) (World s)"
    and v: "fst (run_state (selector_exchange_locked k opts forward expose rnd svc) s) = Value ()"
    and x: "find_obj (ClServices (view (World (snd (run_state (selector_exchange_locked k opts forward expose rnd svc) s))))) ns n = Some c2"
  shows "MapEquals (Selector c2) (labels_after opts (GoMap [(KtRole, ''shadow-exchange''), (KtTarget, rnd 1)])) \<or>
    Selector c2 = labels_after opts (GoMap [(KtRole, ''shadow-exchange''), (KtTarget, rnd 1)])"
proof -
  let ?labels = "GoMap [(KtRole, ''shadow-exchange''), (KtTarget, rnd 1)]"
  have none: "exchange_conflict svc = None"
    using v by (cases "exchange_conflict svc") (simp_all add: selector_exchange_locked_def split_def)
  obtain r1 s1 where r1: "run_state (GetTargetPorts k opts svc) s = (r1, s1)" by fastforce
  then obtain d where d: "r1 = Value d"
    using v none by (cases r1) (simp_all add: selector_exchange_locked_def Let_def)
  obtain r2 s2 where r2: "run_state (CreateShadowAndInbound k opts forward (Name svc @ ExchangePodInfix @ to_lower (rnd 0)) expose
      ?labels (GoMap [(KtConfig, ''service='' @ Name svc)]) d) s1 = (r2, s2)" by fastforce
  then have rv: "r2 = Value ()"
    using v none r1 d by (cases r2) (simp_all add: selector_exchange_locked_def Let_def)
  let ?s2 = "s2\<lparr>Store := (Store s2)\<lparr>Store_Origin := Name svc\<rparr>\<rparr>"
  have run: "run_state (selector_exchange_locked k opts forward expose rnd svc) s =
      run_state (UpdateServiceSelector k n ns (labels_after opts ?labels)) ?s2"
    using none r1 d r2 rv n by (simp add: selector_exchange_locked_def Let_def)
  have "svc_at view ns n (restorable orig) (World s2)"
    using staysD [OF stays_shadow_and_inbound [OF a c] r2 staysD [OF stays_target_ports [OF a] r1 f]] .
  then obtain c1 where c1: "find_obj (ClServices (view (World ?s2))) ns n = Some c1" "restorable orig c1"
    by (auto simp: svc_at_def)
  from UpdateServiceSelector_restorable [OF a c1(1) p c1(2), of "labels_after opts ?labels"] x run
  show ?thesis by auto
qed

text \<open>
  C3.  The same for an exchange by selector of a service, which is refused when the service is
  redirected already; and when it succeeds the service selects the new shadow.
\<close>

theorem exchange_never_loses_selector:
  assumes "api_server k view" and "side_calls_ok k view forward"
    and "ParseResourceName resourceName = Value (kind, name)" and "kind \<in> {''svc'', ''service''}"
    and "find_obj (ClServices (view (World s))) (Global_Namespace opts) name = Some cur"
    and "restorable orig cur" and "plain_service orig" and "mlookup (Annotations cur) KtLock = None"
  shows "\<exists>res t cur' u given. run_state (BySelector k opts forward expose rnd resourceName) s = (res, t) \<and>
    find_obj (ClServices (view (World t))) (Global_Namespace opts) name = Some cur' \<and>
    mlookup (Annotations cur') KtLock = None \<and> restorable (unlocked orig) cur' \<and>
    (mlookup (Annotations cur) KtSelector \<noteq> None \<longrightarrow> res \<noteq> Value ()) \<and>
    (let labels = labels_after opts (GoMap [(KtRole, ''shadow-exchange''), (KtTarget, rnd 1)])
     in res = Value () \<longrightarrow> MapEquals (Selector cur') labels \<or> Selector cur' = labels) \<and>
    run_state (RecoverOriginalService k name (Global_Namespace opts)) t = (Value (), u) \<and>
    find_obj (ClServices (view (World u))) (Global_Namespace opts) name = Some given \<and> restored (unlocked orig) given"
proof -
  let ?ns = "Global_Namespace opts" and ?labels = "labels_after opts (GoMap [(KtRole, ''shadow-exchange''), (KtTarget, rnd 1)])"
  let ?body = "selector_exchange_locked k opts forward expose rnd"
  have nm: "Name cur = name" using find_obj_Some [OF assms(5)] by simp
  obtain r1 where ports: "run_state (GetTargetPorts k opts cur) s = (r1, s)"
    using target_ports_read [OF assms(1)] by (metis prod.collapse)
  have start: "run_state (BySelector k opts forward expose rnd resourceName) s =
     (case r1 of Value svcPorts \<Rightarrow>
        if FindInvalidRemotePort expose svcPorts \<noteq> []
        then (Fail (Errorf (''target port '' @ FindInvalidRemotePort expose svcPorts @ '' not exists in service '' @ name)), s)
        else run_state (go_try (LockService k name ?ns 0) (\<lambda>svc. go_defer (?body svc) (UnlockService k (Name svc) ?ns))) s
      | Fail e \<Rightarrow> (Fail e, s) | Panic \<Rightarrow> (Panic, s))"
    using ports assms(3,4) nm
    by (cases r1; cases "kind = ''svc''") (simp_all add: BySelector_def GetServiceByResourceName_def GetService_found [OF assms(1,5)])
  have free: "\<not> lock_alive (time_of k s) (mlookup (Annotations cur) KtLock)"
    using assms(8) by (simp add: lock_alive_def)
  have keep: "restorable (unlocked orig) cur"
    using assms(6,8) by (auto simp: restorable_def same_annotations_def same_service_def unlocked_def)
  have "\<exists>res t cur'. run_state (BySelector k opts forward expose rnd resourceName) s = (res, t) \<and>
    find_obj (ClServices (view (World t))) ?ns name = Some cur' \<and>
    mlookup (Annotations cur') KtLock = None \<and> restorable (unlocked orig) cur' \<and>
    (mlookup (Annotations cur) KtSelector \<noteq> None \<longrightarrow> res \<noteq> Value ()) \<and>
    (res = Value () \<longrightarrow> MapEquals (Selector cur') ?labels \<or> Selector cur' = ?labels)"
  proof (cases "\<exists>svcPorts. r1 = Value svcPorts \<and> FindInvalidRemotePort expose svcPorts = []")
    case False
    then obtain res where "run_state (BySelector k opts forward expose rnd resourceName) s = (res, s)" "res \<noteq> Value ()"
      using start by (cases r1) auto
    with assms(5,8) keep show ?thesis by blast
  next
    case True
    have body: "stays (svc_at view ?ns name (restorable orig')) (?body svc)"
      if "Name svc = name" "plain_service orig'" for svc orig'
      using stays_selector_exchange [OF assms(1,2) that(2,1)] by simp
    obtain svc s1 t cur' c2 where l: "run_state (BySelector k opts forward expose rnd resourceName) s = (fst (run_state (?body svc) s1), t)"
      "find_obj (ClServices (view (World s1))) ?ns name = Some svc" "same_service cur svc" "Selector svc = Selector cur"
      "mlookup (Annotations svc) = (mlookup (Annotations cur))(KtLock \<mapsto> GetTimestamp (time_of k s))"
      and e: "find_obj (ClServices (view (World t))) ?ns name = Some cur'" "restorable (unlocked orig) cur'"
        "mlookup (Annotations cur') KtLock = None"
        "find_obj (ClServices (view (World (snd (run_state (?body svc) s1))))) ?ns name = Some c2" "Selector cur' = Selector c2"
      using locked_section [where body = ?body, OF assms(1,5,6,7) free body] start True by (auto simp del: run_go_try)
    have n: "Name svc = name" using find_obj_Some [OF l(2)] by simp
    have "svc_at view ?ns name (restorable (orig\<lparr>Annotations := mput (Annotations orig) KtLock (GetTimestamp (time_of k s))\<rparr>)) (World s1)"
      using l(2) restorable_locked [OF assms(6) l(3-5)] by (auto simp: svc_at_def)
    from exchange_selects_shadow [OF assms(1,2) plain_lock(1) [OF assms(7)] n refl this _ e(4)] e(5)
    have sel: "fst (run_state (?body svc) s1) = Value () \<longrightarrow> MapEquals (Selector cur') ?labels \<or> Selector cur' = ?labels" by metis
    have "mlookup (Annotations cur) KtSelector \<noteq> None \<longrightarrow> fst (run_state (?body svc) s1) \<noteq> Value ()"
      using exchange_refused [OF assms(6) l(4,5), of k opts forward expose rnd s1] by force
    with l(1) e sel show ?thesis by blast
  qed
  then obtain res t cur' where e: "run_state (BySelector k opts forward expose rnd resourceName) s = (res, t)"
    "find_obj (ClServices (view (World t))) ?ns name = Some cur'" "mlookup (Annotations cur') KtLock = None"
    "restorable (unlocked orig) cur'" "mlookup (Annotations cur) KtSelector \<noteq> None \<longrightarrow> res \<noteq> Value ()"
    "res = Value () \<longrightarrow> MapEquals (Selector cur') ?labels \<or> Selector cur' = ?labels" by blast
  from RecoverOriginalService_restored [OF assms(1) e(2) plain_lock(2) [OF assms(7)] e(4)] e
  show ?thesis unfolding Let_def by blast
qed

lemma exchange_never_loses_selector_witness:
  "\<exists>res t. run_state (BySelector (mem_kube 1000) mem_opts mem_forward ''8080'' (\<lambda>i. ''abcde'') ''svc/web'') mem_web_prog = (res, t) \<and>
     (\<exists>svc. find_obj (ClServices (World t)) ''default'' ''web'' = Some svc \<and> mlookup (Annotations svc) KtLock = None)"
proof -
  have "ParseResourceName ''svc/web'' = Value (''svc'', ''web'')" by (simp add: ParseResourceName_def)
  from exchange_never_loses_selector [OF mem_kube_ok mem_side_calls this _ _ restorable_plain [OF mem_web_facts(2)] mem_web_facts(2,3),
      where s = mem_web_prog and opts = mem_opts and expose = "''8080''" and rnd = "\<lambda>i. ''abcde''"]
  show ?thesis by (fastforce simp: mem_web_facts)
qed

end
