(* ===== verification/Birdseye.thy ===== *)
theory Birdseye
  imports ClusterOps Json "HOL-Library.Multiset"
begin

text \<open>
  \<open>pkg/kt/command/birdseye\<close> and \<open>birdseye.go\<close>: the summary of the services of a namespace and of the
  users that are connected, and the sorting routine of the summary.  Output to the log is the list of
  its lines.
\<close>

section \<open>Sorting\<close>

text \<open>\<open>svc[i][k]\<close>: an index beyond the row panics.\<close>

definition cell :: "string list list \<Rightarrow> nat \<Rightarrow> nat \<Rightarrow> string outcome" where
  "cell svc i j = (if i < length svc \<and> j < length (svc ! i) then Value (svc ! i ! j) else Panic)"

text \<open>The innermost loop exchanges the first \<open>n\<close> cells of two rows by way of \<open>swapper\<close>.\<close>

definition swap_rows :: "nat \<Rightarrow> nat \<Rightarrow> string list list \<Rightarrow> string list list outcome" where
  "swap_rows n j svc =
     (if length (svc ! j) < n \<or> length (svc ! Suc j) < n then Panic
      else Value (svc[j := take n (svc ! Suc j) @ drop n (svc ! j), Suc j := take n (svc ! j) @ drop n (svc ! Suc j)]))"

function bubble_pass :: "nat \<Rightarrow> nat \<Rightarrow> nat \<Rightarrow> nat \<Rightarrow> string list list \<Rightarrow> bool \<Rightarrow> (string list list \<times> bool) outcome" where
  "bubble_pass n compIndex limit j svc flag =
     (if j < limit then
        obind (cell svc j compIndex) (\<lambda>a. obind (cell svc (Suc j) compIndex) (\<lambda>b.
          if b < a then obind (swap_rows n j svc) (\<lambda>svc'. bubble_pass n compIndex limit (Suc j) svc' True)
          else bubble_pass n compIndex limit (Suc j) svc flag))
      else Value (svc, flag))"
  by pat_completeness auto
termination
  by (relation "measure (\<lambda>(n, c, limit, j, svc, flag). limit - j)") auto

function bubble_loop :: "nat \<Rightarrow> nat \<Rightarrow> nat \<Rightarrow> nat \<Rightarrow> string list list \<Rightarrow> string list list outcome" where
  "bubble_loop n compIndex len i svc =
     (if i < len - 1 then
        obind (bubble_pass n compIndex (len - 1 - i) 0 svc False) (\<lambda>(svc', flag).
          if flag then bubble_loop n compIndex len (Suc i) svc' else Value svc')
      else Value svc)"
  by pat_completeness auto
termination
  by (relation "measure (\<lambda>(n, c, len, i, svc). len - i)") auto

declare bubble_pass.simps [simp del] bubble_loop.simps [simp del]

definition SortServiceArray :: "string list list \<Rightarrow> nat \<Rightarrow> string list list outcome" where
  "SortServiceArray svc compIndex =
     (case svc of [] \<Rightarrow> Value [] | row # _ \<Rightarrow> bubble_loop (length row) compIndex (length svc) 0 svc)"

section \<open>Status of the services\<close>

abbreviation (input) "UnknownUser \<equiv> ''unknown user''"

definition GetKtPodsAndAllServices ::
  "'w kube \<Rightarrow> string \<Rightarrow> ('w prog, (pod list \<times> service list \<times> service list) outcome) state" where
  "GetKtPodsAndAllServices k namespace =
     go_try (GetPodsByLabel k kt_label namespace) (\<lambda>pods.
     go_try (GetAllServiceInNamespace k namespace) (\<lambda>svcs.
     State_Monad.return (Value (pods, filter (\<lambda>svc. mget (Labels svc) ControlBy = KubernetesToolkit) svcs,
       filter (\<lambda>svc. mget (Labels svc) ControlBy \<noteq> KubernetesToolkit) svcs))))"

definition getUserName :: "pod \<Rightarrow> string" where
  "getUserName p = (if mget (Annotations p) KtUser = [] then UnknownUser else mget (Annotations p) KtUser)"

text \<open>The user of the first matching shadow of each service with the prefix.\<close>

definition mesh_user :: "pod list \<Rightarrow> service \<Rightarrow> string list" where
  "mesh_user pods s =
     (case find (\<lambda>p. mget (Labels p) KtRole = ''shadow-mesh'' \<and> MapContains (Selector s) (Labels p)) pods of
        Some p \<Rightarrow> if mget (Annotations p) KtUser \<noteq> [] then [mget (Annotations p) KtUser] else []
      | None \<Rightarrow> [])"

definition getMeshedUserNames :: "service list \<Rightarrow> pod list \<Rightarrow> string \<Rightarrow> string" where
  "getMeshedUserNames svcs pods namePrefix =
     (let users = concat (map (mesh_user pods) (filter (\<lambda>s. has_prefix (Name s) namePrefix) svcs))
      in if users = [] then UnknownUser else ''['' @ join_with ''], ['' users @ '']'')"

definition preview_status :: "pod list \<Rightarrow> service \<Rightarrow> string list list" where
  "preview_status pods svc =
     (case find (\<lambda>p. mget (Labels p) KtRole = ''shadow-preview'' \<and> MapContains (Selector svc) (Labels p)) pods of
        Some p \<Rightarrow> [[Name svc, ''previewing by ['' @ getUserName p @ '']'']] | None \<Rightarrow> [])"

text \<open>The loop over the pods for one service: the first pod with a role that says something.\<close>

fun pod_status :: "service list \<Rightarrow> pod list \<Rightarrow> service \<Rightarrow> pod list \<Rightarrow> string option" where
  "pod_status ktSvcs allPods svc [] = None"
| "pod_status ktSvcs allPods svc (p # ps) =
     (if MapContains (Selector svc) (Labels p) \<and> mget (Labels p) KtRole = ''shadow-exchange''
      then Some (''exchanged by ['' @ getUserName p @ '']'')
      else if MapContains (Selector svc) (Labels p) \<and> mget (Labels p) KtRole = ''router''
      then Some (''meshed (auto) by '' @ getMeshedUserNames ktSvcs allPods (Name svc @ MeshPodInfix))
      else if MapContains (Selector svc) (Labels p) \<and> mget (Labels p) KtRole = ''shadow-mesh''
      then Some (''meshed (manual) by '' @ getMeshedUserNames [svc] allPods (Name svc))
      else pod_status ktSvcs allPods svc ps)"

definition service_status :: "bool \<Rightarrow> service list \<Rightarrow> pod list \<Rightarrow> service \<Rightarrow> string list list" where
  "service_status hideNatural ktSvcs pods svc =
     (case pod_status ktSvcs pods svc pods of
        Some status \<Rightarrow> [[Name svc, status]]
      | None \<Rightarrow> if hideNatural then [] else [[Name svc, ''normal'']])"

definition GetServiceStatus :: "bool \<Rightarrow> service list \<Rightarrow> pod list \<Rightarrow> service list \<Rightarrow> string list list" where
  "GetServiceStatus hideNatural ktSvcs pods svcs =
     concat (map (preview_status pods) ktSvcs) @ concat (map (service_status hideNatural ktSvcs pods) svcs)"

record birdseye_options =
  Birdseye_SortBy :: string
  Birdseye_ShowConnector :: bool
  Birdseye_HideNaturalService :: bool

definition showServiceStatus ::
  "'w kube \<Rightarrow> kt_options \<Rightarrow> birdseye_options \<Rightarrow> ('w prog, string list outcome) state" where
  "showServiceStatus k opts b =
     go_try (GetKtPodsAndAllServices k (Global_Namespace opts)) (\<lambda>(ktPods, ktSvcs, svcs).
       (let allServices = GetServiceStatus (Birdseye_HideNaturalService b) ktSvcs ktPods svcs
        in State_Monad.return
             (if Birdseye_SortBy b \<notin> {''name'', ''status''}
              then Fail (Errorf (''invalid sort method: '' @ Birdseye_SortBy b))
              else obind (SortServiceArray allServices (if Birdseye_SortBy b = ''name'' then 0 else 1)) (\<lambda>rows.
                   Value ((''---- Service in namespace '' @ Global_Namespace opts @ '' ----'')
                          # map (\<lambda>r. ''> '' @ r ! 0 @ '' - '' @ r ! 1) rows)))))"

section \<open>Connected users\<close>

definition checkConnector :: "int \<Rightarrow> smap \<Rightarrow> string" where
  "checkConnector time annotations =
     (case mlookup annotations KtUser of
        None \<Rightarrow> UnknownUser
      | Some user \<Rightarrow>
          (let lastHeartBeat = ParseTimestamp (mget annotations KtLastHeartBeat)
           in if lastHeartBeat > 0
              then user @ '' (last active '' @ itoa (go_div (time - lastHeartBeat) 60) @ '' min ago)'' else user))"

definition GetConnectors :: "int \<Rightarrow> pod list \<Rightarrow> deployment list \<Rightarrow> string list" where
  "GetConnectors time pods apps =
     filter (\<lambda>u. u \<noteq> []) (map (\<lambda>p. checkConnector time (Annotations p)) pods)
     @ filter (\<lambda>u. u \<noteq> []) (map (\<lambda>d. checkConnector time (Annotations d)) apps)"

definition connect_label :: smap where
  "connect_label = GoMap [(ControlBy, KubernetesToolkit), (KtRole, ''shadow-connect'')]"

definition GetKtPodsAndDeployments :: "'w kube \<Rightarrow> ('w prog, (pod list \<times> deployment list) outcome) state" where
  "GetKtPodsAndDeployments k =
     go_try (GetPodsByLabel k connect_label []) (\<lambda>pods.
     go_try (GetDeploymentsByLabel k connect_label []) (\<lambda>apps. State_Monad.return (Value (pods, apps))))"

definition connector_lines :: "string list \<Rightarrow> string list" where
  "connector_lines users =
     (let unknownUserCount = length (filter (\<lambda>u. u = UnknownUser) users)
      in ''---- User connecting to cluster ----''
         # map (\<lambda>u. ''> '' @ u) (filter (\<lambda>u. u \<noteq> UnknownUser) users)
         @ [if unknownUserCount > 0
            then itoa (int (length users + unknownUserCount)) @ '' users in total (including ''
                 @ itoa (int unknownUserCount) @ '' unknown users)''
            else itoa (int (length users)) @ '' users in total''])"

definition showConnectors :: "'w kube \<Rightarrow> ('w prog, string list outcome) state" where
  "showConnectors k =
     go_try (GetKtPodsAndDeployments k) (\<lambda>(pods, apps). do {
       time \<leftarrow> now k;
       State_Monad.return (Value (connector_lines (GetConnectors time pods apps)))
     })"

definition Birdseye :: "'w kube \<Rightarrow> kt_options \<Rightarrow> birdseye_options \<Rightarrow> ('w prog, string list outcome) state" where
  "Birdseye k opts b =
     go_try (showServiceStatus k opts b) (\<lambda>status.
       if Birdseye_ShowConnector b
       then go_try (showConnectors k) (\<lambda>connectors. State_Monad.return (Value (status @ connectors)))
       else State_Monad.return (Value status))"

end
