(* ===== verification/BirdseyeProps.thy ===== *)
theory BirdseyeProps
  imports Birdseye
begin

text \<open>The sorting routine of the birdseye view is the stable sort of the library.\<close>

section \<open>One pass on lists\<close>

fun bubble :: "('a \<Rightarrow> 'b::linorder) \<Rightarrow> 'a list \<Rightarrow> 'a list \<times> bool" where
  "bubble f [] = ([], False)"
| "bubble f [x] = ([x], False)"
| "bubble f (x # y # zs) =
     (if f y < f x then (y # fst (bubble f (x # zs)), True)
      else (case bubble f (y # zs) of (zs', b) \<Rightarrow> (x # zs', b)))"

lemma mset_bubble: "mset (fst (bubble f xs)) = mset xs"
  by (induction f xs rule: bubble.induct) (auto split: prod.split)

lemma length_bubble [simp]: "length (fst (bubble f xs)) = length xs"
  using mset_eq_length [OF mset_bubble] .

lemma set_bubble: "set (fst (bubble f xs)) = set xs"
  using mset_eq_setD [OF mset_bubble] .

lemma bubble_stable: "filter (\<lambda>x. f x = c) (fst (bubble f xs)) = filter (\<lambda>x. f x = c) xs"
  by (induction f xs rule: bubble.induct) (auto split: prod.split)

lemma bubble_Nil [simp]: "fst (bubble f xs) = [] \<longleftrightarrow> xs = []"
  using length_bubble [of f xs] by (metis length_0_conv)

lemma bubble_max: "\<forall>x \<in> set xs. f x \<le> f (last (fst (bubble f xs)))"
proof (induction f xs rule: bubble.induct)
  case (3 f a y zs)
  have ne: "fst (bubble f (w # zs)) \<noteq> []" for w by simp
  show ?case
  proof (cases "f y < f a")
    case True
    with 3(1) ne show ?thesis by fastforce
  next
    case False
    obtain zs' b where z: "bubble f (y # zs) = (zs', b)" by fastforce
    have all: "\<forall>x \<in> set (y # zs). f x \<le> f (last zs')" and ne': "zs' \<noteq> []" using 3(2) [OF False] ne [of y] z by simp_all
    have "f a \<le> f (last zs')" using all False by (auto intro: order_trans)
    with all ne' False z show ?thesis by simp
  qed
qed auto

lemma bubble_no_swap: "\<not> snd (bubble f xs) \<Longrightarrow> fst (bubble f xs) = xs \<and> sorted (map f xs)"
  by (induction f xs rule: bubble.induct) (auto split: prod.splits if_splits)

section \<open>The passes of the code\<close>

definition rectangular :: "nat \<Rightarrow> string list list \<Rightarrow> bool" where
  "rectangular n svc \<longleftrightarrow> (\<forall>row \<in> set svc. length row = n)"

lemma rectangular_mset: "mset xs = mset ys \<Longrightarrow> rectangular n xs = rectangular n ys"
  unfolding rectangular_def using mset_eq_setD by metis

lemma list_update_swap: "length pre = j \<Longrightarrow> (pre @ a # b # zs)[j := b, Suc j := a] = pre @ b # a # zs"
  by (simp add: list_update_append)

lemma bubble_pass_eq:
  assumes "rectangular n (pre @ xs @ rest)" and "c < n" and "length pre = j" and "length xs = Suc (limit - j)" and "j \<le> limit"
  shows "bubble_pass n c limit j (pre @ xs @ rest) flag =
    Value (pre @ fst (bubble (\<lambda>r. r ! c) xs) @ rest, flag \<or> snd (bubble (\<lambda>r. r ! c) xs))"
  using assms
proof (induction "limit - j" arbitrary: pre xs j flag)
  case 0
  then obtain x where "xs = [x]" by (cases xs) auto
  with 0 show ?case by (subst bubble_pass.simps) simp
next
  case (Suc d)
  then obtain a b zs where xs: "xs = a # b # zs" by (cases xs; cases "tl xs") auto
  have len: "length a = n" "length b = n" using Suc.prems(1) xs by (simp_all add: rectangular_def)
  have cells: "cell (pre @ xs @ rest) j c = Value (a ! c)" "cell (pre @ xs @ rest) (Suc j) c = Value (b ! c)"
    using Suc.prems(2,3) xs len by (simp_all add: cell_def nth_append)
  have swap: "swap_rows n j (pre @ xs @ rest) = Value ((pre @ [b]) @ (a # zs) @ rest)"
    using Suc.prems(3) xs len list_update_swap [OF Suc.prems(3), of a b "zs @ rest"]
    by (simp add: swap_rows_def nth_append)
  have d: "d = limit - Suc j" "Suc j \<le> limit" using Suc(2) by simp_all
  show ?case
  proof (cases "b ! c < a ! c")
    case True
    have "bubble_pass n c limit (Suc j) ((pre @ [b]) @ (a # zs) @ rest) True =
        Value ((pre @ [b]) @ fst (bubble (\<lambda>r. r ! c) (a # zs)) @ rest, True)"
      using Suc.prems d len xs by (subst Suc(1) [OF d(1)]) (auto simp: rectangular_def)
    with True cells swap d xs show ?thesis by (subst bubble_pass.simps) simp
  next
    case False
    have "bubble_pass n c limit (Suc j) ((pre @ [a]) @ (b # zs) @ rest) flag =
        Value ((pre @ [a]) @ fst (bubble (\<lambda>r. r ! c) (b # zs)) @ rest, flag \<or> snd (bubble (\<lambda>r. r ! c) (b # zs)))"
      using Suc.prems d len xs by (subst Suc(1) [OF d(1)]) (auto simp: rectangular_def)
    with False cells d xs show ?thesis by (subst bubble_pass.simps) (auto split: prod.split)
  qed
qed

text \<open>What the passes keep: the rows with their order among equal keys, and a sorted end of greatest rows.\<close>

definition sorted_end :: "('a \<Rightarrow> 'b::linorder) \<Rightarrow> nat \<Rightarrow> 'a list \<Rightarrow> bool" where
  "sorted_end f m xs \<longleftrightarrow> sorted (map f (drop m xs)) \<and> (\<forall>x \<in> set (take m xs). \<forall>y \<in> set (drop m xs). f x \<le> f y)"

definition rearranged :: "('a \<Rightarrow> 'b) \<Rightarrow> 'a list \<Rightarrow> 'a list \<Rightarrow> bool" where
  "rearranged f xs ys \<longleftrightarrow> mset ys = mset xs \<and> (\<forall>c. filter (\<lambda>x. f x = c) ys = filter (\<lambda>x. f x = c) xs)"

lemma rearranged_pass:
  "rearranged f (take m xs @ drop m xs) (fst (bubble f (take m xs)) @ drop m xs)"
  by (simp add: rearranged_def mset_bubble bubble_stable del: append_take_drop_id)

lemma sorted_end_pass:
  assumes e: "sorted_end f (Suc m) xs" and m: "m < length xs"
  shows "sorted_end f m (fst (bubble f (take (Suc m) xs)) @ drop (Suc m) xs)"
proof -
  let ?b = "fst (bubble f (take (Suc m) xs))"
  have len: "length ?b = Suc m" using m by simp
  then obtain ys z where b: "?b = ys @ [z]" by (metis length_Suc_conv_rev)
  have ys: "length ys = m" using len b by simp
  have s: "set (ys @ [z]) = set (take (Suc m) xs)" using set_bubble [of f "take (Suc m) xs"] b by simp
  have "\<forall>y \<in> set ys. f y \<le> f z" using bubble_max [of "take (Suc m) xs" f] b s by auto
  moreover have "\<forall>x \<in> set (ys @ [z]). \<forall>y \<in> set (drop (Suc m) xs). f x \<le> f y"
    using e s unfolding sorted_end_def by simp
  ultimately show ?thesis using e b ys unfolding sorted_end_def by (auto simp: sorted_append)
qed

lemma sorted_end_done:
  assumes e: "sorted_end f (Suc m) xs" and m: "m < length xs" and n: "\<not> snd (bubble f (take (Suc m) xs))"
  shows "fst (bubble f (take (Suc m) xs)) @ drop (Suc m) xs = xs \<and> sorted (map f xs)"
proof -
  from bubble_no_swap [OF n] have b: "fst (bubble f (take (Suc m) xs)) = take (Suc m) xs" "sorted (map f (take (Suc m) xs))"
    by simp_all
  have "sorted (map f (take (Suc m) xs @ drop (Suc m) xs))"
    using b(2) e unfolding sorted_end_def map_append sorted_append by auto
  with b show ?thesis by simp
qed

lemma rearranged_trans: "rearranged f xs ys \<Longrightarrow> rearranged f ys zs \<Longrightarrow> rearranged f xs zs"
  by (simp add: rearranged_def)

lemma bubble_loop_sorts:
  assumes "rectangular n xs" and "c < n" and "length xs = len" and "i \<le> len - 1" and "0 < len"
    and "sorted_end (\<lambda>r. r ! c) (len - i) xs"
  shows "\<exists>ys. bubble_loop n c len i xs = Value ys \<and> rearranged (\<lambda>r. r ! c) xs ys \<and> sorted (map (\<lambda>r. r ! c) ys)"
  using assms
proof (induction "len - 1 - i" arbitrary: i xs)
  case 0
  then have i: "len - i = Suc 0" "\<not> i < len - 1" by simp_all
  let ?f = "\<lambda>r :: string list. r ! c"
  from 0 obtain x rest where x: "xs = x # rest" by (cases xs) auto
  have "sorted (map ?f xs)" using 0(7) x i unfolding sorted_end_def by auto
  with i show ?case by (subst bubble_loop.simps) (simp add: rearranged_def)
next
  case (Suc d)
  let ?f = "\<lambda>r :: string list. r ! c" and ?m = "len - 1 - i"
  have m: "len - i = Suc ?m" "?m < length xs" "i < len - 1" using Suc(2,5,7) by simp_all
  let ?zs = "fst (bubble ?f (take (Suc ?m) xs)) @ drop (Suc ?m) xs"
  have len: "length (take (Suc ?m) xs) = Suc (?m - 0)" using m by simp
  have pass: "bubble_pass n c ?m 0 xs False = Value (?zs, snd (bubble ?f (take (Suc ?m) xs)))"
    using bubble_pass_eq [OF _ Suc(4) _ len, of "[]" "drop (Suc ?m) xs" False] Suc(3) by simp
  have e: "sorted_end ?f (Suc ?m) xs" using Suc(8) m(1) by simp
  show ?case
  proof (cases "snd (bubble ?f (take (Suc ?m) xs))")
    case False
    from sorted_end_done [OF e m(2) False] have zs: "?zs = xs" "sorted (map ?f xs)" by simp_all
    have "bubble_loop n c len i xs = Value xs"
      using pass [unfolded zs(1)] m(3) False by (subst bubble_loop.simps) (simp only: if_True obind.simps prod.case if_False)
    with zs(2) show ?thesis by (auto simp: rearranged_def)
  next
    case True
    have re: "rearranged ?f xs ?zs" using rearranged_pass [of ?f "Suc ?m" xs] by simp
    then have mz: "mset ?zs = mset xs" by (simp add: rearranged_def)
    have d: "d = len - 1 - Suc i" "Suc i \<le> len - 1" "len - Suc i = ?m" using Suc(2) m(3) by simp_all
    have "sorted_end ?f (len - Suc i) ?zs" unfolding d(3) by (rule sorted_end_pass [OF e m(2)])
    moreover have "rectangular n ?zs" using rectangular_mset [OF mz] Suc(3) by (rule iffD2)
    moreover have "length ?zs = len" using mset_eq_length [OF mz] Suc(5) by (rule trans)
    ultimately obtain ys where ys: "bubble_loop n c len (Suc i) ?zs = Value ys" "rearranged ?f ?zs ys" "sorted (map ?f ys)"
      using Suc(1) [OF d(1), of ?zs] Suc(4,7) d(2) by blast
    have "bubble_loop n c len i xs = Value ys"
      using pass m(3) True ys(1) by (subst bubble_loop.simps) (simp only: if_True obind.simps prod.case)
    with rearranged_trans [OF re ys(2)] ys(3) show ?thesis by blast
  qed
qed

section \<open>Properties\<close>

text \<open>
  C25.  \<open>SortServiceArray\<close> on rows of equal length sorts them by the chosen column in the byte order of
  Go, and rows with equal cells keep their order: it is the stable sort of the library.
\<close>

theorem sort_is_stable_sort:
  assumes "\<forall>row \<in> set svc. length row = n" and "compIndex < n"
  shows "SortServiceArray svc compIndex = Value (sort_key (\<lambda>row. row ! compIndex) svc)"
proof (cases svc)
  case (Cons row rows)
  have n: "length row = n" "rectangular n svc" using assms(1) Cons by (simp_all add: rectangular_def)
  obtain ys where ys: "bubble_loop n compIndex (length svc) 0 svc = Value ys"
    "rearranged (\<lambda>r. r ! compIndex) svc ys" "sorted (map (\<lambda>r. r ! compIndex) ys)"
    using bubble_loop_sorts [OF n(2) assms(2) refl, of 0] Cons by (auto simp: sorted_end_def)
  have "sort_key (\<lambda>row. row ! compIndex) svc = ys"
    using ys(2,3) by (intro properties_for_sort_key) (simp_all add: rearranged_def eq_commute)
  with ys(1) n(1) Cons show ?thesis by (simp add: SortServiceArray_def)
qed (simp add: SortServiceArray_def)

lemma sort_is_stable_sort_witness:
  "SortServiceArray [[''b'', ''normal''], [''a'', ''normal'']] 1 = Value (sort_key (\<lambda>row. row ! 1) [[''b'', ''normal''], [''a'', ''normal'']])"
  by (rule sort_is_stable_sort [of _ 2]) simp_all

text \<open>The total in the summary of connected users counts the unknown ones twice.\<close>

lemma unknown_users_counted_twice:
  "connector_lines [UnknownUser] = [''---- User connecting to cluster ----'',
     itoa 2 @ '' users in total (including '' @ itoa 1 @ '' unknown users)'']"
  by (simp add: connector_lines_def)

end
