(* ===== verification/Transmission.thy ===== *)
theory Transmission
  imports GoUtil
begin

text \<open>
  \<open>pkg/kt/transmission\<close>: the address of the port forward API, and the life of a port forward.  A port
  forward is a goroutine that holds the connection and a caller that waits for it, with the channels
  \<open>ready\<close>, \<open>errCh\<close>, \<open>stop\<close>, \<open>heartbeatStop\<close> and \<open>gone\<close>; every interleaving of them is a run of a
  step relation.
\<close>

section \<open>The address of the API\<close>

text \<open>\<open>strings.Index(s, p)\<close>.\<close>

fun str_index :: "string \<Rightarrow> string \<Rightarrow> nat option" where
  "str_index [] p = (if p = [] then Some 0 else None)"
| "str_index (x # xs) p = (if take (length p) (x # xs) = p then Some 0 else map_option Suc (str_index xs p))"

text \<open>\<open>path.Clean\<close> and \<open>path.Join\<close> of two elements.\<close>

fun clean_parts :: "bool \<Rightarrow> string list \<Rightarrow> string list \<Rightarrow> string list" where
  "clean_parts rooted [] out = rev out"
| "clean_parts rooted (p # ps) out =
     (if p = [] \<or> p = ''.'' then clean_parts rooted ps out
      else if p = ''..'' then
        (case out of
           q # qs \<Rightarrow> if q = ''..'' then clean_parts rooted ps (''..'' # out) else clean_parts rooted ps qs
         | [] \<Rightarrow> if rooted then clean_parts rooted ps [] else clean_parts rooted ps [''..''])
      else clean_parts rooted ps (p # out))"

definition path_clean :: "string \<Rightarrow> string" where
  "path_clean path =
     (if path = [] then ''.''
      else let rooted = has_prefix path ''/''; out = clean_parts rooted (split_on CHR ''/'' path) []
           in if rooted then ''/'' @ join_with ''/'' out else if out = [] then ''.'' else join_with ''/'' out)"

definition path_join :: "string \<Rightarrow> string \<Rightarrow> string" where
  "path_join a b =
     (let elems = filter (\<lambda>e. e \<noteq> []) [a, b] in if elems = [] then [] else path_clean (join_with ''/'' elems))"

record url =
  Scheme :: string
  Host :: string
  Path :: string

definition parseReqHost :: "string \<Rightarrow> string \<Rightarrow> url outcome" where
  "parseReqHost host apiPath =
     (case str_index host ''://'' of
        None \<Rightarrow> Fail (Errorf (''invalid host address: '' @ host))
      | Some pos \<Rightarrow>
          (let protocol = take pos host; hostIP = drop (pos + 3) host;
               (hostIP', baseUrl) = (case str_index hostIP ''/'' of
                  Some p \<Rightarrow> if p > 0 then (take p hostIP, drop p hostIP) else (hostIP, [])
                | None \<Rightarrow> (hostIP, []))
           in Value \<lparr> Scheme = protocol, Host = hostIP', Path = path_join baseUrl apiPath \<rparr>))"

definition port_forward_path :: "string \<Rightarrow> string \<Rightarrow> string" where
  "port_forward_path namespace podName = ''/api/v1/namespaces/'' @ namespace @ ''/pods/'' @ podName @ ''/portforward''"

section \<open>Forwarding the exposed ports\<close>

text \<open>
  The tunnels that \<open>ForwardRemotePortsViaSshTunnel\<close> starts: the SSH address, the endpoint in the pod
  and the local endpoint of each pair, as long as the pairs can be parsed.
\<close>

fun ssh_tunnels :: "string list \<Rightarrow> int \<Rightarrow> (string \<times> string \<times> string) list \<times> go_error option" where
  "ssh_tunnels [] localSshPort = ([], None)"
| "ssh_tunnels (exposePort # rest) localSshPort =
     (case ParsePortMapping exposePort of
        Value (localPort, remotePort) \<Rightarrow>
          (case ssh_tunnels rest localSshPort of
             (ts, err) \<Rightarrow> ((''127.0.0.1:'' @ itoa localSshPort, ''0.0.0.0:'' @ itoa remotePort,
                           ''127.0.0.1:'' @ itoa localPort) # ts, err))
      | Fail e \<Rightarrow> ([], Some e)
      | Panic \<Rightarrow> ([], None))"

definition ForwardRemotePortsViaSshTunnel :: "string \<Rightarrow> int \<Rightarrow> (string \<times> string \<times> string) list \<times> go_error option" where
  "ForwardRemotePortsViaSshTunnel exposePorts localSshPort = ssh_tunnels (split_on CHR '','' exposePorts) localSshPort"

section \<open>The life of a port forward\<close>

text \<open>
  The goroutine: about to create the forwarder, after an error that it has sent, inside
  \<open>ForwardPorts\<close>, after its return, after \<open>closeStop\<close>, asleep before a reconnect, at its end.
\<close>

datatype worker = Creating | Failed | Forwarding | Returned | Stopped | Sleeping | Finished

text \<open>The caller: in \<open>select\<close>, or with its result; a timeout closes \<open>stop\<close>, then \<open>heartbeatStop\<close>.\<close>

datatype caller = Selecting | Established | Refused | Timeout | TimeoutStop | TimedOut

record attempt =
  ReadyCh :: bool
  ErrCh :: bool
  StopCh :: bool
  HeartbeatStop :: bool
  StopOnce :: bool
  Ticking :: bool
  Worker :: worker
  Caller :: caller

text \<open>The channel \<open>gone\<close> and its guard are shared by all attempts of a port forward.\<close>

record port_forward =
  Gone :: bool
  GoneOnce :: bool
  Reconnect :: bool
  Attempts :: "attempt list"
  Panicked :: bool

definition new_attempt :: attempt where
  "new_attempt = \<lparr> ReadyCh = False, ErrCh = False, StopCh = False, HeartbeatStop = False, StopOnce = False,
     Ticking = False, Worker = Creating, Caller = Selecting \<rparr>"

text \<open>\<open>SetupPortForwardToLocal\<close> (with reconnect) and \<open>SetupSessionPortForwardToLocal\<close> (without).\<close>

definition setup_port_forward :: "bool \<Rightarrow> port_forward" where
  "setup_port_forward reconnect =
     \<lparr> Gone = False, GoneOnce = False, Reconnect = reconnect, Attempts = [new_attempt], Panicked = False \<rparr>"

text \<open>Closing a channel that is closed panics; \<open>sync.Once\<close> runs its function the first time only.\<close>

definition closeGone :: "port_forward \<Rightarrow> port_forward" where
  "closeGone s = (if GoneOnce s then s else s\<lparr>GoneOnce := True, Gone := True, Panicked := Panicked s \<or> Gone s\<rparr>)"

definition close_stop :: "attempt \<Rightarrow> attempt \<times> bool" where
  "close_stop a = (if StopOnce a then (a, False) else (a\<lparr>StopOnce := True, StopCh := True\<rparr>, StopCh a))"

definition close_heartbeat :: "attempt \<Rightarrow> attempt \<times> bool" where
  "close_heartbeat a = (if StopOnce a then (a, False) else (a\<lparr>StopOnce := True, HeartbeatStop := True\<rparr>, HeartbeatStop a))"

definition set_attempt :: "nat \<Rightarrow> attempt \<Rightarrow> bool \<Rightarrow> port_forward \<Rightarrow> port_forward" where
  "set_attempt i a p s = s\<lparr>Attempts := (Attempts s)[i := a], Panicked := Panicked s \<or> p\<rparr>"

inductive pf_step :: "port_forward \<Rightarrow> port_forward \<Rightarrow> bool" where
  create_fails: "i < length (Attempts s) \<Longrightarrow> a = Attempts s ! i \<Longrightarrow> Worker a = Creating \<Longrightarrow>
    pf_step s (set_attempt i (a\<lparr>Worker := Failed, ErrCh := True\<rparr>) False s)"
| give_up: "i < length (Attempts s) \<Longrightarrow> a = Attempts s ! i \<Longrightarrow> Worker a = Failed \<Longrightarrow>
    pf_step s (closeGone (set_attempt i (a\<lparr>Worker := Finished\<rparr>) False s))"
| create: "i < length (Attempts s) \<Longrightarrow> a = Attempts s ! i \<Longrightarrow> Worker a = Creating \<Longrightarrow>
    pf_step s (set_attempt i (a\<lparr>Worker := Forwarding\<rparr>) False s)"
| get_ready: "i < length (Attempts s) \<Longrightarrow> a = Attempts s ! i \<Longrightarrow> Worker a = Forwarding \<Longrightarrow> \<not> ReadyCh a \<Longrightarrow>
    pf_step s (set_attempt i (a\<lparr>ReadyCh := True\<rparr>) False s)"
| ends: "i < length (Attempts s) \<Longrightarrow> a = Attempts s ! i \<Longrightarrow> Worker a = Forwarding \<Longrightarrow>
    pf_step s (set_attempt i (a\<lparr>Worker := Returned\<rparr>) False s)"
| stop_heartbeat: "i < length (Attempts s) \<Longrightarrow> a = Attempts s ! i \<Longrightarrow> Worker a = Returned \<Longrightarrow> close_heartbeat a = (a', p) \<Longrightarrow>
    pf_step s (set_attempt i (a'\<lparr>Worker := Stopped\<rparr>) p s)"
| session_over: "i < length (Attempts s) \<Longrightarrow> a = Attempts s ! i \<Longrightarrow> Worker a = Stopped \<Longrightarrow> \<not> Reconnect s \<Longrightarrow>
    pf_step s (closeGone (set_attempt i (a\<lparr>Worker := Finished\<rparr>) False s))"
| sleep: "i < length (Attempts s) \<Longrightarrow> a = Attempts s ! i \<Longrightarrow> Worker a = Stopped \<Longrightarrow> Reconnect s \<Longrightarrow>
    pf_step s (set_attempt i (a\<lparr>Worker := Sleeping\<rparr>) False s)"
| reconnect: "i < length (Attempts s) \<Longrightarrow> a = Attempts s ! i \<Longrightarrow> Worker a = Sleeping \<Longrightarrow>
    pf_step s (s\<lparr>Attempts := (Attempts s)[i := a\<lparr>Worker := Finished\<rparr>] @ [new_attempt]\<rparr>)"
| select_ready: "i < length (Attempts s) \<Longrightarrow> a = Attempts s ! i \<Longrightarrow> Caller a = Selecting \<Longrightarrow> ReadyCh a \<Longrightarrow>
    pf_step s (set_attempt i (a\<lparr>Caller := Established, Ticking := True\<rparr>) False s)"
| select_error: "i < length (Attempts s) \<Longrightarrow> a = Attempts s ! i \<Longrightarrow> Caller a = Selecting \<Longrightarrow> ErrCh a \<Longrightarrow>
    pf_step s (set_attempt i (a\<lparr>Caller := Refused, ErrCh := False\<rparr>) False s)"
| select_timeout: "i < length (Attempts s) \<Longrightarrow> a = Attempts s ! i \<Longrightarrow> Caller a = Selecting \<Longrightarrow>
    pf_step s (set_attempt i (a\<lparr>Caller := Timeout\<rparr>) False s)"
| timeout_stop: "i < length (Attempts s) \<Longrightarrow> a = Attempts s ! i \<Longrightarrow> Caller a = Timeout \<Longrightarrow> close_stop a = (a', p) \<Longrightarrow>
    pf_step s (set_attempt i (a'\<lparr>Caller := TimeoutStop\<rparr>) p s)"
| timeout_heartbeat: "i < length (Attempts s) \<Longrightarrow> a = Attempts s ! i \<Longrightarrow> Caller a = TimeoutStop \<Longrightarrow> close_heartbeat a = (a', p) \<Longrightarrow>
    pf_step s (set_attempt i (a'\<lparr>Caller := TimedOut\<rparr>) p s)"
| stop_ticker: "i < length (Attempts s) \<Longrightarrow> a = Attempts s ! i \<Longrightarrow> Ticking a \<Longrightarrow> HeartbeatStop a \<Longrightarrow>
    pf_step s (set_attempt i (a\<lparr>Ticking := False\<rparr>) False s)"

inductive_cases pf_stepE: "pf_step s t"

inductive pf_run :: "nat \<Rightarrow> port_forward \<Rightarrow> port_forward \<Rightarrow> bool" where
  pf_run_0: "pf_run 0 s s"
| pf_run_Suc: "pf_run n s t \<Longrightarrow> pf_step t u \<Longrightarrow> pf_run (Suc n) s u"

section \<open>The invariant\<close>

text \<open>Of one attempt: its guard is used up exactly when one of its two channels is closed.\<close>

definition attempt_inv :: "attempt \<Rightarrow> bool" where
  "attempt_inv a \<longleftrightarrow> StopOnce a = (StopCh a \<or> HeartbeatStop a) \<and> \<not> (StopCh a \<and> HeartbeatStop a) \<and>
     (StopCh a \<longrightarrow> Caller a = TimeoutStop \<or> Caller a = TimedOut) \<and>
     (Worker a \<in> {Stopped, Sleeping} \<longrightarrow> StopOnce a) \<and>
     (ReadyCh a \<longrightarrow> Worker a \<notin> {Creating, Failed} \<and> (Worker a = Finished \<longrightarrow> StopOnce a)) \<and>
     (Ticking a \<longrightarrow> Caller a = Established) \<and> (Caller a = Established \<longrightarrow> ReadyCh a)"

definition pf_inv :: "port_forward \<Rightarrow> bool" where
  "pf_inv s \<longleftrightarrow> \<not> Panicked s \<and> GoneOnce s = Gone s \<and> (\<forall>a \<in> set (Attempts s). attempt_inv a)"

lemma attempt_inv_new: "attempt_inv new_attempt"
  by (simp add: attempt_inv_def new_attempt_def)

lemma pf_inv_set: "pf_inv s \<Longrightarrow> attempt_inv a \<Longrightarrow> \<not> p \<Longrightarrow> pf_inv (set_attempt i a p s)"
  by (auto simp: pf_inv_def set_attempt_def dest: set_update_subset_insert [THEN subsetD])

lemma pf_inv_closeGone: "pf_inv s \<Longrightarrow> pf_inv (closeGone s)"
  by (simp add: pf_inv_def closeGone_def)

lemma pf_inv_nth: "pf_inv s \<Longrightarrow> i < length (Attempts s) \<Longrightarrow> attempt_inv (Attempts s ! i)"
  by (simp add: pf_inv_def)

lemma pf_inv_attempt:
  "pf_inv s \<Longrightarrow> i < length (Attempts s) \<Longrightarrow> a = Attempts s ! i \<Longrightarrow> (attempt_inv a \<Longrightarrow> attempt_inv b) \<Longrightarrow>
   pf_inv (set_attempt i b False s)"
  using pf_inv_nth by (intro pf_inv_set) auto

lemma pf_inv_step: "pf_step s t \<Longrightarrow> pf_inv s \<Longrightarrow> pf_inv t"
proof (induction rule: pf_step.induct)
  case (reconnect i s a)
  have "attempt_inv (a\<lparr>Worker := Finished\<rparr>)" using pf_inv_nth [OF reconnect(4,1)] reconnect(2,3) by (auto simp: attempt_inv_def)
  with reconnect(4) attempt_inv_new show ?case
    by (auto simp: pf_inv_def dest: set_update_subset_insert [THEN subsetD])
next
  case (stop_heartbeat i s a a' p)
  with pf_inv_nth [OF stop_heartbeat(5,1)] show ?case
    by (intro pf_inv_set) (auto simp: attempt_inv_def close_heartbeat_def split: if_splits)
next
  case (timeout_stop i s a a' p)
  with pf_inv_nth [OF timeout_stop(5,1)] show ?case
    by (intro pf_inv_set) (auto simp: attempt_inv_def close_stop_def split: if_splits)
next
  case (timeout_heartbeat i s a a' p)
  with pf_inv_nth [OF timeout_heartbeat(5,1)] show ?case
    by (intro pf_inv_set) (auto simp: attempt_inv_def close_heartbeat_def split: if_splits)
qed ((rule pf_inv_closeGone)?, rule pf_inv_attempt, assumption, assumption, assumption, force simp: attempt_inv_def)+

lemma pf_run_inv: "pf_run n s t \<Longrightarrow> pf_inv s \<Longrightarrow> pf_inv t"
  by (induction rule: pf_run.induct) (auto intro: pf_inv_step)

lemma pf_inv_setup: "pf_inv (setup_port_forward r)"
  by (simp add: pf_inv_def setup_port_forward_def attempt_inv_new)

section \<open>A session has one attempt\<close>

text \<open>What is left to do for the goroutine, for the caller and for the ticker.\<close>

fun worker_left :: "worker \<Rightarrow> nat" where
  "worker_left Creating = 4"
| "worker_left Forwarding = 3"
| "worker_left Returned = 2"
| "worker_left Stopped = 1"
| "worker_left Failed = 1"
| "worker_left Sleeping = 1"
| "worker_left Finished = 0"

fun caller_left :: "caller \<Rightarrow> nat" where
  "caller_left Selecting = 4"
| "caller_left Timeout = 2"
| "caller_left TimeoutStop = 1"
| "caller_left Established = 0"
| "caller_left Refused = 0"
| "caller_left TimedOut = 0"

definition steps_left :: "attempt \<Rightarrow> nat" where
  "steps_left a = worker_left (Worker a) + caller_left (Caller a) + (if ReadyCh a then 0 else 1) + (if Ticking a then 1 else 0)"

definition session_inv :: "nat \<Rightarrow> port_forward \<Rightarrow> bool" where
  "session_inv n s \<longleftrightarrow> pf_inv s \<and> \<not> Reconnect s \<and>
     (\<exists>a. Attempts s = [a] \<and> n + steps_left a \<le> 9 \<and> (Gone s \<longleftrightarrow> Worker a = Finished) \<and> Worker a \<noteq> Sleeping)"

lemma session_inv_setup: "session_inv 0 (setup_port_forward False)"
  using pf_inv_setup [of False] by (simp add: session_inv_def setup_port_forward_def new_attempt_def steps_left_def)

lemma session_inv_step:
  assumes st: "pf_step s t" and i: "session_inv n s"
  shows "session_inv (Suc n) t"
proof -
  obtain a where a: "Attempts s = [a]" "n + steps_left a \<le> 9" "Gone s \<longleftrightarrow> Worker a = Finished" "Worker a \<noteq> Sleeping"
    "\<not> Reconnect s" "pf_inv s"
    using i by (auto simp: session_inv_def)
  have inv: "GoneOnce s = Gone s" using a(6) by (simp add: pf_inv_def)
  have p: "pf_inv t" using pf_inv_step [OF st a(6)] .
  have "\<not> Reconnect t \<and> (\<exists>a. Attempts t = [a] \<and> Suc n + steps_left a \<le> 9 \<and> (Gone t \<longleftrightarrow> Worker a = Finished) \<and> Worker a \<noteq> Sleeping)"
    using st a(1-5) inv
    by cases (auto simp: set_attempt_def steps_left_def closeGone_def close_heartbeat_def close_stop_def split: if_splits)
  with p show ?thesis by (simp add: session_inv_def)
qed

lemma session_run: "pf_run n s t \<Longrightarrow> session_inv 0 s \<Longrightarrow> session_inv n t"
  by (induction rule: pf_run.induct) (auto intro: session_inv_step)

text \<open>Where nothing can happen any more, everything is over.\<close>

lemma session_stuck:
  assumes i: "session_inv n s" and stuck: "\<nexists>t. pf_step s t"
  shows "Gone s \<and> (\<forall>a \<in> set (Attempts s). Worker a = Finished \<and> Caller a \<in> {Established, Refused, TimedOut} \<and> \<not> Ticking a)"
proof -
  obtain a where s: "Attempts s = [a]" "Gone s \<longleftrightarrow> Worker a = Finished" "Worker a \<noteq> Sleeping" "\<not> Reconnect s" "pf_inv s"
    using i unfolding session_inv_def by blast
  have inv: "attempt_inv a" using pf_inv_nth [OF s(5), of 0] s(1) by simp
  note a = s(1-4) inv
  have idx: "0 < length (Attempts s)" "a = Attempts s ! 0" using a(1) by simp_all
  have w: "Worker a = Finished"
  proof (cases "Worker a")
    case Returned
    then show ?thesis using pf_step.stop_heartbeat [OF idx Returned] stuck by (cases "close_heartbeat a") auto
  qed (use a stuck pf_step.create [OF idx] pf_step.give_up [OF idx] pf_step.ends [OF idx] pf_step.session_over [OF idx] in auto)
  have c: "Caller a \<in> {Established, Refused, TimedOut}"
  proof (cases "Caller a")
    case Timeout
    then show ?thesis using pf_step.timeout_stop [OF idx Timeout] stuck by (cases "close_stop a") auto
  next
    case TimeoutStop
    then show ?thesis using pf_step.timeout_heartbeat [OF idx TimeoutStop] stuck by (cases "close_heartbeat a") auto
  qed (use stuck pf_step.select_timeout [OF idx] in auto)
  have "\<not> Ticking a"
  proof
    assume t: "Ticking a"
    then have "HeartbeatStop a" using a(5) w by (auto simp: attempt_inv_def)
    from pf_step.stop_ticker [OF idx t this] stuck show False by blast
  qed
  with w c a show ?thesis by simp
qed

section \<open>Properties\<close>

text \<open>
  C19.  However the goroutines of a port forward interleave, no channel is closed twice.  For the port
  forward of a session: every run has at most nine steps, and a run that cannot go on has closed
  \<open>gone\<close> (so that the session learns that its connection is lost), the goroutine and the heartbeat
  have ended and the caller has its result.
\<close>

theorem port_forward_ends:
  assumes "pf_run n (setup_port_forward reconnect) s"
  shows "\<not> Panicked s \<and>
    (\<not> reconnect \<longrightarrow> n \<le> 9 \<and> ((\<nexists>t. pf_step s t) \<longrightarrow> Gone s \<and>
       (\<forall>a \<in> set (Attempts s). Worker a = Finished \<and> Caller a \<in> {Established, Refused, TimedOut} \<and> \<not> Ticking a)))"
proof -
  have "\<not> Panicked s" using pf_run_inv [OF assms pf_inv_setup] by (simp add: pf_inv_def)
  moreover have inv: "session_inv n s" if "\<not> reconnect"
    using session_run [OF assms] session_inv_setup that by simp
  moreover have "n \<le> 9" if "session_inv n s" using that by (fastforce simp: session_inv_def)
  ultimately show ?thesis using session_stuck by blast
qed

lemma port_forward_ends_witness:
  "\<exists>s. pf_run 1 (setup_port_forward False) s \<and> \<not> Panicked s"
proof -
  have "pf_step (setup_port_forward False) (set_attempt 0 (new_attempt\<lparr>Worker := Forwarding\<rparr>) False (setup_port_forward False))"
    by (rule pf_step.create) (simp_all add: setup_port_forward_def new_attempt_def)
  from pf_run_Suc [OF pf_run_0 this] have r: "pf_run 1 (setup_port_forward False)
      (set_attempt 0 (new_attempt\<lparr>Worker := Forwarding\<rparr>) False (setup_port_forward False))" by simp
  from port_forward_ends [OF r] r show ?thesis by blast
qed

end
