(* ===== verification/Forward.thy ===== *)
theory Forward
  imports ServiceOps Transmission
begin

text \<open>
  \<open>pkg/kt/command/forward.go\<close> and \<open>forward/common.go\<close>: redirecting a local port to a service.  The
  port forward itself is the argument \<open>port_forward\<close> (pod, port of the pod, local port).
\<close>

definition invalid_port :: "string \<Rightarrow> go_error" where
  "invalid_port p = Errorf (''port '' @ quoted p @ '' format invalid'')"

text \<open>The port arguments of the command line; no port is -1, a missing remote port 0.\<close>

definition parsePort :: "string list \<Rightarrow> (int \<times> int) outcome" where
  "parsePort args =
     (if length args < 2 then Value (-1, -1)
      else if count_char (args ! 1) CHR '':'' = 0
      then (case atoi (args ! 1) of Some localPort \<Rightarrow> Value (localPort, 0) | None \<Rightarrow> Fail (invalid_port (args ! 1)))
      else if count_char (args ! 1) CHR '':'' = 1
      then (let parts = split_on CHR '':'' (args ! 1)
            in case atoi (parts ! 0) of
                 None \<Rightarrow> Fail (invalid_port (parts ! 0))
               | Some localPort \<Rightarrow> (case atoi (parts ! 1) of
                   None \<Rightarrow> Fail (invalid_port (parts ! 1)) | Some remotePort \<Rightarrow> Value (localPort, remotePort)))
      else Fail (invalid_port (args ! 1)))"

text \<open>The last service port with the number, and the first container port with the name.\<close>

fun target_port :: "service_port list \<Rightarrow> int \<Rightarrow> int_or_string option \<Rightarrow> int_or_string option" where
  "target_port [] remotePort t = t"
| "target_port (p # ps) remotePort t = target_port ps remotePort (if Port p = remotePort then Some (TargetPort p) else t)"

definition container_port_named :: "pod \<Rightarrow> string \<Rightarrow> int option" where
  "container_port_named p name =
     (case concat (map (\<lambda>c. filter (\<lambda>cp. PortName cp = name) (Ports c)) (Containers (PodSpec p))) of
        [] \<Rightarrow> None | cp # _ \<Rightarrow> Some (ContainerPort cp))"

definition getPodNameAndPort ::
  "'w kube \<Rightarrow> kt_options \<Rightarrow> string \<Rightarrow> int \<Rightarrow> string \<Rightarrow> ('w prog, (string \<times> int \<times> int) outcome) state" where
  "getPodNameAndPort k opts serviceName remotePort namespace =
     go_catch (GetService k serviceName namespace) (\<lambda>svc.
       if SvcPorts svc = []
       then State_Monad.return (Fail (Errorf (''service '' @ quoted serviceName @ '' has not port available'')))
       else if remotePort \<le> 0 \<and> length (SvcPorts svc) > 1
       then State_Monad.return (Fail (Errorf (''service '' @ quoted serviceName @ '' has multiple ports, must specify one'')))
       else (let wanted = (if remotePort \<le> 0 then Port (SvcPorts svc ! 0) else remotePort)
             in case target_port (SvcPorts svc) wanted None of
                  None \<Rightarrow> State_Monad.return (Fail (Errorf (''port '' @ itoa wanted @ '' not available for service '' @ serviceName)))
                | Some target \<Rightarrow>
                    go_try (GetPodsByLabel k (Selector svc) (Global_Namespace opts)) (\<lambda>pods.
                    (case pods of
                       [] \<Rightarrow> State_Monad.return (Fail (Errorf (''no pod available for service '' @ serviceName)))
                     | p # _ \<Rightarrow>
                         (let podPort = (case target of IntPort n \<Rightarrow> n
                                          | StrPort name \<Rightarrow> (case container_port_named p name of Some n \<Rightarrow> n | None \<Rightarrow> -1))
                          in State_Monad.return
                               (if podPort = -1
                                then Fail (Errorf (''port '' @ itoa wanted @ '' not fit for any pod of service '' @ serviceName))
                                else Value (Name p, podPort, wanted)))))))
     (\<lambda>err. State_Monad.return (Fail (if err = NotFound then not_found_in ''service'' serviceName namespace else err)))"

type_synonym 'w local_forward = "string \<Rightarrow> int \<Rightarrow> int \<Rightarrow> ('w, unit outcome) state"

definition RedirectService ::
  "'w kube \<Rightarrow> kt_options \<Rightarrow> 'w local_forward \<Rightarrow> string \<Rightarrow> int \<Rightarrow> int \<Rightarrow> ('w prog, int outcome) state" where
  "RedirectService k opts port_forward serviceName localPort0 remotePort =
     go_try (getPodNameAndPort k opts serviceName remotePort (Global_Namespace opts)) (\<lambda>(podName, podPort, svcPort).
       (let localPort = (if localPort0 \<le> 0 then svcPort else localPort0)
        in go_try (lift_io (port_forward podName podPort localPort)) (\<lambda>_. State_Monad.return (Value localPort))))"

definition RedirectAddress :: "string \<Rightarrow> int \<Rightarrow> int \<Rightarrow> unit outcome" where
  "RedirectAddress remoteAddress localPort remotePort =
     (if remotePort \<le> 0 \<and> localPort \<le> 0 then Fail (Errorf ''port parameter must be specified'')
      else Fail (Errorf ''redirecting to an arbitrary address havn't been implemented yet''))"

text \<open>The command after its setup; the value is the local port.\<close>

definition Forward :: "'w kube \<Rightarrow> kt_options \<Rightarrow> 'w local_forward \<Rightarrow> string list \<Rightarrow> ('w prog, int outcome) state" where
  "Forward k opts port_forward args =
     go_try (State_Monad.return (parsePort args)) (\<lambda>(localPort, remotePort).
       if contains_char (args ! 0) CHR ''.''
       then go_try (State_Monad.return (RedirectAddress (args ! 0) localPort remotePort)) (\<lambda>_. State_Monad.return (Value localPort))
       else RedirectService k opts port_forward (args ! 0) localPort remotePort)"

section \<open>Lemmas\<close>

lemma count_char_append: "count_char (a @ b) c = count_char a c + count_char b c"
  by (simp add: count_char_def)

lemma count_char_0: "count_char s c = 0 \<longleftrightarrow> c \<notin> set s"
  by (auto simp: count_char_def filter_empty_conv)

text \<open>A printed pair of ports is parsed as the pair.\<close>

lemma parsePort_pair:
  assumes "- (2 ^ 63) \<le> a" "a < 2 ^ 63" "- (2 ^ 63) \<le> b" "b < 2 ^ 63"
  shows "parsePort [svc, itoa a @ '':'' @ itoa b] = Value (a, b)"
proof -
  have c: "CHR '':'' \<notin> set (itoa i)" for i
    using is_digit_nat_str [of "CHR '':''"] colon_not_digit by (auto simp: itoa_def)
  have "count_char (itoa a @ '':'' @ itoa b) CHR '':'' = 1"
    using c [of a] c [of b] by (auto simp: count_char_def filter_empty_conv)
  moreover have "split_on CHR '':'' (itoa a @ '':'' @ itoa b) = [itoa a, itoa b]"
    using c by (simp add: split_on_append_sep split_on_no_sep)
  ultimately show ?thesis
    using assms by (simp add: parsePort_def Let_def atoi_itoa)
qed

end
