(* ===== verification/Tun.thy ===== *)
theory Tun
  imports GoUtil
begin

text \<open>
  \<open>pkg/kt/service/tun\<close>: the routes to the tun device on Linux, macOS and Windows.  A command of the
  system is \<open>run\<close>, which gives its output or an error; the tun2socks engine and the wintun driver
  belong to libraries.
\<close>

type_synonym 'w runner = "string list \<Rightarrow> 'w \<Rightarrow> (string + go_error) \<times> 'w"

datatype route_error = AllRouteFailError "go_error option" | LastRouteError go_error

definition IsAllRouteFailError :: "route_error \<Rightarrow> bool" where
  "IsAllRouteFailError e = (case e of AllRouteFailError _ \<Rightarrow> True | LastRouteError _ \<Rightarrow> False)"

definition OriginalError :: "go_error option \<Rightarrow> go_error" where
  "OriginalError e = (case e of None \<Rightarrow> Errorf ''no route available'' | Some err \<Rightarrow> err)"

text \<open>What is returned after the loop over the ranges.\<close>

definition route_result :: "bool \<Rightarrow> go_error option \<Rightarrow> unit + route_error" where
  "route_result anyRouteOk lastErr =
     (if \<not> anyRouteOk then Inr (AllRouteFailError lastErr)
      else (case lastErr of None \<Rightarrow> Inl () | Some e \<Rightarrow> Inr (LastRouteError e)))"

section \<open>Linux\<close>

abbreviation (input) "TunNameLinux \<equiv> ''kt0''"

fun add_routes :: "'w runner \<Rightarrow> string list \<Rightarrow> bool \<Rightarrow> go_error option \<Rightarrow> 'w \<Rightarrow> (bool \<times> go_error option) \<times> 'w" where
  "add_routes run [] ok err w = ((ok, err), w)"
| "add_routes run (r # rs) ok err w =
     (case run [''ip'', ''route'', ''add'', r, ''dev'', TunNameLinux] w of
        (Inl _, w') \<Rightarrow> add_routes run rs True err w'
      | (Inr e, w') \<Rightarrow> add_routes run rs ok (Some e) w')"

definition SetRoute :: "'w runner \<Rightarrow> string list \<Rightarrow> string list \<Rightarrow> 'w \<Rightarrow> (unit + route_error) \<times> 'w" where
  "SetRoute run ipRange excludeIpRange w =
     (case run [''ip'', ''link'', ''set'', ''dev'', TunNameLinux, ''up''] w of
        (Inr e, w') \<Rightarrow> (Inr (AllRouteFailError (Some e)), w')
      | (Inl _, w') \<Rightarrow>
          (case add_routes run ipRange False None w' of ((ok, err), w'') \<Rightarrow> (route_result ok err, w'')))"

definition line_of_route :: "string \<Rightarrow> string \<Rightarrow> bool" where
  "line_of_route ir l \<longleftrightarrow> has_prefix l ir \<and> contains_str l ('' '' @ TunNameLinux @ '' '')"

definition CheckRoute :: "'w runner \<Rightarrow> string list \<Rightarrow> 'w \<Rightarrow> string list \<times> 'w" where
  "CheckRoute run ipRange w =
     (case run [''ip'', ''route'', ''show''] w of
        (Inr _, w') \<Rightarrow> ([], w')
      | (Inl out, w') \<Rightarrow>
          (filter (\<lambda>ir. \<not> list_ex (line_of_route ir) (split_on (CHR 0x0A) out)) ipRange, w'))"

definition CheckContext :: "'w runner \<Rightarrow> 'w \<Rightarrow> unit outcome \<times> 'w" where
  "CheckContext run w =
     (case run [''which'', ''ip''] w of
        (Inl _, w') \<Rightarrow> (Value (), w')
      | (Inr _, w') \<Rightarrow> (Fail (Errorf (''failed to found '' @ quoted ''ip'' @ '' command'')), w'))"

section \<open>macOS\<close>

text \<open>The name of the device: one more than the highest number of the interfaces.\<close>

fun highest_utun :: "string list \<Rightarrow> int \<Rightarrow> int" where
  "highest_utun [] n = n"
| "highest_utun (i # is) n =
     highest_utun is
       (if has_prefix i ''utun''
        then (case atoi (trim_prefix i ''utun'') of Some num \<Rightarrow> if num > n then num else n | None \<Rightarrow> n) else n)"

text \<open>The name and the cached name afterwards; \<open>ifaces\<close> is None where the interfaces cannot be listed.\<close>

definition darwin_name :: "string list option \<Rightarrow> string \<Rightarrow> string" where
  "darwin_name ifaces tunName =
     (if tunName \<noteq> [] then tunName
      else (case ifaces of None \<Rightarrow> ''utun'' @ itoa 9 | Some is \<Rightarrow> ''utun'' @ itoa (highest_utun is 0 + 1)))"

fun darwin_routes :: "'w runner \<Rightarrow> string \<Rightarrow> bool \<Rightarrow> string list \<Rightarrow> bool \<Rightarrow> go_error option \<Rightarrow> 'w \<Rightarrow>
    (bool \<times> go_error option) \<times> 'w" where
  "darwin_routes run dev isFirst [] ok err w = ((ok, err), w)"
| "darwin_routes run dev isFirst (r # rs) ok err w =
     (let tunIp = hd (split_on CHR ''/'' r)
      in case run (if isFirst then [''ifconfig'', dev, ''inet'', r, tunIp] else [''ifconfig'', dev, ''add'', r, tunIp]) w of
           (Inr e, w') \<Rightarrow> darwin_routes run dev False rs ok (Some e) w'
         | (Inl _, w') \<Rightarrow>
             (case run [''route'', ''add'', ''-net'', r, ''-interface'', dev] w' of
                (Inr e, w'') \<Rightarrow> darwin_routes run dev False rs True (Some e) w''
              | (Inl _, w'') \<Rightarrow> darwin_routes run dev False rs True err w''))"

definition darwin_set_route :: "'w runner \<Rightarrow> string \<Rightarrow> string list \<Rightarrow> 'w \<Rightarrow> (unit + route_error) \<times> 'w" where
  "darwin_set_route run dev ipRange w =
     (case darwin_routes run dev True ipRange False None w of ((ok, err), w') \<Rightarrow> (route_result ok err, w'))"

definition darwin_check_route :: "'w runner \<Rightarrow> string \<Rightarrow> string list \<Rightarrow> 'w \<Rightarrow> string list \<times> 'w" where
  "darwin_check_route run dev ipRange w =
     (case run [''netstat'', ''-rn''] w of
        (Inr _, w') \<Rightarrow> ([], w')
      | (Inl out, w') \<Rightarrow>
          (filter (\<lambda>ir. \<not> list_ex (\<lambda>l. has_prefix l (hd (split_on CHR ''/'' ir)) \<and> has_suffix (trim_space l) dev)
                     (split_on (CHR 0x0A) out)) ipRange, w'))"

section \<open>Windows\<close>

abbreviation (input) "TunNameWin \<equiv> ''KtConnectTunnel''"

text \<open>\<open>net.ParseCIDR\<close> gives the printed network address and the bytes of the mask.\<close>

definition toIpAndMask :: "(string \<Rightarrow> (string \<times> nat list) outcome) \<Rightarrow> string \<Rightarrow> (string \<times> string) outcome" where
  "toIpAndMask parse_cidr cidr = obind (parse_cidr cidr) (\<lambda>(ip, m). Value (ip, join_with ''.'' (map nat_str m)))"

definition windows_address :: "bool \<Rightarrow> bool \<Rightarrow> string \<Rightarrow> string \<Rightarrow> string \<Rightarrow> string list" where
  "windows_address ipv6 isFirst r tunIp netmask =
     (if ipv6 then [''netsh'', ''interface'', ''ipv6'', if isFirst then ''set'' else ''add'', ''address'', TunNameWin, r]
      else if isFirst then [''netsh'', ''interface'', ''ipv4'', ''set'', ''address'', TunNameWin, ''static'', tunIp, netmask]
      else [''netsh'', ''interface'', ''ipv4'', ''add'', ''address'', TunNameWin, tunIp, netmask])"

text \<open>The loops of the two versions; an IPv4 range that cannot be parsed ends everything (Inr).\<close>

fun windows_routes :: "'w runner \<Rightarrow> (string \<Rightarrow> (string \<times> nat list) outcome) \<Rightarrow> bool \<Rightarrow> bool \<Rightarrow> string list \<Rightarrow> bool \<Rightarrow>
    go_error option \<Rightarrow> 'w \<Rightarrow> ((bool \<times> go_error option) + go_error) \<times> 'w" where
  "windows_routes run parse_cidr ipv6 isFirst [] ok err w = (Inl (ok, err), w)"
| "windows_routes run parse_cidr ipv6 isFirst (r # rs) ok err w =
     (case (if ipv6 then Value ([], []) else toIpAndMask parse_cidr r) of
        Fail e \<Rightarrow> (Inr e, w)
      | Panic \<Rightarrow> (Inr (Errorf []), w)
      | Value (_, netmask) \<Rightarrow>
          (let tunIp = hd (split_on CHR ''/'' r)
           in case run (windows_address ipv6 isFirst r tunIp netmask) w of
                (Inr e, w') \<Rightarrow> windows_routes run parse_cidr ipv6 False rs ok (Some e) w'
              | (Inl _, w') \<Rightarrow>
                  (case run [''netsh'', ''interface'', if ipv6 then ''ipv6'' else ''ipv4'', ''add'', ''route'', r, TunNameWin, tunIp] w' of
                     (Inr e, w'') \<Rightarrow> windows_routes run parse_cidr ipv6 False rs True (Some e) w''
                   | (Inl _, w'') \<Rightarrow> windows_routes run parse_cidr ipv6 False rs True err w'')))"

definition windows_set_route ::
  "'w runner \<Rightarrow> (string \<Rightarrow> (string \<times> nat list) outcome) \<Rightarrow> bool \<Rightarrow> string list \<Rightarrow> 'w \<Rightarrow> (unit + route_error) \<times> 'w" where
  "windows_set_route run parse_cidr ipv6 ipRange w =
     (case windows_routes run parse_cidr ipv6 True ipRange False None w of
        (Inl (ok, err), w') \<Rightarrow> (route_result ok err, w')
      | (Inr e, w') \<Rightarrow> (Inr (AllRouteFailError (Some e)), w'))"

text \<open>The lines of a table of netsh: those after the line of dashes (which may occur again).\<close>

definition dash_line :: "string \<Rightarrow> bool" where
  "dash_line l \<longleftrightarrow> has_prefix l ''--'' \<and> has_suffix l ''--''"

text \<open>\<open>strings.Split\<close> at the end of line of Windows.\<close>

fun split_crlf :: "string \<Rightarrow> string list" where
  "split_crlf [] = [[]]"
| "split_crlf [a] = [[a]]"
| "split_crlf (a # b # s) =
     (if a = CHR 0x0D \<and> b = CHR 0x0A then [] # split_crlf s
      else (case split_crlf (b # s) of [] \<Rightarrow> [[a]] | y # ys \<Rightarrow> (a # y) # ys))"

definition table_lines :: "string \<Rightarrow> string list" where
  "table_lines out = filter (\<lambda>l. \<not> dash_line l) (dropWhile (\<lambda>l. \<not> dash_line l) (split_crlf out))"

definition getInterfaceIndex :: "'w runner \<Rightarrow> 'w \<Rightarrow> (string \<times> string list) outcome \<times> 'w" where
  "getInterfaceIndex run w =
     (case run [''netsh'', ''interface'', ''ipv4'', ''show'', ''interfaces''] w of
        (Inr e, w') \<Rightarrow> (Fail e, w')
      | (Inl out, w') \<Rightarrow>
          (let idx = (\<lambda>l. fst (split_once CHR '' '' (dropWhile (\<lambda>c. c = CHR '' '') l)));
               ls = table_lines out;
               kt = filter (\<lambda>l. has_suffix l TunNameWin) ls
           in (Value (if kt = [] then [] else idx (last kt), map idx (filter (\<lambda>l. \<not> has_suffix l TunNameWin) ls)), w')))"

record route_record =
  TargetRange :: string
  InterfaceIndex :: string
  InterfaceName :: string

text \<open>The words of a line of the route table: range, index and the name, which may have blanks.\<close>

definition record_of_line :: "string \<Rightarrow> route_record list" where
  "record_of_line l =
     (case drop 3 (filter (\<lambda>p. p \<noteq> []) (split_on CHR '' '' l)) of
        ipRange # idx # iface # more_words \<Rightarrow>
          [\<lparr> TargetRange = ipRange, InterfaceIndex = idx, InterfaceName = join_with '' '' (iface # more_words) \<rparr>]
      | _ \<Rightarrow> [])"

definition getKtRouteRecords :: "'w runner \<Rightarrow> 'w \<Rightarrow> route_record list outcome \<times> 'w" where
  "getKtRouteRecords run w =
     (case run [''netsh'', ''interface'', ''ipv4'', ''show'', ''route'', ''store=persistent''] w of
        (Inr e, w') \<Rightarrow> (Fail e, w')
      | (Inl out, w') \<Rightarrow> (Value (concat (map record_of_line (table_lines out))), w'))"

text \<open>The index of the device is the empty string when it could not be found.\<close>

definition windows_check_route :: "'w runner \<Rightarrow> string list \<Rightarrow> 'w \<Rightarrow> string list \<times> 'w" where
  "windows_check_route run ipRange w =
     (case getInterfaceIndex run w of (r1, w1) \<Rightarrow>
        (let ktIdx = (case r1 of Value (i, _) \<Rightarrow> i | _ \<Rightarrow> [])
         in case getKtRouteRecords run w1 of
              (Value records, w2) \<Rightarrow>
                (filter (\<lambda>ir. \<not> list_ex (\<lambda>r. TargetRange r = ir \<and> InterfaceIndex r = ktIdx) records) ipRange, w2)
            | (_, w2) \<Rightarrow> ([], w2)))"

fun delete_routes :: "'w runner \<Rightarrow> route_record list \<Rightarrow> go_error option \<Rightarrow> 'w \<Rightarrow> go_error option \<times> 'w" where
  "delete_routes run [] err w = (err, w)"
| "delete_routes run (r # rs) err w =
     (case run [''netsh'', ''interface'', ''ipv4'', ''delete'', ''route'', ''store=persistent'', TargetRange r,
                InterfaceIndex r, InterfaceName r] w of
        (Inl _, w') \<Rightarrow> delete_routes run rs err w'
      | (Inr e, w') \<Rightarrow> delete_routes run rs (Some e) w')"

definition windows_restore_route :: "'w runner \<Rightarrow> 'w \<Rightarrow> unit outcome \<times> 'w" where
  "windows_restore_route run w =
     (case getInterfaceIndex run w of
        (Value (_, otherIdx), w1) \<Rightarrow>
          (case getKtRouteRecords run w1 of
             (Value records, w2) \<Rightarrow>
               (case delete_routes run (filter (\<lambda>r. \<not> Contains otherIdx (InterfaceIndex r)) records) None w2 of
                  (None, w3) \<Rightarrow> (Value (), w3) | (Some e, w3) \<Rightarrow> (Fail e, w3))
           | (Fail e, w2) \<Rightarrow> (Fail e, w2)
           | (Panic, w2) \<Rightarrow> (Panic, w2))
      | (Fail e, w1) \<Rightarrow> (Fail e, w1)
      | (Panic, w1) \<Rightarrow> (Panic, w1))"

section \<open>Stopping the engine\<close>

text \<open>The flag \<open>stopped\<close> of the package, the number of times the engine was stopped, and the cached name.\<close>

record tun_state =
  EngineStops :: nat
  StoppedFlag :: bool
  CachedName :: string

definition Shutdown :: "tun_state \<Rightarrow> tun_state" where
  "Shutdown s = (if StoppedFlag s then s else s\<lparr>EngineStops := Suc (EngineStops s), CachedName := [], StoppedFlag := True\<rparr>)"

lemma shutdown_once: "0 < n \<Longrightarrow> \<not> StoppedFlag s \<Longrightarrow> EngineStops ((Shutdown ^^ n) s) = Suc (EngineStops s)"
proof -
  have "(Shutdown ^^ n) s = (if n = 0 then s else Shutdown s)" if "\<not> StoppedFlag s" for n
    using that by (induction n) (auto simp: Shutdown_def)
  then show "0 < n \<Longrightarrow> \<not> StoppedFlag s \<Longrightarrow> EngineStops ((Shutdown ^^ n) s) = Suc (EngineStops s)"
    by (simp add: Shutdown_def)
qed

section \<open>When all routes are set\<close>

text \<open>The answers of the machine to the route commands, one after the other.\<close>

fun route_answers :: "'w runner \<Rightarrow> string list \<Rightarrow> 'w \<Rightarrow> (string + go_error) list" where
  "route_answers run [] w = []"
| "route_answers run (r # rs) w =
     (case run [''ip'', ''route'', ''add'', r, ''dev'', TunNameLinux] w of (a, w') \<Rightarrow> a # route_answers run rs w')"

lemma add_routes_answers:
  "fst (add_routes run rs ok err w) =
     (ok \<or> list_ex isl (route_answers run rs w),
      fold (\<lambda>a e. case a of Inl _ \<Rightarrow> e | Inr x \<Rightarrow> Some x) (route_answers run rs w) err)"
  by (induction rs arbitrary: ok err w) (auto split: prod.split sum.split)

lemma fold_last_error:
  "fold (\<lambda>a e. case a of Inl _ \<Rightarrow> e | Inr x \<Rightarrow> Some x) as err = None \<longleftrightarrow> err = None \<and> list_all isl as"
  by (induction as arbitrary: err) (auto split: sum.split)

lemma set_route_ok:
  assumes "run [''ip'', ''link'', ''set'', ''dev'', TunNameLinux, ''up''] w = (Inl out, w1)"
  shows "fst (SetRoute run rs excl w) = Inl () \<longleftrightarrow> rs \<noteq> [] \<and> list_all isl (route_answers run rs w1)"
proof -
  have ans: "route_answers run rs w1 = [] \<longleftrightarrow> rs = []" by (cases rs) (auto split: prod.split)
  obtain ok err w2 where a: "add_routes run rs False None w1 = ((ok, err), w2)" by (metis prod.collapse)
  then have "ok = list_ex isl (route_answers run rs w1)" "err = None \<longleftrightarrow> list_all isl (route_answers run rs w1)"
    using add_routes_answers [of run rs False None w1] by (auto simp: fold_last_error)
  moreover have "fst (SetRoute run rs excl w) = route_result ok err" using assms a by (simp add: SetRoute_def)
  ultimately show ?thesis
    using ans by (cases "route_answers run rs w1") (auto simp: route_result_def split: option.split)
qed

lemma set_route_all_fail:
  assumes "run [''ip'', ''link'', ''set'', ''dev'', TunNameLinux, ''up''] w = (Inl out, w1)"
  shows "(\<exists>e. fst (SetRoute run rs excl w) = Inr (AllRouteFailError e)) \<longleftrightarrow> \<not> list_ex isl (route_answers run rs w1)"
proof -
  obtain ok err w2 where a: "add_routes run rs False None w1 = ((ok, err), w2)" by (metis prod.collapse)
  then have "ok = list_ex isl (route_answers run rs w1)"
    using add_routes_answers [of run rs False None w1] by auto
  moreover have "fst (SetRoute run rs excl w) = route_result ok err" using assms a by (simp add: SetRoute_def)
  ultimately show ?thesis by (auto simp: route_result_def split: option.split)
qed

end
