(* ===== verification/DnsSystems.thy ===== *)
theory DnsSystems
  imports Tun
begin

text \<open>
  The name server on macOS (\<open>pkg/kt/service/dns/dns_darwin.go\<close>), which is kept in a directory of
  resolver files, and on Windows (\<open>dns_windows.go\<close>), where it is set by netsh.  The files of the
  directory are a map from names to contents; the last part shows that the files of others stay.
\<close>

section \<open>macOS\<close>

abbreviation (input) "ktResolverPrefix \<equiv> ''kt.''"
abbreviation (input) "resolverComment \<equiv> ''# Generated by KtConnect''"

record resolver_dir =
  ResolverDirOk :: bool
  ResolverWritable :: bool
  ResolverFiles :: smap

definition resolver_content :: "string \<Rightarrow> string \<Rightarrow> string \<Rightarrow> string" where
  "resolver_content domain dnsIp dnsPort =
     resolverComment @ [CHR 0x0A] @ ''domain '' @ domain @ [CHR 0x0A] @ ''nameserver '' @ dnsIp @ [CHR 0x0A]
     @ ''port '' @ dnsPort @ [CHR 0x0A]"

text \<open>A file that exists is removed first; an error of the write is only logged.\<close>

definition createResolverFile :: "string \<Rightarrow> string \<Rightarrow> string \<Rightarrow> string \<Rightarrow> resolver_dir \<Rightarrow> resolver_dir" where
  "createResolverFile postfix domain dnsIp dnsPort d =
     (let files = mdelete (ResolverFiles d) (ktResolverPrefix @ postfix)
      in d\<lparr>ResolverFiles := (if ResolverWritable d
             then mput files (ktResolverPrefix @ postfix) (resolver_content domain dnsIp dnsPort) else files)\<rparr>)"

text \<open>The files before the signal; \<open>namespaces\<close> is None where they cannot be listed.\<close>

definition darwin_set_name_server ::
  "string \<Rightarrow> string \<Rightarrow> string list option \<Rightarrow> string \<Rightarrow> resolver_dir \<Rightarrow> unit outcome \<times> resolver_dir" where
  "darwin_set_name_server clusterDomain namespace namespaces dnsServer d =
     (if \<not> ResolverDirOk d then (Fail (OtherError ''create resolver dir''), d)
      else (let nsList = (case namespaces of None \<Rightarrow> [namespace] | Some nss \<Rightarrow> nss);
                preferredDnsInfo = split_on CHR '':'' dnsServer;
                dnsIp = preferredDnsInfo ! 0;
                dnsPort = (if length preferredDnsInfo > 1 then preferredDnsInfo ! 1 else itoa 53);
                d1 = createResolverFile ''local'' clusterDomain dnsIp dnsPort d;
                d2 = createResolverFile ''svc.local'' ''svc'' dnsIp dnsPort d1
            in (Value (), fold (\<lambda>ns. createResolverFile (ns @ ''.local'') ns dnsIp dnsPort) nsList d2)))"

fun last_dot :: "string \<Rightarrow> string option" where
  "last_dot [] = None"
| "last_dot (c # cs) = (case last_dot cs of Some s \<Rightarrow> Some s | None \<Rightarrow> if c = CHR ''.'' then Some cs else None)"

fun getAllDomainSuffixes :: "string list \<Rightarrow> string list \<Rightarrow> string list" where
  "getAllDomainSuffixes [] suffixes = suffixes"
| "getAllDomainSuffixes (domain # domains) suffixes =
     getAllDomainSuffixes domains
       (case last_dot domain of
          None \<Rightarrow> suffixes
        | Some suffix \<Rightarrow> if Contains suffixes suffix then suffixes else suffixes @ [suffix])"

definition HandleExtraDomainMapping :: "string \<Rightarrow> smap \<Rightarrow> int \<Rightarrow> resolver_dir \<Rightarrow> resolver_dir" where
  "HandleExtraDomainMapping includeDomains extraDomains localDnsPort d =
     (let make = (\<lambda>suffix. createResolverFile (suffix @ ''.local'') suffix ''127.0.0.1'' (itoa localDnsPort));
          d1 = fold make (getAllDomainSuffixes (map fst (entries extraDomains)) []) d
      in fold make (filter (\<lambda>s. s \<noteq> []) (split_on CHR '','' includeDomains)) d1)"

definition darwin_restore_name_server :: "resolver_dir \<Rightarrow> resolver_dir" where
  "darwin_restore_name_server d =
     d\<lparr>ResolverFiles := fold (\<lambda>f files. if has_prefix f ktResolverPrefix then mdelete files f else files)
        (map fst (entries (ResolverFiles d))) (ResolverFiles d)\<rparr>"

section \<open>Windows\<close>

definition windows_set_name_server :: "'w runner \<Rightarrow> string \<Rightarrow> 'w \<Rightarrow> unit outcome \<times> 'w" where
  "windows_set_name_server run dnsServer w =
     (case run [''netsh'', ''interface'', ''ipv4'', ''set'', ''interface'', TunNameWin, ''metric=2''] w of
        (Inr e, w') \<Rightarrow> (Fail e, w')
      | (Inl _, w') \<Rightarrow>
          (case run [''netsh'', ''interface'', ''ipv4'', ''set'', ''dnsservers'', ''name='' @ TunNameWin, ''source=static'',
                     ''address='' @ hd (split_on CHR '':'' dnsServer)] w' of
             (Inr e, w'') \<Rightarrow> (Fail e, w'')
           | (Inl _, w'') \<Rightarrow> (Value (), w'')))"

text \<open>
  The match of \<open>n\<close> numbers separated by dots at the head of a string, with the rest of it; and all
  matches, up to a limit.  (Digits and dots exclude each other, so that taking as many digits as there
  are is the only way to match.)
\<close>

fun match_ip :: "nat \<Rightarrow> string \<Rightarrow> (string \<times> string) option" where
  "match_ip 0 s = Some ([], s)"
| "match_ip (Suc n) s =
     (if takeWhile is_digit s = [] then None
      else if n = 0 then Some (takeWhile is_digit s, dropWhile is_digit s)
      else (case dropWhile is_digit s of
              [] \<Rightarrow> None
            | c # cs \<Rightarrow> if c \<noteq> CHR ''.'' then None
                        else map_option (\<lambda>(m, rest). (takeWhile is_digit s @ c # m, rest)) (match_ip n cs)))"

lemma match_ip_shorter: "match_ip (Suc n) s = Some (m, rest) \<Longrightarrow> length rest < length s"
proof (induction n arbitrary: s m)
  case 0
  then show ?case using length_dropWhile_le [of is_digit s]
    by (cases s) (auto split: if_splits intro: le_imp_less_Suc [OF length_dropWhile_le])
next
  case (Suc n)
  then obtain cs m' where "dropWhile is_digit s = CHR ''.'' # cs" "match_ip (Suc n) cs = Some (m', rest)"
    by (auto split: if_splits list.splits simp del: match_ip.simps(2) simp: match_ip.simps(2) [of "Suc n"])
  with Suc.IH [of cs m'] length_dropWhile_le [of is_digit s] show ?case by simp
qed

lemma match_ip_4: "match_ip 4 s = Some (m, rest) \<Longrightarrow> length rest < length s"
  using match_ip_shorter [of 3 s m rest] by (simp add: numeral_eq_Suc del: match_ip.simps)

function find_ips :: "nat \<Rightarrow> string \<Rightarrow> string list" where
  "find_ips 0 s = []"
| "find_ips (Suc n) s =
     (if s = [] then []
      else (case match_ip 4 s of Some (m, rest) \<Rightarrow> m # find_ips n rest | None \<Rightarrow> find_ips (Suc n) (tl s)))"
  by pat_completeness auto
termination
  by (relation "measure (\<lambda>(n, s). n + length s)")
     (auto dest!: match_ip_4 simp del: match_ip.simps)

definition windows_get_name_server :: "'w runner \<Rightarrow> 'w \<Rightarrow> string \<times> 'w" where
  "windows_get_name_server run w =
     (case run [''netsh'', ''interface'', ''ipv4'', ''show'', ''dnsservers''] w of
        (Inr e, w') \<Rightarrow> ([], w')
      | (Inl out, w') \<Rightarrow>
          ((case find (\<lambda>addr. addr \<noteq> ''127.0.0.1'') (find_ips 10 out) of Some addr \<Rightarrow> addr | None \<Rightarrow> []), w'))"

lemma find_ips_example:
  "find_ips 10 ''DNS: 127.0.0.1, 10.96.0.10 (1.2.3)'' = [''127.0.0.1'', ''10.96.0.10'']"
  by code_simp

section \<open>The files of others stay\<close>

definition foreign :: "string \<Rightarrow> bool" where
  "foreign f \<longleftrightarrow> \<not> has_prefix f ktResolverPrefix"

definition same_foreign :: "smap \<Rightarrow> smap \<Rightarrow> bool" where
  "same_foreign a b \<longleftrightarrow> (\<forall>f. foreign f \<longrightarrow> mlookup a f = mlookup b f)"

lemma same_foreign_refl [simp]: "same_foreign a a"
  by (simp add: same_foreign_def)

lemma same_foreign_trans: "same_foreign a b \<Longrightarrow> same_foreign b c \<Longrightarrow> same_foreign a c"
  by (simp add: same_foreign_def)

lemma same_foreign_delete: "has_prefix f ktResolverPrefix \<Longrightarrow> same_foreign (mdelete m f) m"
  by (auto simp: same_foreign_def foreign_def)

lemma same_foreign_put: "has_prefix f ktResolverPrefix \<Longrightarrow> same_foreign (mput m f v) m"
  by (auto simp: same_foreign_def foreign_def)

lemma same_foreign_create: "same_foreign (ResolverFiles (createResolverFile p dm i n d)) (ResolverFiles d)"
  by (auto simp: createResolverFile_def Let_def has_prefix_iff
      intro: same_foreign_delete same_foreign_trans [OF same_foreign_put same_foreign_delete])

lemma same_foreign_create_all:
  "same_foreign (ResolverFiles d) m \<Longrightarrow> same_foreign (ResolverFiles (fold (\<lambda>x. createResolverFile (p x) (dm x) i n) xs d)) m"
  by (induction xs arbitrary: d) (auto intro: same_foreign_trans [OF same_foreign_create])

lemma darwin_set_foreign:
  "same_foreign (ResolverFiles (snd (darwin_set_name_server cd ns nss server d))) (ResolverFiles d)"
  by (auto simp: darwin_set_name_server_def Let_def simp del: fold_simps
      intro!: same_foreign_create_all same_foreign_trans [OF same_foreign_create same_foreign_create])

lemma extra_domains_foreign:
  "same_foreign (ResolverFiles (HandleExtraDomainMapping inc extra p d)) (ResolverFiles d)"
  by (auto simp: HandleExtraDomainMapping_def Let_def intro!: same_foreign_create_all)

lemma remove_kt_lookup:
  "mlookup (fold (\<lambda>f files. if has_prefix f ktResolverPrefix then mdelete files f else files) fs m) x =
     (if x \<in> set fs \<and> has_prefix x ktResolverPrefix then None else mlookup m x)"
proof (induction fs arbitrary: m)
  case (Cons f fs)
  show ?case by (auto simp: Cons.IH)
qed simp

lemma darwin_restore_lookup:
  "mlookup (ResolverFiles (darwin_restore_name_server d)) x =
     (if has_prefix x ktResolverPrefix then None else mlookup (ResolverFiles d) x)"
proof -
  have "mlookup m x = None" if "x \<notin> fst ` set (entries m)" for m :: smap
    using that by (simp add: mlookup_def map_of_eq_None_iff)
  then show ?thesis by (auto simp: darwin_restore_name_server_def remove_kt_lookup)
qed

end
