(* ===== verification/Processes.thy ===== *)
theory Processes
  imports Tun "HOL-Library.Word"
begin

text \<open>
  Programs that ktctl runs on the machine: \<open>pkg/kt/util/run.go\<close>, the processes of \<open>util/system.go\<close>, the
  commands a tun device needs on each system, and sshuttle (\<open>pkg/kt/service/sshuttle\<close> and
  \<open>pkg/kt/command/connect/sshuttle.go\<close>).  The runner of \<open>Tun\<close> runs a command line and gives its output
  or its error.
\<close>

unbundle bit_operations_syntax

section \<open>Commands\<close>

definition CanRun :: "'w runner \<Rightarrow> string list \<Rightarrow> 'w \<Rightarrow> bool \<times> 'w" where
  "CanRun run cmd w = (case run cmd w of (Inl _, w') \<Rightarrow> (True, w') | (Inr _, w') \<Rightarrow> (False, w'))"

definition not_found :: "string \<Rightarrow> go_error" where
  "not_found name = Errorf (''failed to found '' @ quoted name @ '' command'')"

definition darwin_CheckContext :: "'w runner \<Rightarrow> 'w \<Rightarrow> unit outcome \<times> 'w" where
  "darwin_CheckContext run w =
     (case CanRun run [''which'', ''ifconfig''] w of (ifconfig, w1) \<Rightarrow>
        if \<not> ifconfig then (Fail (not_found ''ifconfig''), w1)
        else (case CanRun run [''which'', ''route''] w1 of (route, w2) \<Rightarrow>
          if \<not> route then (Fail (not_found ''route''), w2)
          else (case CanRun run [''which'', ''netstat''] w2 of (netstat, w3) \<Rightarrow>
            if \<not> netstat then (Fail (not_found ''netstat''), w3) else (Value (), w3))))"

text \<open>
  \<open>wintun.RunningVersion\<close> panics where the driver cannot be loaded, with the text \<open>r\<close> of \<open>Some r\<close>; the
  panic is recovered and becomes the error.
\<close>

definition windows_CheckContext :: "'w runner \<Rightarrow> string option \<Rightarrow> 'w \<Rightarrow> unit outcome \<times> 'w" where
  "windows_CheckContext run driver_panic w =
     (case CanRun run [''netsh''] w of (netsh, w1) \<Rightarrow>
        if \<not> netsh then (Fail (not_found ''netsh''), w1)
        else (case driver_panic of
                Some r \<Rightarrow> (Fail (Errorf (''failed to found tun driver: '' @ r)), w1)
              | None \<Rightarrow> (Value (), w1)))"

text \<open>What \<open>ToSocks\<close> gives to the engine of the tun device before it starts it.\<close>

record engine_key =
  EngineProxy :: string
  EngineDevice :: string
  EngineLogLevel :: string

definition engine_key_of :: "bool \<Rightarrow> string \<Rightarrow> string \<Rightarrow> engine_key" where
  "engine_key_of debug name sockAddr =
     \<lparr> EngineProxy = sockAddr, EngineDevice = ''tun://'' @ name, EngineLogLevel = (if debug then ''debug'' else ''warn'') \<rparr>"

section \<open>Processes of the machine\<close>

text \<open>\<open>executables pid\<close> is the executable of a process, None where there is none or it cannot be read.\<close>

definition IsProcessExist :: "(int \<Rightarrow> string option) \<Rightarrow> int \<Rightarrow> bool" where
  "IsProcessExist executables pid = (case executables pid of None \<Rightarrow> False | Some executable \<Rightarrow> contains_str executable ''ktctl'')"

text \<open>
  Whether the program runs with the rights of an administrator: the effective user on Unix; on Windows the
  membership of the token in the group of administrators (a security identifier or a membership that
  cannot be read is None) or an elevated token.
\<close>

definition unix_IsRunAsAdmin :: "int \<Rightarrow> bool" where
  "unix_IsRunAsAdmin euid \<longleftrightarrow> euid = 0"

definition windows_IsRunAsAdmin :: "'sid option \<Rightarrow> ('sid \<Rightarrow> bool option) \<Rightarrow> bool \<Rightarrow> bool" where
  "windows_IsRunAsAdmin sid IsMember isElevated =
     (case sid of None \<Rightarrow> False
      | Some s \<Rightarrow> (case IsMember s of None \<Rightarrow> False | Some isAdminMember \<Rightarrow> isElevated \<or> isAdminMember))"

text \<open>The parent process decides; an unknown one counts as the shell of Windows.\<close>

definition IsCmd :: "(int \<Rightarrow> string option) \<Rightarrow> int \<Rightarrow> bool" where
  "IsCmd executables ppid = (case executables ppid of None \<Rightarrow> True | Some executable \<Rightarrow> contains_str executable ''cmd.exe'')"

definition showSetupSocksMessage :: "bool \<Rightarrow> bool \<Rightarrow> string \<Rightarrow> string" where
  "showSetupSocksMessage windows cmd socksAddress =
     ''>> Please setup proxy config by: '' @
     (if windows
      then (if cmd then ''set http_proxy='' @ socksAddress
            else ''$env:http_proxy='' @ [CHR 0x22] @ socksAddress @ [CHR 0x22])
      else ''export http_proxy='' @ socksAddress) @ '' <<''"

text \<open>
  \<open>watchPidFile\<close>: the operations of the events of the file, as the bits of fsnotify, and the number of
  interrupts that are sent.  Without a watcher the call of its methods panics; a file that cannot be
  watched has no events.
\<close>

definition fs_Remove :: "32 word" where "fs_Remove = 4"
definition fs_Rename :: "32 word" where "fs_Rename = 8"

fun pid_file_loop :: "32 word list \<Rightarrow> nat" where
  "pid_file_loop [] = 0"
| "pid_file_loop (event # events) =
     (if event AND fs_Remove = fs_Remove \<or> event AND fs_Rename = fs_Rename then Suc (pid_file_loop events)
      else pid_file_loop events)"

definition watchPidFile :: "bool \<Rightarrow> bool \<Rightarrow> 32 word list \<Rightarrow> nat outcome" where
  "watchPidFile new_watcher watched events =
     (if \<not> new_watcher then Panic else Value (pid_file_loop (if watched then events else [])))"

text \<open>A session is told just when an event has the bit of a removal or of a new name.\<close>

lemma pid_file_interrupts:
  "watchPidFile True True events = Value n \<Longrightarrow> 0 < n \<longleftrightarrow> (\<exists>e \<in> set events. bit e 2 \<or> bit e 3)"
proof -
  have p: "e AND 2 ^ n = 2 ^ n \<longleftrightarrow> bit e n" if "n < 32" for e :: "32 word" and n
    using that by (auto simp: bit_eq_iff [where 'a = "32 word"] bit_simps)
  have b: "e AND (4 :: 32 word) = 4 \<longleftrightarrow> bit e 2" "e AND (8 :: 32 word) = 8 \<longleftrightarrow> bit e 3" for e :: "32 word"
    using p [of 2 e] p [of 3 e] by simp_all
  have "0 < pid_file_loop es \<longleftrightarrow> (\<exists>e \<in> set es. bit e 2 \<or> bit e 3)" for es
    by (induction es) (simp_all add: fs_Remove_def fs_Rename_def b)
  then show "watchPidFile True True events = Value n \<Longrightarrow> ?thesis" by (auto simp: watchPidFile_def)
qed

section \<open>sshuttle\<close>

definition sshuttle_Version :: "string list" where
  "sshuttle_Version = [''sshuttle'', ''--version'']"

text \<open>Under sudo the package is installed for the user.\<close>

definition sshuttle_Install :: "string \<Rightarrow> string list" where
  "sshuttle_Install sudoUser =
     (if sudoUser \<noteq> [] then [''sudo'', ''-u'', sudoUser, ''pip3'', ''install'', ''sshuttle'']
      else [''pip3'', ''install'', ''sshuttle''])"

definition checkSshuttleInstalled :: "'w runner \<Rightarrow> string \<Rightarrow> 'w \<Rightarrow> unit \<times> 'w" where
  "checkSshuttleInstalled run sudoUser w =
     (case CanRun run sshuttle_Version w of (found, w1) \<Rightarrow>
        if \<not> found then (case run (sshuttle_Install sudoUser) w1 of (_, w2) \<Rightarrow> ((), w2)) else ((), w1))"

text \<open>
  \<open>startSshuttle\<close>, with the goroutine that starts it again ten seconds after the process has ended.
  \<open>starts\<close> are the results of \<open>cmd.Start\<close>, one after the other; the result of the first call goes to the
  caller, those of the goroutine are dropped.  The number is that of the processes that have run.
\<close>

fun startSshuttle :: "go_error option list \<Rightarrow> unit outcome \<times> nat" where
  "startSshuttle [] = (Value (), 0)"
| "startSshuttle (Some err # starts) = (Fail err, 0)"
| "startSshuttle (None # starts) = (Value (), Suc (snd (startSshuttle starts)))"

text \<open>A restart that fails is the last one: the processes are those before the first failed start.\<close>

lemma sshuttle_restarts:
  "snd (startSshuttle starts) = length (takeWhile (\<lambda>s. s = None) starts)"
  "fst (startSshuttle starts) = (case starts of Some err # _ \<Rightarrow> Fail err | _ \<Rightarrow> Value ())"
  by (induction starts rule: startSshuttle.induct) simp_all

lemma sshuttle_gives_up:
  assumes "s \<noteq> None"
  shows "startSshuttle (None # xs @ s # ys) = startSshuttle (None # xs @ [s])"
proof -
  have t: "takeWhile (\<lambda>s. s = None) (xs @ s # zs) = takeWhile (\<lambda>s. s = None) xs" for zs
    using assms by (induction xs) simp_all
  have "snd (startSshuttle (xs @ s # ys)) = snd (startSshuttle (xs @ [s]))"
    unfolding sshuttle_restarts(1) t by (rule refl)
  then show ?thesis by simp
qed

section \<open>What the commands leave alone\<close>

text \<open>A property of the world that every command keeps is kept by what is made of commands.\<close>

definition leads_to :: "('w \<Rightarrow> bool) \<Rightarrow> 'a \<times> 'w \<Rightarrow> bool" where
  "leads_to P r \<longleftrightarrow> P (snd r)"

lemma leads_to_pair [simp]: "leads_to P (a, w) = P w"
  by (simp add: leads_to_def)

definition keeps_world :: "'w runner \<Rightarrow> ('w \<Rightarrow> bool) \<Rightarrow> bool" where
  "keeps_world run P \<longleftrightarrow> (\<forall>cmd w. P w \<longrightarrow> leads_to P (run cmd w))"

lemma keeps_worldD: "keeps_world run P \<Longrightarrow> P w \<Longrightarrow> leads_to P (run cmd w)"
  by (simp add: keeps_world_def)

text \<open>One rule per form in which a definition goes on after a command.\<close>

lemma keep_run:
  assumes "keeps_world run P" and "P w"
    and "\<And>out w'. P w' \<Longrightarrow> leads_to P (f out w')" and "\<And>e w'. P w' \<Longrightarrow> leads_to P (g e w')"
  shows "leads_to P (case run cmd w of (Inl out, w') \<Rightarrow> f out w' | (Inr e, w') \<Rightarrow> g e w')"
  using assms(3,4) keeps_worldD [OF assms(1,2), of cmd] by (auto split: prod.split sum.split)

lemma keep_then:
  assumes "leads_to P c" and "\<And>a w'. P w' \<Longrightarrow> leads_to P (f a w')"
  shows "leads_to P (case c of (a, w') \<Rightarrow> f a w')"
  using assms by (cases c) simp

lemma keep_outcome:
  assumes "\<And>x. leads_to P (f x)" and "\<And>e. leads_to P (g e)" and "leads_to P h"
  shows "leads_to P (case r of Value x \<Rightarrow> f x | Fail e \<Rightarrow> g e | Panic \<Rightarrow> h)"
  using assms by (cases r) simp_all

lemma keep_if: "(b \<Longrightarrow> leads_to P c) \<Longrightarrow> (\<not> b \<Longrightarrow> leads_to P d) \<Longrightarrow> leads_to P (if b then c else d)"
  by simp

lemma add_routes_keep: "keeps_world run P \<Longrightarrow> P w \<Longrightarrow> leads_to P (add_routes run rs ok err w)"
  by (induction rs arbitrary: ok err w) (simp, simp, intro keep_run, assumption+)

lemma darwin_routes_keep: "keeps_world run P \<Longrightarrow> P w \<Longrightarrow> leads_to P (darwin_routes run dev isFirst rs ok err w)"
  by (induction rs arbitrary: isFirst ok err w) (simp, unfold darwin_routes.simps Let_def, intro keep_run, simp_all)

lemma windows_routes_keep:
  "keeps_world run P \<Longrightarrow> P w \<Longrightarrow> leads_to P (windows_routes run parse ipv6 isFirst rs ok err w)"
proof (induction rs arbitrary: isFirst ok err w)
  case (Cons r rs)
  show ?case unfolding windows_routes.simps(2) Let_def
    by (rule keep_outcome, split prod.split, intro allI impI keep_run Cons.prems) (simp_all add: Cons)
qed simp

lemma CanRun_keeps: "keeps_world run P \<Longrightarrow> P w \<Longrightarrow> leads_to P (CanRun run cmd w)"
  unfolding CanRun_def by (intro keep_run) simp_all

lemma tables_keep:
  assumes k: "keeps_world run P" and w: "P w"
  shows "leads_to P (getInterfaceIndex run w)" "leads_to P (getKtRouteRecords run w)"
  using w unfolding getInterfaceIndex_def getKtRouteRecords_def Let_def by (intro keep_run k; simp)+

lemma set_routes_keep:
  assumes k: "keeps_world run P" and w: "P w"
  shows "leads_to P (SetRoute run rs ex w)" "leads_to P (darwin_set_route run dev rs w)" "leads_to P (windows_set_route run parse ipv6 rs w)"
proof -
  show "leads_to P (SetRoute run rs ex w)" unfolding SetRoute_def
    by (intro keep_run k w keep_then add_routes_keep) (simp_all split: prod.split)
  show "leads_to P (darwin_set_route run dev rs w)" unfolding darwin_set_route_def
    by (rule keep_then, rule darwin_routes_keep [OF k w]) (simp split: prod.split)
  show "leads_to P (windows_set_route run parse ipv6 rs w)" unfolding windows_set_route_def
    by (rule keep_then, rule windows_routes_keep [OF k w]) (auto split: sum.split)
qed

lemma check_routes_keep:
  assumes k: "keeps_world run P" and w: "P w"
  shows "leads_to P (CheckRoute run rs w)" "leads_to P (darwin_check_route run dev rs w)" "leads_to P (windows_check_route run rs w)"
proof -
  show "leads_to P (CheckRoute run rs w)" "leads_to P (darwin_check_route run dev rs w)"
    unfolding CheckRoute_def darwin_check_route_def by (intro keep_run k w; simp)+
  show "leads_to P (windows_check_route run rs w)" unfolding windows_check_route_def Let_def
    by (rule keep_then, rule tables_keep [OF k w], rule keep_then, erule tables_keep [OF k], intro keep_outcome) simp_all
qed

lemma checks_keep:
  assumes k: "keeps_world run P" and w: "P w"
  shows "leads_to P (CheckContext run w)" "leads_to P (darwin_CheckContext run w)" "leads_to P (windows_CheckContext run driver w)"
    "leads_to P (checkSshuttleInstalled run user w)"
proof -
  note can = CanRun_keeps [OF k]
  show "leads_to P (CheckContext run w)" unfolding CheckContext_def by (intro keep_run k w) simp_all
  show "leads_to P (darwin_CheckContext run w)" unfolding darwin_CheckContext_def
    by (rule keep_then, rule can [OF w], intro keep_if, simp,
        rule keep_then, erule can, intro keep_if, simp, rule keep_then, erule can, intro keep_if) simp_all
  show "leads_to P (windows_CheckContext run driver w)" unfolding windows_CheckContext_def
    by (rule keep_then, rule can [OF w]) (auto split: option.split)
  show "leads_to P (checkSshuttleInstalled run user w)" unfolding checkSshuttleInstalled_def
    by (rule keep_then, rule can [OF w]) (auto intro!: keep_then keeps_worldD [OF k])
qed

end
