(* ===== verification/Connect.thy ===== *)
theory Connect
  imports Clean Cidr Hosts ResolvConf LocalDns Transmission DnsSystems Processes
begin

text \<open>
  \<open>pkg/kt/command/connect.go\<close> and \<open>connect/\<close>: checks of the options, the shadow of a connect session,
  its port forwards, and the way service names are resolved on the machine.  The world of the program
  is the cluster together with what the packages \<open>dns\<close> and \<open>tun\<close> keep on the machine: the hosts file,
  resolv.conf with the firewall, and the local DNS server.
\<close>

section \<open>Options and machine\<close>

record connect_options =
  Connect_SkipCleanup :: bool
  Connect_ClusterDomain :: string
  Connect_DnsPort :: int
  Connect_Dns :: dns_options
  Connect_IncludeDomains :: string
  Connect_ExcludeIps :: string
  Connect_ProxyAddr :: string
  Connect_ProxyPort :: int
  Connect_DisableTunRoute :: bool
  Global_Debug :: bool

text \<open>
  A watch that \<open>watchServicesAndPods\<close> has started, with the variables its handlers share, and the
  machine: everything that is not modelled, the hosts file, resolv.conf and iptables, the resolver
  directory of macOS, the DNS server with its port, the watches, and the targets whose port forward
  ends the session when it is lost.
\<close>

record watch =
  WatchNamespace :: string
  HeadlessPods :: "string list"
  ShortDomainOnly :: bool
  WatchSetupTime :: int

record ('c, 'f) desktop =
  Outside :: 'c
  HostsFile :: hosts_state
  Names :: "'f name_service"
  Resolvers :: resolver_dir
  LocalServer :: "(dns_server \<times> int) option"
  Watches :: "watch list"
  EndsSession :: "string list"

type_synonym ('c, 'f) desktop_call = "(('c, 'f) desktop, unit outcome) state"

text \<open>
  The calls outside the program: processes and permissions, the clock, random numbers (named by where
  they are drawn), port forwards (the first argument tells a session forward), the SSH proxy, the engine
  of the tun device (with the interfaces of the machine, the panic of the driver of Windows and the parser
  of ranges), sshuttle, the lists of the cluster that fail with None, the files of the resolver, iptables,
  and the runner of all other commands.  \<open>Executables\<close> are the running processes.
\<close>

record ('c, 'f) machine_calls =
  IsRunAsAdmin :: bool
  IsWindows :: bool
  IsMacos :: bool
  PidDirFiles :: "string list"
  Executables :: "int \<Rightarrow> string option"
  RandomString :: "nat \<Rightarrow> string"
  RandomTcpPort :: "string \<Rightarrow> int"
  LocalClock :: "(('c, 'f) desktop, int) state"
  PidFileCall :: "string \<Rightarrow> ('c, 'f) desktop_call"
  PortForwardCall :: "bool \<Rightarrow> string \<Rightarrow> int \<Rightarrow> int \<Rightarrow> ('c, 'f) desktop_call"
  StartSocks5 :: "string \<Rightarrow> string \<Rightarrow> string \<Rightarrow> ('c, 'f) desktop_call"
  WintunPanic :: "string option"
  StartEngine :: "engine_key \<Rightarrow> ('c, 'f) desktop_call"
  Interfaces :: "string list option"
  ParseMask :: "string \<Rightarrow> (string \<times> nat list) outcome"
  SudoUser :: string
  StartSshuttle :: "string list \<Rightarrow> ('c, 'f) desktop_call"
  StartDnsServer :: "int \<Rightarrow> ('c, 'f) desktop_call"
  ServiceIps :: "string \<Rightarrow> string list option"
  PodIps :: "string \<Rightarrow> string list option"
  LookupIp :: "string \<Rightarrow> string list option"
  CidrOptions :: cidr_options
  ResolvedConf :: "string list option"
  AllIngresses :: "string list list option"
  AllNamespaces :: "string list option"
  Iptables :: "iptables_action \<Rightarrow> 'f \<Rightarrow> bool \<times> 'f"
  RunCommand :: "'c runner"

section \<open>Checks before the start\<close>

definition lane_char :: "char \<Rightarrow> bool" where
  "lane_char ch \<longleftrightarrow> is_lower ch \<or> is_digit ch"

text \<open>The loop over the characters of the lane with their positions.\<close>

fun lane_loop :: "string \<Rightarrow> nat \<Rightarrow> string \<Rightarrow> unit outcome" where
  "lane_loop lane i [] = Value ()"
| "lane_loop lane i (ch # rest) =
     (if \<not> (lane_char ch \<or> ch = CHR ''-'')
      then Fail (Errorf (''invalid lane '' @ quoted lane @ '': only [a-z0-9-] allowed''))
      else if (i = 0 \<or> i = length lane - 1) \<and> \<not> lane_char ch
      then Fail (Errorf (''invalid lane '' @ quoted lane @ '': must start and end with [a-z0-9]''))
      else lane_loop lane (Suc i) rest)"

definition checkPermissionAndOptions :: "('c, 'f) machine_calls \<Rightarrow> kt_options \<Rightarrow> unit outcome" where
  "checkPermissionAndOptions m opts =
     (if \<not> IsRunAsAdmin m
      then Fail (Errorf (if IsWindows m then ''permission declined, please re-run connect command as Administrator''
                         else ''permission declined, please re-run connect command with 'sudo'' @ [CHR 0x27]))
      else if Connect_Mode opts = ''tun2socks'' \<and> Connect_DnsMode opts = ''podDNS''
      then Fail (Errorf (''dns mode '' @ quoted ''podDNS'' @ '' is not available for connect mode '' @ quoted ''tun2socks''))
      else if Connect_Lane opts \<noteq> [] then
        (if Connect_ShareShadow opts
         then Fail (Errorf ''--lane cannot be used with --shareShadow; lane-aware connect requires a dedicated shadow'')
         else if length (Connect_Lane opts) > 63
         then Fail (Errorf (''invalid lane '' @ quoted (Connect_Lane opts) @ '': length must be <= 63''))
         else lane_loop (Connect_Lane opts) 0 (Connect_Lane opts))
      else Value ())"

text \<open>\<open>util.GetDaemonRunning\<close>: the slice of a name panics where its bounds cross.\<close>

fun daemon_loop :: "(int \<Rightarrow> bool) \<Rightarrow> string \<Rightarrow> string list \<Rightarrow> int outcome" where
  "daemon_loop exist componentName [] = Value (-1)"
| "daemon_loop exist componentName (f # fs) =
     (if has_prefix f componentName \<and> has_suffix f ''.pid''
      then (let from_pos = length componentName + 1; to_pos = length f - length ''.pid''
            in if from_pos > to_pos then Panic
               else (case atoi (take (to_pos - from_pos) (drop from_pos f)) of
                       Some pid \<Rightarrow> if exist pid then Value pid else daemon_loop exist componentName fs
                     | None \<Rightarrow> daemon_loop exist componentName fs))
      else daemon_loop exist componentName fs)"

definition GetDaemonRunning :: "('c, 'f) machine_calls \<Rightarrow> string \<Rightarrow> int outcome" where
  "GetDaemonRunning m componentName = daemon_loop (IsProcessExist (Executables m)) componentName (PidDirFiles m)"

definition preCheck :: "('c, 'f) machine_calls \<Rightarrow> kt_options \<Rightarrow> unit outcome" where
  "preCheck m opts =
     obind (checkPermissionAndOptions m opts) (\<lambda>_.
     obind (GetDaemonRunning m ''connect'') (\<lambda>pid.
     if pid > 0 then Fail (Errorf (''another connect process already running at '' @ itoa pid @ '', exiting''))
     else Value ()))"

section \<open>The shadow of a session\<close>

definition session_name :: "int \<Rightarrow> string \<Rightarrow> string" where
  "session_name time random = ''s'' @ GetTimestamp time @ ''-'' @ to_lower random"

text \<open>A session name is made once.\<close>

definition ensure_session :: "'w kube \<Rightarrow> string \<Rightarrow> ('w prog, string) state" where
  "ensure_session k random = do {
     s \<leftarrow> get_store;
     if Store_Session s = [] then do {
       time \<leftarrow> now k;
       set_store (\<lambda>s. s\<lparr>Store_Session := session_name time random\<rparr>);
       State_Monad.return (session_name time random)
     }
     else State_Monad.return (Store_Session s)
   }"

definition buildLaneShadowName :: "'w kube \<Rightarrow> kt_options \<Rightarrow> string \<Rightarrow> ('w prog, string) state" where
  "buildLaneShadowName k opts random = do {
     session \<leftarrow> ensure_session k random;
     State_Monad.return (''kt-connect-shadow-'' @ Global_Namespace opts @ ''-'' @ Connect_Lane opts @ ''-'' @ session)
   }"

definition getLabels :: "'w kube \<Rightarrow> kt_options \<Rightarrow> (nat \<Rightarrow> string) \<Rightarrow> ('w prog, smap) state" where
  "getLabels k opts random =
     (let role = GoMap [(KtRole, ''shadow-connect'')];
          target = (\<lambda>l. if Global_UseShadowDeployment opts then mput l KtTarget (random 2) else l)
      in if Connect_Lane opts \<noteq> [] then do {
           session \<leftarrow> ensure_session k (random 1);
           State_Monad.return (target (mput (mput (mput role KtLane (Connect_Lane opts)) ''sidecar.istio.io/inject'' ''true'')
             KtSession session))
         }
         else State_Monad.return (target role))"

definition buildShadowAnnotations :: "string \<Rightarrow> smap" where
  "buildShadowAnnotations lane =
     (if lane = [] then GoMap []
      else GoMap [(''sidecar.istio.io/inject'', ''true''), (''sidecar.istio.io/proxyCPU'', ''1000m''),
        (''sidecar.istio.io/proxyCPULimit'', ''1500m''), (''sidecar.istio.io/proxyMemory'', ''200Mi''),
        (''sidecar.istio.io/proxyMemoryLimit'', ''500Mi'')])"

definition getEnvs :: "kt_options \<Rightarrow> connect_options \<Rightarrow> string \<Rightarrow> smap" where
  "getEnvs opts copts localDomains =
     (let e1 = (if localDomains \<noteq> [] then mput (GoMap []) ''KT_LOCAL_DOMAIN'' localDomains else GoMap []);
          e2 = mput e1 ''KT_DNS_PROTOCOL'' (if has_prefix (Connect_DnsMode opts) ''localDNS'' then ''tcp'' else ''udp'');
          e3 = mput e2 ''KT_LOG_LEVEL'' (if Global_Debug copts then ''debug'' else ''info'')
      in if Connect_Lane opts \<noteq> [] then mput e3 ''KT_LANE'' (Connect_Lane opts) else e3)"

text \<open>\<open>dns.GetLocalDomains\<close>; there are none on Windows.\<close>

definition local_domains :: "('c, 'f) machine_calls \<Rightarrow> (('c, 'f) desktop, string) state" where
  "local_domains m = State (\<lambda>d. (if IsWindows m then [] else GetLocalDomains (Some (ResolvLines (Names d))), d))"

definition getOrCreateShadow ::
  "('c, 'f) desktop kube \<Rightarrow> ('c, 'f) machine_calls \<Rightarrow> kt_options \<Rightarrow> connect_options \<Rightarrow>
   (('c, 'f) desktop prog, (string \<times> string \<times> string) outcome) state" where
  "getOrCreateShadow k m opts copts = do {
     laneName \<leftarrow> (if Connect_Lane opts \<noteq> [] then buildLaneShadowName k opts (RandomString m 1)
                  else State_Monad.return (''kt-connect-shadow-'' @ to_lower (RandomString m 0)));
     let shadowPodName = (if Connect_ShareShadow opts then ''kt-connect-shadow-daemon'' else laneName);
     labels \<leftarrow> getLabels k opts (RandomString m);
     localDomains \<leftarrow> lift_io (local_domains m);
     go_try (GetOrCreateShadow k opts shadowPodName labels (buildShadowAnnotations (Connect_Lane opts))
               (getEnvs opts copts localDomains) [] []) (\<lambda>shadow.
       if Connect_Lane opts = [] then State_Monad.return (Value shadow)
       else do {
         s \<leftarrow> get_store;
         (let envoyFilterName = ''kt-lane-'' @ Store_Session s
          in go_try (ApplyLaneEnvoyFilter k envoyFilterName (Global_Namespace opts) (labels_after opts labels) (Connect_Lane opts)) (\<lambda>_. do {
               set_store (\<lambda>s. s\<lparr>Store_LaneEnvoyFilter := envoyFilterName\<rparr>);
               State_Monad.return (Value shadow)
             }))
       })
   }"

section \<open>Port forwards to the shadow\<close>

text \<open>\<open>watchConnectionGone\<close>: a lost connection to this target interrupts the process.\<close>

definition watchConnectionGone :: "string \<Rightarrow> (('c, 'f) desktop, unit) state" where
  "watchConnectionGone target = State (\<lambda>d. ((), d\<lparr>EndsSession := EndsSession d @ [target]\<rparr>))"

text \<open>\<open>%w\<close>: the text gets a prefix, and an API error stays one for those who unwrap it.\<close>

fun wrap_error :: "string \<Rightarrow> go_error \<Rightarrow> go_error" where
  "wrap_error pre (Errorf s) = Errorf (pre @ s)"
| "wrap_error pre (NumError s) = Errorf (pre @ s)"
| "wrap_error pre (OtherError s) = Errorf (pre @ s)"
| "wrap_error pre e = e"

definition port_forward_error :: "string \<Rightarrow> string \<Rightarrow> go_error \<Rightarrow> go_error" where
  "port_forward_error target shadowPodName = wrap_error (''setup '' @ target @ '' port-forward for pod '' @ shadowPodName @ '': '')"

definition setupShadowPortForward ::
  "('c, 'f) machine_calls \<Rightarrow> kt_options \<Rightarrow> string \<Rightarrow> int \<Rightarrow> string \<Rightarrow> (('c, 'f) desktop prog, int outcome) state" where
  "setupShadowPortForward m opts shadowPodName remotePort target =
     (let localPort = RandomTcpPort m target;
          isSession = (Connect_Lane opts \<noteq> [])
      in go_catch (lift_io (PortForwardCall m isSession shadowPodName remotePort localPort))
           (\<lambda>_. if \<not> isSession then State_Monad.return (Value localPort)
                else State_Monad.bind (lift_io (watchConnectionGone target)) (\<lambda>_. State_Monad.return (Value localPort)))
           (\<lambda>err. State_Monad.return (Fail (port_forward_error target shadowPodName err))))"

section \<open>The addresses of the services\<close>

text \<open>The loop over the pods of a headless service: the address of the first pod that has one, else the last.\<close>

fun headless_ip :: "pod list \<Rightarrow> string \<Rightarrow> string \<times> string list" where
  "headless_ip [] ip = (ip, [])"
| "headless_ip (p # ps) ip = (if PodIP p \<noteq> [] then (PodIP p, [Name p]) else headless_ip ps (PodIP p))"

definition add_hosts :: "kt_options \<Rightarrow> string \<Rightarrow> string \<Rightarrow> bool \<Rightarrow> string \<Rightarrow> string \<Rightarrow> smap \<Rightarrow> smap" where
  "add_hosts opts clusterDomain namespace shortDomainOnly name ip hosts =
     (if shortDomainOnly then mput hosts name ip
      else (let h = (if namespace = Global_Namespace opts then mput hosts name ip else hosts)
            in mput (mput h (name @ ''.'' @ namespace) ip) (name @ ''.'' @ namespace @ ''.svc.'' @ clusterDomain) ip))"

fun service_hosts_loop ::
  "'w kube \<Rightarrow> kt_options \<Rightarrow> string \<Rightarrow> string \<Rightarrow> bool \<Rightarrow> service list \<Rightarrow> smap \<Rightarrow> string list \<Rightarrow>
   ('w prog, (smap \<times> string list) outcome) state" where
  "service_hosts_loop k opts cd namespace short [] hosts podNames = State_Monad.return (Value (hosts, podNames))"
| "service_hosts_loop k opts cd namespace short (svc # svcs) hosts podNames =
     (if ClusterIP svc = [] \<or> ClusterIP svc = ''None''
      then go_catch (GetPodsByLabel k (Selector svc) namespace)
             (\<lambda>pods. if pods = [] then service_hosts_loop k opts cd namespace short svcs hosts podNames
                else (case headless_ip pods (ClusterIP svc) of (ip, names) \<Rightarrow>
                        service_hosts_loop k opts cd namespace short svcs
                          (add_hosts opts cd namespace short (Name svc) ip hosts) (podNames @ names)))
             (\<lambda>_. service_hosts_loop k opts cd namespace short svcs hosts podNames)
      else service_hosts_loop k opts cd namespace short svcs
             (add_hosts opts cd namespace short (Name svc) (ClusterIP svc) hosts) podNames)"

definition getServiceHosts ::
  "'w kube \<Rightarrow> kt_options \<Rightarrow> string \<Rightarrow> string \<Rightarrow> bool \<Rightarrow> ('w prog, (smap \<times> string list) outcome) state" where
  "getServiceHosts k opts clusterDomain namespace shortDomainOnly =
     go_catch (GetAllServiceInNamespace k namespace)
       (\<lambda>services. service_hosts_loop k opts clusterDomain namespace shortDomainOnly services (GoMap []) [])
       (\<lambda>_. State_Monad.return (Value (GoMap [], [])))"

definition dump_hosts ::
  "kt_options \<Rightarrow> connect_options \<Rightarrow> smap \<Rightarrow> string \<Rightarrow> (('c, 'f) desktop prog, unit outcome) state" where
  "dump_hosts opts copts hosts namespaceToDrop =
     lift_io (State (\<lambda>d. case DumpHosts (Connect_ClusterDomain copts) (Global_Namespace opts) hosts namespaceToDrop (HostsFile d)
       of (r, h) \<Rightarrow> (r, d\<lparr>HostsFile := h\<rparr>)))"

section \<open>Watching services and pods\<close>

definition watchServicesAndPods ::
  "('c, 'f) machine_calls \<Rightarrow> string \<Rightarrow> string list \<Rightarrow> bool \<Rightarrow> (('c, 'f) desktop prog, unit) state" where
  "watchServicesAndPods m namespace headlessPods shortDomainOnly =
     State_Monad.bind (lift_io (LocalClock m)) (\<lambda>setupTime.
       lift_io (State (\<lambda>d. ((), d\<lparr>Watches := Watches d @
         [\<lparr> WatchNamespace = namespace, HeadlessPods = headlessPods, ShortDomainOnly = shortDomainOnly,
            WatchSetupTime = setupTime \<rparr>]\<rparr>))))"

text \<open>What every handler does: read the services again and replace their names in the hosts file.\<close>

definition refresh_hosts ::
  "('c, 'f) desktop kube \<Rightarrow> kt_options \<Rightarrow> connect_options \<Rightarrow> nat \<Rightarrow> watch \<Rightarrow> (('c, 'f) desktop prog, unit outcome) state" where
  "refresh_hosts k opts copts i w =
     go_try (getServiceHosts k opts (Connect_ClusterDomain copts) (WatchNamespace w) (ShortDomainOnly w)) (\<lambda>(svcToIp, headlessPods).
     State_Monad.bind (lift_io (State (\<lambda>d. ((), d\<lparr>Watches := (Watches d)[i := w\<lparr>HeadlessPods := headlessPods\<rparr>]\<rparr>)))) (\<lambda>_.
     go_catch (dump_hosts opts copts svcToIp (WatchNamespace w))
       (\<lambda>_. State_Monad.return (Value ())) (\<lambda>_. State_Monad.return (Value ()))))"

text \<open>The handlers of watch number \<open>i\<close>; the first events after its setup are the services that exist.\<close>

definition service_added ::
  "('c, 'f) desktop kube \<Rightarrow> ('c, 'f) machine_calls \<Rightarrow> kt_options \<Rightarrow> connect_options \<Rightarrow> nat \<Rightarrow> watch \<Rightarrow>
   (('c, 'f) desktop prog, unit outcome) state" where
  "service_added k m opts copts i w =
     State_Monad.bind (lift_io (LocalClock m)) (\<lambda>time.
       if time - WatchSetupTime w > 3 then refresh_hosts k opts copts i w else State_Monad.return (Value ()))"

definition service_deleted ::
  "('c, 'f) desktop kube \<Rightarrow> kt_options \<Rightarrow> connect_options \<Rightarrow> nat \<Rightarrow> watch \<Rightarrow> (('c, 'f) desktop prog, unit outcome) state" where
  "service_deleted k opts copts i w = refresh_hosts k opts copts i w"

definition pod_deleted ::
  "('c, 'f) desktop kube \<Rightarrow> kt_options \<Rightarrow> connect_options \<Rightarrow> nat \<Rightarrow> watch \<Rightarrow> string \<Rightarrow> (('c, 'f) desktop prog, unit outcome) state" where
  "pod_deleted k opts copts i w podName =
     (if Contains (HeadlessPods w) podName
      then State_Monad.bind (sleep k 5) (\<lambda>_. refresh_hosts k opts copts i w)
      else State_Monad.return (Value ()))"

section \<open>Name resolution\<close>

fun dump_namespaces ::
  "('c, 'f) desktop kube \<Rightarrow> ('c, 'f) machine_calls \<Rightarrow> kt_options \<Rightarrow> connect_options \<Rightarrow> string list \<Rightarrow> smap \<Rightarrow>
   (('c, 'f) desktop prog, smap outcome) state" where
  "dump_namespaces k m opts copts [] hosts = State_Monad.return (Value hosts)"
| "dump_namespaces k m opts copts (ns # nss) hosts =
     go_try (getServiceHosts k opts (Connect_ClusterDomain copts) ns False) (\<lambda>(svcToIp, headlessPods).
     State_Monad.bind (watchServicesAndPods m ns headlessPods False) (\<lambda>_.
     dump_namespaces k m opts copts nss (foldl (\<lambda>h (svc, ip). mput h svc ip) hosts (entries svcToIp))))"

definition dumpToHost ::
  "('c, 'f) desktop kube \<Rightarrow> ('c, 'f) machine_calls \<Rightarrow> kt_options \<Rightarrow> connect_options \<Rightarrow> string \<Rightarrow>
   (('c, 'f) desktop prog, unit outcome) state" where
  "dumpToHost k m opts copts targetNamespaces =
     (let namespacesToDump = (if targetNamespaces \<noteq> [] then split_on CHR '','' targetNamespaces else [Global_Namespace opts])
      in go_try (dump_namespaces k m opts copts namespacesToDump (GoMap [])) (\<lambda>hosts. dump_hosts opts copts hosts []))"

definition getDnsOrder :: "string \<Rightarrow> string list" where
  "getDnsOrder dnsMode =
     (case split_once CHR '':'' dnsMode of
        (_, None) \<Rightarrow> [''cluster'', ''upstream'']
      | (_, Some order) \<Rightarrow> split_on CHR '','' order)"

text \<open>\<open>dns.SetNameServer\<close> of the three systems.\<close>

definition SetNameServer ::
  "('c, 'f) machine_calls \<Rightarrow> kt_options \<Rightarrow> connect_options \<Rightarrow> string \<Rightarrow> ('c, 'f) desktop_call" where
  "SetNameServer m opts copts dnsServer = State (\<lambda>d.
     if IsWindows m then
       (case windows_set_name_server (RunCommand m) dnsServer (Outside d) of (r, w) \<Rightarrow> (r, d\<lparr>Outside := w\<rparr>))
     else if IsMacos m then
       (case darwin_set_name_server (Connect_ClusterDomain copts) (Global_Namespace opts) (AllNamespaces m) dnsServer (Resolvers d)
        of (r, rd) \<Rightarrow> (r, d\<lparr>Resolvers := rd\<rparr>))
     else
       (case set_name_server (Iptables m) (Connect_DnsMode opts) dnsServer (Names d) of (r, n) \<Rightarrow> (r, d\<lparr>Names := n\<rparr>)))"

text \<open>The server that the machine uses before; \<open>dns.GetNameServer\<close>.\<close>

definition upstream_server :: "('c, 'f) machine_calls \<Rightarrow> (('c, 'f) desktop, string) state" where
  "upstream_server m = State (\<lambda>d.
     if IsWindows m then (case windows_get_name_server (RunCommand m) (Outside d) of (a, w) \<Rightarrow> (a, d\<lparr>Outside := w\<rparr>))
     else (GetNameServer (\<not> IsMacos m) (Some (ResolvLines (Names d))) (ResolvedConf m), d))"

text \<open>
  \<open>dns.SetupLocalDns\<close>: the goroutine prepares the server and starts it; an error counts when it comes
  within the first second.
\<close>

definition SetupLocalDns ::
  "('c, 'f) machine_calls \<Rightarrow> connect_options \<Rightarrow> int \<Rightarrow> int \<Rightarrow> string list \<Rightarrow> ('c, 'f) desktop_call" where
  "SetupLocalDns m copts remoteDnsPort localDnsPort dnsOrder = do {
     upstream \<leftarrow> upstream_server m;
     let server = local_server (Connect_Dns copts) dnsOrder upstream remoteDnsPort (AllIngresses m);
     State (\<lambda>d. ((), if IsMacos m
       then d\<lparr>Resolvers := HandleExtraDomainMapping (Connect_IncludeDomains copts) (ExtraDomains server) localDnsPort (Resolvers d)\<rparr>
       else d));
     go_try (StartDnsServer m localDnsPort) (\<lambda>_.
       State (\<lambda>d. (Value (), d\<lparr>LocalServer := Some (server, localDnsPort)\<rparr>)))
   }"

definition local_dns_port :: "('c, 'f) machine_calls \<Rightarrow> connect_options \<Rightarrow> int" where
  "local_dns_port m copts = (if IsWindows m then 53 else if IsMacos m then Connect_DnsPort copts else 10053)"

definition setupDns ::
  "('c, 'f) desktop kube \<Rightarrow> ('c, 'f) machine_calls \<Rightarrow> kt_options \<Rightarrow> connect_options \<Rightarrow> string \<Rightarrow> string \<Rightarrow>
   (('c, 'f) desktop prog, unit outcome) state" where
  "setupDns k m opts copts shadowPodName shadowPodIp =
     (let mode = Connect_DnsMode opts in
      if has_prefix mode ''hosts'' then
        dumpToHost k m opts copts (if length mode > 6 \<and> mode ! 5 = CHR '':'' then drop 6 mode else [])
      else if mode = ''podDNS'' then lift_io (SetNameServer m opts copts shadowPodIp)
      else if has_prefix mode ''localDNS'' then
        go_try (getServiceHosts k opts (Connect_ClusterDomain copts) (Global_Namespace opts) True) (\<lambda>(svcToIp, headlessPods).
        go_try (dump_hosts opts copts svcToIp []) (\<lambda>_.
        State_Monad.bind (watchServicesAndPods m (Global_Namespace opts) headlessPods True) (\<lambda>_.
        go_try (setupShadowPortForward m opts shadowPodName 53 ''shadow DNS'') (\<lambda>forwardedPodPort.
        let dnsPort = local_dns_port m copts in
        go_try (lift_io (SetupLocalDns m copts forwardedPodPort dnsPort (getDnsOrder mode))) (\<lambda>_.
        lift_io (SetNameServer m opts copts (''127.0.0.1:'' @ itoa dnsPort)))))))
      else State_Monad.return (Fail (Errorf (''invalid dns mode: '' @ quoted mode @
             '', supportted mode are localDNS, podDNS, hosts''))))"

section \<open>The two modes\<close>

definition cluster_cidr :: "('c, 'f) machine_calls \<Rightarrow> kt_options \<Rightarrow> (string list \<times> string list) outcome" where
  "cluster_cidr m opts = ClusterCidr (ServiceIps m) (PodIps m) (LookupIp m) (CidrOptions m) (Global_Namespace opts)"

text \<open>Commands that run on the machine; the tun device of the system that the program was built for.\<close>

definition run_outside :: "('c \<Rightarrow> 'a \<times> 'c) \<Rightarrow> (('c, 'f) desktop, 'a) state" where
  "run_outside f = State (\<lambda>d. case f (Outside d) of (r, w) \<Rightarrow> (r, d\<lparr>Outside := w\<rparr>))"

definition tun_name :: "('c, 'f) machine_calls \<Rightarrow> string" where
  "tun_name m = (if IsWindows m then TunNameWin else if IsMacos m then darwin_name (Interfaces m) [] else TunNameLinux)"

definition tun_check_context :: "('c, 'f) machine_calls \<Rightarrow> ('c, 'f) desktop_call" where
  "tun_check_context m =
     run_outside (if IsWindows m then windows_CheckContext (RunCommand m) (WintunPanic m)
                  else if IsMacos m then darwin_CheckContext (RunCommand m) else CheckContext (RunCommand m))"

definition tun_set_route ::
  "('c, 'f) machine_calls \<Rightarrow> string list \<Rightarrow> string list \<Rightarrow> (('c, 'f) desktop, unit + route_error) state" where
  "tun_set_route m ipRange excludeIpRange =
     run_outside (if IsWindows m then windows_set_route (RunCommand m) (ParseMask m) (Ipv6Cluster (CidrOptions m)) ipRange
                  else if IsMacos m then darwin_set_route (RunCommand m) (tun_name m) ipRange
                  else SetRoute (RunCommand m) ipRange excludeIpRange)"

definition tun_check_route :: "('c, 'f) machine_calls \<Rightarrow> string list \<Rightarrow> (('c, 'f) desktop, string list) state" where
  "tun_check_route m ipRange =
     run_outside (if IsWindows m then windows_check_route (RunCommand m) ipRange
                  else if IsMacos m then darwin_check_route (RunCommand m) (tun_name m) ipRange
                  else CheckRoute (RunCommand m) ipRange)"

definition setupTunRoute ::
  "('c, 'f) machine_calls \<Rightarrow> kt_options \<Rightarrow> (('c, 'f) desktop prog, unit outcome) state" where
  "setupTunRoute m opts =
     go_try (State_Monad.return (cluster_cidr m opts)) (\<lambda>(cidr, excludeCidr).
     State_Monad.bind (lift_io (tun_set_route m cidr excludeCidr)) (\<lambda>r.
     if (case r of Inr e \<Rightarrow> IsAllRouteFailError e | Inl _ \<Rightarrow> False)
     then State_Monad.return (Fail (Errorf ''all routes failed to setup''))
     else State_Monad.bind (lift_io (tun_check_route m cidr)) (\<lambda>_. State_Monad.return (Value ()))))"

definition startSocks5Connection ::
  "('c, 'f) machine_calls \<Rightarrow> connect_options \<Rightarrow> string \<Rightarrow> int \<Rightarrow> ('c, 'f) desktop_call" where
  "startSocks5Connection m copts privateKey localSshPort =
     StartSocks5 m privateKey (''[::]:'' @ itoa localSshPort)
       (Connect_ProxyAddr copts @ '':'' @ itoa (Connect_ProxyPort copts))"

definition setup_tun_device ::
  "('c, 'f) machine_calls \<Rightarrow> kt_options \<Rightarrow> connect_options \<Rightarrow> string \<Rightarrow> (('c, 'f) desktop prog, unit outcome) state" where
  "setup_tun_device m opts copts socksAddr =
     go_try (lift_io (tun_check_context m)) (\<lambda>_.
     go_try (lift_io (StartEngine m (engine_key_of (Global_Debug copts) (tun_name m) socksAddr))) (\<lambda>_.
     if \<not> Connect_DisableTunRoute copts then setupTunRoute m opts else State_Monad.return (Value ())))"

definition ByTun2Socks ::
  "('c, 'f) desktop kube \<Rightarrow> ('c, 'f) machine_calls \<Rightarrow> kt_options \<Rightarrow> connect_options \<Rightarrow>
   (('c, 'f) desktop prog, unit outcome) state" where
  "ByTun2Socks k m opts copts =
     (if Connect_DisableTunDevice opts \<and> Connect_Lane opts \<noteq> []
      then State_Monad.return (Fail (Errorf ''--lane requires tun device (do not use --disableTunDevice)''))
      else go_try (getOrCreateShadow k m opts copts) (\<lambda>(podIP, podName, privateKeyPath).
        if Connect_ProxyAddr copts \<noteq> ''127.0.0.1'' \<and> \<not> Connect_DisableTunDevice opts
        then State_Monad.return (Fail (Errorf ''parameter --proxyAddr is valid only when --disableTunDevice is used''))
        else go_try (setupShadowPortForward m opts podName 22 ''shadow SSH'') (\<lambda>localSshPort.
        go_try (lift_io (startSocks5Connection m copts privateKeyPath localSshPort)) (\<lambda>_.
        if Connect_DisableTunDevice opts
        then setupDns k m (if IsWindows m then opts\<lparr>Connect_DnsMode := ''hosts''\<rparr> else opts) copts podName podIP
        else go_try (setup_tun_device m opts copts
                       (''socks5://'' @ Connect_ProxyAddr copts @ '':'' @ itoa (Connect_ProxyPort copts)))
               (\<lambda>_. setupDns k m opts copts podName podIP)))))"

text \<open>\<open>sshuttle.Cli.Connect\<close>: the arguments of the command.\<close>

definition sshuttle_args ::
  "kt_options \<Rightarrow> connect_options \<Rightarrow> int \<Rightarrow> string \<Rightarrow> string \<Rightarrow> string list \<Rightarrow> string list \<Rightarrow> string list" where
  "sshuttle_args opts copts localSshPort privateKeyPath dnsServer includeCidr excludeCidr =
     (if Connect_DnsMode opts = ''podDNS'' then [''--dns'', ''--to-ns'', dnsServer] else [])
     @ (if Global_Debug copts then [''--verbose''] else [])
     @ [''--ssh-cmd'', ''ssh -oStrictHostKeyChecking=no -oUserKnownHostsFile=/dev/null -i '' @ privateKeyPath,
        ''--remote'', ''root@127.0.0.1:'' @ itoa localSshPort, ''--exclude'', ''127.0.0.1'']
     @ (if Connect_ExcludeIps copts \<noteq> [] then concat (map (\<lambda>ip. [''--exclude'', ip]) excludeCidr) else [])
     @ includeCidr"

definition BySshuttle ::
  "('c, 'f) desktop kube \<Rightarrow> ('c, 'f) machine_calls \<Rightarrow> kt_options \<Rightarrow> connect_options \<Rightarrow>
   (('c, 'f) desktop prog, unit outcome) state" where
  "BySshuttle k m opts copts =
     State_Monad.bind (lift_io (run_outside (checkSshuttleInstalled (RunCommand m) (SudoUser m)))) (\<lambda>_.
     go_try (getOrCreateShadow k m opts copts) (\<lambda>(podIP, podName, privateKeyPath).
     go_try (State_Monad.return (cluster_cidr m opts)) (\<lambda>(cidr, excludeCidr).
     go_try (setupShadowPortForward m opts podName 22 ''shadow SSH'') (\<lambda>localSshPort.
     go_try (lift_io (StartSshuttle m (sshuttle_args opts copts localSshPort privateKeyPath podIP cidr excludeCidr)))
       (\<lambda>_. setupDns k m opts copts podName podIP)))))"

section \<open>The command\<close>

text \<open>The cleanup that runs beside the command, and \<open>general.SetupProcess\<close>.\<close>

definition silenceCleanup :: "'w kube \<Rightarrow> kt_options \<Rightarrow> clean_options \<Rightarrow> ('w prog, unit outcome) state" where
  "silenceCleanup k opts clean_opts =
     (let ns = Global_Namespace opts in
      go_catch (CheckClusterResources k opts clean_opts)
        (\<lambda>r. go_try (go_each (\<lambda>name. RemovePod k name ns) (PodsToDelete r)) (\<lambda>_.
             go_try (go_each (\<lambda>name. RemoveConfigMap k name ns) (ConfigMapsToDelete r)) (\<lambda>_.
             go_try (go_each (\<lambda>name. RemoveDeployment k name ns) (DeploymentsToDelete r)) (\<lambda>_.
             go_each (\<lambda>name. RemoveService k name ns) (ServicesToDelete r)))))
        (\<lambda>_. State_Monad.return (Value ())))"

definition SetupProcess ::
  "('c, 'f) machine_calls \<Rightarrow> string \<Rightarrow> (('c, 'f) desktop prog, unit outcome) state" where
  "SetupProcess m componentName = do {
     set_store (\<lambda>s. s\<lparr>Store_Component := componentName\<rparr>);
     lift_io (PidFileCall m componentName)
   }"

text \<open>
  The command up to its wait for a signal.  The cleanup runs in a goroutine; here it has run before the
  shadow is created.
\<close>

definition connect_command ::
  "('c, 'f) desktop kube \<Rightarrow> ('c, 'f) machine_calls \<Rightarrow> kt_options \<Rightarrow> connect_options \<Rightarrow> clean_options \<Rightarrow>
   (('c, 'f) desktop prog, unit outcome) state" where
  "connect_command k m opts copts clean_opts =
     go_try (SetupProcess m ''connect'') (\<lambda>_.
     go_try (if \<not> Connect_SkipCleanup copts then silenceCleanup k opts clean_opts else State_Monad.return (Value ())) (\<lambda>_.
     State_Monad.bind (set_store (\<lambda>s. s\<lparr>Store_Lane := Connect_Lane opts\<rparr>)) (\<lambda>_.
     if Connect_Mode opts = ''tun2socks'' then ByTun2Socks k m opts copts
     else if Connect_Mode opts = ''sshuttle'' then BySshuttle k m opts copts
     else State_Monad.return (Fail (Errorf (''invalid connect mode: '' @ quoted (Connect_Mode opts) @
            '', supportted mode are tun2socks, sshuttle''))))))"

end
