(* ===== verification/ConnectProps.thy ===== *)
theory ConnectProps
  imports Connect CleanProps
begin

text \<open>
  Properties of the connect command: which options pass its checks, which names of services reach the
  hosts file, and in which order the local DNS server and the name server of the machine are set.
\<close>

section \<open>The lane\<close>

definition lane_ok :: "string \<Rightarrow> bool" where
  "lane_ok lane \<longleftrightarrow> list_all (\<lambda>c. lane_char c \<or> c = CHR ''-'') lane \<and> lane_char (hd lane) \<and> lane_char (last lane)"

lemma lane_loop_from:
  "i + length rest = length lane \<Longrightarrow>
   lane_loop lane i rest = Value () \<longleftrightarrow>
     list_all (\<lambda>c. lane_char c \<or> c = CHR ''-'') rest \<and>
     (i = 0 \<and> rest \<noteq> [] \<longrightarrow> lane_char (hd rest)) \<and> (rest \<noteq> [] \<longrightarrow> lane_char (last rest))"
proof (induction rest arbitrary: i)
  case (Cons c rest)
  then have "Suc i + length rest = length lane" by simp
  from Cons.IH [OF this] show ?case
    using Cons.prems by (cases rest) auto
qed simp

lemma lane_loop_ok: "lane \<noteq> [] \<Longrightarrow> lane_loop lane 0 lane = Value () \<longleftrightarrow> lane_ok lane"
  by (auto simp: lane_loop_from lane_ok_def)

lemma lane_loop_Value: "lane_loop lane i rest = Value u \<longleftrightarrow> lane_loop lane i rest = Value ()"
  by simp

text \<open>
  C23.  The options of a connect command pass its check exactly when it runs as administrator, does not
  ask for podDNS with tun2socks, and has no lane or a lane without a shared shadow that is a name of at
  most 63 of the characters a to z, 0 to 9 and the dash, with no dash at either end.
\<close>

theorem connect_options_accepted:
  "checkPermissionAndOptions m opts = Value () \<longleftrightarrow>
     IsRunAsAdmin m \<and>
     \<not> (Connect_Mode opts = ''tun2socks'' \<and> Connect_DnsMode opts = ''podDNS'') \<and>
     (Connect_Lane opts = [] \<or>
      \<not> Connect_ShareShadow opts \<and> length (Connect_Lane opts) \<le> 63 \<and> lane_ok (Connect_Lane opts))"
  using lane_loop_ok [of "Connect_Lane opts"] by (auto simp: checkPermissionAndOptions_def)

lemma lane_examples:
  "lane_ok ''feature-1''" "\<not> lane_ok ''-x''" "\<not> lane_ok ''x-''" "\<not> lane_ok ''Feature''"
  by (simp_all add: lane_ok_def lane_char_def is_lower_def is_digit_def)

section \<open>The names of the services\<close>

text \<open>The address of a service: its own, or that of a pod for a headless service; None leaves it out.\<close>

definition service_address :: "cluster_objects \<Rightarrow> string \<Rightarrow> service \<Rightarrow> string option" where
  "service_address c ns svc =
     (if ClusterIP svc = [] \<or> ClusterIP svc = ''None''
      then (let pods = listed_in ns (Selector svc) (ClPods c)
            in if pods = [] then None else Some (fst (headless_ip pods (ClusterIP svc))))
      else Some (ClusterIP svc))"

definition add_service :: "kt_options \<Rightarrow> string \<Rightarrow> cluster_objects \<Rightarrow> string \<Rightarrow> bool \<Rightarrow> smap \<Rightarrow> service \<Rightarrow> smap" where
  "add_service opts cd c ns short hosts svc =
     (case service_address c ns svc of None \<Rightarrow> hosts | Some ip \<Rightarrow> add_hosts opts cd ns short (Name svc) ip hosts)"

lemma service_hosts_run:
  assumes "api_server k view"
  shows "\<exists>names. run_state (service_hosts_loop k opts cd ns short svcs hosts podNames) p =
    (Value (foldl (add_service opts cd (view (World p)) ns short) hosts svcs, names), p)"
proof (induction svcs arbitrary: hosts podNames)
  case (Cons svc svcs)
  have "run_state (GetPodsByLabel k (Selector svc) ns) p = (Value (listed_in ns (Selector svc) (ClPods (view (World p)))), p)"
    by (simp add: GetPodsByLabel_def crud_list [OF api_pods [OF assms]] list_spec_def listed_in_def)
  with Cons.IH show ?case
    by (auto simp: add_service_def service_address_def Let_def split: prod.split)
qed simp

lemma getServiceHosts_run:
  assumes "api_server k view"
  shows "\<exists>names. run_state (getServiceHosts k opts cd ns short) p =
    (Value (foldl (add_service opts cd (view (World p)) ns short) (GoMap []) (listed_in ns (GoMap []) (ClServices (view (World p)))), names), p)"
proof -
  have "run_state (GetAllServiceInNamespace k ns) p = (Value (listed_in ns (GoMap []) (ClServices (view (World p)))), p)"
    by (simp add: GetAllServiceInNamespace_def crud_list [OF api_services [OF assms]] list_spec_def listed_in_def)
  with service_hosts_run [OF assms] show ?thesis by (simp add: getServiceHosts_def)
qed

text \<open>The names under which a service is found.\<close>

definition host_names :: "kt_options \<Rightarrow> string \<Rightarrow> string \<Rightarrow> bool \<Rightarrow> string \<Rightarrow> string list" where
  "host_names opts cd ns short name =
     (if short \<or> ns = Global_Namespace opts then [name] else []) @
     (if short then [] else [name @ ''.'' @ ns, name @ ''.'' @ ns @ ''.svc.'' @ cd])"

lemma add_hosts_lookup:
  "mlookup (add_hosts opts cd ns short name ip hosts) h =
     (if h \<in> set (host_names opts cd ns short name) then Some ip else mlookup hosts h)"
  by (auto simp: add_hosts_def host_names_def Let_def)

lemma host_names_first: "CHR ''.'' \<notin> set n \<Longrightarrow> h \<in> set (host_names opts cd ns short n) \<Longrightarrow> fst (split_once CHR ''.'' h) = n"
  by (auto simp: host_names_def split: if_splits)

lemma services_lookup:
  assumes "distinct (map Name svcs)" "\<forall>svc \<in> set svcs. CHR ''.'' \<notin> set (Name svc)"
  shows "mlookup (foldl (add_service opts cd c ns short) hosts svcs) h = Some ip \<longleftrightarrow>
    (\<exists>svc \<in> set svcs. service_address c ns svc = Some ip \<and> h \<in> set (host_names opts cd ns short (Name svc))) \<or>
    (\<forall>svc \<in> set svcs. service_address c ns svc \<noteq> None \<longrightarrow> h \<notin> set (host_names opts cd ns short (Name svc))) \<and>
      mlookup hosts h = Some ip"
  using assms
proof (induction svcs arbitrary: hosts)
  case (Cons svc svcs)
  have other: "h \<notin> set (host_names opts cd ns short (Name svc'))"
    if "h \<in> set (host_names opts cd ns short (Name svc))" "svc' \<in> set svcs" for svc'
  proof
    assume h: "h \<in> set (host_names opts cd ns short (Name svc'))"
    have "fst (split_once CHR ''.'' h) = Name svc" by (rule host_names_first [OF _ that(1)]) (use Cons.prems in simp)
    moreover have "fst (split_once CHR ''.'' h) = Name svc'" by (rule host_names_first [OF _ h]) (use Cons.prems that in simp)
    ultimately have "Name svc \<in> Name ` set svcs" using that(2) by (metis imageI)
    with Cons.prems(1) show False by simp
  qed
  let ?h = "add_service opts cd c ns short hosts svc"
  have first: "mlookup ?h h = (case service_address c ns svc of None \<Rightarrow> mlookup hosts h
      | Some a \<Rightarrow> if h \<in> set (host_names opts cd ns short (Name svc)) then Some a else mlookup hosts h)"
    by (simp add: add_service_def add_hosts_lookup split: option.split)
  have "distinct (map Name svcs)" "\<forall>svc \<in> set svcs. CHR ''.'' \<notin> set (Name svc)" using Cons.prems by simp_all
  note ih = Cons.IH [OF this, of ?h]
  show ?case
  proof (cases "h \<in> set (host_names opts cd ns short (Name svc))")
    case True
    with other have none: "\<forall>svc' \<in> set svcs. h \<notin> set (host_names opts cd ns short (Name svc'))" by blast
    with ih have "mlookup (foldl (add_service opts cd c ns short) ?h svcs) h = Some ip \<longleftrightarrow> mlookup ?h h = Some ip" by blast
    with True first none show ?thesis by (cases "service_address c ns svc") simp_all
  next
    case False
    then have "mlookup ?h h = mlookup hosts h" using first by (simp split: option.splits)
    with ih False show ?thesis by simp
  qed
qed simp


section \<open>The name server\<close>

text \<open>A call outside the program changes only what the model does not describe.\<close>

definition outside_only :: "(('c, 'f) desktop, 'a) state \<Rightarrow> bool" where
  "outside_only c \<longleftrightarrow> (\<forall>d. \<exists>w. snd (run_state c d) = d\<lparr>Outside := w\<rparr>)"

definition machine_ok :: "('c, 'f) machine_calls \<Rightarrow> bool" where
  "machine_ok m \<longleftrightarrow> outside_only (LocalClock m) \<and> (\<forall>b pod r l. outside_only (PortForwardCall m b pod r l)) \<and>
     (\<forall>n. outside_only (StartDnsServer m n))"

text \<open>The parts of the machine that resolve names are left alone by a computation.\<close>

definition keeps_names :: "(('c, 'f) desktop prog, 'a) state \<Rightarrow> bool" where
  "keeps_names c \<longleftrightarrow> (\<forall>p. Names (World (snd (run_state c p))) = Names (World p))"

lemma keeps_namesD: "keeps_names c \<Longrightarrow> run_state c p = (r, q) \<Longrightarrow> Names (World q) = Names (World p)"
  unfolding keeps_names_def by (metis snd_conv)

lemma keeps_names_bind:
  "keeps_names c \<Longrightarrow> (\<And>x. keeps_names (f x)) \<Longrightarrow> keeps_names (State_Monad.bind c f)"
  by (simp add: keeps_names_def split: prod.split) (metis snd_conv)

lemma keeps_names_return [simp]: "keeps_names (State_Monad.return x)"
  by (simp add: keeps_names_def)

lemma keeps_names_try: "keeps_names c \<Longrightarrow> (\<And>x. keeps_names (f x)) \<Longrightarrow> keeps_names (go_try c f)"
  unfolding go_try_def by (rule keeps_names_bind) (auto split: outcome.split)

lemma keeps_names_catch:
  "keeps_names c \<Longrightarrow> (\<And>x. keeps_names (f x)) \<Longrightarrow> (\<And>e. keeps_names (h e)) \<Longrightarrow> keeps_names (go_catch c f h)"
  unfolding go_catch_def by (rule keeps_names_bind) (auto split: outcome.split)

lemma keeps_names_outside: "outside_only c \<Longrightarrow> keeps_names (lift_io c)"
  by (auto simp: keeps_names_def outside_only_def split: prod.split)
     (metis (no_types, lifting) desktop.select_convs(3) desktop.surjective desktop.update_convs(1) snd_conv)

lemma keeps_names_getServiceHosts: "api_server k view \<Longrightarrow> keeps_names (getServiceHosts k opts cd ns short)"
  unfolding keeps_names_def using getServiceHosts_run by (metis snd_conv)

lemma keeps_names_dump: "keeps_names (dump_hosts opts copts hosts ns)"
  by (simp add: keeps_names_def dump_hosts_def split: prod.split)

lemma keeps_names_watch: "machine_ok m \<Longrightarrow> keeps_names (watchServicesAndPods m ns pods short)"
  unfolding watchServicesAndPods_def machine_ok_def
  by (rule keeps_names_bind, rule keeps_names_outside) (auto simp: keeps_names_def)

lemma keeps_names_forward: "machine_ok m \<Longrightarrow> keeps_names (setupShadowPortForward m opts pod r target)"
  unfolding setupShadowPortForward_def machine_ok_def Let_def
  by (intro keeps_names_catch keeps_names_outside)
     (auto intro!: keeps_names_bind simp: keeps_names_def watchConnectionGone_def)

text \<open>What the local server is made of.\<close>

definition expected_server :: "('c, 'f) machine_calls \<Rightarrow> kt_options \<Rightarrow> connect_options \<Rightarrow> string list \<Rightarrow> dns_server" where
  "expected_server m opts copts resolvLines =
     local_server (Connect_Dns copts) (getDnsOrder (Connect_DnsMode opts))
       (GetNameServer True (Some resolvLines) (ResolvedConf m)) (RandomTcpPort m ''shadow DNS'') (AllIngresses m)"

lemma SetupLocalDns_run:
  assumes "machine_ok m" "\<not> IsWindows m" "\<not> IsMacos m"
  shows "case run_state (SetupLocalDns m copts rp lp order) d of
    (Value _, d') \<Rightarrow> Names d' = Names d \<and> LocalServer d' = Some (local_server (Connect_Dns copts) order
        (GetNameServer True (Some (ResolvLines (Names d))) (ResolvedConf m)) rp (AllIngresses m), lp)
  | (_, d') \<Rightarrow> Names d' = Names d"
proof -
  obtain w where "snd (run_state (StartDnsServer m lp) d) = d\<lparr>Outside := w\<rparr>"
    using assms(1) unfolding machine_ok_def outside_only_def by metis
  then show ?thesis
    using assms(2,3) by (cases "run_state (StartDnsServer m lp) d"; cases "fst (run_state (StartDnsServer m lp) d)")
      (auto simp: SetupLocalDns_def upstream_server_def Let_def)
qed

lemma SetNameServer_run:
  assumes "\<not> IsWindows m" "\<not> IsMacos m"
  shows "case run_state (SetNameServer m opts copts server) d of
    (Value _, d') \<Rightarrow> LocalServer d' = LocalServer d \<and> ResolvLines (Names d') = setupResolvConf (ResolvLines (Names d)) server
  | (_, d') \<Rightarrow> ResolvLines (Names d') = ResolvLines (Names d)"
  using assms by (auto simp: SetNameServer_def set_name_server_def setupIptables_def split: prod.split outcome.splits if_splits)

text \<open>What happens before the two last calls leaves the name service alone; an error there ends \<open>setupDns\<close>.\<close>

definition names_result :: "('c, 'f) desktop \<Rightarrow> (dns_server \<times> int) \<Rightarrow> string list \<Rightarrow> unit outcome \<times> ('c, 'f) desktop prog \<Rightarrow> bool" where
  "names_result d server ls rq \<longleftrightarrow> (case rq of
     (Value _, q) \<Rightarrow> LocalServer (World q) = Some server \<and> ResolvLines (Names (World q)) = ls
   | (_, q) \<Rightarrow> ResolvLines (Names (World q)) = ResolvLines (Names d))"

lemma names_result_try:
  assumes "keeps_names c" "Names (World p) = Names d"
    and "\<And>x q. run_state c p = (Value x, q) \<Longrightarrow> Names (World q) = Names d \<Longrightarrow> names_result d server ls (run_state (f x) q)"
  shows "names_result d server ls (run_state (go_try c f) p)"
proof (cases "run_state c p")
  case (Pair r q)
  moreover have "Names (World q) = Names d" using keeps_namesD [OF assms(1) Pair] assms(2) by simp
  ultimately show ?thesis using assms(3) by (cases r) (simp_all add: names_result_def)
qed

lemma names_result_bind:
  assumes "keeps_names c" "Names (World p) = Names d"
    and "\<And>x q. Names (World q) = Names d \<Longrightarrow> names_result d server ls (run_state (f x) q)"
  shows "names_result d server ls (run_state (State_Monad.bind c f) p)"
  using assms keeps_namesD [OF assms(1)] by (cases "run_state c p") simp

lemma names_result_last:
  assumes "machine_ok m" "\<not> IsWindows m" "\<not> IsMacos m" "Names (World p) = Names d"
  shows "names_result d
    (local_server (Connect_Dns copts) order (GetNameServer True (Some (ResolvLines (Names d))) (ResolvedConf m)) rp (AllIngresses m), lp)
    (setupResolvConf (ResolvLines (Names d)) server)
    (run_state (go_try (lift_io (SetupLocalDns m copts rp lp order)) (\<lambda>_. lift_io (SetNameServer m opts copts server))) p)"
  using SetupLocalDns_run [OF assms(1-3), where d = "World p" and copts = copts and rp = rp and lp = lp and order = order]
    SetNameServer_run [OF assms(2,3), where d = "snd (run_state (SetupLocalDns m copts rp lp order) (World p))"
      and opts = opts and copts = copts and server = server] assms(4)
  by (auto simp: names_result_def split: prod.splits outcome.splits)

lemma setupDns_local:
  assumes "has_prefix (Connect_DnsMode opts) ''localDNS''"
  shows "setupDns k m opts copts podName podIp =
    go_try (getServiceHosts k opts (Connect_ClusterDomain copts) (Global_Namespace opts) True) (\<lambda>(svcToIp, headlessPods).
    go_try (dump_hosts opts copts svcToIp []) (\<lambda>_.
    State_Monad.bind (watchServicesAndPods m (Global_Namespace opts) headlessPods True) (\<lambda>_.
    go_try (setupShadowPortForward m opts podName 53 ''shadow DNS'') (\<lambda>forwardedPodPort.
    go_try (lift_io (SetupLocalDns m copts forwardedPodPort (local_dns_port m copts) (getDnsOrder (Connect_DnsMode opts))))
      (\<lambda>_. lift_io (SetNameServer m opts copts (''127.0.0.1:'' @ itoa (local_dns_port m copts))))))))"
proof -
  obtain t where t: "Connect_DnsMode opts = ''localDNS'' @ t" using assms by (auto simp: has_prefix_iff)
  then have "\<not> has_prefix (Connect_DnsMode opts) ''hosts''" "Connect_DnsMode opts \<noteq> ''podDNS''"
    by (simp_all add: has_prefix_def)
  with assms show ?thesis by (simp only: setupDns_def Let_def if_True if_False)
qed

lemma forwarded_port: "run_state (setupShadowPortForward m opts pod r target) p = (Value x, q) \<Longrightarrow> x = RandomTcpPort m target"
  by (auto simp: setupShadowPortForward_def Let_def split: prod.splits outcome.splits if_splits)


section \<open>Concrete inputs\<close>

text \<open>The calls of a cluster in memory, on a machine whose outside is that cluster.\<close>

definition on_outside :: "('c, 'a) state \<Rightarrow> (('c, 'f) desktop, 'a) state" where
  "on_outside c = State (\<lambda>d. case run_state c (Outside d) of (a, w) \<Rightarrow> (a, d\<lparr>Outside := w\<rparr>))"

definition crud_outside :: "('c, 'o) crud \<Rightarrow> (('c, 'f) desktop, 'o) crud" where
  "crud_outside c = \<lparr> api_get = (\<lambda>ns n. on_outside (api_get c ns n)), api_list = (\<lambda>ns l. on_outside (api_list c ns l)),
     api_create = (\<lambda>ns ob. on_outside (api_create c ns ob)), api_update = (\<lambda>ns ob. on_outside (api_update c ns ob)),
     api_delete = (\<lambda>ns n. on_outside (api_delete c ns n)), api_patch = (\<lambda>ns n b. on_outside (api_patch c ns n b)) \<rparr>"

definition desktop_kube :: "int \<Rightarrow> (cluster_objects, 'f) desktop kube" where
  "desktop_kube t = \<lparr>
     PodsApi = crud_outside (mem_crud ClPods set_pods), DeploymentsApi = crud_outside (mem_crud ClDeployments set_deployments),
     ServicesApi = crud_outside (mem_crud ClServices set_services),
     ConfigMapsApi = crud_outside (mem_crud ClConfigMaps set_config_maps),
     ExecApi = (\<lambda>c p ns cmd. State_Monad.return ([], [], None)), GetTime = State_Monad.return t,
     Sleep = (\<lambda>n. State_Monad.return ()), RemoveFile = (\<lambda>f. State_Monad.return (Value ())),
     GenerateKey = (\<lambda>p. State_Monad.return (Fail NotFound)), WritePrivateKey = (\<lambda>p s. State_Monad.return (Value ())),
     EnvoyFiltersApi = Fail NotFound, LocalUserName = ''dev'', KeyDir = ''/home/dev/.kt/key'', QuantityOk = (\<lambda>q. True) \<rparr>"

lemma crud_outside_ok: "crud_ok (crud_outside (mem_crud sel upd)) (\<lambda>d. Outside d) sel upd"
  by (simp add: crud_ok_def crud_outside_def mem_crud_def on_outside_def split_def map_prod_def)

lemma desktop_kube_ok: "api_server (desktop_kube t) (\<lambda>d. Outside d)"
  by (simp add: api_server_def desktop_kube_def crud_outside_ok)

definition mem_machine :: "(cluster_objects, nat) machine_calls" where
  "mem_machine = \<lparr> IsRunAsAdmin = True, IsWindows = False, IsMacos = False, PidDirFiles = [], Executables = (\<lambda>p. None),
     RandomString = (\<lambda>i. ''abcde''), RandomTcpPort = (\<lambda>t. 40053), LocalClock = State_Monad.return 1000,
     PidFileCall = (\<lambda>c. State_Monad.return (Value ())), PortForwardCall = (\<lambda>b p r l. State_Monad.return (Value ())),
     StartSocks5 = (\<lambda>k a b. State_Monad.return (Value ())), WintunPanic = None,
     StartEngine = (\<lambda>a. State_Monad.return (Value ())), Interfaces = None,
     ParseMask = (\<lambda>r. Value ([], [])), SudoUser = [], StartSshuttle = (\<lambda>a. State_Monad.return (Value ())),
     StartDnsServer = (\<lambda>n. State_Monad.return (Value ())), ServiceIps = (\<lambda>n. Some [''10.96.0.7'']), PodIps = (\<lambda>n. Some [''10.1.0.5'']),
     LookupIp = (\<lambda>h. None), CidrOptions = \<lparr> DisablePodIp = False, IncludeIps = [], ExcludeIps = [], ConnectMode = ''tun2socks'',
       Ipv6Cluster = False, RestHost = ''https://10.0.0.1'' \<rparr>,
     ResolvedConf = None, AllIngresses = Some [], AllNamespaces = Some [''default''], Iptables = rule_counter,
     RunCommand = (\<lambda>c w. (Inl [], w)) \<rparr>"

lemma mem_machine_ok: "machine_ok mem_machine"
proof -
  have "d = d\<lparr>Outside := Outside d\<rparr>" for d :: "(cluster_objects, nat) desktop" by simp
  then have "outside_only (State_Monad.return (1000 :: int) :: ((cluster_objects, nat) desktop, int) state)"
    "outside_only (State_Monad.return (Value ()) :: (cluster_objects, nat) desktop_call)"
    unfolding outside_only_def by (metis run_return snd_conv)+
  then show ?thesis by (simp add: machine_ok_def mem_machine_def)
qed

definition mem_connect :: connect_options where
  "mem_connect = \<lparr> Connect_SkipCleanup = True, Connect_ClusterDomain = ''cluster.local'', Connect_DnsPort = 10053,
     Connect_Dns = \<lparr> Opt_IngressIp = [], Opt_DnsCacheTtl = 60 \<rparr>, Connect_IncludeDomains = [], Connect_ExcludeIps = [],
     Connect_ProxyAddr = ''127.0.0.1'', Connect_ProxyPort = 2223, Connect_DisableTunRoute = False, Global_Debug = False \<rparr>"

definition mem_cluster :: cluster_objects where
  "mem_cluster = \<lparr> ClPods = [mem_pod ''db-0'' (GoMap [(''app'', ''db'')]) NilMap], ClDeployments = [],
     ClServices = [(mem_service ''web'' (GoMap [(''app'', ''web'')]) NilMap)\<lparr>ClusterIP := ''10.96.0.7''\<rparr>,
                   (mem_service ''db'' (GoMap [(''app'', ''db'')]) NilMap)\<lparr>ClusterIP := ''None''\<rparr>],
     ClConfigMaps = [] \<rparr>"

definition mem_desktop :: "(cluster_objects, nat) desktop" where
  "mem_desktop = \<lparr> Outside = mem_cluster,
     HostsFile = \<lparr> HostLines = [''127.0.0.1 localhost''], HostsReadable = True, HostsLockFree = True, HostsWritable = True,
                   DoNotDump = False \<rparr>,
     Names = \<lparr> ResolvLines = [''nameserver 192.168.1.1''], Firewall = 0 \<rparr>,
     Resolvers = \<lparr> ResolverDirOk = True, ResolverWritable = True, ResolverFiles = GoMap [] \<rparr>,
     LocalServer = None, Watches = [], EndsSession = [] \<rparr>"

definition desktop_prog :: "(cluster_objects, nat) desktop prog" where
  "desktop_prog = \<lparr> Store = Store (mem_prog mem_cluster), Heartbeats = [], LastHeartBeatStatus = GoMap [], World = mem_desktop \<rparr>"


lemma mem_setup_succeeds:
  "fst (run_state (setupDns (desktop_kube 7) mem_machine mem_opts mem_connect ''kt-connect-shadow-abcde'' ''10.1.0.9'') desktop_prog)
   = Value ()"
proof -
  obtain hosts names where "run_state (getServiceHosts (desktop_kube 7) mem_opts (Connect_ClusterDomain mem_connect)
      (Global_Namespace mem_opts) True) desktop_prog = (Value (hosts, names), desktop_prog)"
    using getServiceHosts_run [OF desktop_kube_ok] by metis
  moreover have "has_prefix (Connect_DnsMode mem_opts) ''localDNS''" by (simp add: mem_opts_def has_prefix_def)
  moreover have "dropHosts cd ns [''127.0.0.1 localhost''] [] = Value ([''127.0.0.1 localhost''], [])" for cd ns
    by (simp add: dropHosts_def)
  ultimately show ?thesis
    by (simp add: setupDns_local dump_hosts_def DumpHosts_def loadHostsFile_def updateHostsFile_def
        watchServicesAndPods_def setupShadowPortForward_def SetupLocalDns_def upstream_server_def SetNameServer_def
        set_name_server_def setupIptables_def rule_counter_def desktop_prog_def mem_desktop_def mem_machine_def mem_opts_def
        Let_def)
qed


end
