(* ===== verification/CallInvariant.thy ===== *)
theory CallInvariant
  imports ConnectProps TeardownProps RedirectProps
begin

text \<open>
  An invariant of the world that every single call of the program keeps is kept by its operations:
  the locale \<open>call_invariant\<close> states this once for all the calls that the connect command makes on its
  way, and the operations of \<open>ClusterOps\<close>, \<open>ShadowPod\<close>, \<open>Clean\<close> and \<open>Teardown\<close> follow from it.  The
  addresses of pods and services are part of it, for they end up in the hosts file.
\<close>

section \<open>Addresses\<close>

text \<open>An address does not start a comment; the addresses of a cluster are of this kind.\<close>

definition plain_ip :: "string \<Rightarrow> bool" where
  "plain_ip ip \<longleftrightarrow> ip = [] \<or> hd ip \<noteq> CHR ''#''"

definition plain_cluster :: "cluster_objects \<Rightarrow> bool" where
  "plain_cluster c \<longleftrightarrow> (\<forall>p \<in> set (ClPods c). plain_ip (PodIP p)) \<and> (\<forall>svc \<in> set (ClServices c). plain_ip (ClusterIP svc))"

lemma plain_headless: "\<forall>p \<in> set ps. plain_ip (PodIP p) \<Longrightarrow> plain_ip ip \<Longrightarrow> plain_ip (fst (headless_ip ps ip))"
  by (induction ps arbitrary: ip) auto

lemma plain_address:
  assumes "plain_cluster c" and "svc \<in> set (ClServices c)" and "service_address c ns svc = Some ip"
  shows "plain_ip ip"
proof -
  have "\<forall>p \<in> set (listed_in ns (Selector svc) (ClPods c)). plain_ip (PodIP p)"
    using assms(1) by (auto simp: plain_cluster_def listed_in_def)
  moreover have "plain_ip (ClusterIP svc)" using assms(1,2) by (simp add: plain_cluster_def)
  ultimately show ?thesis
    using assms(3) plain_headless by (auto simp: service_address_def Let_def split: if_splits)
qed

lemma set_AList_update: "set (AList.update k v al) \<subseteq> insert (k, v) (set al)"
  by (induction al) auto

lemma plain_hosts_put: "plain_hosts m \<Longrightarrow> plain_ip ip \<Longrightarrow> plain_hosts (mput m h ip)"
  using set_AList_update [of h ip "entries m"] by (auto simp: plain_hosts_def plain_ip_def mput_def)

lemma plain_hosts_add_service:
  assumes "plain_cluster c" and "svc \<in> set (ClServices c)" and "plain_hosts hosts"
  shows "plain_hosts (add_service opts cd c ns short hosts svc)"
  using plain_address [OF assms(1,2)] assms(3)
  by (auto simp: add_service_def add_hosts_def Let_def intro!: plain_hosts_put split: option.split)

lemma plain_hosts_services:
  "plain_cluster c \<Longrightarrow> set svcs \<subseteq> set (ClServices c) \<Longrightarrow> plain_hosts hosts \<Longrightarrow>
   plain_hosts (foldl (add_service opts cd c ns short) hosts svcs)"
  by (induction svcs arbitrary: hosts) (auto intro: plain_hosts_add_service)

lemma plain_hosts_empty [simp]: "plain_hosts (GoMap [])"
  by (simp add: plain_hosts_def)

lemma getServiceHosts_plain:
  assumes "api_server k view" and "plain_cluster (view (World s))"
    and "run_state (getServiceHosts k opts cd ns short) s = (Value (hosts, names), t)"
  shows "plain_hosts hosts"
proof -
  have "set (listed_in ns (GoMap []) (ClServices (view (World s)))) \<subseteq> set (ClServices (view (World s)))"
    by (auto simp: listed_in_def)
  from plain_hosts_services [OF assms(2) this plain_hosts_empty, of opts cd ns short] show ?thesis
    using getServiceHosts_run [OF assms(1), of opts cd ns short s] assms(3) by auto
qed

lemma createPod_ip: "createPod q opts time m = Value (p, m') \<Longrightarrow> PodIP p = []"
  by (auto simp: createPod_def Let_def addImagePullSecret_def split: if_splits)

section \<open>The locale\<close>

locale call_invariant =
  fixes k :: "'w kube" and view :: "'w \<Rightarrow> cluster_objects" and P :: "'w \<Rightarrow> bool"
  assumes server: "api_server k view"
    and addresses: "P w \<Longrightarrow> plain_cluster (view w)"
    and kept_sleep: "P w \<Longrightarrow> P (snd (run_state (Sleep k n) w))"
    and kept_remove_file: "P w \<Longrightarrow> P (snd (run_state (RemoveFile k f) w))"
    and kept_key: "P w \<Longrightarrow> P (snd (run_state (GenerateKey k f) w))"
    and kept_write_key: "P w \<Longrightarrow> P (snd (run_state (WritePrivateKey k f x) w))"
    and kept_create_pod: "P w \<Longrightarrow> plain_ip (PodIP p) \<Longrightarrow> P (snd (run_state (api_create (PodsApi k) ns p) w))"
    and kept_update_pod: "P w \<Longrightarrow> plain_ip (PodIP p) \<Longrightarrow> P (snd (run_state (api_update (PodsApi k) ns p) w))"
    and kept_delete_pod: "P w \<Longrightarrow> P (snd (run_state (api_delete (PodsApi k) ns n') w))"
    and kept_create_deployment: "P w \<Longrightarrow> P (snd (run_state (api_create (DeploymentsApi k) ns d) w))"
    and kept_update_deployment: "P w \<Longrightarrow> P (snd (run_state (api_update (DeploymentsApi k) ns d) w))"
    and kept_delete_deployment: "P w \<Longrightarrow> P (snd (run_state (api_delete (DeploymentsApi k) ns n') w))"
    and kept_create_config_map: "P w \<Longrightarrow> P (snd (run_state (api_create (ConfigMapsApi k) ns cm) w))"
    and kept_delete_config_map: "P w \<Longrightarrow> P (snd (run_state (api_delete (ConfigMapsApi k) ns n') w))"
    and kept_delete_service: "P w \<Longrightarrow> P (snd (run_state (api_delete (ServicesApi k) ns n') w))"
    and kept_filters: "EnvoyFiltersApi k = Value api \<Longrightarrow> P w \<Longrightarrow> P (snd (run_state (api_create api ns fl) w))"
      "EnvoyFiltersApi k = Value api \<Longrightarrow> P w \<Longrightarrow> P (snd (run_state (api_get api ns n') w))"
      "EnvoyFiltersApi k = Value api \<Longrightarrow> P w \<Longrightarrow> P (snd (run_state (api_update api ns fl) w))"
      "EnvoyFiltersApi k = Value api \<Longrightarrow> P w \<Longrightarrow> P (snd (run_state (api_delete api ns n') w))"
      "EnvoyFiltersApi k = Value api \<Longrightarrow> P w \<Longrightarrow> P (snd (run_state (api_list api ns ls) w))"
begin

lemma reads:
  "stays P (GetPod k x ms)" "stays P (GetPodsByLabel k l ms)" "stays P (GetDeployment k x ms)"
  "stays P (GetDeploymentsByLabel k l ms)" "stays P (GetServicesByLabel k l ms)" "stays P (GetAllServiceInNamespace k ms)"
  "stays P (GetConfigMap k x ms)" "stays P (GetConfigMapsByLabel k l ms)" "stays P (now k)"
  unfolding api_call_defs now_def
  by (simp_all add: stays_def split_def crud_get [OF api_pods [OF server]] crud_list [OF api_pods [OF server]]
      crud_get [OF api_deployments [OF server]] crud_list [OF api_deployments [OF server]] crud_list [OF api_services [OF server]]
      crud_get [OF api_config_maps [OF server]] crud_list [OF api_config_maps [OF server]] api_time [OF server])

lemma writes:
  "stays P (RemovePod k x ms)" "stays P (RemoveDeployment k x ms)" "stays P (RemoveService k x ms)"
  "stays P (RemoveConfigMap k x ms)" "stays P (UpdateDeployment k d)" "stays P (sleep k n)"
  "stays P (lift_io (RemoveFile k f))" "stays P (lift_io (GenerateKey k f))" "stays P (lift_io (WritePrivateKey k f y))"
  "stays P (lift_io (api_create (DeploymentsApi k) ms d))" "stays P (lift_io (api_create (ConfigMapsApi k) ms cm))"
  unfolding api_call_defs sleep_def
  by (intro stays_lift; erule kept_sleep kept_remove_file kept_key kept_write_key kept_delete_pod kept_create_deployment
      kept_update_deployment kept_delete_deployment kept_create_config_map kept_delete_config_map kept_delete_service)+

lemma pod_writes_plain:
  "plain_ip (PodIP p) \<Longrightarrow> stays P (UpdatePod k p)" "plain_ip (PodIP p) \<Longrightarrow> stays P (lift_io (api_create (PodsApi k) ms p))"
  unfolding UpdatePod_def by (intro stays_lift; erule (1) kept_create_pod kept_update_pod)+

lemma filter_calls:
  assumes "EnvoyFiltersApi k = Value api"
  shows "stays P (lift_io (api_create api ns fl))" "stays P (lift_io (api_get api ns x))" "stays P (lift_io (api_update api ns fl))"
    "stays P (lift_io (api_delete api ns x))" "stays P (lift_io (api_list api ns ls))"
  by (intro stays_lift; erule kept_filters [OF assms])+

lemma waits:
  "stays P (waitPodReady k x ms t tries)" "stays P (waitPodsReady k l ms t tries)" "stays P (waitPodTerminate k x ms tries)"
  by (rule stays_waiting; rule reads writes)+

lemma cluster_ops:
  "stays P (IncreaseDeploymentRef k x ms)" "stays P (DecreaseDeploymentRef k x ms)" "stays P (createConfigMapWithSshKey k l cm ms g)"
  unfolding IncreaseDeploymentRef_def DecreaseDeploymentRef_def createConfigMapWithSshKey_def Let_def
  by (intro stays_intros reads writes)+

lemma counted_refs:
  "stays P (IncreasePodRef k x ms)" "stays P (DecreasePodRef k x ms)"
proof -
  have seen: "plain_ip (PodIP p)" if "P (World s)" "run_state (GetPod k x ms) s = (Value p, t)" for s t p
    using that addresses [of "World s"]
    by (auto simp: GetPod_def crud_get [OF api_pods [OF server]] get_spec_def plain_cluster_def dest: find_obj_Some split: option.splits)
  show "stays P (IncreasePodRef k x ms)"
    unfolding IncreasePodRef_def by (rule stays_try_seen [OF reads(1)]) (intro stays_intros pod_writes_plain, simp add: seen)
  show "stays P (DecreasePodRef k x ms)"
    unfolding DecreasePodRef_def Let_def by (rule stays_try_seen [OF reads(1)]) (intro stays_intros pod_writes_plain, simp add: seen)
qed

lemma create_shadow: "stays P (createShadow k opts m ssh)"
proof -
  have "stays P (createShadowPod k opts m cm)" for cm
    unfolding createShadowPod_def
    by (intro stays_intros reads pod_writes_plain) (auto dest!: createPod_ip simp: plain_ip_def)
  moreover have "stays P (createShadowDeployment k opts m cm)" for cm
    unfolding createShadowDeployment_def by (intro stays_intros reads writes)
  ultimately have "stays P (createAndGetPod k opts m cm)" for cm
    unfolding createAndGetPod_def by (intro stays_intros waits)
  then show ?thesis unfolding createShadow_def by (intro stays_intros cluster_ops writes)
qed

lemma existing_shadows: "stays P (tryGetExistingShadows k opts r ssh)"
  unfolding tryGetExistingShadows_def existing_shadow_pod_def shadow_without_configmap_def Let_def
  by (intro stays_intros reads writes waits cluster_ops counted_refs)

lemma get_or_create_shadow: "stays P (GetOrCreateShadow k opts x l an envs e d)"
  unfolding GetOrCreateShadow_def Let_def by (intro stays_intros existing_shadows create_shadow)

lemma lane_filter: "stays P (ApplyLaneEnvoyFilter k x ns l lane)"
  unfolding ApplyLaneEnvoyFilter_def Let_def by (intro stays_intros filter_calls)

text \<open>The checks of the clean command and what they remove beside a connect session.\<close>

lemma analysis:
  "stays P (analysisExpiredPods k th p r)" "stays P (analysisExpiredConfigmaps k th cf r)"
  "stays P (analysisExpiredDeployments k th app r)" "stays P (analysisExpiredServices k th svc r)"
proof -
  have "stays P (analysis_expired k th ob mark r)" for ob :: "'m object_meta_scheme" and mark
    unfolding analysis_expired_def isExpired_def by (intro stays_intros reads)
  then show "stays P (analysisExpiredPods k th p r)" "stays P (analysisExpiredConfigmaps k th cf r)"
    "stays P (analysisExpiredDeployments k th app r)" "stays P (analysisExpiredServices k th svc r)"
    by (simp_all add: analysisExpiredPods_def analysisExpiredConfigmaps_def analysisExpiredDeployments_def analysisExpiredServices_def)
qed

lemma analysis_each: "(\<And>x r. stays P (f x r)) \<Longrightarrow> stays P (analysis_each f xs r)"
  by (induction xs arbitrary: r) (auto intro: stays_intros)

lemma analysis_locks: "stays P (analysisLockAndOrphanServices k svcs r)"
  by (induction svcs arbitrary: r)
     (auto simp: stale_lock_def is_orphan_def isRouterPodExist_def isShadowPodExist_def Let_def intro!: stays_intros reads)

lemma check_resources: "stays P (CheckClusterResources k opts copts)"
  unfolding CheckClusterResources_def GetKtResources_def Let_def
  by (intro stays_intros reads analysis_each analysis analysis_locks)

lemma silence_cleanup: "stays P (silenceCleanup k opts copts)"
  unfolding silenceCleanup_def Let_def by (intro stays_intros stays_each check_resources writes)

text \<open>The end of a session.\<close>

lemma local_files: "stays P (cleanLocalFiles k pid)"
  unfolding cleanLocalFiles_def by (intro stays_intros stays_each writes)

lemma filters_of_session: "stays P (cleanLaneSessionEnvoyFilters k l ns)"
  unfolding cleanLaneSessionEnvoyFilters_def by (intro stays_intros stays_each filter_calls; assumption)

lemma shadows_of_session: "stays P (cleanShadowPodAndConfigMap k opts)"
proof -
  have lane: "stays P (cleanLaneSessionResources k opts)"
    unfolding cleanLaneSessionResources_def remove_listed_def Let_def
    by (intro stays_intros stays_defer stays_each reads writes filters_of_session)
  have shadows: "stays P (clean_shadows k opts x)" for x
    unfolding clean_shadows_def should_remove_shadow_def remove_shadow_def RemoveEphemeralContainer_def Let_def
    by (intro stays_intros stays_each counted_refs cluster_ops writes)
  show ?thesis
    unfolding cleanShadowPodAndConfigMap_def by (intro stays_intros stays_defer lane shadows filters_of_session)
qed

lemma service_of_session: "stays P (cleanService k opts)"
  unfolding cleanService_def by (intro stays_intros writes)

end

end
