(* ===== verification/Config.thy ===== *)
theory Config
  imports GoUtil
begin

text \<open>
  \<open>pkg/kt/command/config\<close> and \<open>mergeOptions\<close> of \<open>options/options.go\<close>: the default values of options
  that a user keeps in the configuration file, and the profiles.  A configuration is a map of groups;
  the YAML text of the file is represented by what it is read as.
\<close>

section \<open>The options\<close>

text \<open>The structs of options.go: the fields of each group with their kinds.\<close>

datatype field_kind = StringField | IntField | BoolField | OtherField

definition daemon_options :: "(string \<times> (string \<times> field_kind) list) list" where
  "daemon_options = [
     (''Connect'', [(''Global'', BoolField), (''DisablePodIp'', BoolField), (''DisableTunDevice'', BoolField),
        (''DisableTunRoute'', BoolField), (''ProxyPort'', IntField), (''ProxyAddr'', StringField), (''DnsPort'', IntField),
        (''DnsCacheTtl'', IntField), (''IncludeIps'', StringField), (''ExcludeIps'', StringField), (''IngressIp'', StringField),
        (''Mode'', StringField), (''DnsMode'', StringField), (''ShareShadow'', BoolField), (''ClusterDomain'', StringField),
        (''SkipCleanup'', BoolField), (''IncludeDomains'', StringField), (''Lane'', StringField)]),
     (''Exchange'', [(''Mode'', StringField), (''Expose'', StringField), (''RecoverWaitTime'', IntField), (''SkipPortChecking'', BoolField)]),
     (''Mesh'', [(''Mode'', StringField), (''Expose'', StringField), (''VersionMark'', StringField), (''RouterImage'', StringField),
        (''SkipPortChecking'', BoolField)]),
     (''Preview'', [(''External'', BoolField), (''Expose'', StringField), (''SkipPortChecking'', BoolField)]),
     (''Forward'', []),
     (''Recover'', []),
     (''Clean'', [(''DryRun'', BoolField), (''ThresholdInMinus'', OtherField), (''LocalOnly'', BoolField)]),
     (''Config'', []),
     (''Birdseye'', [(''SortBy'', StringField), (''ShowConnector'', BoolField), (''HideNaturalService'', BoolField)]),
     (''Global'', [(''AsWorker'', BoolField), (''Kubeconfig'', StringField), (''Namespace'', StringField), (''ServiceAccount'', StringField),
        (''Debug'', BoolField), (''Image'', StringField), (''ImagePullSecret'', StringField), (''NodeSelector'', StringField),
        (''WithLabel'', StringField), (''WithAnnotation'', StringField), (''PortForwardTimeout'', IntField),
        (''PodCreationTimeout'', IntField), (''UseShadowDeployment'', BoolField), (''ForceUpdate'', BoolField),
        (''UseLocalTime'', BoolField), (''Context'', StringField), (''PodQuota'', StringField), (''ListenCheck'', BoolField),
        (''IpVersion'', IntField)])]"

section \<open>Items of the configuration\<close>

type_synonym config = "smap gomap"

definition parseConfigItem :: "string \<Rightarrow> (string \<times> string) outcome" where
  "parseConfigItem key =
     (if count_char key CHR ''.'' \<noteq> 1 then Fail (Errorf (''config item '' @ quoted key @ '' is invalid''))
      else (let parts = split_on CHR ''.'' key
            in case map_of daemon_options (Capitalize (parts ! 0)) of
                 None \<Rightarrow> Fail (Errorf (''config group '' @ quoted (parts ! 0) @ '' not exist''))
               | Some items \<Rightarrow>
                   (case map_of items (Capitalize (parts ! 1)) of
                      None \<Rightarrow> Fail (Errorf (''config item '' @ quoted (parts ! 1) @ '' not exist in group '' @ quoted (parts ! 0)))
                    | Some _ \<Rightarrow> Value (parts ! 0, parts ! 1))))"

definition travelConfigItem :: "(string \<times> string) list" where
  "travelConfigItem =
     concat (map (\<lambda>(grp, items). map (\<lambda>(item, _). (DashSeparated grp, DashSeparated item)) items) daemon_options)"

definition getConfigValue :: "config \<Rightarrow> string \<Rightarrow> string outcome" where
  "getConfigValue config key =
     obind (parseConfigItem key) (\<lambda>(grp, item).
       Value (case mlookup config grp of
                Some groupValue \<Rightarrow> (case mlookup groupValue item of Some v \<Rightarrow> v | None \<Rightarrow> [])
              | None \<Rightarrow> []))"

definition setConfigValue :: "config \<Rightarrow> string \<Rightarrow> string \<Rightarrow> config outcome" where
  "setConfigValue config key val =
     obind (parseConfigItem key) (\<lambda>(grp, item).
       (case mlookup config grp of
          Some groupValue \<Rightarrow> obind (mset_entry groupValue item val) (\<lambda>g. mset_entry config grp g)
        | None \<Rightarrow> mset_entry config grp (GoMap [(item, val)])))"

definition unsetConfigValue :: "config \<Rightarrow> string \<Rightarrow> config outcome" where
  "unsetConfigValue config key =
     obind (parseConfigItem key) (\<lambda>(grp, item).
       (case mlookup config grp of
          Some groupValue \<Rightarrow> mset_entry config grp (mdelete groupValue item)
        | None \<Rightarrow> Value config))"

section \<open>The commands\<close>

text \<open>The files: the configuration, the profiles by name, and whether the configuration can be written.\<close>

datatype config_file = Missing | Damaged | Content config

record config_state =
  ConfigFile :: config_file
  Profiles :: "(string \<times> config_file) list"
  ConfigWritable :: bool

definition damaged :: go_error where
  "damaged = Errorf (''config file is damaged, please try repair it or use 'ktctl config unset --all'' @ [CHR 0x27])"

definition loadConfig :: "config_state \<Rightarrow> config outcome" where
  "loadConfig s = (case ConfigFile s of Missing \<Rightarrow> Value (GoMap []) | Damaged \<Rightarrow> Fail damaged | Content c \<Rightarrow> Value c)"

definition saveConfig :: "config \<Rightarrow> config_state \<Rightarrow> unit outcome \<times> config_state" where
  "saveConfig c s =
     (if ConfigWritable s then (Value (), s\<lparr>ConfigFile := Content c\<rparr>) else (Fail (OtherError ''write config file''), s))"

definition check_available :: string where
  "check_available = '', please check available config items with 'ktctl config show --all'' @ [CHR 0x27]"

text \<open>\<open>fmt.Errorf("%s, please check ...", err)\<close> around the error of a computation.\<close>

definition with_hint :: "'a outcome \<Rightarrow> 'a outcome" where
  "with_hint r = (case r of Fail (Errorf m) \<Rightarrow> Fail (Errorf (m @ check_available)) | _ \<Rightarrow> r)"

text \<open>The key and the value that \<open>Set\<close> takes from its arguments.\<close>

definition set_arguments :: "string list \<Rightarrow> (string \<times> string) outcome" where
  "set_arguments args =
     (if length args = 1 \<and> CHR ''='' \<notin> set (args ! 0)
      then (case split_once CHR ''='' (args ! 0) of (key, Some val) \<Rightarrow> Value (key, val) | (_, None) \<Rightarrow> Panic)
      else if length args = 2 then Value (args ! 0, args ! 1)
      else if length args = 3 \<and> args ! 1 = ''='' then Value (args ! 0, args ! 2)
      else Fail (Errorf ''please use either 'set <item>=<value>' or 'set <item> <value>' format''))"

definition Set :: "string list \<Rightarrow> config_state \<Rightarrow> unit outcome \<times> config_state" where
  "Set args s =
     (case obind (set_arguments args) (\<lambda>(key, val). obind (loadConfig s) (\<lambda>config. with_hint (setConfigValue config key val))) of
        Value config \<Rightarrow> saveConfig config s
      | Fail e \<Rightarrow> (Fail e, s)
      | Panic \<Rightarrow> (Panic, s))"

fun unset_items :: "string list \<Rightarrow> config \<Rightarrow> config outcome" where
  "unset_items [] config = Value config"
| "unset_items (item # items) config = obind (unsetConfigValue config item) (unset_items items)"

definition Unset :: "bool \<Rightarrow> string list \<Rightarrow> config_state \<Rightarrow> unit outcome \<times> config_state" where
  "Unset unsetAll args s =
     (if unsetAll then saveConfig (GoMap []) s
      else if args = [] then (Fail (Errorf ''must specifiy a config item''), s)
      else (case obind (loadConfig s) (\<lambda>config. with_hint (unset_items args config)) of
              Value config \<Rightarrow> saveConfig config s | Fail e \<Rightarrow> (Fail e, s) | Panic \<Rightarrow> (Panic, s)))"

text \<open>The lines that \<open>Get\<close> prints; \<open>custom\<close> is the built-in configuration.\<close>

definition get_line :: "config \<Rightarrow> config \<Rightarrow> string \<Rightarrow> string outcome" where
  "get_line custom config item =
     (case getConfigValue config item of
        Value v \<Rightarrow>
          if v \<noteq> [] then Value (item @ '' = '' @ v)
          else (case getConfigValue custom item of
                  Value cv \<Rightarrow> Value (if cv \<noteq> [] then item @ '' = '' @ cv @ ''  (build-in)'' else item @ '' = <empty>'')
                | _ \<Rightarrow> Value (item @ '' = <empty>''))
      | Fail e \<Rightarrow> Fail (Errorf (''config item '' @ quoted item @ '' is invalid'' @ check_available))
      | Panic \<Rightarrow> Panic)"

definition Get :: "config \<Rightarrow> string list \<Rightarrow> config_state \<Rightarrow> string list outcome" where
  "Get custom args s =
     (if args = [] then Fail (Errorf ''must specifiy a config item'')
      else obind (loadConfig s) (\<lambda>config. omap (get_line custom config) args))"

definition show_item :: "config \<Rightarrow> config \<Rightarrow> bool \<Rightarrow> string \<times> string \<Rightarrow> string list" where
  "show_item custom config showAll gi =
     (case gi of (grp, item) \<Rightarrow>
        (let look = (\<lambda>c :: config. case mlookup c grp of Some g \<Rightarrow> mlookup g item | None \<Rightarrow> None)
         in if grp @ ''.'' @ item = ''global.as-worker'' then []
            else (case look config of
                    Some v \<Rightarrow> [grp @ ''.'' @ item @ '' = '' @ v]
                  | None \<Rightarrow> (case look custom of
                      Some v \<Rightarrow> [grp @ ''.'' @ item @ '' = '' @ v @ ''  (build-in)'']
                    | None \<Rightarrow> if showAll then [grp @ ''.'' @ item] else []))))"

definition Show :: "config \<Rightarrow> bool \<Rightarrow> string list \<Rightarrow> config_state \<Rightarrow> string list outcome" where
  "Show custom showAll args s =
     (if args \<noteq> [] then Fail (Errorf (''parameter '' @ quoted (hd args) @ '' is invalid''))
      else obind (loadConfig s) (\<lambda>config. Value (concat (map (show_item custom config showAll) travelConfigItem))))"

section \<open>Profiles\<close>

definition is_profile_char :: "char \<Rightarrow> bool" where
  "is_profile_char c \<longleftrightarrow> is_digit c \<or> is_upper c \<or> (97 \<le> (of_char c :: nat) \<and> (of_char c :: nat) \<le> 122) \<or> c \<in> set ''-_.''"

definition profile_name_ok :: "string \<Rightarrow> bool" where
  "profile_name_ok s \<longleftrightarrow> s \<noteq> [] \<and> list_all is_profile_char s"

definition profileFile :: "string \<Rightarrow> string \<Rightarrow> string" where
  "profileFile profileDir profile = profileDir @ ''/'' @ profile"

text \<open>\<open>answer\<close> is what the user types when the profile exists (None: nothing can be read).\<close>

definition SaveProfile :: "string \<Rightarrow> string option \<Rightarrow> string list \<Rightarrow> config_state \<Rightarrow> unit outcome \<times> config_state" where
  "SaveProfile profileDir answer args s =
     (if length args \<noteq> 1 then (Fail (Errorf ''must specifiy a profile name''), s)
      else let profile = profileFile profileDir (args ! 0) in
        if \<not> profile_name_ok profile
        then (Fail (Errorf ''invalid profile name, must only contains letter, number, underline, hyphen or dot''), s)
        else if map_of (Profiles s) profile \<noteq> None \<and>
                (case answer of None \<Rightarrow> True | Some a \<Rightarrow> \<not> has_prefix (to_upper a) ''Y'') then (Value (), s)
        else if ConfigFile s = Missing then (Fail (Errorf ''unable to read config file''), s)
        else if \<not> ConfigWritable s then (Fail (Errorf ''unable to create profile file''), s)
        else (Value (), s\<lparr>Profiles := AList.update profile (ConfigFile s) (Profiles s)\<rparr>))"

definition LoadProfile :: "string \<Rightarrow> bool \<Rightarrow> string list \<Rightarrow> config_state \<Rightarrow> unit outcome \<times> config_state" where
  "LoadProfile profileDir dryRun args s =
     (if length args \<noteq> 1 then (Fail (Errorf ''must specifiy a profile name''), s)
      else (case map_of (Profiles s) (profileFile profileDir (args ! 0)) of
              None \<Rightarrow> (Fail (Errorf (''profile '' @ quoted (args ! 0) @ '' not exists'')), s)
            | Some c \<Rightarrow>
                if dryRun then (Value (), s)
                else if \<not> ConfigWritable s then (Fail (Errorf ''unable to save config file''), s)
                else (Value (), s\<lparr>ConfigFile := c\<rparr>)))"

definition DropProfile :: "string \<Rightarrow> string list \<Rightarrow> config_state \<Rightarrow> unit outcome \<times> config_state" where
  "DropProfile profileDir args s =
     (if length args \<noteq> 1 then (Fail (Errorf ''must specifiy a profile name''), s)
      else (case map_of (Profiles s) (profileFile profileDir (args ! 0)) of
              None \<Rightarrow> (Fail (Errorf (''profile '' @ quoted (args ! 0) @ '' not exists'')), s)
            | Some c \<Rightarrow>
                if \<not> ConfigWritable s then (Fail (OtherError ''remove profile''), s)
                else (Value (), s\<lparr>Profiles := AList.delete (profileFile profileDir (args ! 0)) (Profiles s)\<rparr>)))"

section \<open>Loading options\<close>

datatype option_value = StringVal string | IntVal int | BoolVal bool | OtherVal

type_synonym option_values = "string \<Rightarrow> string \<Rightarrow> option_value"

text \<open>\<open>strconv.ParseBool\<close>.\<close>

definition parse_bool :: "string \<Rightarrow> bool option" where
  "parse_bool s =
     (if s \<in> {''1'', ''t'', ''T'', ''TRUE'', ''true'', ''True''} then Some True
      else if s \<in> {''0'', ''f'', ''F'', ''FALSE'', ''false'', ''False''} then Some False else None)"

text \<open>The switch over the kind of a field: None where the value is not stored.\<close>

definition field_value :: "field_kind \<Rightarrow> string \<Rightarrow> option_value option" where
  "field_value kind val =
     (case kind of
        StringField \<Rightarrow> Some (StringVal val)
      | IntField \<Rightarrow> map_option IntVal (atoi val)
      | BoolField \<Rightarrow> map_option BoolVal (parse_bool val)
      | OtherField \<Rightarrow> None)"

definition merge_item :: "string \<Rightarrow> string \<times> string \<Rightarrow> option_values \<Rightarrow> option_values" where
  "merge_item grp kv opts =
     (case map_of daemon_options (Capitalize grp) of
        None \<Rightarrow> opts
      | Some items \<Rightarrow>
          (case map_of items (Capitalize (fst kv)) of
             None \<Rightarrow> opts
           | Some kind \<Rightarrow>
               (case field_value kind (snd kv) of
                  None \<Rightarrow> opts
                | Some v \<Rightarrow> opts(Capitalize grp := (opts (Capitalize grp))(Capitalize (fst kv) := v)))))"

text \<open>The loops of \<open>mergeOptions\<close>, in the order of the entries of the maps.\<close>

definition mergeOptions :: "config_file \<Rightarrow> option_values \<Rightarrow> option_values" where
  "mergeOptions data opts =
     (case data of
        Content config \<Rightarrow> fold (\<lambda>(grp, items). fold (merge_item grp) (entries items)) (entries config) opts
      | _ \<Rightarrow> opts)"

section \<open>Lemmas\<close>

text \<open>The configuration that the commands work on.\<close>

definition config_of :: "config_state \<Rightarrow> config" where
  "config_of s = (case ConfigFile s of Content c \<Rightarrow> c | _ \<Rightarrow> GoMap [])"

lemma loadConfig_ok: "ConfigFile s \<noteq> Damaged \<Longrightarrow> loadConfig s = Value (config_of s)"
  by (cases "ConfigFile s") (simp_all add: loadConfig_def config_of_def)

text \<open>No map of the configuration is nil, as in what the commands write.\<close>

definition config_ok :: "config \<Rightarrow> bool" where
  "config_ok c \<longleftrightarrow> c \<noteq> NilMap \<and> (\<forall>g v. mlookup c g = Some v \<longrightarrow> v \<noteq> NilMap)"

lemma mset_entry_ok: "m \<noteq> NilMap \<Longrightarrow> mset_entry m k v = Value (mput m k v)"
  by (cases m) (simp_all add: mset_entry_def)

definition get_item :: "config \<Rightarrow> string \<Rightarrow> string \<Rightarrow> string" where
  "get_item c grp item = (case mlookup c grp of Some g \<Rightarrow> mget g item | None \<Rightarrow> [])"

lemma getConfigValue_item: "parseConfigItem key = Value (grp, item) \<Longrightarrow> getConfigValue c key = Value (get_item c grp item)"
  by (simp add: getConfigValue_def get_item_def mget_def split: option.split)

lemma single_entry: "mlookup (GoMap [(k, v)]) j = (if j = k then Some v else None)" "mget (GoMap [(k, w)]) j = (if j = k then w else [])"
  by (simp_all add: mlookup_def mget_def)

lemma setConfigValue_item:
  assumes "parseConfigItem key = Value (grp, item)" and "config_ok c"
  shows "\<exists>c'. setConfigValue c key val = Value c' \<and> config_ok c' \<and>
    get_item c' = (get_item c)(grp := (get_item c grp)(item := val))"
proof (cases "mlookup c grp")
  case None
  with assms show ?thesis
    by (auto simp: setConfigValue_def mset_entry_ok config_ok_def get_item_def fun_eq_iff single_entry)
next
  case (Some g)
  with assms have "g \<noteq> NilMap" "c \<noteq> NilMap" by (auto simp: config_ok_def)
  with Some assms show ?thesis
    by (auto simp: setConfigValue_def mset_entry_ok config_ok_def get_item_def fun_eq_iff)
qed

lemma unsetConfigValue_item:
  assumes "parseConfigItem key = Value (grp, item)" and "config_ok c"
  shows "\<exists>c'. unsetConfigValue c key = Value c' \<and> config_ok c' \<and>
    get_item c' = (get_item c)(grp := (get_item c grp)(item := []))"
proof (cases "mlookup c grp")
  case None
  with assms show ?thesis by (auto simp: unsetConfigValue_def get_item_def fun_eq_iff)
next
  case (Some g)
  with assms have "g \<noteq> NilMap" "c \<noteq> NilMap" by (auto simp: config_ok_def)
  with Some assms show ?thesis
    by (auto simp: unsetConfigValue_def mset_entry_ok config_ok_def get_item_def fun_eq_iff)
qed

text \<open>The case mapping on the bits of a character, to evaluate names.\<close>

lemma upper_char_Char [code]: "upper_char (Char b0 b1 b2 b3 b4 b5 b6 b7) =
  (if \<not> b7 \<and> b6 \<and> b5 \<and> (b0 \<or> b1 \<or> b2 \<or> b3 \<or> b4) \<and> \<not> (b4 \<and> b3 \<and> (b2 \<or> b1 \<and> b0))
   then Char b0 b1 b2 b3 b4 False b6 b7 else Char b0 b1 b2 b3 b4 b5 b6 b7)"
  by (cases b0; cases b1; cases b2; cases b3; cases b4; cases b5; cases b6; cases b7)
     (simp_all add: upper_char_def char_of_def bit_iff_odd)

lemma lower_char_Char [code]: "lower_char (Char b0 b1 b2 b3 b4 b5 b6 b7) =
  (if \<not> b7 \<and> b6 \<and> \<not> b5 \<and> (b0 \<or> b1 \<or> b2 \<or> b3 \<or> b4) \<and> \<not> (b4 \<and> b3 \<and> (b2 \<or> b1 \<and> b0))
   then Char b0 b1 b2 b3 b4 True b6 b7 else Char b0 b1 b2 b3 b4 b5 b6 b7)"
  by (cases b0; cases b1; cases b2; cases b3; cases b4; cases b5; cases b6; cases b7)
     (simp_all add: lower_char_def char_of_def bit_iff_odd)

lemma is_upper_Char [code]: "is_upper (Char b0 b1 b2 b3 b4 b5 b6 b7) \<longleftrightarrow>
  \<not> b7 \<and> b6 \<and> \<not> b5 \<and> (b0 \<or> b1 \<or> b2 \<or> b3 \<or> b4) \<and> \<not> (b4 \<and> b3 \<and> (b2 \<or> b1 \<and> b0))"
  by (cases b0; cases b1; cases b2; cases b3; cases b4; cases b5; cases b6; cases b7)
     (simp_all add: is_upper_def)

text \<open>Every item that \<open>config set\<close> offers for completion is accepted by it.\<close>

lemma offered_items_accepted:
  "list_all (\<lambda>(grp, item). parseConfigItem (grp @ ''.'' @ item) = Value (grp, item)) travelConfigItem"
  by code_simp

text \<open>A profile can never be saved: the check of the name sees the whole path.\<close>

lemma save_profile_never: "SaveProfile dir answer [name] s =
  (Fail (Errorf ''invalid profile name, must only contains letter, number, underline, hyphen or dot''), s)"
  by (simp add: SaveProfile_def Let_def profileFile_def profile_name_ok_def is_profile_char_def is_digit_def is_upper_def)

text \<open>The form \<open>set item=value\<close> is refused, and a single word without the sign is a panic.\<close>

lemma set_one_argument: "set_arguments [w] =
  (if CHR ''='' \<in> set w then Fail (Errorf ''please use either 'set <item>=<value>' or 'set <item> <value>' format'') else Panic)"
  by (simp add: set_arguments_def)

text \<open>The threshold of the clean command cannot be configured.\<close>

lemma clean_threshold_ignored: "merge_item ''clean'' (''threshold-in-minus'', val) opts = opts"
proof -
  have "map_of daemon_options (Capitalize ''clean'') \<noteq> None"
    "map_of (the (map_of daemon_options (Capitalize ''clean''))) (Capitalize ''threshold-in-minus'') = Some OtherField"
    by code_simp+
  then show ?thesis by (auto simp: merge_item_def field_value_def)
qed

section \<open>Properties\<close>

text \<open>
  C24.  \<open>config set\<close> stores the value under its item and leaves every other item alone, \<open>config get\<close>
  then prints it, and \<open>config unset\<close> takes it away again, also without touching the others.
\<close>

theorem config_set_get_unset:
  assumes "parseConfigItem key = Value (grp, item)" and "ConfigFile s \<noteq> Damaged" and "ConfigWritable s"
    and "config_ok (config_of s)"
  shows "\<exists>t u. Set [key, val] s = (Value (), t) \<and> Profiles t = Profiles s \<and>
    get_item (config_of t) = (get_item (config_of s))(grp := (get_item (config_of s) grp)(item := val)) \<and>
    (val \<noteq> [] \<longrightarrow> Get custom [key] t = Value [key @ '' = '' @ val]) \<and>
    Unset False [key] t = (Value (), u) \<and> Profiles u = Profiles s \<and>
    get_item (config_of u) = (get_item (config_of s))(grp := (get_item (config_of s) grp)(item := []))"
proof -
  obtain c where c: "setConfigValue (config_of s) key val = Value c" "config_ok c"
    "get_item c = (get_item (config_of s))(grp := (get_item (config_of s) grp)(item := val))"
    using setConfigValue_item [OF assms(1,4)] by blast
  obtain d where d: "unsetConfigValue c key = Value d" "get_item d = (get_item c)(grp := (get_item c grp)(item := []))"
    using unsetConfigValue_item [OF assms(1) c(2)] by blast
  let ?t = "s\<lparr>ConfigFile := Content c\<rparr>" and ?u = "s\<lparr>ConfigFile := Content d\<rparr>"
  have t: "Set [key, val] s = (Value (), ?t)"
    using assms(3) c(1) loadConfig_ok [OF assms(2)] by (simp add: Set_def set_arguments_def saveConfig_def with_hint_def)
  have l: "loadConfig ?t = Value c" by (simp add: loadConfig_def)
  have "Unset False [key] ?t = (Value (), ?u)"
    using d(1) l assms(3) by (simp add: Unset_def saveConfig_def with_hint_def)
  moreover have "getConfigValue c key = Value val" using getConfigValue_item [OF assms(1)] c(3) by simp
  then have "val \<noteq> [] \<longrightarrow> Get custom [key] ?t = Value [key @ '' = '' @ val]"
    using l by (simp add: Get_def get_line_def)
  ultimately show ?thesis using t c(3) d(2) by (intro exI [of _ ?t] exI [of _ ?u]) (simp add: config_of_def)
qed

lemma config_set_get_unset_witness:
  "\<exists>t. Set [''mesh.mode'', ''auto''] \<lparr> ConfigFile = Missing, Profiles = [], ConfigWritable = True \<rparr> = (Value (), t) \<and>
    Get (GoMap []) [''mesh.mode''] t = Value [''mesh.mode = auto'']"
proof -
  have "parseConfigItem ''mesh.mode'' = Value (''mesh'', ''mode'')"
    by code_simp
  from config_set_get_unset [OF this, of "\<lparr> ConfigFile = Missing, Profiles = [], ConfigWritable = True \<rparr>" "''auto''" "GoMap []"]
  show ?thesis by (auto simp: config_of_def config_ok_def)
qed

end
