(* ===== verification/Options.thy ===== *)
theory Options
  imports Config
begin

text \<open>
  \<open>pkg/kt/command/options\<close>: the flags of the commands with their default values, and \<open>SetOptions\<close>, which
  registers them after the configuration has been merged into the options.  Parsing the command line
  belongs to pflag; what it assigns are the arguments, as pairs of a field and its value.
\<close>

section \<open>The flags\<close>

abbreviation (input) "ImageKtShadow \<equiv> ''registry.cn-hangzhou.aliyuncs.com/rdc-incubator/kt-connect-shadow''"
abbreviation (input) "ImageKtRouter \<equiv> ''registry.cn-hangzhou.aliyuncs.com/rdc-incubator/kt-connect-router''"

record option_config =
  Target :: string
  Alias :: string
  DefaultValue :: option_value
  Hidden :: bool
  Required :: bool

abbreviation flag :: "string \<Rightarrow> string \<Rightarrow> option_value \<Rightarrow> option_config" where
  "flag t a d \<equiv> \<lparr> Target = t, Alias = a, DefaultValue = d, Hidden = False, Required = False \<rparr>"

definition ConnectFlags :: "bool \<Rightarrow> option_config list" where
  "ConnectFlags isMacos = [
     flag ''Mode'' [] (StringVal ''tun2socks''),
     flag ''DnsMode'' [] (StringVal ''localDNS''),
     flag ''ShareShadow'' [] (BoolVal False),
     flag ''ClusterDomain'' [] (StringVal ''cluster.local''),
     flag ''Lane'' [] (StringVal []),
     flag ''DisablePodIp'' [] (BoolVal False),
     flag ''SkipCleanup'' [] (BoolVal False),
     flag ''IncludeIps'' [] (StringVal []),
     flag ''ExcludeIps'' [] (StringVal []),
     flag ''IngressIp'' [] (StringVal []),
     flag ''DisableTunDevice'' [] (BoolVal False),
     flag ''DisableTunRoute'' [] (BoolVal False),
     flag ''ProxyPort'' [] (IntVal 2223),
     flag ''ProxyAddr'' [] (StringVal ''127.0.0.1''),
     flag ''DnsCacheTtl'' [] (IntVal 60)]
   @ (if isMacos then [
     flag ''DnsPort'' [] (IntVal 10053),
     flag ''IncludeDomains'' [] (StringVal [])] else [])"

definition GlobalFlags :: "string \<Rightarrow> option_config list" where
  "GlobalFlags version = [
     flag ''Namespace'' ''n'' (StringVal ''default''),
     flag ''Kubeconfig'' ''c'' (StringVal []),
     flag ''Context'' [] (StringVal []),
     flag ''Image'' ''i'' (StringVal (ImageKtShadow @ '':v'' @ version)),
     flag ''ImagePullSecret'' [] (StringVal []),
     flag ''ServiceAccount'' [] (StringVal ''default''),
     flag ''NodeSelector'' [] (StringVal []),
     flag ''Debug'' ''d'' (BoolVal False),
     flag ''WithLabel'' ''l'' (StringVal []),
     flag ''WithAnnotation'' [] (StringVal []),
     flag ''PortForwardTimeout'' [] (IntVal 10),
     flag ''PodCreationTimeout'' [] (IntVal 60),
     flag ''UseShadowDeployment'' [] (BoolVal False),
     flag ''UseLocalTime'' [] (BoolVal False),
     flag ''ForceUpdate'' ''f'' (BoolVal False),
     (flag ''AsWorker'' [] (BoolVal False))\<lparr>Hidden := True\<rparr>,
     flag ''PodQuota'' [] (StringVal []),
     flag ''IpVersion'' [] (IntVal 4)]"

definition MeshFlags :: "string \<Rightarrow> option_config list" where
  "MeshFlags version = [
     (flag ''Expose'' [] (StringVal []))\<lparr>Required := True\<rparr>,
     flag ''Mode'' [] (StringVal ''auto''),
     flag ''VersionMark'' [] (StringVal []),
     flag ''SkipPortChecking'' [] (BoolVal False),
     flag ''RouterImage'' [] (StringVal (ImageKtRouter @ '':v'' @ version))]"

definition ExchangeFlags :: "option_config list" where
  "ExchangeFlags = [
     (flag ''Expose'' [] (StringVal []))\<lparr>Required := True\<rparr>,
     flag ''Mode'' [] (StringVal ''selector''),
     flag ''SkipPortChecking'' [] (BoolVal False),
     flag ''RecoverWaitTime'' [] (IntVal 120)]"

definition PreviewFlags :: "option_config list" where
  "PreviewFlags = [
     (flag ''Expose'' [] (StringVal []))\<lparr>Required := True\<rparr>,
     flag ''External'' [] (BoolVal False),
     flag ''SkipPortChecking'' [] (BoolVal False)]"

definition CleanFlags :: "option_config list" where
  "CleanFlags = [
     flag ''ThresholdInMinus'' [] (IntVal (2 * 2 + 1)),
     flag ''DryRun'' [] (BoolVal False),
     flag ''LocalOnly'' [] (BoolVal False)]"

definition BirdseyeFlags :: "option_config list" where
  "BirdseyeFlags = [
     flag ''SortBy'' [] (StringVal ''status''),
     flag ''ShowConnector'' [] (BoolVal False),
     flag ''HideNaturalService'' [] (BoolVal False)]"

definition RecoverFlags :: "option_config list" where
  "RecoverFlags = []"

definition ForwardFlags :: "option_config list" where
  "ForwardFlags = []"

section \<open>Registering them\<close>

text \<open>The switch over the type of the default value: a field that is not zero keeps its value.\<close>

definition flag_default :: "option_value \<Rightarrow> option_value \<Rightarrow> option_value" where
  "flag_default d field =
     (case (d, field) of
        (StringVal x, StringVal f) \<Rightarrow> StringVal (if f \<noteq> [] then f else x)
      | (IntVal x, IntVal f) \<Rightarrow> IntVal (if f \<noteq> 0 then f else x)
      | (BoolVal x, BoolVal f) \<Rightarrow> BoolVal (if f then f else x)
      | _ \<Rightarrow> field)"

definition SetOptions :: "string \<Rightarrow> option_config list \<Rightarrow> option_values \<Rightarrow> option_values" where
  "SetOptions grp flags opts =
     fold (\<lambda>c st. st(grp := (st grp)(Target c := flag_default (DefaultValue c) (st grp (Target c))))) flags opts"

definition flag_names :: "option_config list \<Rightarrow> string list" where
  "flag_names flags = map (\<lambda>c. UnCapitalize (Target c)) flags"

text \<open>The zero value of every field of the structs, and \<open>opt.Get\<close> with the customized and the user's configuration.\<close>

definition zero_value :: "field_kind \<Rightarrow> option_value" where
  "zero_value kind = (case kind of StringField \<Rightarrow> StringVal [] | IntField \<Rightarrow> IntVal 0 | BoolField \<Rightarrow> BoolVal False
     | OtherField \<Rightarrow> IntVal 0)"

definition zero_options :: option_values where
  "zero_options grp item =
     (case map_of daemon_options grp of
        None \<Rightarrow> OtherVal
      | Some items \<Rightarrow> (case map_of items item of None \<Rightarrow> OtherVal | Some kind \<Rightarrow> zero_value kind))"

definition GetCustomizeKtConfig :: "string \<Rightarrow> string \<times> bool" where
  "GetCustomizeKtConfig text = (if contains_char text CHR '':'' then (text, True) else ([], False))"

definition GetCustomizeKubeConfig :: "string \<Rightarrow> string \<times> bool" where
  "GetCustomizeKubeConfig text = (if length text > 50 then (text, True) else ([], False))"

definition get_options :: "(string \<Rightarrow> config_file) \<Rightarrow> string \<Rightarrow> config_file \<Rightarrow> option_values" where
  "get_options parse_yaml customize file =
     (let o1 = (case GetCustomizeKtConfig customize of (c, True) \<Rightarrow> mergeOptions (parse_yaml c) zero_options
                | _ \<Rightarrow> zero_options)
      in mergeOptions file o1)"

text \<open>The arguments of the command line, in their order.\<close>

definition parse_arguments :: "string \<Rightarrow> (string \<times> option_value) list \<Rightarrow> option_values \<Rightarrow> option_values" where
  "parse_arguments grp args opts = fold (\<lambda>(t, v) st. st(grp := (st grp)(t := v))) args opts"

text \<open>All the commands.\<close>

definition command_flags :: "bool \<Rightarrow> string \<Rightarrow> (string \<times> option_config list) list" where
  "command_flags isMacos version = [(''Connect'', ConnectFlags isMacos), (''Global'', GlobalFlags version),
     (''Mesh'', MeshFlags version), (''Exchange'', ExchangeFlags), (''Preview'', PreviewFlags), (''Clean'', CleanFlags),
     (''Birdseye'', BirdseyeFlags), (''Recover'', RecoverFlags), (''Forward'', ForwardFlags)]"

section \<open>Precedence\<close>

lemma SetOptions_other: "t \<notin> Target ` set flags \<Longrightarrow> SetOptions grp flags opts grp t = opts grp t"
  by (induction flags arbitrary: opts) (auto simp: SetOptions_def)

lemma SetOptions_flag:
  "distinct (map Target flags) \<Longrightarrow> c \<in> set flags \<Longrightarrow>
   SetOptions grp flags opts grp (Target c) = flag_default (DefaultValue c) (opts grp (Target c))"
proof (induction flags arbitrary: opts)
  case (Cons a flags)
  let ?o = "opts(grp := (opts grp)(Target a := flag_default (DefaultValue a) (opts grp (Target a))))"
  have step: "SetOptions grp (a # flags) opts = SetOptions grp flags ?o" by (simp add: SetOptions_def)
  show ?case
  proof (cases "c = a")
    case True
    then have "Target c \<notin> Target ` set flags" using Cons.prems(1) by simp
    then show ?thesis unfolding step using True by (simp add: SetOptions_other)
  next
    case False
    then have "c \<in> set flags" using Cons.prems(2) by simp
    then have "Target c \<noteq> Target a" using Cons.prems(1) by (metis distinct.simps(2) image_eqI list.simps(9) set_map)
    then show ?thesis unfolding step using Cons False by simp
  qed
qed simp

lemma parse_arguments_value:
  "parse_arguments grp args opts grp t = (case map_of (rev args) t of Some v \<Rightarrow> v | None \<Rightarrow> opts grp t)"
proof (induction args arbitrary: opts)
  case (Cons a args)
  obtain u v where a: "a = (u, v)" by (cases a)
  have "parse_arguments grp (a # args) opts = parse_arguments grp args (opts(grp := (opts grp)(u := v)))"
    by (simp add: parse_arguments_def a)
  then show ?case by (simp add: Cons.IH a map_add_def split: option.split)
qed (simp add: parse_arguments_def)

text \<open>The entries of a configuration, and those that set a field.\<close>

definition config_items :: "config \<Rightarrow> (string \<times> string \<times> string) list" where
  "config_items config = concat (map (\<lambda>(g, items). map (\<lambda>(k, v). (g, k, v)) (entries items)) (entries config))"

definition sets_field :: "string \<Rightarrow> string \<Rightarrow> string \<times> string \<times> string \<Rightarrow> bool" where
  "sets_field grp t i \<longleftrightarrow> (case i of (g, k, v) \<Rightarrow> Capitalize g = grp \<and> Capitalize k = t)"

definition merge_entry :: "string \<times> string \<times> string \<Rightarrow> option_values \<Rightarrow> option_values" where
  "merge_entry i = merge_item (fst i) (snd i)"

definition set_field :: "field_kind \<Rightarrow> string \<times> string \<times> string \<Rightarrow> option_value \<Rightarrow> option_value" where
  "set_field kind i x = (case field_value kind (snd (snd i)) of Some y \<Rightarrow> y | None \<Rightarrow> x)"

lemma mergeOptions_items: "mergeOptions (Content config) opts = fold merge_entry (config_items config) opts"
proof -
  have "fold (\<lambda>(g, items). fold (merge_item g) (entries items)) gs opts =
      fold merge_entry (concat (map (\<lambda>(g, items). map (\<lambda>(k, v). (g, k, v)) (entries items)) gs)) opts" for gs
  proof (induction gs arbitrary: opts)
    case (Cons a gs)
    have "fold merge_entry (map (\<lambda>(k, v). (g, k, v)) al) = fold (merge_item g) al" for g al
      by (simp add: fold_map comp_def merge_entry_def split_def)
    with Cons show ?case by (cases a) simp
  qed simp
  then show ?thesis by (simp add: mergeOptions_def config_items_def)
qed

lemma merge_entry_other: "\<not> sets_field grp t i \<Longrightarrow> merge_entry i opts grp t = opts grp t"
  by (auto simp: merge_entry_def merge_item_def sets_field_def split: option.splits)

lemma merge_entry_field:
  "sets_field grp t i \<Longrightarrow> map_of daemon_options grp = Some items \<Longrightarrow> map_of items t = Some kind \<Longrightarrow>
   merge_entry i opts grp t = set_field kind i (opts grp t)"
  by (cases i) (simp add: merge_entry_def merge_item_def sets_field_def set_field_def split: option.split)

lemma merge_entries_field:
  assumes "map_of daemon_options grp = Some items" "map_of items t = Some kind"
  shows "fold merge_entry is opts grp t = fold (set_field kind) (filter (sets_field grp t) is) (opts grp t)"
proof (induction "is" arbitrary: opts)
  case (Cons i "is")
  show ?case
    by (cases "sets_field grp t i") (simp_all add: Cons.IH merge_entry_field [OF _ assms] merge_entry_other)
qed simp

section \<open>The tables fit the structs\<close>

text \<open>The field of a flag has the kind of its default value; a 64 bit field takes an int.\<close>

definition kind_fits :: "field_kind \<Rightarrow> option_value \<Rightarrow> bool" where
  "kind_fits kind d \<longleftrightarrow> (case (kind, d) of (StringField, StringVal _) \<Rightarrow> True | (IntField, IntVal _) \<Rightarrow> True
     | (BoolField, BoolVal _) \<Rightarrow> True | (OtherField, IntVal _) \<Rightarrow> True | _ \<Rightarrow> False)"

definition flag_fits :: "string \<Rightarrow> option_config \<Rightarrow> bool" where
  "flag_fits grp c \<longleftrightarrow> (case map_of daemon_options grp of None \<Rightarrow> False
     | Some items \<Rightarrow> (case map_of items (Target c) of None \<Rightarrow> False | Some kind \<Rightarrow> kind_fits kind (DefaultValue c)))"

definition table_fits :: "string \<times> option_config list \<Rightarrow> bool" where
  "table_fits t \<longleftrightarrow> distinct (map Target (snd t)) \<and> distinct (flag_names (snd t)) \<and> list_all (flag_fits (fst t)) (snd t)"

lemma command_tables_fit: "list_all table_fits (command_flags isMacos version)"
  by (cases isMacos) (simp only:, code_simp)+

section \<open>Property\<close>

definition is_zero :: "option_value \<Rightarrow> bool" where
  "is_zero v \<longleftrightarrow> (case v of StringVal s \<Rightarrow> s = [] | IntVal i \<Rightarrow> i = 0 | BoolVal b \<Rightarrow> \<not> b | OtherVal \<Rightarrow> False)"

text \<open>What the configuration says about a field: the value of its only entry, as far as it can be read.\<close>

definition configured :: "config \<Rightarrow> string \<Rightarrow> string \<Rightarrow> option_value option" where
  "configured config grp t =
     (case filter (sets_field grp t) (config_items config) of
        [(g, k, v)] \<Rightarrow> (case map_of daemon_options grp of None \<Rightarrow> None
          | Some items \<Rightarrow> Option.bind (map_of items t) (\<lambda>kind. field_value kind v))
      | _ \<Rightarrow> None)"

lemma flag_default_zero: "kind_fits kind d \<Longrightarrow> flag_default d (zero_value kind) = d"
  by (cases kind; cases d) (simp_all add: kind_fits_def flag_default_def zero_value_def)

lemma flag_default_read:
  "kind_fits kind d \<Longrightarrow> field_value kind v = Some x \<Longrightarrow> flag_default d x = (if is_zero x then d else x)"
  by (cases kind; cases d) (auto simp: kind_fits_def field_value_def flag_default_def is_zero_def)



end
