(* ===== verification/Startup.thy ===== *)
theory Startup
  imports Options TeardownProps RedirectProps
begin

text \<open>
  What every command does before its own work and after it: \<open>pkg/kt/command/general/setup.go\<close>, the
  user and owner of files in \<open>pkg/kt/util/system.go\<close>, and \<open>cmd/ktctl/main.go\<close>.  Reading a kubeconfig
  and building a client belong to client-go.
\<close>

section \<open>The kubeconfig\<close>

record kube_context =
  ContextCluster :: string
  ContextNamespace :: string

record kube_config =
  Contexts :: "kube_context gomap"
  CurrentContext :: string

text \<open>
  client-go: the default loading rules (with the variable KUBECONFIG set by the program or as it is),
  the parser of a text, the host of the configuration and the client.
\<close>

record kube_loader =
  LoadRules :: "string option \<Rightarrow> kube_config option outcome"
  LoadText :: "string \<Rightarrow> kube_config option outcome"
  RestHostOf :: "kube_config \<Rightarrow> string outcome"
  NewClientset :: "kube_config \<Rightarrow> unit outcome"

record global_start =
  Start_Kubeconfig :: string
  Start_Context :: string
  Start_Namespace :: string
  Start_IpVersion :: int
  Start_UseLocalTime :: bool

text \<open>What a start sets: the namespace, the current context and the flag of an IPv6 cluster; the cluster is only logged.\<close>

record kube_started =
  UsedNamespace :: string
  UsedContext :: string
  Ipv6Used :: bool
  UsedCluster :: string

definition load_kube_config :: "kube_loader \<Rightarrow> string \<Rightarrow> global_start \<Rightarrow> kube_config option outcome" where
  "load_kube_config loader customize g =
     (if Start_Kubeconfig g \<noteq> [] then LoadRules loader (Some (Start_Kubeconfig g))
      else (case GetCustomizeKubeConfig customize of
              (text_of, True) \<Rightarrow> LoadText loader text_of
            | (_, False) \<Rightarrow> LoadRules loader None))"

definition select_context :: "global_start \<Rightarrow> kube_config \<Rightarrow> kube_config outcome" where
  "select_context g config =
     (if Start_Context g \<noteq> [] then
        (if list_ex (\<lambda>(name, _). name = Start_Context g) (entries (Contexts config))
         then Value (config\<lparr>CurrentContext := Start_Context g\<rparr>)
         else Fail (Errorf (''context '' @ quoted (Start_Context g) @ '' not exist, check your kubeconfig file please'')))
      else Value config)"

definition select_namespace :: "global_start \<Rightarrow> kube_config \<Rightarrow> string" where
  "select_namespace g config =
     (if Start_Namespace g = [] then
        (case mlookup (Contexts config) (CurrentContext config) of
           Some ctx \<Rightarrow> if ContextNamespace ctx \<noteq> [] then ContextNamespace ctx else ''default''
         | None \<Rightarrow> ''default'')
      else Start_Namespace g)"

definition cluster_name :: "kube_config \<Rightarrow> string" where
  "cluster_name config =
     (case find (\<lambda>(name, _). name = CurrentContext config) (entries (Contexts config)) of
        Some (_, ctx) \<Rightarrow> ContextCluster ctx | None \<Rightarrow> ''none'')"

definition combineKubeOpts :: "kube_loader \<Rightarrow> string \<Rightarrow> global_start \<Rightarrow> kube_started outcome" where
  "combineKubeOpts loader customize g =
     (case load_kube_config loader customize g of
        Fail e \<Rightarrow> Fail (Errorf ''failed to parse kubeconfig: '')
      | Panic \<Rightarrow> Panic
      | Value None \<Rightarrow> Fail (Errorf ''failed to parse kubeconfig'')
      | Value (Some config0) \<Rightarrow>
          obind (select_context g config0) (\<lambda>config.
          obind (RestHostOf loader config) (\<lambda>host.
          obind (NewClientset loader config) (\<lambda>_.
            Value \<lparr> UsedNamespace = select_namespace g config, UsedContext = CurrentContext config,
                    Ipv6Used = (Start_IpVersion g = 6 \<or> contains_char host CHR ''[''),
                    UsedCluster = cluster_name config \<rparr>))))"

section \<open>Users and files\<close>

text \<open>The environment and the process: None is an unset variable or a user that cannot be found.\<close>

record process_env =
  SudoUser :: string
  SudoUid :: string
  SudoGid :: string
  Uid :: int
  CurrentUser :: "string option"
  ProcessPid :: int

definition GetLocalUserName :: "process_env \<Rightarrow> string" where
  "GetLocalUserName e =
     (if SudoUser e \<noteq> [] then SudoUser e else (case CurrentUser e of None \<Rightarrow> [] | Some u \<Rightarrow> u))"

text \<open>The owner that a file is given; both numbers fall back to the id of the user.\<close>

definition file_owner :: "process_env \<Rightarrow> (int \<times> int) outcome" where
  "file_owner e =
     (let id_of = (\<lambda>s. if s = [] then Value (Uid e) else (case atoi s of Some n \<Rightarrow> Value n | None \<Rightarrow> Fail (NumError s)))
      in obind (id_of (SudoUid e)) (\<lambda>uid. obind (id_of (SudoGid e)) (\<lambda>gid. Value (uid, gid))))"

definition FixFileOwner :: "process_env \<Rightarrow> (string \<Rightarrow> int \<Rightarrow> int \<Rightarrow> ('w, unit outcome) state) \<Rightarrow> string \<Rightarrow>
    ('w, unit outcome) state" where
  "FixFileOwner e chown path =
     (case file_owner e of
        Value (uid, gid) \<Rightarrow> chown path uid gid
      | Fail err \<Rightarrow> State_Monad.return (Fail err)
      | Panic \<Rightarrow> State_Monad.return Panic)"

definition pid_file :: "process_env \<Rightarrow> string \<Rightarrow> string \<Rightarrow> string" where
  "pid_file e dir componentName = dir @ ''/'' @ componentName @ ''-'' @ itoa (ProcessPid e) @ ''.pid''"

definition WritePidFile ::
  "process_env \<Rightarrow> string \<Rightarrow> (string \<Rightarrow> string \<Rightarrow> ('w, unit outcome) state) \<Rightarrow> string \<Rightarrow> ('w, unit outcome) state" where
  "WritePidFile e dir write_file componentName = write_file (pid_file e dir componentName) (itoa (ProcessPid e))"

section \<open>Whole sessions\<close>

text \<open>
  \<open>main\<close>: the command runs until its error or its signal, and then the workspace is cleaned up.  A
  panic of the command ends the process without cleanup.
\<close>

definition ktctl_main :: "('w prog, unit outcome) state \<Rightarrow> ('w prog, unit outcome) state \<Rightarrow> ('w prog, unit outcome) state" where
  "ktctl_main execute cleanup = go_catch execute (\<lambda>_. cleanup) (\<lambda>_. cleanup)"

text \<open>\<open>general.SetupProcess\<close> with the file system as a parameter, and the commands that begin with it.\<close>

definition setup_process ::
  "process_env \<Rightarrow> string \<Rightarrow> (string \<Rightarrow> string \<Rightarrow> ('w, unit outcome) state) \<Rightarrow> string \<Rightarrow> ('w prog, unit outcome) state" where
  "setup_process e dir write_file componentName = do {
     set_store (\<lambda>s. s\<lparr>Store_Component := componentName\<rparr>);
     lift_io (WritePidFile e dir write_file componentName)
   }"

definition Preview ::
  "'w kube \<Rightarrow> kt_options \<Rightarrow> 'w forwarder \<Rightarrow> (string \<Rightarrow> bool) \<Rightarrow> bool \<Rightarrow> string \<Rightarrow> bool \<Rightarrow> (nat \<Rightarrow> string) \<Rightarrow> string \<Rightarrow>
   ('w prog, unit outcome) state" where
  "Preview k opts forward dial skipPortChecking expose external rnd serviceName =
     (if skipPortChecking \<and> FindBrokenLocalPort dial expose \<noteq> []
      then State_Monad.return (Fail (Errorf (''no application is running on port '' @ FindBrokenLocalPort dial expose)))
      else Expose k opts forward expose external rnd serviceName)"

definition exchange_command ::
  "'w kube \<Rightarrow> kt_options \<Rightarrow> 'w forwarder \<Rightarrow> (string \<Rightarrow> bool) \<Rightarrow> process_env \<Rightarrow> string \<Rightarrow>
   (string \<Rightarrow> string \<Rightarrow> ('w, unit outcome) state) \<Rightarrow> ('w prog, unit outcome) state \<Rightarrow> ('w prog, unit outcome) state \<Rightarrow>
   bool \<Rightarrow> string \<Rightarrow> (nat \<Rightarrow> string) \<Rightarrow> string \<Rightarrow> ('w prog, unit outcome) state" where
  "exchange_command k opts forward dial e dir write_file by_scale by_ephemeral skipPortChecking expose rnd resourceName =
     go_try (setup_process e dir write_file ''exchange'') (\<lambda>_.
       Exchange by_scale by_ephemeral (BySelector k opts forward expose rnd resourceName) opts dial skipPortChecking expose)"

definition mesh_command ::
  "'w kube \<Rightarrow> kt_options \<Rightarrow> 'w forwarder \<Rightarrow> (string \<Rightarrow> bool) \<Rightarrow> process_env \<Rightarrow> string \<Rightarrow>
   (string \<Rightarrow> string \<Rightarrow> ('w, unit outcome) state) \<Rightarrow> bool \<Rightarrow> string \<Rightarrow> string \<Rightarrow> (nat \<Rightarrow> string) \<Rightarrow> string \<Rightarrow> ('w prog, unit outcome) state" where
  "mesh_command k opts forward dial e dir write_file skipPortChecking mode expose rnd resourceName =
     go_try (setup_process e dir write_file ''mesh'') (\<lambda>_. Mesh k opts forward dial skipPortChecking mode expose rnd resourceName)"

section \<open>The namespace of the context\<close>

text \<open>
  The flag \<open>--namespace\<close> has the default value ''default'', so that after the flags are registered the
  namespace is never empty: the namespace of the current context, which the description of the flag and
  \<open>docs/en-us/cli/global.md\<close> promise, is not looked at unless the user passes an empty value.
\<close>

lemma namespace_ignores_context:
  assumes "SetOptions ''Global'' (GlobalFlags version) opts ''Global'' ''Namespace'' = StringVal ns"
  shows "select_namespace (g\<lparr>Start_Namespace := ns\<rparr>) config = ns"
proof -
  let ?c = "flag ''Namespace'' ''n'' (StringVal ''default'')"
  have "table_fits (''Global'', GlobalFlags version)"
    using command_tables_fit [of True version] by (simp add: command_flags_def)
  then have "distinct (map Target (GlobalFlags version))" by (simp add: table_fits_def)
  from SetOptions_flag [OF this, of ?c "''Global''" opts]
  have "StringVal ns = flag_default (StringVal ''default'') (opts ''Global'' ''Namespace'')"
    using assms by (simp add: GlobalFlags_def)
  then have "ns \<noteq> []" by (auto simp: flag_default_def split: option_value.splits if_splits)
  then show ?thesis by (simp add: select_namespace_def)
qed

end
