(* ===== verification/SessionProps.thy ===== *)
theory SessionProps
  imports Startup
begin

text \<open>
  A whole session of an exchange: the command, in whatever way it ends, and then the cleanup.  The
  proof carries a predicate of the run-time store through the commands, in the way of RedirectProps.
\<close>

section \<open>Predicates of the store that a computation keeps\<close>

definition keeps_store :: "(runtime_store \<Rightarrow> bool) \<Rightarrow> ('w prog, 'a) state \<Rightarrow> bool" where
  "keeps_store Q m \<longleftrightarrow> (\<forall>s. Q (Store s) \<longrightarrow> Q (Store (snd (run_state m s))))"

named_theorems store_intros \<open>control structures and calls that keep the predicate\<close>

lemma keeps_storeD: "keeps_store Q m \<Longrightarrow> run_state m s = (r, t) \<Longrightarrow> Q (Store s) \<Longrightarrow> Q (Store t)"
  unfolding keeps_store_def by (metis snd_conv)

lemma store_bind [store_intros]: "keeps_store Q m \<Longrightarrow> (\<And>x. keeps_store Q (f x)) \<Longrightarrow> keeps_store Q (State_Monad.bind m f)"
  unfolding keeps_store_def by (simp add: split_def)

lemma store_basic [store_intros]: "keeps_store Q (State_Monad.return a)" "keeps_store Q (lift_io io)" "keeps_store Q get_store"
  "keeps_store Q (SetupHeartBeat x y z)"
  by (simp_all add: keeps_store_def split_def)

lemma store_set: "(\<And>st. Q st \<Longrightarrow> Q (f st)) \<Longrightarrow> keeps_store Q (set_store f)"
  by (simp add: keeps_store_def)

lemma store_try [store_intros]: "keeps_store Q m \<Longrightarrow> (\<And>x. keeps_store Q (f x)) \<Longrightarrow> keeps_store Q (go_try m f)"
  unfolding go_try_def by (intro store_bind) (auto intro: store_basic split: outcome.split)

lemma store_catch [store_intros]:
  "keeps_store Q m \<Longrightarrow> (\<And>x. keeps_store Q (f x)) \<Longrightarrow> (\<And>e. keeps_store Q (h e)) \<Longrightarrow> keeps_store Q (go_catch m f h)"
  unfolding go_catch_def by (intro store_bind) (auto intro: store_basic split: outcome.split)

lemma store_cases [store_intros]:
  "(b \<Longrightarrow> keeps_store Q m) \<Longrightarrow> (\<not> b \<Longrightarrow> keeps_store Q n) \<Longrightarrow> keeps_store Q (if b then m else n)"
  "(\<And>u v. p = (u, v) \<Longrightarrow> keeps_store Q (f u v)) \<Longrightarrow> keeps_store Q (case p of (u, v) \<Rightarrow> f u v)"
  "(q = None \<Longrightarrow> keeps_store Q m) \<Longrightarrow> (\<And>x. q = Some x \<Longrightarrow> keeps_store Q (g x)) \<Longrightarrow>
   keeps_store Q (case q of None \<Rightarrow> m | Some x \<Rightarrow> g x)"
  "(xs = [] \<Longrightarrow> keeps_store Q m) \<Longrightarrow> (\<And>y ys. xs = y # ys \<Longrightarrow> keeps_store Q (l y ys)) \<Longrightarrow>
   keeps_store Q (case xs of [] \<Rightarrow> m | y # ys \<Rightarrow> l y ys)"
  "(\<And>x. r = Value x \<Longrightarrow> keeps_store Q (i x)) \<Longrightarrow> (\<And>e. r = Fail e \<Longrightarrow> keeps_store Q (j e)) \<Longrightarrow> (r = Panic \<Longrightarrow> keeps_store Q h) \<Longrightarrow>
   keeps_store Q (case r of Value x \<Rightarrow> i x | Fail e \<Rightarrow> j e | Panic \<Rightarrow> h)"
  by (cases p; cases q; cases xs; cases r; simp)+

lemma store_calls [store_intros]:
  "keeps_store Q (GetPod k x ns)" "keeps_store Q (GetPodsByLabel k l ns)" "keeps_store Q (GetDeployment k x ns)"
  "keeps_store Q (GetDeploymentsByLabel k l ns)" "keeps_store Q (GetAllDeploymentInNamespace k ns)"
  "keeps_store Q (GetService k x ns)" "keeps_store Q (GetConfigMap k x ns)" "keeps_store Q (UpdatePod k p)"
  "keeps_store Q (UpdateDeployment k d)" "keeps_store Q (UpdateService k svc)" "keeps_store Q (now k)" "keeps_store Q (sleep k t)"
  unfolding api_call_defs now_def sleep_def by (intro store_intros)+

lemma store_waits [store_intros]:
  "keeps_store Q (waitPodReady k x ns t tries)" "keeps_store Q (waitPodsReady k l ns t tries)"
  "keeps_store Q (waitPodTerminate k x ns tries)"
proof -
  show "keeps_store Q (waitPodReady k x ns t tries)"
    by (induction k x ns t tries rule: waitPodReady.induct, subst waitPodReady.simps) (auto intro!: store_intros)
  show "keeps_store Q (waitPodsReady k l ns t tries)"
    by (induction k l ns t tries rule: waitPodsReady.induct, subst waitPodsReady.simps) (auto intro!: store_intros)
  show "keeps_store Q (waitPodTerminate k x ns tries)"
    by (induction k x ns tries rule: waitPodTerminate.induct, subst waitPodTerminate.simps) (auto intro!: store_intros)
qed

lemma store_refs [store_intros]:
  "keeps_store Q (IncreasePodRef k x ns)" "keeps_store Q (IncreaseDeploymentRef k x ns)"
  "keeps_store Q (createConfigMapWithSshKey k l cm ns g)"
  unfolding IncreasePodRef_def IncreaseDeploymentRef_def createConfigMapWithSshKey_def Let_def by (intro store_intros)+

lemma store_create_shadow [store_intros]: "keeps_store Q (createShadow k opts m ssh)"
proof -
  have "keeps_store Q (createAndGetPod k opts m cm)" for cm
    unfolding createAndGetPod_def createShadowDeployment_def createShadowPod_def by (intro store_intros)
  then show ?thesis unfolding createShadow_def by (intro store_intros)
qed

lemma store_existing_shadows [store_intros]: "keeps_store Q (tryGetExistingShadows k opts r ssh)"
  unfolding tryGetExistingShadows_def existing_shadow_pod_def shadow_without_configmap_def Let_def by (intro store_intros)

lemma store_target_ports [store_intros]: "keeps_store Q (GetTargetPorts k opts svc)"
proof -
  have "keeps_store Q (target_ports_loop k opts svc ps po m)" for ps po m
    by (induction ps arbitrary: po m) (auto intro!: store_intros split: int_or_string.split)
  then show ?thesis by (simp add: GetTargetPorts_def)
qed

lemma store_redirect [store_intros]:
  "keeps_store Q (UpdateServiceSelector k x ns sel)" "keeps_store Q (GetOccupiedUser k opts l)"
  unfolding UpdateServiceSelector_def GetOccupiedUser_def by (intro store_intros)+

text \<open>Making a shadow changes its name and its session in the store, and the lane only if a label asks for one.\<close>

definition shadow_closed :: "(runtime_store \<Rightarrow> bool) \<Rightarrow> bool" where
  "shadow_closed Q \<longleftrightarrow> (\<forall>st x y. Q st \<longrightarrow> Q (st\<lparr>Store_Shadow := x\<rparr>) \<and> Q (st\<lparr>Store_Session := y\<rparr>))"

lemma store_shadow_and_inbound:
  assumes q: "shadow_closed Q" and l: "mlookup (labels_after opts labels) KtLane = None"
  shows "keeps_store Q (CreateShadowAndInbound k opts forward x e labels an d)"
proof -
  have "keeps_store Q (GetOrCreateShadow k opts x labels an envs e d)" for envs
  proof -
    have shadow: "keeps_store Q (set_store (\<lambda>s. s\<lparr>Store_Shadow := x\<rparr>))"
      using q by (intro store_set) (simp add: shadow_closed_def)
    have session: "keeps_store Q (set_store (\<lambda>s. case mlookup l' KtSession of Some y \<Rightarrow> s\<lparr>Store_Session := y\<rparr> | None \<Rightarrow> s))" for l'
      using q by (intro store_set) (simp add: shadow_closed_def split: option.split)
    have lane: "keeps_store Q (set_store (\<lambda>s. case mlookup l' KtLane of Some y \<Rightarrow> s\<lparr>Store_Lane := y\<rparr> | None \<Rightarrow> s))"
      if "obind (set_entries labels (entries (String2Map (Global_WithLabel opts)))) (\<lambda>l'.
           obind (set_entries an (entries (String2Map (Global_WithAnnotation opts)))) (\<lambda>a.
           obind (mset_entry a KtUser (LocalUserName k)) (\<lambda>an'. Value (l', an')))) = Value r" "r = (l', an')" for r l' an'
    proof -
      have "set_entries labels (entries (String2Map (Global_WithLabel opts))) = Value l'"
        using that by auto
      then show ?thesis using l by (simp add: keeps_store_def labels_after_def)
    qed
    show ?thesis
      unfolding GetOrCreateShadow_def Let_def by (intro store_intros shadow session lane)
  qed
  then show ?thesis unfolding CreateShadowAndInbound_def by (intro store_intros)
qed

section \<open>The exchange\<close>

text \<open>What the store says in an exchange session, apart from the origin.\<close>

definition in_exchange :: "runtime_store \<Rightarrow> bool" where
  "in_exchange st \<longleftrightarrow> Store_Component st = ''exchange'' \<and> Store_Lane st = [] \<and> Store_Service st = []"

lemma in_exchange_simps [simp]: "in_exchange (st\<lparr>Store_Origin := x\<rparr>) = in_exchange st"
  by (simp add: in_exchange_def)

lemma closed_origin: "shadow_closed (\<lambda>st. in_exchange st \<and> Store_Origin st = x)"
  by (simp add: shadow_closed_def in_exchange_def)

abbreviation exchange_labels :: "(nat \<Rightarrow> string) \<Rightarrow> smap" where
  "exchange_labels rnd \<equiv> GoMap [(KtRole, ''shadow-exchange''), (KtTarget, rnd 1)]"

text \<open>As long as the origin is not in the store, the service is as it was.\<close>

lemma exchange_body:
  assumes a: "api_server k view" and c: "side_calls_ok k view forward"
    and l: "mlookup (labels_after opts (exchange_labels rnd)) KtLane = None"
    and st: "in_exchange (Store s)" "Store_Origin (Store s) = []"
    and run: "run_state (selector_exchange_locked k opts forward expose rnd svc) s = (r, t)"
  shows "in_exchange (Store t) \<and>
    (Store_Origin (Store t) = [] \<and> (\<forall>Q. svc_at view ns n Q (World s) \<longrightarrow> svc_at view ns n Q (World t)) \<or>
     Store_Origin (Store t) = Name svc)"
proof -
  let ?Q = "\<lambda>st. in_exchange st \<and> Store_Origin st = []"
  let ?shadow = "CreateShadowAndInbound k opts forward (Name svc @ ExchangePodInfix @ to_lower (rnd 0)) expose
    (exchange_labels rnd) (GoMap [(KtConfig, ''service='' @ Name svc)])"
  have q: "?Q (Store s)" using st by simp
  have shadow: "keeps_store ?Q (?shadow d)" for d by (rule store_shadow_and_inbound [OF closed_origin l])
  show ?thesis
  proof (cases "exchange_conflict svc")
    case (Some err)
    let ?user = "if mget (Selector svc) KtRole = ''shadow-exchange'' then GetOccupiedUser k opts (Selector svc) else State_Monad.return []"
    have keep: "keeps_store ?Q ?user" "stays (svc_at view ns n Q) ?user" for Q
      by (intro store_intros stays_intros stays_occupied_user a)+
    obtain u s' where u: "run_state ?user s = (u, s')" by fastforce
    then have "t = s'" using run Some by (simp add: selector_exchange_locked_def)
    then show ?thesis using keeps_storeD [where Q = ?Q, OF keep(1) u q] staysD [OF keep(2) u] by blast
  next
    case None
    obtain r1 s1 where r1: "run_state (GetTargetPorts k opts svc) s = (r1, s1)" by fastforce
    have k1: "?Q (Store s1)" "svc_at view ns n Q (World s) \<Longrightarrow> svc_at view ns n Q (World s1)" for Q
      using keeps_storeD [where Q = ?Q, OF store_target_ports r1 q] staysD [OF stays_target_ports [OF a] r1] by blast+
    show ?thesis
    proof (cases r1)
      case (Value d)
      obtain r2 s2 where r2: "run_state (?shadow d) s1 = (r2, s2)" by fastforce
      have k2: "?Q (Store s2)" "svc_at view ns n Q (World s1) \<Longrightarrow> svc_at view ns n Q (World s2)" for Q
        using keeps_storeD [where Q = ?Q, OF shadow r2 k1(1)] staysD [OF stays_shadow_and_inbound [OF a c] r2] by blast+
      show ?thesis
      proof (cases r2)
        case (Value x)
        let ?s2 = "s2\<lparr>Store := (Store s2)\<lparr>Store_Origin := Name svc\<rparr>\<rparr>"
        have upd: "run_state (UpdateServiceSelector k (Name svc) (Global_Namespace opts) (labels_after opts (exchange_labels rnd))) ?s2 = (r, t)"
          using run None r1 \<open>r1 = Value d\<close> r2 Value by (simp add: selector_exchange_locked_def Let_def)
        have "in_exchange (Store t) \<and> Store_Origin (Store t) = Name svc"
          by (rule keeps_storeD [where Q = "\<lambda>st. in_exchange st \<and> Store_Origin st = Name svc", OF store_redirect(1) upd]) (use k2(1) in simp)
        then show ?thesis by simp
      next
        case (Fail e)
        then have "t = s2" using run None r1 \<open>r1 = Value d\<close> r2 by (simp add: selector_exchange_locked_def Let_def)
        with k1 k2 show ?thesis by blast
      next
        case Panic
        then have "t = s2" using run None r1 \<open>r1 = Value d\<close> r2 by (simp add: selector_exchange_locked_def Let_def)
        with k1 k2 show ?thesis by blast
      qed
    next
      case (Fail e)
      then have "t = s1" using run None r1 by (simp add: selector_exchange_locked_def Let_def)
      with k1 show ?thesis by blast
    next
      case Panic
      then have "t = s1" using run None r1 by (simp add: selector_exchange_locked_def Let_def)
      with k1 show ?thesis by blast
    qed
  qed
qed

text \<open>A service that has not been touched but for its lock.\<close>

definition untouched :: "service \<Rightarrow> service \<Rightarrow> bool" where
  "untouched orig cur \<longleftrightarrow> same_service orig cur \<and> Selector cur = Selector orig \<and>
     mlookup (Annotations cur) = mlookup (Annotations orig)"

lemma untouched_restored: "untouched orig cur \<Longrightarrow> restored orig cur"
  by (simp add: untouched_def restored_def)

text \<open>The command, from the request on: how it leaves the store and the service.\<close>

definition exchange_left :: "('w \<Rightarrow> cluster_objects) \<Rightarrow> string \<Rightarrow> string \<Rightarrow> service \<Rightarrow> 'w prog \<Rightarrow> bool" where
  "exchange_left view ns n cur t \<longleftrightarrow> in_exchange (Store t) \<and>
     (Store_Origin (Store t) = [] \<and> svc_at view ns n (untouched cur) (World t) \<or>
      Store_Origin (Store t) = n \<and> svc_at view ns n (restorable cur) (World t))"

text \<open>What holds of a computation under the lock of a service that nobody else holds.\<close>

lemma locked_run:
  assumes a: "api_server k view"
    and f: "find_obj (ClServices (view (World s))) ns n = Some cur"
    and p: "plain_service orig" "mlookup (Annotations cur) KtLock = None" and r: "restorable orig cur"
    and body: "\<And>svc orig. Name svc = n \<Longrightarrow> plain_service orig \<Longrightarrow> stays (svc_at view ns n (restorable orig)) (body svc)"
  obtains svc s1 r s2 t where
    "run_state (go_try (LockService k n ns 0) (\<lambda>svc. go_defer (body svc) (UnlockService k (Name svc) ns))) s = (r, t)"
    "Name svc = n" "Store s1 = Store s" "ClPods (view (World s1)) = ClPods (view (World s))"
    "svc_at view ns n (\<lambda>x. x = svc) (World s1)" "run_state (body svc) s1 = (r, s2)"
    "Store t = Store s2" "ClPods (view (World t)) = ClPods (view (World s2))"
    "svc_at view ns n (\<lambda>x. restorable orig x \<and> mlookup (Annotations x) KtLock = None) (World t)"
    "svc_at view ns n (\<lambda>x. x = svc) (World s2) \<longrightarrow> svc_at view ns n (untouched cur) (World t)"
proof -
  let ?l = "GetTimestamp (time_of k s)"
  have free: "\<not> lock_alive (time_of k s) (mlookup (Annotations cur) KtLock)" using p(2) by (simp add: lock_alive_def)
  obtain s1 svc where s1: "run_state (LockService k n ns 0) s = (Value svc, s1)"
    "find_obj (ClServices (view (World s1))) ns n = Some svc" "same_service cur svc" "Selector svc = Selector cur"
    "mlookup (Annotations svc) = (mlookup (Annotations cur))(KtLock \<mapsto> ?l)" "service_frame view ns n s s1"
    using LockService_free [OF a f free, of 0] by auto
  have n: "Name svc = n" using find_obj_Some [OF s1(2)] by simp
  let ?orig = "orig\<lparr>Annotations := mput (Annotations orig) KtLock ?l\<rparr>"
  obtain r s2 where b: "run_state (body svc) s1 = (r, s2)" by fastforce
  have "restorable ?orig svc" by (rule restorable_locked [OF r s1(3-5)])
  then have "svc_at view ns n (restorable ?orig) (World s1)" using s1(2) by (simp add: svc_at_def)
  from staysD [OF body [OF n plain_lock(1) [OF p(1)]] b this]
  obtain c2 where c2: "find_obj (ClServices (view (World s2))) ns n = Some c2" "restorable ?orig c2"
    by (auto simp: svc_at_def)
  obtain t cur' where t: "run_state (UnlockService k n ns) s2 = (Value (), t)"
    "find_obj (ClServices (view (World t))) ns n = Some cur'" "same_service c2 cur'" "Selector cur' = Selector c2"
    "mlookup (Annotations cur') = (mlookup (Annotations c2))(KtLock := None)" "service_frame view ns n s2 t"
    using UnlockService_free [OF a c2(1)] by blast
  have "mlookup (Annotations orig) KtLock = None" using r p(2) by (simp add: restorable_def same_annotations_def)
  then have "restorable orig cur'" "mlookup (Annotations cur') KtLock = None"
    using c2(2) t(3-5) p(2) by (auto simp: restorable_def same_service_def same_annotations_def)
  moreover have "untouched cur cur'" if "c2 = svc"
    using that s1(3-5) t(3-5) p(2) by (auto simp: untouched_def same_service_def)
  ultimately show ?thesis
    using s1(1,2,6) b t(1,2,6) n c2(1) by (intro that [of r t svc s1 s2]) (auto simp: service_frame_def svc_at_def)
qed

lemma exchange_section:
  assumes a: "api_server k view" and c: "side_calls_ok k view forward"
    and l: "mlookup (labels_after opts (exchange_labels rnd)) KtLane = None"
    and st: "in_exchange (Store s)" "Store_Origin (Store s) = []"
    and f: "find_obj (ClServices (view (World s))) (Global_Namespace opts) n = Some cur"
    and p: "plain_service cur" "mlookup (Annotations cur) KtLock = None"
  shows "\<exists>r t. run_state (go_try (LockService k n (Global_Namespace opts) 0)
      (\<lambda>svc. go_defer (selector_exchange_locked k opts forward expose rnd svc)
                      (UnlockService k (Name svc) (Global_Namespace opts)))) s = (r, t) \<and>
    exchange_left view (Global_Namespace opts) n cur t"
proof -
  let ?ns = "Global_Namespace opts"
  obtain svc s1 r s2 t where run: "run_state (go_try (LockService k n ?ns 0)
      (\<lambda>svc. go_defer (selector_exchange_locked k opts forward expose rnd svc) (UnlockService k (Name svc) ?ns))) s = (r, t)"
    and n: "Name svc = n" and s1: "Store s1 = Store s" "ClPods (view (World s1)) = ClPods (view (World s))"
      "svc_at view ?ns n (\<lambda>x. x = svc) (World s1)"
    and b: "run_state (selector_exchange_locked k opts forward expose rnd svc) s1 = (r, s2)"
    and t: "Store t = Store s2" "ClPods (view (World t)) = ClPods (view (World s2))" "svc_at view ?ns n (\<lambda>x. restorable cur x \<and> mlookup (Annotations x) KtLock = None) (World t)"
      "svc_at view ?ns n (\<lambda>x. x = svc) (World s2) \<longrightarrow> svc_at view ?ns n (untouched cur) (World t)"
    by (rule locked_run [OF a f p restorable_plain [OF p(1)] stays_selector_exchange [OF a c _ _ refl]]) (assumption | rule that)+
  have "in_exchange (Store s2) \<and> (Store_Origin (Store s2) = [] \<and>
      (\<forall>Q. svc_at view ?ns n Q (World s1) \<longrightarrow> svc_at view ?ns n Q (World s2)) \<or> Store_Origin (Store s2) = n)"
    using exchange_body [OF a c l _ _ b, of ?ns n] n st s1(1) by simp
  with s1(3) t have "exchange_left view ?ns n cur t" unfolding exchange_left_def by (auto simp: svc_at_def)
  with run show ?thesis by blast
qed

lemma exchange_request:
  assumes a: "api_server k view" and c: "side_calls_ok k view forward"
    and l: "mlookup (labels_after opts (exchange_labels rnd)) KtLane = None"
    and st: "in_exchange (Store s)" "Store_Origin (Store s) = []"
    and nm: "ParseResourceName resourceName = Value (kind, n)" "kind \<in> {''svc'', ''service''}"
    and f: "find_obj (ClServices (view (World s))) (Global_Namespace opts) n = Some cur"
    and p: "plain_service cur" "mlookup (Annotations cur) KtLock = None"
  shows "\<exists>r t. run_state (BySelector k opts forward expose rnd resourceName) s = (r, t) \<and>
    exchange_left view (Global_Namespace opts) n cur t"
proof -
  let ?ns = "Global_Namespace opts"
  have n: "Name cur = n" using find_obj_Some [OF f] by simp
  have "untouched cur cur" by (simp add: untouched_def same_service_def)
  then have here: "exchange_left view ?ns n cur s" using st f by (auto simp: exchange_left_def svc_at_def)
  obtain r1 where ports: "run_state (GetTargetPorts k opts cur) s = (r1, s)"
    using target_ports_read [OF a] by (metis prod.collapse)
  have run: "run_state (BySelector k opts forward expose rnd resourceName) s =
     (case r1 of Value svcPorts \<Rightarrow>
        if FindInvalidRemotePort expose svcPorts \<noteq> []
        then (Fail (Errorf (''target port '' @ FindInvalidRemotePort expose svcPorts @ '' not exists in service '' @ n)), s)
        else run_state (go_try (LockService k n ?ns 0) (\<lambda>svc. go_defer (selector_exchange_locked k opts forward expose rnd svc)
          (UnlockService k (Name svc) ?ns))) s
      | Fail e \<Rightarrow> (Fail e, s) | Panic \<Rightarrow> (Panic, s))"
    using ports nm n
    by (cases r1; cases "kind = ''svc''") (simp_all add: BySelector_def GetServiceByResourceName_def GetService_found [OF a f])
  show ?thesis
    unfolding run using here exchange_section [where rnd = rnd and view = view, OF a c l st f p] by (cases r1) (simp_all del: run_go_try)
qed

lemma exchange_command_left:
  assumes a: "api_server k view" and c: "side_calls_ok k view forward"
    and w: "\<And>w f x. view (snd (run_state (write_file f x) w)) = view w"
    and o: "Exchange_Mode opts = ''selector''" "mlookup (labels_after opts (exchange_labels rnd)) KtLane = None"
    and st: "Store_Lane (Store s) = []" "Store_Service (Store s) = []" "Store_Origin (Store s) = []"
    and nm: "ParseResourceName resourceName = Value (kind, n)" "kind \<in> {''svc'', ''service''}"
    and f: "find_obj (ClServices (view (World s))) (Global_Namespace opts) n = Some cur"
    and p: "plain_service cur" "mlookup (Annotations cur) KtLock = None"
  shows "\<exists>r t. run_state (exchange_command k opts forward dial e dir write_file by_scale by_ephemeral skip expose rnd resourceName) s = (r, t) \<and>
    exchange_left view (Global_Namespace opts) n cur t"
proof -
  let ?ns = "Global_Namespace opts"
  obtain r0 s0 where s0: "run_state (setup_process e dir write_file ''exchange'') s = (r0, s0)" by fastforce
  obtain r w' where io: "run_state (write_file (pid_file e dir ''exchange'') (itoa (ProcessPid e))) (World s) = (r, w')" by fastforce
  have eq: "s0 = s\<lparr>Store := (Store s)\<lparr>Store_Component := ''exchange''\<rparr>, World := w'\<rparr>"
    using s0 io by (simp add: setup_process_def WritePidFile_def)
  have vw: "view w' = view (World s)" using w [of "pid_file e dir ''exchange''" "itoa (ProcessPid e)" "World s"] io by simp
  have st0: "in_exchange (Store s0)" "Store_Origin (Store s0) = []" using st by (simp_all add: eq in_exchange_def)
  have f0: "find_obj (ClServices (view (World s0))) ?ns n = Some cur" using f vw by (simp add: eq)
  have "untouched cur cur" by (simp add: untouched_def same_service_def)
  then have here: "exchange_left view ?ns n cur s0" using st0 f0 by (auto simp: exchange_left_def svc_at_def)
  show ?thesis
    using exchange_request [where rnd = rnd and view = view and expose = expose, OF a c o(2) st0 nm f0 p] here o(1) s0
    by (cases r0) (simp_all add: exchange_command_def Exchange_def)
qed

text \<open>The cleanup takes back what the command has left.\<close>

definition shadows_gone :: "kt_options \<Rightarrow> runtime_store \<Rightarrow> cluster_objects \<Rightarrow> bool" where
  "shadows_gone opts st c \<longleftrightarrow> (\<forall>x \<in> shadow_names st.
     find_obj (ClConfigMaps c) (Global_Namespace opts) x = None \<and>
     (if Global_UseShadowDeployment opts then find_obj (ClDeployments c) (Global_Namespace opts) x = None
      else find_obj (ClPods c) (Global_Namespace opts) x = None))"

lemma cleanup_spec_gone: "shadows_gone opts st (cleanup_spec opts st c)"
  using cleanup_spec_removed [of opts st c] by (auto simp: shadows_gone_def removed_def)

lemma cleanup_after_exchange:
  assumes a: "api_server k view" and loc: "local_steps_ok view local_steps"
    and o: "\<not> Connect_ShareShadow opts" "Exchange_Mode opts = ''selector''"
    and left: "exchange_left view (Global_Namespace opts) n cur m" and n: "n \<noteq> []" and p: "plain_service cur"
  shows "\<exists>t given. run_state (CleanupWorkspace k opts pid local_steps) m = (Value (), t) \<and>
    find_obj (ClServices (view (World t))) (Global_Namespace opts) n = Some given \<and> restored cur given \<and>
    shadows_gone opts (Store m) (view (World t))"
proof -
  let ?ns = "Global_Namespace opts"
  have st: "Store_Component (Store m) = ''exchange''" "Store_Lane (Store m) = []" "Store_Service (Store m) = []"
    using left by (simp_all add: exchange_left_def in_exchange_def)
  have keep: "ClServices (cleanup_spec opts (Store m) x) = ClServices x" for x
    using st(3) by (simp add: cleanup_spec_def clean_shadows_spec_def clean_service_spec_def)
  consider (origin) svc where "Store_Origin (Store m) = n" "find_obj (ClServices (view (World m))) ?ns n = Some svc" "restorable cur svc"
    | (none) svc where "Store_Origin (Store m) = []" "find_obj (ClServices (view (World m))) ?ns n = Some svc" "untouched cur svc"
    using left by (auto simp: exchange_left_def svc_at_def)
  then show ?thesis
  proof cases
    case origin
    from cleanup_exchange [OF a loc o(1,2) st(2,1) origin(1) n origin(2) p origin(3), of pid]
    obtain t x given where "run_state (CleanupWorkspace k opts pid local_steps) m = (Value (), t)"
      "view (World t) = cleanup_spec opts (Store m) x"
      "find_obj (ClServices x) ?ns n = Some given" "restored cur given" by blast
    then show ?thesis using keep cleanup_spec_gone by metis
  next
    case none
    obtain u where u: "Store u = Store m" "view (World u) = view (World m)"
      "run_state (CleanupWorkspace k opts pid local_steps) m =
        run_state (go_try (recoverExchangedTarget k opts) (\<lambda>_. go_try (cleanService k opts) (\<lambda>_. cleanShadowPodAndConfigMap k opts))) u"
      using CleanupWorkspace_split [OF a loc, of m opts pid] st(1) by auto
    have "acts_ok view (go_try (cleanService k opts) (\<lambda>_. cleanShadowPodAndConfigMap k opts)) (cleanup_spec opts (Store u)) u"
      by (rule CleanupWorkspace_tail [OF a o(1)]) (use o(2) st(2) u(1) in simp_all)
    then obtain t where t: "run_state (go_try (cleanService k opts) (\<lambda>_. cleanShadowPodAndConfigMap k opts)) u = (Value (), t)"
      "view (World t) = cleanup_spec opts (Store m) (view (World m))"
      using u(1,2) by (metis acts_okE)
    have "run_state (CleanupWorkspace k opts pid local_steps) m = (Value (), t)"
      unfolding u(3) using none(1) u(1) t(1) by (simp add: recoverExchangedTarget_def del: run_go_try) simp
    then show ?thesis using t(2) none(2,3) untouched_restored keep cleanup_spec_gone by metis
  qed
qed

section \<open>The property\<close>


text \<open>The user's process in the example, and the cluster with one service.\<close>

definition mem_env :: process_env where
  "mem_env = \<lparr> SudoUser = [], SudoUid = [], SudoGid = [], Uid = 501, CurrentUser = Some ''dev'', ProcessPid = 42 \<rparr>"


end
