(* ===== verification/MeshSession.thy ===== *)
theory MeshSession
  imports SessionProps
begin

text \<open>
  A whole session of an auto mesh whose user is the first and the last of the service: the command, in
  whatever way it ends, and then the cleanup.  Beside the service and the store, the proof carries a
  predicate of the router pod through the commands.
\<close>

section \<open>One pod of the cluster\<close>

definition pod_at :: "('w \<Rightarrow> cluster_objects) \<Rightarrow> string \<Rightarrow> string \<Rightarrow> (pod option \<Rightarrow> bool) \<Rightarrow> 'w \<Rightarrow> bool" where
  "pod_at view ns x Q w \<longleftrightarrow> (\<exists>q. rel_option same_but_status q (find_obj (ClPods (view w)) ns x) \<and> Q q)"

text \<open>The status of the pod does not count, since it changes while the program waits.\<close>

lemma same_but_status_trans: "same_but_status p q \<Longrightarrow> same_but_status q r \<Longrightarrow> same_but_status p r"
  by (simp add: same_but_status_def)

lemma same_but_status_refl [simp]: "rel_option same_but_status q q"
  by (cases q) (simp_all add: same_but_status_def)

lemma pod_at_runs:
  assumes "cluster_runs (view w) (view w')" and "pod_at view ns x Q w"
  shows "pod_at view ns x Q w'"
proof -
  from assms(2) obtain q where q: "rel_option same_but_status q (find_obj (ClPods (view w)) ns x)" "Q q" by (auto simp: pod_at_def)
  have "rel_option same_but_status q (find_obj (ClPods (view w')) ns x)"
    using q(1) runs_pod [OF assms(1), of ns x] by (auto elim!: option.rel_cases intro: same_but_status_trans)
  with q(2) show ?thesis by (auto simp: pod_at_def)
qed

lemma pod_at_None [simp]: "pod_at view ns x (\<lambda>q. q = None) w \<longleftrightarrow> find_obj (ClPods (view w)) ns x = None"
  by (auto simp: pod_at_def)

lemma pod_at_pods: "ClPods (view w') = ClPods (view w) \<Longrightarrow> pod_at view ns x Q w' = pod_at view ns x Q w"
  by (simp add: pod_at_def)

lemma pod_at_same: "view w' = view w \<Longrightarrow> pod_at view ns x Q w \<Longrightarrow> pod_at view ns x Q w'"
  by (simp add: pod_at_def)

lemma keeps_pods:
  assumes "crud_ok c view sel upd" and "\<And>y v. ClPods (upd y v) = ClPods v"
  shows "ClPods (view (snd (run_state (api_create c ms ob) w))) = ClPods (view w)"
    and "ClPods (view (snd (run_state (api_update c ms ob) w))) = ClPods (view w)"
  using assms(2) crud_create [OF assms(1)] crud_update [OF assms(1)] by (metis prod.collapse)+

lemma pod_reads [stays_intros]:
  assumes a: "api_server k view"
  shows "stays (pod_at view ns x Q) (GetPod k y ms)" "stays (pod_at view ns x Q) (GetPodsByLabel k l ms)"
    "stays (pod_at view ns x Q) (GetDeployment k y ms)" "stays (pod_at view ns x Q) (GetDeploymentsByLabel k l ms)"
    "stays (pod_at view ns x Q) (GetAllDeploymentInNamespace k ms)"
    "stays (pod_at view ns x Q) (GetService k y ms)" "stays (pod_at view ns x Q) (GetConfigMap k y ms)"
  unfolding api_call_defs
  by (simp_all add: stays_def crud_get [OF api_pods [OF a]] crud_list [OF api_pods [OF a]]
      crud_get [OF api_deployments [OF a]] crud_list [OF api_deployments [OF a]]
      crud_get [OF api_services [OF a]] crud_get [OF api_config_maps [OF a]])

lemma pod_clock [stays_intros]:
  assumes a: "api_server k view"
  shows "stays (pod_at view ns x Q) (now k)" "stays (pod_at view ns x Q) (sleep k t)"
    "stays (pod_at view ns x Q) (ExecInPod k c p ms cmd)"
proof -
  show "stays (pod_at view ns x Q) (now k)" by (simp add: now_def stays_def split_def api_time [OF a])
  show "stays (pod_at view ns x Q) (sleep k t)"
    unfolding sleep_def by (intro stays_lift pod_at_runs [where view = view, OF api_sleep [where view = view, OF a]])
  have "stays (pod_at view ns x Q) (lift_io (ExecApi k c p ms cmd))"
    by (intro stays_lift pod_at_same [where view = view, OF api_exec [OF a]])
  then show "stays (pod_at view ns x Q) (ExecInPod k c p ms cmd)"
    unfolding ExecInPod_def Let_def by (intro stays_intros)
qed

lemma pod_writes [stays_intros]:
  assumes a: "api_server k view"
  shows "stays (pod_at view ns x Q) (lift_io (api_create (DeploymentsApi k) ms d))" "stays (pod_at view ns x Q) (UpdateDeployment k d)"
    "stays (pod_at view ns x Q) (lift_io (api_create (ConfigMapsApi k) ms cm))"
    "stays (pod_at view ns x Q) (lift_io (api_create (ServicesApi k) ms svc))" "stays (pod_at view ns x Q) (UpdateService k svc)"
  unfolding api_call_defs
  using keeps_pods [OF api_services [OF a]] keeps_pods [OF api_deployments [OF a]] keeps_pods [OF api_config_maps [OF a]]
  by (auto intro!: stays_lift simp: set_kinds pod_at_def)

lemma pod_side_calls [stays_intros]:
  assumes c: "side_calls_ok k view forward"
  shows "stays (pod_at view ns x Q) (lift_io (GenerateKey k p))" "stays (pod_at view ns x Q) (lift_io (WritePrivateKey k p y))"
    "stays (pod_at view ns x Q) (lift_io (forward e p y))"
  using c by (auto simp: side_calls_ok_def pod_at_def intro!: stays_lift)

text \<open>Writes of other pods.\<close>

lemma pod_create [stays_intros]:
  assumes a: "api_server k view" and "Name p \<noteq> x"
  shows "stays (pod_at view ns x Q) (lift_io (api_create (PodsApi k) ms p))"
proof (rule stays_lift)
  fix w assume "pod_at view ns x Q w"
  then show "pod_at view ns x Q (snd (run_state (api_create (PodsApi k) ms p) w))"
    using assms(2) crud_create [OF api_pods [OF a], of ms p w]
    by (cases "run_state (api_create (PodsApi k) ms p) w")
       (auto simp: pod_at_def create_spec_def set_pods_def find_obj_append is_obj_def split: option.splits)
qed

lemma pod_update [stays_intros]:
  assumes a: "api_server k view" and "Name p \<noteq> x"
  shows "stays (pod_at view ns x Q) (UpdatePod k p)"
  unfolding UpdatePod_def
proof (rule stays_lift)
  fix w assume "pod_at view ns x Q w"
  then show "pod_at view ns x Q (snd (run_state (api_update (PodsApi k) (Namespace p) p) w))"
    using assms(2) crud_update [OF api_pods [OF a], of "Namespace p" p w]
    by (cases "run_state (api_update (PodsApi k) (Namespace p) p) w")
       (auto simp: pod_at_def update_spec_def set_pods_def find_put_obj is_obj_def split: option.splits if_splits)
qed

text \<open>A continuation that is only asked about the values it is given.\<close>

lemma stays_try_value:
  assumes "stays (P :: 'w \<Rightarrow> bool) m" and "\<And>y s t. run_state m s = (Value y, t) \<Longrightarrow> stays P (f y)"
  shows "stays P (go_try m f)"
  unfolding stays_def
proof (intro allI impI)
  fix s :: "'w prog" assume p: "P (World s)"
  obtain r t where m: "run_state m s = (r, t)" by fastforce
  with assms(1) p have "P (World t)" by (metis staysD)
  with assms(2) m show "P (World (snd (run_state (go_try m f) s)))"
    by (cases r) (auto simp: stays_def)
qed

lemma GetPod_name: "api_server k view \<Longrightarrow> run_state (GetPod k y ms) s = (Value p, t) \<Longrightarrow> Name p = y"
  by (auto simp: GetPod_def crud_get [OF api_pods] get_spec_def dest: find_obj_Some split: option.splits)

lemma pod_refs [stays_intros]:
  assumes a: "api_server k view" and n: "y \<noteq> x"
  shows "stays (pod_at view ns x Q) (IncreasePodRef k y ms)"
proof -
  have "stays (pod_at view ns x Q) (case atoi_err (mget (Annotations p) KtRefCount) of
        Fail e \<Rightarrow> State_Monad.return (Fail e) | Panic \<Rightarrow> State_Monad.return Panic
      | Value count \<Rightarrow> (case mset_entry (Annotations p) KtRefCount (itoa (count + 1)) of
             Value an \<Rightarrow> go_try (UpdatePod k (p\<lparr>Annotations := an\<rparr>)) (\<lambda>_. State_Monad.return (Value ()))
           | Fail e \<Rightarrow> State_Monad.return (Fail e) | Panic \<Rightarrow> State_Monad.return Panic))" if "Name p = y" for p
    using that n by (intro stays_intros pod_update [OF a]) simp
  from stays_try_value [OF pod_reads(1) [OF a] this [OF GetPod_name [OF a]]] show ?thesis
    unfolding IncreasePodRef_def .
qed

section \<open>The operations, seen from a pod they do not name\<close>

lemma pod_waits [stays_intros]:
  assumes a: "api_server k view"
  shows "stays (pod_at view ns x Q) (waitPodReady k y ms t tries)"
    and "stays (pod_at view ns x Q) (waitPodsReady k l ms t tries)"
    and "stays (pod_at view ns x Q) (waitPodTerminate k y ms tries)"
  by (rule stays_waiting; rule pod_reads [OF a] pod_clock [OF a])+

lemma pod_cluster_ops [stays_intros]:
  assumes a: "api_server k view"
  shows "stays (pod_at view ns x Q) (IncreaseDeploymentRef k y ms)" "stays (pod_at view ns x Q) (CreateService k m)"
    "stays (pod_at view ns x Q) (createConfigMapWithSshKey k l cm ms g)" "stays (pod_at view ns x Q) (UpdateServiceSelector k y ms sel)"
  unfolding IncreaseDeploymentRef_def CreateService_def createConfigMapWithSshKey_def UpdateServiceSelector_def Let_def
  by (intro stays_intros a)+

lemma createPod_name:
  "createPod q opts time m = Value (p, m') \<Longrightarrow> Name p = MetaName (PodMeta m)"
  by (auto simp: createPod_def Let_def addImagePullSecret_def split: if_splits)

text \<open>The labels that \<open>labels[key] = val\<close> and the user add do not rename the pod.\<close>

lemma pod_create_shadow:
  assumes a: "api_server k view" and c: "side_calls_ok k view forward" and n: "MetaName (PodMeta m) \<noteq> x"
  shows "stays (pod_at view ns x Q) (createShadow k opts m ssh)"
proof -
  have "stays (pod_at view ns x Q) (createShadowPod k opts m cm)" for cm
    unfolding createShadowPod_def using n by (intro stays_intros a) (auto dest!: createPod_name)
  moreover have "stays (pod_at view ns x Q) (createShadowDeployment k opts m cm)" for cm
    unfolding createShadowDeployment_def by (intro stays_intros a)
  ultimately have "stays (pod_at view ns x Q) (createAndGetPod k opts m cm)" for cm
    unfolding createAndGetPod_def by (intro stays_intros a)
  then show ?thesis unfolding createShadow_def by (intro stays_intros a pod_side_calls [OF c])
qed

lemma pod_existing_shadows:
  assumes a: "api_server k view" and c: "side_calls_ok k view forward" and n: "MetaName r \<noteq> x"
  shows "stays (pod_at view ns x Q) (tryGetExistingShadows k opts r ssh)"
  unfolding tryGetExistingShadows_def existing_shadow_pod_def shadow_without_configmap_def Let_def
  by (intro stays_intros a n pod_side_calls [OF c])

lemma pod_shadow_and_inbound:
  assumes a: "api_server k view" and c: "side_calls_ok k view forward" and n: "y \<noteq> x"
  shows "stays (pod_at view ns x Q) (CreateShadowAndInbound k opts forward y e l an d)"
proof -
  have "stays (pod_at view ns x Q) (GetOrCreateShadow k opts y l an envs e d)" for envs
    unfolding GetOrCreateShadow_def Let_def using n
    by (intro stays_intros a pod_existing_shadows [OF a c] pod_create_shadow [OF a c])
       (simp_all add: enableExplicitLaneShadowTemplate_def)
  then show ?thesis
    unfolding CreateShadowAndInbound_def by (intro stays_intros pod_side_calls [OF c])
qed

lemma pod_reading_ops [stays_intros]:
  assumes a: "api_server k view"
  shows "stays (pod_at view ns x Q) (GetTargetPorts k opts svc)" "stays (pod_at view ns x Q) (isNameUsable k opts y v tries)"
    "stays (pod_at view ns x Q) (GetOccupiedUser k opts l)"
proof -
  have "stays (pod_at view ns x Q) (target_ports_loop k opts svc ps po m)" for ps po m
    by (induction ps arbitrary: po m) (auto intro!: stays_intros a split: int_or_string.split)
  then show "stays (pod_at view ns x Q) (GetTargetPorts k opts svc)" by (simp add: GetTargetPorts_def)
  show "stays (pod_at view ns x Q) (isNameUsable k opts y v tries)"
    using a by (induction k opts y v tries rule: isNameUsable.induct, subst isNameUsable.simps) (auto intro!: stays_intros)
  show "stays (pod_at view ns x Q) (GetOccupiedUser k opts l)"
    unfolding GetOccupiedUser_def by (intro stays_intros a)
qed

text \<open>A patch of a service leaves the pods alone.\<close>

definition patches_ok :: "'w kube \<Rightarrow> ('w \<Rightarrow> cluster_objects) \<Rightarrow> bool" where
  "patches_ok k view \<longleftrightarrow>
     (\<forall>w ns n body. ClPods (view (snd (run_state (api_patch (ServicesApi k) ns n body) w))) = ClPods (view w))"

lemma pod_stuntman:
  assumes a: "api_server k view" and b: "patches_ok k view"
  shows "stays (pod_at view ns x Q) (createStuntmanService k opts svc ports)"
proof -
  have S: "stays (pod_at view ns x Q) (lift_io (api_patch (ServicesApi k) ms y body))" for ms y body
    using b by (auto simp: patches_ok_def pod_at_def intro!: stays_lift)
  have "stays (pod_at view ns x Q) (UpdateServiceHeartBeat k y ms)" for y ms
    unfolding UpdateServiceHeartBeat_def update_heart_beat_def
    by (intro stays_bind stays_intros a S) (auto simp: stays_def Let_def split: outcome.split prod.split)
  then show ?thesis unfolding createStuntmanService_def Let_def by (intro stays_intros a)
qed

section \<open>What the commands keep in the store\<close>

lemma store_more [store_intros]:
  "keeps_store Q (ExecInPod k c p ms cmd)" "keeps_store Q (CreateService k m)" "keeps_store Q (UpdateServiceHeartBeat k y ms)"
  "keeps_store Q (UpdatePodHeartBeat k y ms)" "keeps_store Q (CreateRouterPod k opts y l an ports)"
proof -
  have "keeps_store Q (update_heart_beat k kind patch y ms)" for kind patch y ms
    unfolding update_heart_beat_def by (intro store_bind store_intros) (auto simp: keeps_store_def Let_def split: outcome.split prod.split)
  then show "keeps_store Q (UpdateServiceHeartBeat k y ms)" "keeps_store Q (UpdatePodHeartBeat k y ms)"
    by (simp_all add: UpdateServiceHeartBeat_def UpdatePodHeartBeat_def)
qed (unfold ExecInPod_def CreateService_def CreateRouterPod_def Let_def, (intro store_intros)+)

lemma store_mesh_ops [store_intros]:
  "keeps_store Q (isNameUsable k opts y v tries)" "keeps_store Q (createStuntmanService k opts svc ports)"
  "keeps_store Q (router_command k opts y cmd)" "keeps_store Q (current_router k opts y)"
proof -
  show "keeps_store Q (isNameUsable k opts y v tries)"
    by (induction k opts y v tries rule: isNameUsable.induct, subst isNameUsable.simps) (auto intro!: store_intros)
qed (unfold createStuntmanService_def router_command_def current_router_def Let_def, (intro store_intros)+)

section \<open>The mesh\<close>

text \<open>What the store says in a mesh session, apart from the router; a router pod with a number of users.\<close>

definition in_mesh :: "string \<Rightarrow> runtime_store \<Rightarrow> bool" where
  "in_mesh n st \<longleftrightarrow> Store_Component st = ''mesh'' \<and> Store_Lane st = [] \<and> Store_Service st \<noteq> n"

definition router_of :: "int \<Rightarrow> string \<Rightarrow> pod option \<Rightarrow> bool" where
  "router_of h cfg q \<longleftrightarrow> (\<exists>p. q = Some p \<and> DeletionTimestamp p = None \<and> mget (Annotations p) KtRefCount = itoa h \<and>
     mget (Annotations p) KtConfig = cfg)"

lemma pod_at_router [simp]: "pod_at view ns x (router_of h cfg) w \<longleftrightarrow> router_of h cfg (find_obj (ClPods (view w)) ns x)"
proof
  assume "pod_at view ns x (router_of h cfg) w"
  then obtain q where "rel_option same_but_status q (find_obj (ClPods (view w)) ns x)" "router_of h cfg q" by (auto simp: pod_at_def)
  then show "router_of h cfg (find_obj (ClPods (view w)) ns x)"
    by (auto simp: router_of_def same_but_status_simps elim!: option.rel_cases)
next
  assume "router_of h cfg (find_obj (ClPods (view w)) ns x)"
  then show "pod_at view ns x (router_of h cfg) w" unfolding pod_at_def using same_but_status_refl by blast
qed

lemma closed_mesh: "shadow_closed (\<lambda>st. in_mesh n st \<and> Store_Router st = x)"
  by (simp add: shadow_closed_def in_mesh_def)

text \<open>A step that keeps a condition on store and world, and ends as it should if it fails.\<close>

definition ends :: "('w prog \<Rightarrow> bool) \<Rightarrow> ('w prog, 'a outcome) state \<Rightarrow> ('a outcome \<Rightarrow> 'w prog \<Rightarrow> bool) \<Rightarrow> bool" where
  "ends A m C \<longleftrightarrow> (\<forall>s r t. A s \<longrightarrow> run_state m s = (r, t) \<longrightarrow> C r t)"

lemma mesh_ends_try:
  assumes "keeps_store Q m" and "stays P m" and "\<And>s e. Q (Store s) \<Longrightarrow> P (World s) \<Longrightarrow> C (Fail e) s \<and> C Panic s"
    and "\<And>x. ends (\<lambda>s. Q (Store s) \<and> P (World s)) (f x) C"
  shows "ends (\<lambda>s. Q (Store s) \<and> P (World s)) (go_try m f) C"
  unfolding ends_def
proof (intro allI impI)
  fix s r t assume s: "Q (Store s) \<and> P (World s)" and run: "run_state (go_try m f) s = (r, t)"
  obtain x u where m: "run_state m s = (x, u)" by fastforce
  then have u: "Q (Store u)" "P (World u)" using keeps_storeD [OF assms(1) m] staysD [OF assms(2) m] s by blast+
  show "C r t" using run m u assms(3) [OF u] assms(4) by (cases x) (auto simp: ends_def)
qed

lemma ends_set_store:
  assumes "\<And>st. Q st \<Longrightarrow> Q (g st)" and "ends (\<lambda>s. Q (Store s) \<and> P (World s)) m C"
  shows "ends (\<lambda>s. Q (Store s) \<and> P (World s)) (State_Monad.bind (set_store g) (\<lambda>_. m)) C"
  unfolding ends_def
proof (intro allI impI)
  fix s r t assume s: "Q (Store s) \<and> P (World s)" and run: "run_state (State_Monad.bind (set_store g) (\<lambda>_. m)) s = (r, t)"
  then have "Q (Store (s\<lparr>Store := g (Store s)\<rparr>)) \<and> P (World (s\<lparr>Store := g (Store s)\<rparr>))" using assms(1) by simp
  moreover have "run_state m (s\<lparr>Store := g (Store s)\<rparr>) = (r, t)" using run by simp
  ultimately show "C r t" using assms(2) unfolding ends_def by blast
qed

lemma ends_keeps:
  assumes "keeps_store Q m" and "stays P m" and "\<And>s r. Q (Store s) \<Longrightarrow> P (World s) \<Longrightarrow> C r s"
  shows "ends (\<lambda>s. Q (Store s) \<and> P (World s)) m C"
  using assms by (auto simp: ends_def dest: keeps_storeD staysD)

lemma ends_bind:
  assumes "keeps_store Q m" and "stays P m" and "\<And>x. ends (\<lambda>s. Q (Store s) \<and> P (World s)) (f x) C"
  shows "ends (\<lambda>s. Q (Store s) \<and> P (World s)) (State_Monad.bind m f) C"
  unfolding ends_def
proof (intro allI impI)
  fix s r t assume s: "Q (Store s) \<and> P (World s)" and run: "run_state (State_Monad.bind m f) s = (r, t)"
  obtain x u where m: "run_state m s = (x, u)" by fastforce
  then have "Q (Store u) \<and> P (World u)" using keeps_storeD [OF assms(1) m] staysD [OF assms(2) m] s by blast
  then show "C r t" using run m assms(3) [of x] unfolding ends_def by auto
qed

lemma ends_if: "ends A m C \<Longrightarrow> ends A n C \<Longrightarrow> ends A (if b then m else n) C"
  by simp

lemma stays_both: "stays P m \<Longrightarrow> stays P' m \<Longrightarrow> stays (\<lambda>w. P w \<and> P' w) m"
  by (simp add: stays_def)

text \<open>The router of the first user.\<close>

lemma router_annotations:
  assumes "createPod q opts time (plain_pod_meta x ns l (GoMap [(KtRefCount, ''1''), (KtConfig, cfg)]) img ports) = Value (p, m')"
  shows "mget (Annotations p) KtRefCount = ''1''" "mget (Annotations p) KtConfig = cfg" "DeletionTimestamp p = None"
proof -
  let ?an = "GoMap [(KtRefCount, ''1''), (KtConfig, cfg)]"
  have w: "mwf ?an" "mwf (NilMap :: smap)" by (simp_all add: mwf_def)
  have an: "Annotations p = MergeMap (ref_annotations time ?an) NilMap" and "DeletionTimestamp p = None"
    using assms by (auto simp: createPod_def Let_def addImagePullSecret_def plain_pod_meta_def meta_with_kt_def split: if_splits)
  show "DeletionTimestamp p = None" by fact
  have "mlookup ?an KtConfig = Some cfg" by (simp add: mlookup_def)
  with w show "mget (Annotations p) KtRefCount = ''1''" "mget (Annotations p) KtConfig = cfg"
    unfolding an by (simp_all add: mget_def mlookup_MergeMap ref_annotations_def)
qed

lemma CreateRouterPod_first:
  assumes a: "api_server k view"
    and run: "run_state (CreateRouterPod k opts x l (GoMap [(KtRefCount, ''1''), (KtConfig, cfg)]) ports) s = (Value p, t)"
  shows "pod_at view (Global_Namespace opts) x (router_of 1 cfg) (World t)"
proof -
  let ?ns = "Global_Namespace opts"
  let ?m = "plain_pod_meta x ?ns l (GoMap [(KtRefCount, ''1''), (KtConfig, cfg)]) (Mesh_RouterImage opts)
    (put_all (GoMap []) (map (\<lambda>(_, remotePort). (''router-'' @ itoa remotePort, remotePort)) ports))"
  obtain q m' where q: "createPod (QuantityOk k) opts (time_of k s) ?m = Value (q, m')"
    using run by (auto simp: CreateRouterPod_def Let_def run_now [OF a] split: outcome.splits)
  have an: "mget (Annotations q) KtRefCount = ''1''" "mget (Annotations q) KtConfig = cfg" "Name q = x" "DeletionTimestamp q = None"
    using router_annotations [OF q] createPod_name [OF q] by (simp_all add: plain_pod_meta_def)
  have eq: "run_state (CreateRouterPod k opts x l (GoMap [(KtRefCount, ''1''), (KtConfig, cfg)]) ports) s =
    run_state (go_try (lift_io (api_create (PodsApi k) ?ns q)) (\<lambda>_. do {
      SetupHeartBeat ''pod'' x ?ns; waitPodReady k x ?ns (Global_PodCreationTimeout opts) 0 })) s"
    unfolding CreateRouterPod_def Let_def run_bind run_now [OF a] prod.case q outcome.case ..
  obtain r w where w: "run_state (api_create (PodsApi k) ?ns q) (World s) = (r, w)" by fastforce
  let ?s = "s\<lparr>World := w, Heartbeats := Heartbeats s @ [(''pod'', x, ?ns)]\<rparr>"
  obtain v where r: "r = Value v" and wait: "run_state (waitPodReady k x ?ns (Global_PodCreationTimeout opts) 0) ?s = (Value p, t)"
    using run w unfolding eq by (cases r) auto
  have "find_obj (ClPods (view w)) ?ns x = Some (q\<lparr>Namespace := ?ns, ResourceVersion := 1\<rparr>)"
    using crud_create [OF api_pods [OF a] w] r an(3)
    by (auto simp: create_spec_def set_pods_def find_obj_append is_obj_def split: option.splits)
  with an have "pod_at view ?ns x (router_of 1 cfg) (World ?s)" by (simp add: router_of_def itoa_one)
  from staysD [OF pod_waits(1) [OF a] wait this] show ?thesis .
qed

lemma createRouter_first:
  assumes a: "api_server k view" and none: "pod_at view (Global_Namespace opts) x (\<lambda>q. q = None) (World s)"
    and run: "run_state (createRouter k opts random x n ports l v) s = (r, t)"
  shows "Store t = Store s \<and> \<not> is_value r \<or>
    Store t = (Store s)\<lparr>Store_Router := x\<rparr> \<and> pod_at view (Global_Namespace opts) x (router_of 1 (''service='' @ n)) (World t)"
proof -
  let ?ns = "Global_Namespace opts"
  let ?create = "CreateRouterPod k opts x (mput l KtTarget random) (GoMap [(KtRefCount, ''1''), (KtConfig, ''service='' @ n)]) ports"
  have "run_state (current_router k opts x) s = (Fail NotFound, s)"
    using none by (simp add: current_router_def GetPod_def crud_get [OF api_pods [OF a]] get_spec_def)
  then have eq: "run_state (createRouter k opts random x n ports l v) s = run_state (go_try ?create (\<lambda>_.
      go_try (router_command k opts x [''setup'', n, toPortMapParameter ports, v]) (\<lambda>_. do {
        set_store (\<lambda>s. s\<lparr>Store_Router := x\<rparr>);
        State_Monad.return (Value (mput l KtTarget random)) }))) s"
    by (simp add: createRouter_def Let_def)
  obtain r1 s1 where s1: "run_state ?create s = (r1, s1)" by fastforce
  have st1: "Store s1 = Store s" using keeps_storeD [OF store_more(5) s1, of "\<lambda>st. st = Store s"] by simp
  show ?thesis
  proof (cases r1)
    case (Value p)
    then have p: "pod_at view ?ns x (router_of 1 (''service='' @ n)) (World s1)" using CreateRouterPod_first [OF a] s1 by blast
    obtain r2 s2 where s2: "run_state (router_command k opts x [''setup'', n, toPortMapParameter ports, v]) s1 = (r2, s2)" by fastforce
    have st2: "Store s2 = Store s" using keeps_storeD [OF store_mesh_ops(3) s2, of "\<lambda>st. st = Store s"] st1 by simp
    have "stays (pod_at view ?ns x (router_of 1 (''service='' @ n))) (router_command k opts x cmd)" for cmd
      unfolding router_command_def by (intro stays_intros a)
    from staysD [OF this s2 p] show ?thesis
      using run s1 Value s2 st2 unfolding eq by (cases r2) (auto simp: is_value_def)
  next
    case (Fail e)
    then show ?thesis using run s1 st1 unfolding eq by (auto simp: is_value_def)
  next
    case Panic
    then show ?thesis using run s1 st1 unfolding eq by (auto simp: is_value_def)
  qed
qed

text \<open>How the command leaves the store and the world, seen under the lock.\<close>

definition mesh_body_left ::
  "('w \<Rightarrow> cluster_objects) \<Rightarrow> string \<Rightarrow> string \<Rightarrow> service \<Rightarrow> unit outcome \<Rightarrow> 'w prog \<Rightarrow> bool" where
  "mesh_body_left view ns n svc r t \<longleftrightarrow> in_mesh n (Store t) \<and>
     (Store_Router (Store t) = [] \<and> r \<noteq> Value () \<and> svc_at view ns n (\<lambda>x. x = svc) (World t) \<or>
      Store_Router (Store t) = n @ RouterPodSuffix \<and>
      pod_at view ns (n @ RouterPodSuffix) (router_of 1 (''service='' @ n)) (World t))"

abbreviation no_router :: "string \<Rightarrow> runtime_store \<Rightarrow> bool" where
  "no_router n st \<equiv> in_mesh n st \<and> Store_Router st = []"

abbreviation has_router :: "string \<Rightarrow> runtime_store \<Rightarrow> bool" where
  "has_router n st \<equiv> in_mesh n st \<and> Store_Router st = n @ RouterPodSuffix"

abbreviation fresh :: "('w \<Rightarrow> cluster_objects) \<Rightarrow> string \<Rightarrow> string \<Rightarrow> service \<Rightarrow> 'w \<Rightarrow> bool" where
  "fresh view ns n svc w \<equiv> svc_at view ns n (\<lambda>x. x = svc) w \<and> pod_at view ns (n @ RouterPodSuffix) (\<lambda>q. q = None) w"

abbreviation routed :: "('w \<Rightarrow> cluster_objects) \<Rightarrow> string \<Rightarrow> string \<Rightarrow> 'w \<Rightarrow> bool" where
  "routed view ns n \<equiv> pod_at view ns (n @ RouterPodSuffix) (router_of 1 (''service='' @ n))"

text \<open>What follows the creation of the router, and its creation.\<close>

lemma mesh_after_router:
  assumes a: "api_server k view" and c: "side_calls_ok k view forward"
    and l: "mlookup (labels_after opts labels) KtLane = None"
    and C: "\<And>r s. has_router n (Store s) \<Longrightarrow> pod_at view ns (n @ RouterPodSuffix) R (World s) \<Longrightarrow> C r s"
  shows "ends (\<lambda>s. has_router n (Store s) \<and> pod_at view ns (n @ RouterPodSuffix) R (World s))
    (go_try (UpdateServiceSelector k n ns sel) (\<lambda>_. do {
       set_store (\<lambda>s. s\<lparr>Store_Origin := n\<rparr>);
       CreateShadowAndInbound k opts forward (n @ MeshPodInfix @ v) expose labels an d
     })) C"
  by (intro ends_keeps store_intros store_set stays_intros a store_shadow_and_inbound [OF closed_mesh l]
      pod_shadow_and_inbound [OF a c] C) (simp_all add: in_mesh_def)

text \<open>What precedes it, for a condition on the world that every step keeps.\<close>

lemma mesh_before_router:
  assumes a: "api_server k view" and n: "Name svc = n"
    and fails: "\<And>s e. no_router n (Store s) \<Longrightarrow> P (World s) \<Longrightarrow> C (Fail e) s \<and> C Panic s"
    and P: "\<And>l. stays P (GetOccupiedUser k opts l)" "stays P (GetTargetPorts k opts svc)" "\<And>v. stays P (isNameUsable k opts n v 0)"
      "\<And>ports. stays P (createStuntmanService k opts svc ports)" "\<And>m. stays P (CreateService k m)"
    and router: "\<And>ports d v. ends (\<lambda>s. no_router n (Store s) \<and> P (World s))
       (go_try (createRouter k opts (rnd 2) (n @ RouterPodSuffix) n ports (GoMap [(KtRole, ''router'')]) (fst v @ '':'' @ snd v)) (\<lambda>sel.
        go_try (UpdateServiceSelector k n (Global_Namespace opts) sel) (\<lambda>_. do {
          set_store (\<lambda>s. s\<lparr>Store_Origin := n\<rparr>);
          CreateShadowAndInbound k opts forward (n @ MeshPodInfix @ snd v) expose (GoMap [(KtRole, ''shadow-mesh''), (KtTarget, rnd 1)])
            (GoMap [(KtConfig, ''service='' @ n @ MeshPodInfix @ snd v)]) d }))) C"
  shows "ends (\<lambda>s. no_router n (Store s) \<and> P (World s)) (auto_mesh_locked k opts forward expose rnd svc) C"
proof -
  let ?A = "\<lambda>s. no_router n (Store s) \<and> P (World s)"
  have step: "ends ?A (go_try m f) C" if "keeps_store (no_router n) m" "stays P m" "\<And>x. ends ?A (f x) C" for m f
    by (rule mesh_ends_try [OF that(1,2) _ that(3)]) (rule fails)
  have shadow_service: "keeps_store (no_router n) (createShadowService k opts (n @ MeshPodInfix @ v) ports sel)"
    "stays P (createShadowService k opts (n @ MeshPodInfix @ v) ports sel)" for v ports sel
    unfolding createShadowService_def by (intro store_intros store_set stays_intros P; simp add: in_mesh_def)+
  have refuse: "ends ?A (State_Monad.bind (GetOccupiedUser k opts (Selector svc))
      (\<lambda>user. State_Monad.return (Fail (err user)))) C" for err
    by (intro ends_bind store_intros P) (auto simp: ends_def fails)
  show ?thesis
    unfolding auto_mesh_locked_def Let_def n split_def
    apply (rule ends_if [OF refuse])
    apply (rule ends_set_store, simp add: in_mesh_def)
    apply (rule step [OF store_target_ports P(2)])
    apply (rule step [OF store_basic(1) stays_return])
    apply (rule step [OF store_mesh_ops(1) P(3)])
    apply (rule step [OF store_mesh_ops(2) P(4)])
    apply (rule step [OF shadow_service])
    apply (rule router)
    done
qed

lemma mesh_router:
  assumes a: "api_server k view" and c: "side_calls_ok k view forward" and ns: "Global_Namespace opts = ns"
    and f: "\<And>y. ends (\<lambda>s. has_router n (Store s) \<and> routed view ns n (World s)) (f y) (mesh_body_left view ns n svc)"
  shows "ends (\<lambda>s. no_router n (Store s) \<and> fresh view ns n svc (World s))
    (go_try (createRouter k opts random (n @ RouterPodSuffix) n ports labels mark) f) (mesh_body_left view ns n svc)"
  unfolding ends_def
proof (intro allI impI)
  let ?router = "createRouter k opts random (n @ RouterPodSuffix) n ports labels mark"
  fix s r t assume s: "no_router n (Store s) \<and> fresh view ns n svc (World s)" and run: "run_state (go_try ?router f) s = (r, t)"
  obtain y u where u: "run_state ?router s = (y, u)" by fastforce
  have sv: "svc_at view ns n (\<lambda>x. x = svc) (World u)" using staysD [OF stays_router [OF a c] u] s by blast
  from createRouter_first [OF a _ u] s
  consider "Store u = Store s" "\<not> is_value y"
    | "Store u = (Store s)\<lparr>Store_Router := n @ RouterPodSuffix\<rparr>" "routed view ns n (World u)" unfolding ns by blast
  then show "mesh_body_left view ns n svc r t"
  proof cases
    case 1
    then show ?thesis using run u s sv by (cases y) (auto simp: mesh_body_left_def is_value_def)
  next
    case 2
    then have "has_router n (Store u)" "routed view ns n (World u)" "mesh_body_left view ns n svc r' u" for r'
      using s by (simp_all add: in_mesh_def mesh_body_left_def)
    then show ?thesis using run u f by (cases y) (auto simp: ends_def)
  qed
qed

lemma mesh_body:
  assumes a: "api_server k view" and c: "side_calls_ok k view forward" and b: "patches_ok k view"
    and l: "mlookup (labels_after opts (GoMap [(KtRole, ''shadow-mesh''), (KtTarget, rnd 1)])) KtLane = None"
    and n: "Name svc = n" and ns: "Global_Namespace opts = ns"
  shows "ends (\<lambda>s. no_router n (Store s) \<and> fresh view ns n svc (World s)) (auto_mesh_locked k opts forward expose rnd svc)
    (mesh_body_left view ns n svc)"
proof (rule mesh_before_router [OF a n])
  show "mesh_body_left view ns n svc (Fail e) s \<and> mesh_body_left view ns n svc Panic s"
    if "no_router n (Store s)" "fresh view ns n svc (World s)" for s e
    using that by (simp add: mesh_body_left_def)
  show "stays (fresh view ns n svc) (createStuntmanService k opts svc ports)" for ports
    by (intro stays_both pod_stuntman [OF a b] stays_stuntman [OF a c]) (simp add: n ns)
  have after: "ends (\<lambda>s. has_router n (Store s) \<and> routed view ns n (World s))
     (go_try (UpdateServiceSelector k n (Global_Namespace opts) sel) (\<lambda>_. do {
        set_store (\<lambda>s. s\<lparr>Store_Origin := n\<rparr>);
        CreateShadowAndInbound k opts forward (n @ MeshPodInfix @ v) expose (GoMap [(KtRole, ''shadow-mesh''), (KtTarget, rnd 1)]) an d
      })) (mesh_body_left view ns n svc)" for sel v an d
    unfolding ns by (rule mesh_after_router [OF a c l]) (simp add: mesh_body_left_def)
  show "ends (\<lambda>s. no_router n (Store s) \<and> fresh view ns n svc (World s))
       (go_try (createRouter k opts (rnd 2) (n @ RouterPodSuffix) n ports (GoMap [(KtRole, ''router'')]) (fst v @ '':'' @ snd v)) (\<lambda>sel.
        go_try (UpdateServiceSelector k n (Global_Namespace opts) sel) (\<lambda>_. do {
          set_store (\<lambda>s. s\<lparr>Store_Origin := n\<rparr>);
          CreateShadowAndInbound k opts forward (n @ MeshPodInfix @ snd v) expose (GoMap [(KtRole, ''shadow-mesh''), (KtTarget, rnd 1)])
            (GoMap [(KtConfig, ''service='' @ n @ MeshPodInfix @ snd v)]) d }))) (mesh_body_left view ns n svc)" for ports d v
    by (rule mesh_router [OF a c ns after])
qed (intro stays_both stays_intros a)+

section \<open>The command\<close>

definition mesh_left ::
  "('w \<Rightarrow> cluster_objects) \<Rightarrow> string \<Rightarrow> string \<Rightarrow> service \<Rightarrow> unit outcome \<Rightarrow> 'w prog \<Rightarrow> bool" where
  "mesh_left view ns n cur r t \<longleftrightarrow> in_mesh n (Store t) \<and>
     (Store_Router (Store t) = [] \<and> r \<noteq> Value () \<and> svc_at view ns n (untouched cur) (World t) \<or>
      Store_Router (Store t) = n @ RouterPodSuffix \<and> svc_at view ns n (restorable cur) (World t) \<and> routed view ns n (World t))"

lemma mesh_section:
  assumes a: "api_server k view" and c: "side_calls_ok k view forward" and b: "patches_ok k view"
    and l: "mlookup (labels_after opts (GoMap [(KtRole, ''shadow-mesh''), (KtTarget, rnd 1)])) KtLane = None"
    and ns: "Global_Namespace opts = ns" and st: "no_router n (Store s)"
    and f: "find_obj (ClServices (view (World s))) ns n = Some cur" and p: "plain_service cur" "mlookup (Annotations cur) KtLock = None"
    and none: "find_obj (ClPods (view (World s))) ns (n @ RouterPodSuffix) = None" and n: "Name given = n"
  shows "\<exists>r t. run_state (AutoMesh k opts forward expose rnd given) s = (r, t) \<and> mesh_left view ns n cur r t"
proof -
  obtain svc s1 r s2 t where run: "run_state (go_try (LockService k n ns 0)
      (\<lambda>svc. go_defer (auto_mesh_locked k opts forward expose rnd svc) (UnlockService k (Name svc) ns))) s = (r, t)"
    and svc: "Name svc = n" and s1: "Store s1 = Store s" "ClPods (view (World s1)) = ClPods (view (World s))"
      "svc_at view ns n (\<lambda>x. x = svc) (World s1)"
    and body: "run_state (auto_mesh_locked k opts forward expose rnd svc) s1 = (r, s2)"
    and t: "Store t = Store s2" "ClPods (view (World t)) = ClPods (view (World s2))"
      "svc_at view ns n (\<lambda>x. restorable cur x \<and> mlookup (Annotations x) KtLock = None) (World t)"
      "svc_at view ns n (\<lambda>x. x = svc) (World s2) \<longrightarrow> svc_at view ns n (untouched cur) (World t)"
    by (rule locked_run [OF a f p restorable_plain [OF p(1)] stays_auto_mesh [OF a c _ _ ns]]) (assumption | rule that)+
  have "fresh view ns n svc (World s1)" using s1 none by (simp)
  then have "mesh_body_left view ns n svc r s2"
    using mesh_body [where rnd = rnd, OF a c b l svc ns] body st s1(1) unfolding ends_def by metis
  with t have "mesh_left view ns n cur r t"
    by (auto simp: mesh_body_left_def mesh_left_def svc_at_def pod_at_pods [where view = view and w' = "World t" and w = "World s2", OF t(2)])
  with run show ?thesis by (auto simp: AutoMesh_def n ns)
qed

lemma mesh_request:
  assumes a: "api_server k view" and c: "side_calls_ok k view forward" and b: "patches_ok k view"
    and l: "mlookup (labels_after opts (GoMap [(KtRole, ''shadow-mesh''), (KtTarget, rnd 1)])) KtLane = None"
    and ns: "Global_Namespace opts = ns" and st: "no_router n (Store s)"
    and nm: "ParseResourceName resourceName = Value (kind, n)" "kind \<in> {''svc'', ''service''}"
    and f: "find_obj (ClServices (view (World s))) ns n = Some cur" and p: "plain_service cur" "mlookup (Annotations cur) KtLock = None"
    and none: "find_obj (ClPods (view (World s))) ns (n @ RouterPodSuffix) = None"
  shows "\<exists>r t. run_state (Mesh k opts forward dial skip ''auto'' expose rnd resourceName) s = (r, t) \<and> mesh_left view ns n cur r t"
proof -
  have n: "Name cur = n" using find_obj_Some [OF f] by simp
  have "untouched cur cur" by (simp add: untouched_def same_service_def)
  then have here: "mesh_left view ns n cur (Fail e) s \<and> mesh_left view ns n cur Panic s" for e
    using st f by (auto simp: mesh_left_def svc_at_def)
  obtain ports where ports: "run_state (GetTargetPorts k opts cur) s = (ports, s)"
    using target_ports_read [OF a] by (metis prod.collapse)
  have run: "run_state (Mesh k opts forward dial skip ''auto'' expose rnd resourceName) s =
     (if skip \<and> FindBrokenLocalPort dial expose \<noteq> []
      then (Fail (Errorf (''no application is running on port '' @ FindBrokenLocalPort dial expose)), s)
      else case ports of Value svcPorts \<Rightarrow>
        if FindInvalidRemotePort expose svcPorts \<noteq> []
        then (Fail (Errorf (''target port '' @ FindInvalidRemotePort expose svcPorts @ '' not exists in service '' @ n)), s)
        else run_state (AutoMesh k opts forward expose rnd cur) s
      | Fail e \<Rightarrow> (Fail e, s) | Panic \<Rightarrow> (Panic, s))"
    using ports nm n ns
    by (cases ports; cases "kind = ''svc''")
       (simp_all add: Mesh_def GetServiceByResourceName_def GetService_found [OF a f])
  show ?thesis
    unfolding run using here mesh_section [where rnd = rnd and expose = expose and given = cur, OF a c b l ns st f p none n]
    by (cases ports) simp_all
qed

lemma mesh_command_left:
  assumes a: "api_server k view" and c: "side_calls_ok k view forward" and b: "patches_ok k view"
    and w: "\<And>w f x. view (snd (run_state (write_file f x) w)) = view w"
    and l: "mlookup (labels_after opts (GoMap [(KtRole, ''shadow-mesh''), (KtTarget, rnd 1)])) KtLane = None"
    and ns: "Global_Namespace opts = ns"
    and st: "Store_Lane (Store s) = []" "Store_Service (Store s) = []" "Store_Router (Store s) = []"
    and nm: "ParseResourceName resourceName = Value (kind, n)" "kind \<in> {''svc'', ''service''}" "n \<noteq> []"
    and f: "find_obj (ClServices (view (World s))) ns n = Some cur" and p: "plain_service cur" "mlookup (Annotations cur) KtLock = None"
    and none: "find_obj (ClPods (view (World s))) ns (n @ RouterPodSuffix) = None"
  shows "\<exists>r t. run_state (mesh_command k opts forward dial e dir write_file skip ''auto'' expose rnd resourceName) s = (r, t) \<and>
    mesh_left view ns n cur r t"
proof -
  obtain r0 s0 where s0: "run_state (setup_process e dir write_file ''mesh'') s = (r0, s0)" by fastforce
  obtain r w' where io: "run_state (write_file (pid_file e dir ''mesh'') (itoa (ProcessPid e))) (World s) = (r, w')" by fastforce
  have eq: "s0 = s\<lparr>Store := (Store s)\<lparr>Store_Component := ''mesh''\<rparr>, World := w'\<rparr>"
    using s0 io by (simp add: setup_process_def WritePidFile_def)
  have vw: "view w' = view (World s)" using w [of "pid_file e dir ''mesh''" "itoa (ProcessPid e)" "World s"] io by simp
  have st0: "no_router n (Store s0)" using st nm(3) by (simp add: eq in_mesh_def)
  have f0: "find_obj (ClServices (view (World s0))) ns n = Some cur" "find_obj (ClPods (view (World s0))) ns (n @ RouterPodSuffix) = None"
    using f none vw by (simp_all add: eq)
  have "untouched cur cur" by (simp add: untouched_def same_service_def)
  then have here: "mesh_left view ns n cur (Fail err) s0 \<and> mesh_left view ns n cur Panic s0" for err
    using st0 f0 by (auto simp: mesh_left_def svc_at_def)
  show ?thesis
    using mesh_request [where rnd = rnd and expose = expose and dial = dial and skip = skip, OF a c b l ns st0 nm(1,2) f0(1) p f0(2)] here s0
    by (cases r0) (simp_all add: mesh_command_def)
qed

section \<open>The cleanup\<close>

lemma cleanup_after_mesh:
  assumes a: "api_server k view" and loc: "local_steps_ok view local_steps"
    and o: "\<not> Connect_ShareShadow opts" "Exchange_Mode opts \<noteq> ''ephemeral''" and ns: "Global_Namespace opts = ns"
    and left: "mesh_left view ns n cur r m" and n: "n \<noteq> []" "CHR '','' \<notin> set n" and p: "plain_service cur"
  shows "\<exists>t given c. run_state (CleanupWorkspace k opts pid local_steps) m = (Value (), t) \<and>
    view (World t) = cleanup_spec opts (Store m) c \<and>
    find_obj (ClServices c) ns n = Some given \<and> restored cur given \<and>
    (Store_Router (Store m) \<noteq> [] \<longrightarrow>
       find_obj (ClPods c) ns (n @ RouterPodSuffix) = None \<and> find_obj (ClServices c) ns (n @ StuntmanServiceSuffix) = None)"
proof -
  obtain u where u: "Store u = Store m" "view (World u) = view (World m)"
    "run_state (CleanupWorkspace k opts pid local_steps) m =
      run_state (go_try (recoverAutoMeshRoute k opts) (\<lambda>_. go_try (cleanService k opts) (\<lambda>_. cleanShadowPodAndConfigMap k opts))) u"
    using CleanupWorkspace_split [OF a loc, of m opts pid] left by (auto simp: mesh_left_def in_mesh_def)
  have tail: "\<exists>t. run_state (go_try (cleanService k opts) (\<lambda>_. cleanShadowPodAndConfigMap k opts)) v = (Value (), t) \<and>
      view (World t) = cleanup_spec opts (Store m) (view (World v))" if "Store v = Store m" for v
    using acts_okE [OF CleanupWorkspace_tail [OF a o, of v]] that left by (metis mesh_left_def in_mesh_def)
  consider (none) svc where "Store_Router (Store m) = []" "find_obj (ClServices (view (World m))) ns n = Some svc" "untouched cur svc"
    | (router) svc where "Store_Router (Store m) = n @ RouterPodSuffix" "find_obj (ClServices (view (World m))) ns n = Some svc"
        "restorable cur svc" "routed view ns n (World m)"
    using left by (auto simp: mesh_left_def svc_at_def)
  then show ?thesis
  proof cases
    case none
    have "run_state (CleanupWorkspace k opts pid local_steps) m =
        run_state (go_try (cleanService k opts) (\<lambda>_. cleanShadowPodAndConfigMap k opts)) u"
      unfolding u(3) using none(1) u(1) by (simp add: recoverAutoMeshRoute_def)
    with tail [OF u(1)] u(2) none untouched_restored show ?thesis by metis
  next
    case router
    from router(4) obtain q where q: "find_obj (ClPods (view (World m))) ns (n @ RouterPodSuffix) = Some q"
      "mget (Annotations q) KtRefCount = ''1''" "mget (Annotations q) KtConfig = ''service='' @ n"
      by (auto simp: router_of_def itoa_one)
    have "\<exists>v given. run_state (recoverAutoMeshRoute k opts) u = (Value (), v) \<and> Store v = Store u \<and>
        find_obj (ClServices (view (World v))) ns n = Some given \<and> restored cur given \<and>
        find_obj (ClServices (view (World v))) ns (n @ StuntmanServiceSuffix) = None \<and>
        find_obj (ClPods (view (World v))) ns (n @ RouterPodSuffix) = None"
      using mesh_leave_last [OF a, where s = u and router = "n @ RouterPodSuffix" and p = q and name = n and cur = svc and orig = cur and opts = opts]
        router q u(1,2) n p by (fastforce simp: ns removed_def)
    then obtain v given where v: "run_state (recoverAutoMeshRoute k opts) u = (Value (), v)" "Store v = Store m"
        "find_obj (ClServices (view (World v))) ns n = Some given" "restored cur given"
        "find_obj (ClServices (view (World v))) ns (n @ StuntmanServiceSuffix) = None"
        "find_obj (ClPods (view (World v))) ns (n @ RouterPodSuffix) = None" using u(1) by metis
    have "run_state (CleanupWorkspace k opts pid local_steps) m =
        run_state (go_try (cleanService k opts) (\<lambda>_. cleanShadowPodAndConfigMap k opts)) v"
      unfolding u(3) using v(1) by simp
    with tail [OF v(2)] v show ?thesis by metis
  qed
qed

section \<open>The property\<close>



end
