(* ===== verification/ConnectSession.thy ===== *)
theory ConnectSession
  imports CallInvariant MeshSession
begin

text \<open>
  A whole session of connect: the command, what the watches of the cluster do while it runs, the signal
  or the event that ends it, the cleanup, and the goroutine of \<open>SetNameServer\<close> that waits for a signal
  of its own.  The hosts file and the name server of the machine are followed through all of it.
\<close>

section \<open>The end of a session\<close>

text \<open>
  What the channel of \<open>SetupProcess\<close> is told: four signals, and the removal of the pid file, which
  \<open>watchPidFile\<close> reports on that channel alone (no signal is sent then).  A lost connection to the shadow
  interrupts the process by a signal.
\<close>

datatype session_end = Interrupted | Terminated | HungUp | QuitSignal | PidFileRemoved

text \<open>The signals that the goroutine of \<open>SetNameServer\<close> has asked for.\<close>

definition wakes_name_server :: "session_end \<Rightarrow> bool" where
  "wakes_name_server e = (case e of Interrupted \<Rightarrow> True | Terminated \<Rightarrow> True | _ \<Rightarrow> False)"

text \<open>
  Whether that goroutine was started in a run of the command that ended with \<open>r\<close> (it is the last thing
  that \<open>setupDns\<close> does, after the local DNS server), and the name service once it is over: on an error
  of its own it takes everything back at once, else after its signal.
\<close>

definition name_server_started :: "kt_options \<Rightarrow> unit outcome \<Rightarrow> ('c, 'f) desktop \<Rightarrow> bool" where
  "name_server_started opts r d =
     (if Connect_DnsMode opts = ''podDNS'' then r = Value ()
      else has_prefix (Connect_DnsMode opts) ''localDNS'' \<and> LocalServer d \<noteq> None)"

definition name_server_end ::
  "('c, 'f) machine_calls \<Rightarrow> kt_options \<Rightarrow> unit outcome \<Rightarrow> session_end \<Rightarrow> ('c, 'f) desktop \<Rightarrow> 'f name_service option" where
  "name_server_end m opts r e d =
     (if name_server_started opts r d \<and> (r \<noteq> Value () \<or> wakes_name_server e)
      then after_signal (Iptables m) (Connect_DnsMode opts) (Names d) else Some (Names d))"

text \<open>The local steps of the cleanup, with the calls they make; \<open>shutdown\<close> stops the tun device.\<close>

definition drop_hosts_call :: "kt_options \<Rightarrow> connect_options \<Rightarrow> (('c, 'f) desktop, unit) state" where
  "drop_hosts_call opts copts =
     State (\<lambda>d. ((), d\<lparr>HostsFile := DropHosts (Connect_ClusterDomain copts) (Global_Namespace opts) (HostsFile d)\<rparr>))"

definition RestoreRoute :: "('c, 'f) machine_calls \<Rightarrow> ('c, 'f) desktop_call" where
  "RestoreRoute m = State (\<lambda>d.
     if IsWindows m then (case windows_restore_route (RunCommand m) (Outside d) of (r, w) \<Rightarrow> (r, d\<lparr>Outside := w\<rparr>))
     else (Value (), d))"

definition connect_cleanup ::
  "('c, 'f) desktop kube \<Rightarrow> ('c, 'f) machine_calls \<Rightarrow> kt_options \<Rightarrow> connect_options \<Rightarrow> string \<Rightarrow> ('c, 'f) desktop_call \<Rightarrow>
   (('c, 'f) desktop prog, unit outcome) state" where
  "connect_cleanup k m opts copts pid shutdown = CleanupWorkspace k opts pid
     (go_try (recoverGlobalHostsAndProxy opts (drop_hosts_call opts copts) (RestoreRoute m))
       (\<lambda>_. shutdownTunDevice opts shutdown))"

section \<open>What happens while the session runs\<close>

text \<open>The handlers of the watches run, in any order and as often as they are called, and the cluster changes.\<close>

inductive watch_events ::
  "('c, 'f) desktop kube \<Rightarrow> ('c, 'f) machine_calls \<Rightarrow> kt_options \<Rightarrow> connect_options \<Rightarrow> (('c, 'f) desktop \<Rightarrow> cluster_objects) \<Rightarrow>
   ('c, 'f) desktop prog \<Rightarrow> ('c, 'f) desktop prog \<Rightarrow> bool"
  for k m opts copts view where
  Quiet: "watch_events k m opts copts view p p"
| ServiceAdded: "watch_events k m opts copts view p q \<Longrightarrow> i < length (Watches (World q)) \<Longrightarrow>
    run_state (service_added k m opts copts i (Watches (World q) ! i)) q = (r, q') \<Longrightarrow> watch_events k m opts copts view p q'"
| ServiceDeleted: "watch_events k m opts copts view p q \<Longrightarrow> i < length (Watches (World q)) \<Longrightarrow>
    run_state (service_deleted k opts copts i (Watches (World q) ! i)) q = (r, q') \<Longrightarrow> watch_events k m opts copts view p q'"
| PodDeleted: "watch_events k m opts copts view p q \<Longrightarrow> i < length (Watches (World q)) \<Longrightarrow>
    run_state (pod_deleted k opts copts i (Watches (World q) ! i) podName) q = (r, q') \<Longrightarrow> watch_events k m opts copts view p q'"
| ClusterChanges: "watch_events k m opts copts view p q \<Longrightarrow> plain_cluster (view ((World q)\<lparr>Outside := w\<rparr>)) \<Longrightarrow>
    watch_events k m opts copts view p (q\<lparr>World := (World q)\<lparr>Outside := w\<rparr>\<rparr>)"

section \<open>The calls of the machine\<close>

text \<open>
  A call of the machine or the cluster changes only what the model does not describe, and it gives no
  pod and no service an address that is none.
\<close>

definition far_call :: "(('c, 'f) desktop \<Rightarrow> cluster_objects) \<Rightarrow> (('c, 'f) desktop, 'a) state \<Rightarrow> bool" where
  "far_call view c \<longleftrightarrow> (\<forall>d. \<exists>w. snd (run_state c d) = d\<lparr>Outside := w\<rparr> \<and>
     (plain_cluster (view d) \<longrightarrow> plain_cluster (view (d\<lparr>Outside := w\<rparr>))))"

text \<open>The commands of the machine, in the same way.\<close>

definition far_runner :: "(('c, 'f) desktop \<Rightarrow> cluster_objects) \<Rightarrow> 'c runner \<Rightarrow> bool" where
  "far_runner view run \<longleftrightarrow> (\<forall>d. keeps_world run (\<lambda>w. plain_cluster (view (d\<lparr>Outside := w\<rparr>))))"

definition far_crud :: "(('c, 'f) desktop, 'm object_meta_scheme) crud \<Rightarrow> bool" where
  "far_crud c \<longleftrightarrow> (\<forall>ns ob. outside_only (api_create c ns ob)) \<and> (\<forall>ns ob. outside_only (api_update c ns ob)) \<and>
     (\<forall>ns n. outside_only (api_delete c ns n))"

definition sees_outside :: "(('c, 'f) desktop \<Rightarrow> cluster_objects) \<Rightarrow> bool" where
  "sees_outside view \<longleftrightarrow> (\<forall>d e. Outside d = Outside e \<longrightarrow> view d = view e)"

definition machine_world :: "('c, 'f) desktop kube \<Rightarrow> ('c, 'f) machine_calls \<Rightarrow> (('c, 'f) desktop \<Rightarrow> cluster_objects) \<Rightarrow> bool" where
  "machine_world k m view \<longleftrightarrow> sees_outside view \<and>
     far_crud (PodsApi k) \<and> far_crud (DeploymentsApi k) \<and> far_crud (ServicesApi k) \<and> far_crud (ConfigMapsApi k) \<and>
     (\<forall>n. far_call view (Sleep k n)) \<and> (\<forall>f. far_call view (RemoveFile k f)) \<and> (\<forall>f. far_call view (GenerateKey k f)) \<and>
     (\<forall>f x. far_call view (WritePrivateKey k f x)) \<and>
     (\<forall>api. EnvoyFiltersApi k = Value api \<longrightarrow>
        (\<forall>ns fl. far_call view (api_create api ns fl)) \<and> (\<forall>ns n. far_call view (api_get api ns n)) \<and>
        (\<forall>ns fl. far_call view (api_update api ns fl)) \<and> (\<forall>ns n. far_call view (api_delete api ns n)) \<and>
        (\<forall>ns l. far_call view (api_list api ns l))) \<and>
     far_call view (LocalClock m) \<and> (\<forall>c. far_call view (PidFileCall m c)) \<and>
     (\<forall>b pod r l. far_call view (PortForwardCall m b pod r l)) \<and> (\<forall>x a b. far_call view (StartSocks5 m x a b)) \<and>
     far_runner view (RunCommand m) \<and> (\<forall>a. far_call view (StartEngine m a)) \<and> (\<forall>a. far_call view (StartSshuttle m a)) \<and> (\<forall>n. far_call view (StartDnsServer m n))"

text \<open>An invariant of the three parts of the machine that a session changes.\<close>

definition on_machine ::
  "(('c, 'f) desktop \<Rightarrow> cluster_objects) \<Rightarrow> (hosts_state \<Rightarrow> 'f name_service \<Rightarrow> (dns_server \<times> int) option \<Rightarrow> bool) \<Rightarrow>
   ('c, 'f) desktop \<Rightarrow> bool" where
  "on_machine view R d \<longleftrightarrow> R (HostsFile d) (Names d) (LocalServer d) \<and> plain_cluster (view d)"

lemma far_call_keeps: "far_call view c \<Longrightarrow> on_machine view R d \<Longrightarrow> on_machine view R (snd (run_state c d))"
  unfolding far_call_def on_machine_def by (metis desktop.select_convs(2,3,5) desktop.surjective desktop.update_convs(1))

lemma outside_keeps:
  "outside_only c \<Longrightarrow> on_machine view R d \<Longrightarrow> plain_cluster (view (snd (run_state c d))) \<Longrightarrow> on_machine view R (snd (run_state c d))"
  unfolding outside_only_def on_machine_def by (metis desktop.select_convs(2,3,5) desktop.surjective desktop.update_convs(1))

lemma plain_create:
  "plain_cluster c \<Longrightarrow> plain_ip (PodIP p) \<Longrightarrow> plain_cluster (set_pods (snd (create_spec (ClPods c) ns p)) c)"
  by (auto simp: plain_cluster_def set_pods_def create_spec_def split: option.split)

lemma plain_update:
  "plain_cluster c \<Longrightarrow> plain_ip (PodIP p) \<Longrightarrow> plain_cluster (set_pods (snd (update_spec (ClPods c) ns p)) c)"
  by (auto simp: plain_cluster_def set_pods_def update_spec_def put_obj_def bump_def split: option.split)

lemma plain_delete:
  "plain_cluster c \<Longrightarrow> plain_cluster (set_pods (snd (delete_spec (ClPods c) ns n)) c)"
  "plain_cluster c \<Longrightarrow> plain_cluster (set_services (snd (delete_spec (ClServices c) ns n)) c)"
  by (auto simp: plain_cluster_def set_kinds delete_spec_def split: option.split)

lemma plain_others:
  "plain_cluster (set_deployments x c) = plain_cluster c" "plain_cluster (set_config_maps y c) = plain_cluster c"
  by (simp_all add: plain_cluster_def set_kinds)

lemma machine_worldD:
  assumes "machine_world k m view"
  shows far_crud_calls: "far_crud (PodsApi k)" "far_crud (DeploymentsApi k)" "far_crud (ServicesApi k)" "far_crud (ConfigMapsApi k)"
    and far_kube_calls: "far_call view (Sleep k n)" "far_call view (RemoveFile k f)" "far_call view (GenerateKey k f)"
      "far_call view (WritePrivateKey k f x)"
    and far_filter_calls: "EnvoyFiltersApi k = Value api \<Longrightarrow> far_call view (api_create api ns fl)"
      "EnvoyFiltersApi k = Value api \<Longrightarrow> far_call view (api_get api ns x)"
      "EnvoyFiltersApi k = Value api \<Longrightarrow> far_call view (api_update api ns fl)"
      "EnvoyFiltersApi k = Value api \<Longrightarrow> far_call view (api_delete api ns x)"
      "EnvoyFiltersApi k = Value api \<Longrightarrow> far_call view (api_list api ns l)"
    and far_machine_calls: "far_call view (LocalClock m)" "far_call view (PidFileCall m c)" "far_call view (PortForwardCall m b pod r lp)"
      "far_call view (StartSocks5 m x a e)" "far_call view (StartEngine m key)" "far_call view (StartSshuttle m as)"
      "far_call view (StartDnsServer m i)"
    and far_commands: "far_runner view (RunCommand m)"
    and sees_outside: "sees_outside view"
  using assms by (simp_all add: machine_world_def)

lemma far_run_outside:
  assumes "\<And>P w. keeps_world run P \<Longrightarrow> P w \<Longrightarrow> leads_to P (f w)" and "far_runner view run"
  shows "far_call view (run_outside f)"
  unfolding far_call_def
proof
  fix d
  have "leads_to (\<lambda>w. plain_cluster (view (d\<lparr>Outside := w\<rparr>))) (f (Outside d))" if "plain_cluster (view d)"
    using assms that by (simp add: far_runner_def)
  then show "\<exists>w. snd (run_state (run_outside f) d) = d\<lparr>Outside := w\<rparr> \<and>
      (plain_cluster (view d) \<longrightarrow> plain_cluster (view (d\<lparr>Outside := w\<rparr>)))"
    by (intro exI [of _ "snd (f (Outside d))"]) (simp add: run_outside_def leads_to_def split_def)
qed

lemma far_tun_calls:
  assumes "machine_world k m view"
  shows "far_call view (tun_check_context m)" "far_call view (tun_set_route m rs es)" "far_call view (tun_check_route m rs)"
    "far_call view (run_outside (checkSshuttleInstalled (RunCommand m) user))"
  unfolding tun_check_context_def tun_set_route_def tun_check_route_def
  by (rule far_run_outside [OF _ far_commands [OF assms]], simp add: set_routes_keep check_routes_keep checks_keep)+

lemma view_outside: "machine_world k m view \<Longrightarrow> Outside d = Outside e \<Longrightarrow> view d = view e"
  using sees_outside [of k m view] unfolding sees_outside_def by blast

lemma far_crudD:
  assumes "far_crud c"
  shows "outside_only (api_create c ns ob)" "outside_only (api_update c ns ob)" "outside_only (api_delete c ns n)"
  using assms by (simp_all add: far_crud_def)

lemma crud_views:
  assumes "crud_ok c view sel upd"
  shows "view (snd (run_state (api_create c ns ob) w)) = upd (snd (create_spec (sel (view w)) ns ob)) (view w)"
    and "view (snd (run_state (api_update c ns ob) w)) = upd (snd (update_spec (sel (view w)) ns ob)) (view w)"
    and "view (snd (run_state (api_delete c ns n) w)) = upd (snd (delete_spec (sel (view w)) ns n)) (view w)"
  using crud_create [OF assms] crud_update [OF assms] crud_delete [OF assms] by (metis prod.collapse)+

lemma on_machine_plain: "on_machine view R d \<Longrightarrow> plain_cluster (view d)"
  by (simp add: on_machine_def)

lemma machine_invariant:
  assumes a: "api_server k view" and w: "machine_world k m view"
  shows "call_invariant k view (on_machine view R)"
proof
  fix d assume d: "on_machine view R d"
  note plain = on_machine_plain [OF d]
  note keeps = outside_keeps [OF far_crudD(1) d] outside_keeps [OF far_crudD(2) d] outside_keeps [OF far_crudD(3) d]
  note crud = far_crud_calls [OF w]
  show "plain_cluster (view d)" by (rule plain)
  show "on_machine view R (snd (run_state (Sleep k n) d))" for n by (rule far_call_keeps [OF far_kube_calls(1) [OF w] d])
  show "on_machine view R (snd (run_state (RemoveFile k f) d))" for f by (rule far_call_keeps [OF far_kube_calls(2) [OF w] d])
  show "on_machine view R (snd (run_state (GenerateKey k f) d))" for f by (rule far_call_keeps [OF far_kube_calls(3) [OF w] d])
  show "on_machine view R (snd (run_state (WritePrivateKey k f x) d))" for f x
    by (rule far_call_keeps [OF far_kube_calls(4) [OF w] d])
  show "on_machine view R (snd (run_state (api_create (PodsApi k) ns p) d))" if "plain_ip (PodIP p)" for ns p
    using plain that by (intro keeps crud) (simp add: crud_views [OF api_pods [OF a]] plain_create)
  show "on_machine view R (snd (run_state (api_update (PodsApi k) ns p) d))" if "plain_ip (PodIP p)" for ns p
    using plain that by (intro keeps crud) (simp add: crud_views [OF api_pods [OF a]] plain_update)
  show "on_machine view R (snd (run_state (api_delete (PodsApi k) ns n) d))" for ns n
    using plain by (intro keeps crud) (simp add: crud_views [OF api_pods [OF a]] plain_delete)
  show "on_machine view R (snd (run_state (api_create (DeploymentsApi k) ns x) d))" for ns x
    using plain by (intro keeps crud) (simp add: crud_views [OF api_deployments [OF a]] plain_others)
  show "on_machine view R (snd (run_state (api_update (DeploymentsApi k) ns x) d))" for ns x
    using plain by (intro keeps crud) (simp add: crud_views [OF api_deployments [OF a]] plain_others)
  show "on_machine view R (snd (run_state (api_delete (DeploymentsApi k) ns n) d))" for ns n
    using plain by (intro keeps crud) (simp add: crud_views [OF api_deployments [OF a]] plain_others)
  show "on_machine view R (snd (run_state (api_create (ConfigMapsApi k) ns x) d))" for ns x
    using plain by (intro keeps crud) (simp add: crud_views [OF api_config_maps [OF a]] plain_others)
  show "on_machine view R (snd (run_state (api_delete (ConfigMapsApi k) ns n) d))" for ns n
    using plain by (intro keeps crud) (simp add: crud_views [OF api_config_maps [OF a]] plain_others)
  show "on_machine view R (snd (run_state (api_delete (ServicesApi k) ns n) d))" for ns n
    using plain by (intro keeps crud) (simp add: crud_views [OF api_services [OF a]] plain_delete)
  show "EnvoyFiltersApi k = Value api \<Longrightarrow> on_machine view R (snd (run_state (api_create api ns fl) d))"
    "EnvoyFiltersApi k = Value api \<Longrightarrow> on_machine view R (snd (run_state (api_get api ns n) d))"
    "EnvoyFiltersApi k = Value api \<Longrightarrow> on_machine view R (snd (run_state (api_update api ns fl) d))"
    "EnvoyFiltersApi k = Value api \<Longrightarrow> on_machine view R (snd (run_state (api_delete api ns n) d))"
    "EnvoyFiltersApi k = Value api \<Longrightarrow> on_machine view R (snd (run_state (api_list api ns ls) d))" for api ns fl n ls
    by (rule far_call_keeps [OF _ d], erule far_filter_calls [OF w])+
qed (rule a)

section \<open>The steps of the command\<close>

lemma stays_far: "far_call view c \<Longrightarrow> stays (on_machine view R) (lift_io c)"
  by (intro stays_lift far_call_keeps)

text \<open>What a dump of host names does to an invariant.\<close>

definition dumps_keep :: "(hosts_state \<Rightarrow> 'n \<Rightarrow> 'l \<Rightarrow> bool) \<Rightarrow> bool" where
  "dumps_keep R \<longleftrightarrow> (\<forall>h n l cd ns names drp. R h n l \<longrightarrow> plain_hosts names \<longrightarrow> R (snd (DumpHosts cd ns names drp h)) n l)"

lemma stays_dump:
  assumes w: "machine_world k m view" and r: "dumps_keep R" and names: "plain_hosts names"
  shows "stays (on_machine view R) (dump_hosts opts copts names drp)"
  unfolding dump_hosts_def
proof (rule stays_lift)
  fix d assume d: "on_machine view R d"
  show "on_machine view R (snd (run_state (State (\<lambda>d. case DumpHosts (Connect_ClusterDomain copts) (Global_Namespace opts) names drp (HostsFile d)
      of (r, h) \<Rightarrow> (r, d\<lparr>HostsFile := h\<rparr>))) d))"
    using d r names view_outside [OF w, of "d\<lparr>HostsFile := _\<rparr>" d]
    by (auto simp: on_machine_def dumps_keep_def split: prod.split) (metis snd_conv)
qed

lemma stays_watch_list:
  assumes w: "machine_world k m view"
  shows "stays (on_machine view R) (lift_io (State (\<lambda>d. (a, d\<lparr>Watches := f d\<rparr>))))"
    and "stays (on_machine view R) (lift_io (State (\<lambda>d. (a, d\<lparr>EndsSession := g d\<rparr>))))"
  using view_outside [OF w, of "_\<lparr>Watches := _\<rparr>"] view_outside [OF w, of "_\<lparr>EndsSession := _\<rparr>"]
  by (auto intro!: stays_lift simp: on_machine_def)

lemma stays_watch:
  assumes w: "machine_world k m view"
  shows "stays (on_machine view R) (watchServicesAndPods m ns pods short)"
  unfolding watchServicesAndPods_def by (intro stays_intros stays_far far_machine_calls [OF w] stays_watch_list [OF w])

lemma stays_forward:
  assumes w: "machine_world k m view"
  shows "stays (on_machine view R) (setupShadowPortForward m opts pod r target)"
  unfolding setupShadowPortForward_def watchConnectionGone_def Let_def
  by (intro stays_intros stays_far far_machine_calls [OF w] stays_watch_list [OF w])

lemma stays_service_hosts:
  assumes a: "api_server k view"
  shows "stays P (getServiceHosts k opts cd ns short)"
  unfolding stays_def using getServiceHosts_run [OF a] by (metis snd_conv)

text \<open>The names that were read are those of a cluster with addresses, and so they can be dumped.\<close>

lemma stays_dump_services:
  assumes a: "api_server k view" and "\<And>names pods. plain_hosts names \<Longrightarrow> stays (on_machine view R) (f (names, pods))"
  shows "stays (on_machine view R) (go_try (getServiceHosts k opts cd ns short) f)"
proof (rule stays_try_seen [OF stays_service_hosts [OF a]])
  fix y s t assume "on_machine view R (World s)" "run_state (getServiceHosts k opts cd ns short) s = (Value y, t)"
  then have "plain_hosts (fst y)" by (cases y) (auto dest: on_machine_plain getServiceHosts_plain [OF a])
  then show "stays (on_machine view R) (f y)" using assms(2) [of "fst y" "snd y"] by simp
qed

section \<open>The handlers of the watches\<close>

lemma stays_refresh:
  assumes a: "api_server k view" and w: "machine_world k m view" and r: "dumps_keep R"
  shows "stays (on_machine view R) (refresh_hosts k opts copts i wt)"
  unfolding refresh_hosts_def
  by (rule stays_dump_services [OF a]) (simp, intro stays_intros stays_watch_list [OF w] stays_dump [OF w r])

lemma watch_events_keep:
  assumes e: "watch_events k m opts copts view p q" and a: "api_server k view" and w: "machine_world k m view"
    and r: "dumps_keep R" and p: "on_machine view R (World p)"
  shows "on_machine view R (World q)"
  using e p
proof induction
  case (ServiceAdded p q i r' q')
  have "stays (on_machine view R) (service_added k m opts copts i (Watches (World q) ! i))"
    unfolding service_added_def by (intro stays_intros stays_far far_machine_calls [OF w] stays_refresh [OF a w r])
  from staysD [OF this ServiceAdded(3)] ServiceAdded show ?case by blast
next
  case (ServiceDeleted p q i r' q')
  have "stays (on_machine view R) (service_deleted k opts copts i (Watches (World q) ! i))"
    unfolding service_deleted_def by (rule stays_refresh [OF a w r])
  from staysD [OF this ServiceDeleted(3)] ServiceDeleted show ?case by blast
next
  case (PodDeleted p q i podName r' q')
  have "stays (on_machine view R) (pod_deleted k opts copts i (Watches (World q) ! i) podName)"
    unfolding pod_deleted_def
    by (intro stays_intros stays_refresh [OF a w r] call_invariant.writes(6) [OF machine_invariant [OF a w]])
  from staysD [OF this PodDeleted(3)] PodDeleted show ?case by blast
qed (simp_all add: on_machine_def)

section \<open>The command\<close>

text \<open>
  Before the name server is set: the hosts file has the lines of the user and at most one block of
  names.  Afterwards the file is in that state still, and the name service is what \<open>SetNameServer\<close> has
  made of it, if it came to that.
\<close>

definition session_names ::
  "string list \<Rightarrow> 'f name_service \<Rightarrow> (dns_server \<times> int) option \<Rightarrow> hosts_state \<Rightarrow> 'f name_service \<Rightarrow> (dns_server \<times> int) option \<Rightarrow> bool"
  where "session_names user n l h n' l' \<longleftrightarrow> hosts_inv user h \<and> n' = n \<and> l' = l"

abbreviation (input) "local_server_address m copts \<equiv> ''127.0.0.1:'' @ itoa (local_dns_port m copts)"

definition command_end ::
  "('c, 'f) machine_calls \<Rightarrow> kt_options \<Rightarrow> connect_options \<Rightarrow> (('c, 'f) desktop \<Rightarrow> cluster_objects) \<Rightarrow> string list \<Rightarrow>
   'f name_service \<Rightarrow> unit outcome \<Rightarrow> ('c, 'f) desktop \<Rightarrow> bool" where
  "command_end m opts copts view user n r d \<longleftrightarrow> hosts_inv user (HostsFile d) \<and> plain_cluster (view d) \<and>
     (r = Value () \<and> has_prefix (Connect_DnsMode opts) ''localDNS'' \<longrightarrow> LocalServer d \<noteq> None) \<and>
     (if name_server_started opts r d
      then \<exists>server. set_name_server (Iptables m) (Connect_DnsMode opts) server n = (r, Names d) \<and>
        (has_prefix (Connect_DnsMode opts) ''localDNS'' \<longrightarrow> server = local_server_address m copts) else Names d = n)"

lemma dumps_keep_session: "dumps_keep (session_names user n l)"
  unfolding dumps_keep_def session_names_def
proof (intro allI impI, elim conjE, intro conjI)
  fix h cd ns names drp assume i: "hosts_inv user h" "plain_hosts names"
  then show "hosts_inv user (snd (DumpHosts cd ns names drp h))"
    using DumpHosts_inv [OF i, of cd ns drp] by (auto simp: hosts_inv_def hosts_ready_def)
qed

lemma modes_differ: "has_prefix x ''hosts'' \<Longrightarrow> \<not> has_prefix x ''localDNS'' \<and> x \<noteq> ''podDNS''"
  by (auto simp: has_prefix_iff)

lemma command_end_before:
  assumes "on_machine view (session_names user n None) d" and "\<not> has_prefix (Connect_DnsMode opts) ''hosts'' \<Longrightarrow> r \<noteq> Value ()"
  shows "command_end m opts copts view user n r d"
  using assms modes_differ [of "Connect_DnsMode opts"]
  by (auto simp: command_end_def on_machine_def session_names_def name_server_started_def)

text \<open>A step that keeps an invariant of the world, and then the rest of the computation.\<close>

lemma ends_try_seen:
  assumes "stays P m" and "\<And>s. P (World s) \<Longrightarrow> C Panic s \<and> (\<forall>e. C (Fail e) s)"
    and "\<And>y s t. P (World s) \<Longrightarrow> run_state m s = (Value y, t) \<Longrightarrow> ends (\<lambda>s. P (World s)) (f y) C"
  shows "ends (\<lambda>s. P (World s)) (go_try m f) C"
  unfolding ends_def
proof (intro allI impI)
  fix s r t assume s: "P (World s)" and run: "run_state (go_try m f) s = (r, t)"
  obtain x u where m: "run_state m s = (x, u)" by fastforce
  then have u: "P (World u)" using staysD [OF assms(1) m] s by blast
  show "C r t"
  proof (cases x)
    case (Value y)
    with assms(3) [OF s] m u run show ?thesis by (auto simp: ends_def)
  qed (use run m assms(2) [OF u] in auto)
qed

lemma ends_try_keeps:
  assumes "stays P m" and "\<And>s. P (World s) \<Longrightarrow> C Panic s \<and> (\<forall>e. C (Fail e) s)" and "\<And>y. ends (\<lambda>s. P (World s)) (f y) C"
  shows "ends (\<lambda>s. P (World s)) (go_try m f) C"
  using assms by (intro ends_try_seen)

lemma ends_bind_keeps:
  assumes "stays P m" and "\<And>y. ends (\<lambda>s. P (World s)) (f y) C"
  shows "ends (\<lambda>s. P (World s)) (State_Monad.bind m f) C"
  unfolding ends_def
proof (intro allI impI)
  fix s r t assume s: "P (World s)" and run: "run_state (State_Monad.bind m f) s = (r, t)"
  obtain x u where m: "run_state m s = (x, u)" by fastforce
  then have "P (World u)" using staysD [OF assms(1) m] s by blast
  with assms(2) [of x] m run show "C r t" by (auto simp: ends_def)
qed

lemma ends_stays: "stays P m \<Longrightarrow> (\<And>s r. P (World s) \<Longrightarrow> C r s) \<Longrightarrow> ends (\<lambda>s. P (World s)) m C"
  by (auto simp: ends_def dest: staysD)

text \<open>The name server is the last thing that is set.\<close>

lemma ends_local_dns:
  assumes w: "machine_world k m view" and lin: "\<not> IsWindows m" "\<not> IsMacos m" and mode: "has_prefix (Connect_DnsMode opts) ''localDNS''"
  shows "ends (\<lambda>s. on_machine view (session_names user n None) (World s))
    (go_try (lift_io (SetupLocalDns m copts rp lp order)) (\<lambda>_. lift_io (SetNameServer m opts copts (local_server_address m copts))))
    (\<lambda>r s. command_end m opts copts view user n r (World s))"
  unfolding ends_def
proof (intro allI impI)
  fix s r t
  assume s: "on_machine view (session_names user n None) (World s)"
    and run: "run_state (go_try (lift_io (SetupLocalDns m copts rp lp order)) (\<lambda>_. lift_io (SetNameServer m opts copts (local_server_address m copts)))) s = (r, t)"
  have pod: "Connect_DnsMode opts \<noteq> ''podDNS''" using mode by (auto simp: has_prefix_def)
  obtain x d where d: "run_state (StartDnsServer m lp) (World s) = (x, d)" by fastforce
  have far: "on_machine view (session_names user n None) d"
    using far_call_keeps [OF far_machine_calls(7) [OF w] s, of lp] d by simp
  have sets: "run_state (SetupLocalDns m copts rp lp order) (World s) =
      (case x of Value _ \<Rightarrow> (Value (), d\<lparr>LocalServer := Some (local_server (Connect_Dns copts) order
         (GetNameServer True (Some (ResolvLines (Names (World s)))) (ResolvedConf m)) rp (AllIngresses m), lp)\<rparr>)
       | Fail e \<Rightarrow> (Fail e, d) | Panic \<Rightarrow> (Panic, d))"
    using d lin by (simp add: SetupLocalDns_def upstream_server_def Let_def split: outcome.split)
  show "command_end m opts copts view user n r (World t)"
  proof (cases x)
    case (Value u)
    then have "view (World t) = view d \<and> plain_cluster (view d) \<and> HostsFile (World t) = HostsFile d \<and> LocalServer (World t) \<noteq> None \<and>
        set_name_server (Iptables m) (Connect_DnsMode opts) (local_server_address m copts) n = (r, Names (World t)) \<and> hosts_inv user (HostsFile d)"
      using run far sets lin view_outside [OF w, of "World t" d]
      by (auto simp: SetNameServer_def on_machine_def session_names_def split: prod.splits)
    with mode pod show ?thesis unfolding command_end_def name_server_started_def by auto
  next
    case (Fail e)
    with run sets have "World t = d" "r = Fail e" by auto
    with far show ?thesis by (intro command_end_before) simp_all
  next
    case Panic
    with run sets have "World t = d" "r = Panic" by auto
    with far show ?thesis by (intro command_end_before) simp_all
  qed
qed

lemma ends_pod_dns:
  assumes w: "machine_world k m view" and lin: "\<not> IsWindows m" "\<not> IsMacos m" and mode: "Connect_DnsMode opts = ''podDNS''"
  shows "ends (\<lambda>s. on_machine view (session_names user n None) (World s)) (lift_io (SetNameServer m opts copts server))
    (\<lambda>r s. command_end m opts copts view user n r (World s))"
  unfolding ends_def
proof (intro allI impI)
  fix s r t
  assume s: "on_machine view (session_names user n None) (World s)" and run: "run_state (lift_io (SetNameServer m opts copts server)) s = (r, t)"
  have "\<not> has_prefix (Connect_DnsMode opts) ''localDNS''" using mode by (simp add: has_prefix_def)
  then have "r = Value () \<and> set_name_server (Iptables m) (Connect_DnsMode opts) server n = (r, Names (World t)) \<and>
      HostsFile (World t) = HostsFile (World s) \<and> view (World t) = view (World s)"
    using s run lin view_outside [OF w, of "World t" "World s"]
    by (auto simp: SetNameServer_def set_name_server_def on_machine_def session_names_def)
  with s mode show "command_end m opts copts view user n r (World t)"
    by (auto simp: command_end_def name_server_started_def on_machine_def session_names_def has_prefix_def)
qed

text \<open>The names of several namespaces are collected before they are dumped.\<close>

lemma plain_hosts_collect:
  assumes "plain_hosts h" and "plain_hosts m"
  shows "plain_hosts (foldl (\<lambda>h (svc, ip). mput h svc ip) h (entries m))"
proof -
  have "plain_hosts (foldl (\<lambda>h (svc, ip). mput h svc ip) h es)" if "plain_hosts h" "\<forall>(a, ip) \<in> set es. plain_ip ip" for es
    using that by (induction es arbitrary: h) (auto intro: plain_hosts_put)
  moreover have "\<forall>(a, ip) \<in> set (entries m). plain_ip ip" using assms(2) by (auto simp: plain_hosts_def plain_ip_def)
  ultimately show ?thesis using assms(1) by blast
qed

lemma dump_namespaces_keeps:
  assumes a: "api_server k view" and w: "machine_world k m view"
  shows "on_machine view R (World s) \<Longrightarrow> plain_hosts h \<Longrightarrow> run_state (dump_namespaces k m opts copts nss h) s = (r, t) \<Longrightarrow>
    on_machine view R (World t) \<and> (\<forall>x. r = Value x \<longrightarrow> plain_hosts x)"
proof (induction nss arbitrary: h s)
  case (Cons ns nss)
  obtain x u where g: "run_state (getServiceHosts k opts (Connect_ClusterDomain copts) ns False) s = (x, u)" by fastforce
  then have u: "on_machine view R (World u)" using staysD [OF stays_service_hosts [OF a] g] Cons.prems(1) by blast
  show ?case
  proof (cases x)
    case (Value y)
    obtain names pods where y: "y = (names, pods)" by fastforce
    have plain: "plain_hosts names"
      using getServiceHosts_plain [OF a on_machine_plain [OF Cons.prems(1)] g [unfolded Value y]] .
    obtain v z where v: "run_state (watchServicesAndPods m ns pods False) u = (v, z)" by (metis prod.collapse)
    then have z: "on_machine view R (World z)" using staysD [OF stays_watch [OF w] v] u by blast
    have "run_state (dump_namespaces k m opts copts nss (foldl (\<lambda>h (svc, ip). mput h svc ip) h (entries names))) z = (r, t)"
      using Cons.prems(3) g v Value y by simp
    from Cons.IH [OF z plain_hosts_collect [OF Cons.prems(2) plain] this] show ?thesis .
  qed (use Cons.prems g u in auto)
qed auto

lemma stays_dump_to_host:
  assumes a: "api_server k view" and w: "machine_world (k :: ('a, 'b) desktop kube) m view" and r: "dumps_keep R"
  shows "stays (on_machine view R) (dumpToHost k m opts copts targets)"
proof -
  have "stays (on_machine view R) (go_try (dump_namespaces k m opts copts nss (GoMap [])) (\<lambda>hosts. dump_hosts opts copts hosts []))" for nss
    unfolding stays_def
  proof (intro allI impI)
    fix s :: "('a, 'b) desktop prog" assume s: "on_machine view R (World s)"
    obtain x t where t: "run_state (dump_namespaces k m opts copts nss (GoMap [])) s = (x, t)" by fastforce
    from dump_namespaces_keeps [OF a w s plain_hosts_empty t] have "on_machine view R (World t)" "\<forall>y. x = Value y \<longrightarrow> plain_hosts y" by auto
    with t stays_dump [OF w r] show "on_machine view R (World (snd (run_state (go_try (dump_namespaces k m opts copts nss (GoMap []))
        (\<lambda>hosts. dump_hosts opts copts hosts [])) s)))"
      by (cases x) (auto simp: stays_def)
  qed
  then show ?thesis unfolding dumpToHost_def Let_def .
qed

lemma ends_setupDns:
  assumes a: "api_server k view" and w: "machine_world k m view" and lin: "\<not> IsWindows m" "\<not> IsMacos m"
  shows "ends (\<lambda>s. on_machine view (session_names user n None) (World s)) (setupDns k m opts copts pod ip)
    (\<lambda>r s. command_end m opts copts view user n r (World s))"
proof -
  let ?I = "on_machine view (session_names user n None)" and ?C = "\<lambda>r s. command_end m opts copts view user n r (World s)"
  have err: "?C Panic s \<and> (\<forall>e. ?C (Fail e) s)" if "?I (World s)" for s :: "('a, 'b) desktop prog"
    using that by (simp add: command_end_before)
  consider (hosts) "has_prefix (Connect_DnsMode opts) ''hosts''" | (pod) "Connect_DnsMode opts = ''podDNS''"
    | (local) "has_prefix (Connect_DnsMode opts) ''localDNS''"
    | (other) "\<not> has_prefix (Connect_DnsMode opts) ''hosts''" "Connect_DnsMode opts \<noteq> ''podDNS''"
        "\<not> has_prefix (Connect_DnsMode opts) ''localDNS''" by blast
  then show ?thesis
  proof cases
    case hosts
    then have "Connect_DnsMode opts \<noteq> ''podDNS''" by (auto simp: has_prefix_def)
    then show ?thesis
      unfolding setupDns_def Let_def using hosts
      by (simp only: if_True) (intro ends_stays stays_dump_to_host [OF a w dumps_keep_session] command_end_before, simp_all)
  next
    case pod
    then have "setupDns k m opts copts pod' ip = lift_io (SetNameServer m opts copts ip)" for pod'
      by (simp add: setupDns_def has_prefix_def)
    then show ?thesis using ends_pod_dns [OF w lin pod] by simp
  next
    case local
    have dump: "stays ?I (dump_hosts opts copts names [])" if "plain_hosts names" for names
      by (rule stays_dump [OF w dumps_keep_session that])
    have "ends (\<lambda>s. ?I (World s)) (go_try (dump_hosts opts copts names []) (\<lambda>_.
        State_Monad.bind (watchServicesAndPods m ns pods True) (\<lambda>_.
        go_try (setupShadowPortForward m opts pod 53 ''shadow DNS'') (\<lambda>p.
        go_try (lift_io (SetupLocalDns m copts p lp order)) (\<lambda>_. lift_io (SetNameServer m opts copts (local_server_address m copts))))))) ?C"
      if "plain_hosts names" for names pods ns lp order
      by (intro ends_try_keeps ends_bind_keeps dump that stays_watch [OF w] stays_forward [OF w] ends_local_dns [OF w lin local] err)
    moreover have "plain_hosts (fst y)" if "?I (World s)" "run_state (getServiceHosts k opts cd ns True) s = (Value y, t)" for s t y cd ns
      using that by (cases y) (auto dest: on_machine_plain getServiceHosts_plain [OF a])
    ultimately show ?thesis
      unfolding setupDns_local [OF local]
      by (intro ends_try_seen [OF stays_service_hosts [OF a] err]) (auto simp: split_def)
  next
    case other
    then show ?thesis by (auto simp: setupDns_def ends_def command_end_before)
  qed
qed

lemma stays_labels: "stays P (getLabels k opts random)" "stays P (buildLaneShadowName k opts r)" if "\<And>w. P w \<Longrightarrow> P (snd (run_state (GetTime k) w))"
  unfolding getLabels_def buildLaneShadowName_def ensure_session_def now_def Let_def
  by (intro stays_intros stays_lift; rule that; assumption)+

lemma stays_get_or_create:
  assumes a: "api_server k view" and w: "machine_world k m view"
  shows "stays (on_machine view R) (getOrCreateShadow k m opts copts)"
proof -
  note inv = machine_invariant [OF a w, of R]
  have local: "stays (on_machine view R) (lift_io (local_domains m))"
    by (intro stays_lift) (simp add: local_domains_def)
  have labels: "stays (on_machine view R) (getLabels k opts random)" "stays (on_machine view R) (buildLaneShadowName k opts x)" for random x
    by (rule stays_labels; simp add: api_time [OF a])+
  show ?thesis
    unfolding getOrCreateShadow_def Let_def
    by (intro stays_intros labels local call_invariant.get_or_create_shadow [OF inv] call_invariant.lane_filter [OF inv])
qed

lemma ends_connect:
  fixes k :: "('c, 'f) desktop kube"
  assumes a: "api_server k view" and w: "machine_world k m view" and lin: "\<not> IsWindows m" "\<not> IsMacos m"
  shows "ends (\<lambda>s. on_machine view (session_names user n None) (World s)) (connect_command k m opts copts clean_opts)
    (\<lambda>r s. command_end m opts copts view user n r (World s))"
proof -
  let ?I = "on_machine view (session_names user n None)" and ?C = "\<lambda>r s. command_end m opts copts view user n r (World s)"
  have err: "?C Panic s \<and> (\<forall>e. ?C (Fail e) s)" if "?I (World s)" for s :: "('c, 'f) desktop prog"
    using that by (simp add: command_end_before)
  have fail: "ends (\<lambda>s. ?I (World s)) (State_Monad.return (Fail e)) ?C" for e
    by (auto simp: ends_def command_end_before)
  note keep = stays_get_or_create [OF a w] stays_forward [OF w] stays_far far_machine_calls [OF w] far_tun_calls [OF w]
  note last = ends_setupDns [OF a w lin]
  have route: "stays ?I (setup_tun_device m opts copts x)" for x
    unfolding setup_tun_device_def setupTunRoute_def Let_def by (intro stays_intros keep)
  have tun: "ends (\<lambda>s. ?I (World s)) (ByTun2Socks k m opts copts) ?C"
    using lin(1) unfolding ByTun2Socks_def startSocks5Connection_def
    by (auto intro!: ends_try_keeps fail keep route last err split: prod.split)
  have ssh: "ends (\<lambda>s. ?I (World s)) (BySshuttle k m opts copts) ?C"
    unfolding BySshuttle_def by (auto intro!: ends_bind_keeps ends_try_keeps keep last err stays_intros split: prod.split)
  show ?thesis
    unfolding connect_command_def SetupProcess_def
    by (intro ends_try_keeps ends_bind_keeps ends_if tun ssh fail err stays_intros keep call_invariant.silence_cleanup [OF machine_invariant [OF a w]])
qed

section \<open>The component in the store\<close>

abbreviation (input) "in_connect \<equiv> \<lambda>st :: runtime_store. Store_Component st = ''connect''"

lemma store_each: "(\<And>x. keeps_store Q (f x)) \<Longrightarrow> keeps_store Q (go_each f xs)"
  by (induction xs) (auto intro: store_intros)

lemma store_analysis: "(\<And>x r. keeps_store Q (f x r)) \<Longrightarrow> keeps_store Q (analysis_each f xs r)"
  by (induction xs arbitrary: r) (auto intro: store_intros)

lemma store_silence_cleanup: "keeps_store Q (silenceCleanup k opts copts)"
proof -
  have expired: "keeps_store Q (analysis_expired k th ob mark r)" for th ob mark r
    unfolding analysis_expired_def isExpired_def by (intro store_intros)
  have locks: "keeps_store Q (analysisLockAndOrphanServices k svcs r)" for svcs r
    by (induction svcs arbitrary: r)
       (auto simp: stale_lock_def is_orphan_def isRouterPodExist_def isShadowPodExist_def Let_def intro!: store_intros)
  have "keeps_store Q (CheckClusterResources k opts copts)"
    unfolding CheckClusterResources_def GetKtResources_def analysisExpiredPods_def analysisExpiredConfigmaps_def
      analysisExpiredDeployments_def analysisExpiredServices_def api_call_defs Let_def
    by (intro store_intros store_analysis expired locks)
  then show ?thesis
    unfolding silenceCleanup_def api_call_defs Let_def by (intro store_intros store_each)
qed

lemma store_service_hosts: "keeps_store Q (getServiceHosts k opts cd ns short)"
proof -
  have "keeps_store Q (service_hosts_loop k opts cd ns short svcs hosts pods)" for svcs hosts pods
    by (induction svcs arbitrary: hosts pods) (auto simp: Let_def intro!: store_intros)
  then show ?thesis
    unfolding getServiceHosts_def GetAllServiceInNamespace_def by (intro store_intros)
qed

lemma store_watch: "keeps_store Q (watchServicesAndPods m ns pods short)" "keeps_store Q (dump_hosts opts copts names drp)"
  "keeps_store Q (setupShadowPortForward m opts pod r target)"
  unfolding watchServicesAndPods_def dump_hosts_def setupShadowPortForward_def Let_def by (intro store_intros)+

lemma store_setupDns: "keeps_store Q (setupDns k m opts copts pod ip)"
proof -
  have "keeps_store Q (dump_namespaces k m opts copts nss h)" for nss h
    by (induction nss arbitrary: h) (auto intro!: store_intros store_service_hosts store_watch)
  then show ?thesis
    unfolding setupDns_def dumpToHost_def Let_def by (intro store_intros store_service_hosts store_watch)
qed

lemma store_get_or_create: "keeps_store in_connect (getOrCreateShadow k m opts copts)"
proof -
  have shadow: "keeps_store in_connect (GetOrCreateShadow k opts x labels an envs e d)" for x labels an envs e d
    unfolding GetOrCreateShadow_def Let_def by (intro store_intros store_set) (auto split: option.split)
  have "keeps_store in_connect (ensure_session k r)" for r
    unfolding ensure_session_def now_def by (intro store_intros store_set) simp
  then show ?thesis
    unfolding getOrCreateShadow_def getLabels_def buildLaneShadowName_def ApplyLaneEnvoyFilter_def Let_def
    by (intro store_intros store_set shadow) simp_all
qed

lemma store_connect: "run_state (connect_command k m opts copts clean_opts) s = (r, t) \<Longrightarrow> Store_Component (Store t) = ''connect''"
proof -
  have modes: "keeps_store in_connect (ByTun2Socks k m opts copts)" "keeps_store in_connect (BySshuttle k m opts copts)"
    unfolding ByTun2Socks_def BySshuttle_def setup_tun_device_def setupTunRoute_def
    by (intro store_intros store_get_or_create store_watch store_setupDns)+
  have "keeps_store in_connect (connect_command k m opts copts clean_opts)" if "keeps_store in_connect (SetupProcess m ''connect'')"
    unfolding connect_command_def by (intro store_intros that store_silence_cleanup store_set modes) simp
  moreover have "keeps_store in_connect (SetupProcess m ''connect'')"
    unfolding SetupProcess_def by (intro store_intros store_set) simp
  ultimately have keeps: "keeps_store in_connect (connect_command k m opts copts clean_opts)" by blast
  assume run: "run_state (connect_command k m opts copts clean_opts) s = (r, t)"
  define s' where "s' = s\<lparr>Store := (Store s)\<lparr>Store_Component := ''connect''\<rparr>\<rparr>"
  have "run_state (SetupProcess m ''connect'') s = run_state (SetupProcess m ''connect'') s'"
    by (simp add: SetupProcess_def s'_def)
  then have "run_state (connect_command k m opts copts clean_opts) s' = (r, t)"
    using run by (simp add: connect_command_def)
  from keeps_storeD [OF keeps this] show ?thesis by (simp add: s'_def)
qed

lemma store_events: "watch_events k m opts copts view p q \<Longrightarrow> Store q = Store p"
proof (induction rule: watch_events.induct)
  note refresh = store_service_hosts store_watch store_intros
  have refreshes: "keeps_store Q (refresh_hosts k opts copts i w)" for Q i w
    unfolding refresh_hosts_def by (intro refresh)
  {
    case (ServiceAdded p q i r q')
    have "keeps_store (\<lambda>st. st = Store p) (service_added k m opts copts i (Watches (World q) ! i))"
      unfolding service_added_def by (intro refresh refreshes)
    from keeps_storeD [OF this ServiceAdded(3)] ServiceAdded show ?case by simp
  next
    case (ServiceDeleted p q i r q')
    have "keeps_store (\<lambda>st. st = Store p) (service_deleted k opts copts i (Watches (World q) ! i))"
      unfolding service_deleted_def by (rule refreshes)
    from keeps_storeD [OF this ServiceDeleted(3)] ServiceDeleted show ?case by simp
  next
    case (PodDeleted p q i podName r q')
    have "keeps_store (\<lambda>st. st = Store p) (pod_deleted k opts copts i (Watches (World q) ! i) podName)"
      unfolding pod_deleted_def by (intro refresh refreshes)
    from keeps_storeD [OF this PodDeleted(3)] PodDeleted show ?case by simp
  }
qed simp_all

section \<open>The cleanup\<close>

definition ended_names ::
  "string list \<Rightarrow> 'f name_service \<Rightarrow> (dns_server \<times> int) option \<Rightarrow> hosts_state \<Rightarrow> 'f name_service \<Rightarrow> (dns_server \<times> int) option \<Rightarrow> bool"
  where "ended_names user n l h n' l' \<longleftrightarrow> hosts_given_back user h \<and> n' = n \<and> l' = l"

lemma dumps_keep_ended: "dumps_keep (ended_names user n l)"
  by (simp add: dumps_keep_def ended_names_def DumpHosts_given_back)

lemma try_value: "go_try (State_Monad.return (Value x)) f = f x"
  by (simp add: go_try_def State_Monad.return_def State_Monad.bind_def)

lemma stays_restore_route: "machine_world k m view \<Longrightarrow> \<not> IsWindows m \<Longrightarrow> stays P (lift_io (RestoreRoute m))"
  by (simp add: stays_def RestoreRoute_def)

lemma cleanup_ends_names:
  fixes k :: "('c, 'f) desktop kube"
  assumes a: "api_server k view" and w: "machine_world k m view" and lin: "\<not> IsWindows m" and off: "far_call view shutdown"
    and mode: "has_prefix (Connect_DnsMode opts) ''hosts'' \<or> has_prefix (Connect_DnsMode opts) ''localDNS''"
    and c: "Store_Component (Store s) = ''connect''" and s: "on_machine view (session_names user n l) (World s)"
    and run: "run_state (connect_cleanup k m opts copts pid shutdown) s = (r, t)"
  shows "on_machine view (ended_names user n l) (World t)"
proof -
  note inv = machine_invariant [OF a w, of "session_names user n l"] and inv' = machine_invariant [OF a w, of "ended_names user n l"]
  let ?E = "on_machine view (ended_names user n l)"
  obtain u where u: "run_state (cleanLocalFiles k pid) s = (Value (), u)" using acts_cleanLocalFiles [OF a] by (rule acts_okE)
  have su: "on_machine view (session_names user n l) (World u)" using staysD [OF call_invariant.local_files [OF inv] u s] .
  define v where "v = u\<lparr>World := snd (run_state (drop_hosts_call opts copts) (World u))\<rparr>"
  have "view (World v) = view (World u)" by (rule view_outside [OF w]) (simp add: v_def drop_hosts_call_def)
  then have ve: "?E (World v)"
    using su DropHosts_given_back [of user "HostsFile (World u)"]
    by (simp add: v_def drop_hosts_call_def on_machine_def session_names_def ended_names_def)
  define route where "route = (if has_prefix (Connect_DnsMode opts) ''localDNS''
    then go_catch (lift_io (RestoreRoute m)) (\<lambda>_. State_Monad.return (Value ())) (\<lambda>_. State_Monad.return (Value ()))
    else State_Monad.return (Value () :: unit outcome) :: (('c, 'f) desktop prog, unit outcome) state)"
  define off_steps where "off_steps = shutdownTunDevice opts shutdown"
  define tail where "tail = go_try (cleanService k opts) (\<lambda>_. cleanShadowPodAndConfigMap k opts)"
  have drop: "run_state (lift_io (drop_hosts_call opts copts)) u = ((), v)"
    by (simp add: v_def drop_hosts_call_def)
  have hosts: "recoverGlobalHostsAndProxy opts (drop_hosts_call opts copts) (RestoreRoute m) =
      State_Monad.bind (lift_io (drop_hosts_call opts copts)) (\<lambda>_. route)"
    using mode by (simp add: recoverGlobalHostsAndProxy_def route_def)
  have "run_state (connect_cleanup k m opts copts pid shutdown) s =
      run_state (go_try (go_try (State_Monad.bind (lift_io (drop_hosts_call opts copts)) (\<lambda>_. route)) (\<lambda>_. off_steps))
        (\<lambda>_. go_try (State_Monad.return (Value ())) (\<lambda>_. tail))) u"
    using c u unfolding connect_cleanup_def CleanupWorkspace_def hosts off_steps_def tail_def by simp
  also have "\<dots> = run_state (go_try (go_try route (\<lambda>_. off_steps)) (\<lambda>_. tail)) v"
    by (simp only: run_go_try run_bind drop prod.case try_value)
  finally have rest: "run_state (go_try (go_try route (\<lambda>_. off_steps)) (\<lambda>_. tail)) v = (r, t)" using run by simp
  have "stays ?E (go_try (go_try route (\<lambda>_. off_steps)) (\<lambda>_. tail))"
    unfolding route_def off_steps_def tail_def shutdownTunDevice_def
    by (intro stays_intros stays_restore_route [OF w lin] stays_far off call_invariant.service_of_session [OF inv']
        call_invariant.shadows_of_session [OF inv'])
  from staysD [OF this rest ve] show ?thesis .
qed

section \<open>The properties\<close>

text \<open>The whole session: what the command has left is there until the end, but for the hosts file, which is given back.\<close>

lemma session_followed:
  assumes a: "api_server k view" and w: "machine_world k m view" and lin: "\<not> IsWindows m" "\<not> IsMacos m"
    and off: "far_call view shutdown"
    and mode: "has_prefix (Connect_DnsMode opts) ''hosts'' \<or> has_prefix (Connect_DnsMode opts) ''localDNS''"
    and start: "hosts_inv user (HostsFile (World s))" "LocalServer (World s) = None" "plain_cluster (view (World s))"
    and run: "run_state (connect_command k m opts copts clean_opts) s = (r, p)"
    and events: "watch_events k m opts copts view p q"
    and cleanup: "run_state (connect_cleanup k m opts copts pid shutdown) q = (r', q')"
    and later: "watch_events k m opts copts view q' t"
  shows "command_end m opts copts view user (Names (World s)) r (World p)"
    and "on_machine view (ended_names user (Names (World p)) (LocalServer (World p))) (World t)"
proof -
  have "on_machine view (session_names user (Names (World s)) None) (World s)" using start by (simp add: on_machine_def session_names_def)
  then show p: "command_end m opts copts view user (Names (World s)) r (World p)"
    using ends_connect [OF a w lin] run unfolding ends_def by blast
  then have "on_machine view (session_names user (Names (World p)) (LocalServer (World p))) (World p)"
    by (simp add: command_end_def on_machine_def session_names_def)
  from watch_events_keep [OF events a w dumps_keep_session this]
  have q: "on_machine view (session_names user (Names (World p)) (LocalServer (World p))) (World q)" .
  have "Store_Component (Store q) = ''connect''" using store_events [OF events] store_connect [OF run] by simp
  from cleanup_ends_names [OF a w lin(1) off mode this q cleanup]
  show "on_machine view (ended_names user (Names (World p)) (LocalServer (World p))) (World t)"
    by (rule watch_events_keep [OF later a w dumps_keep_ended])
qed

lemma name_server_end_same:
  assumes "on_machine view (ended_names user (Names d) (LocalServer d)) e"
  shows "name_server_end m opts r cause e = name_server_end m opts r cause d"
proof -
  have "Names e = Names d" "LocalServer e = LocalServer d" using assms by (simp_all add: on_machine_def ended_names_def)
  then show ?thesis unfolding name_server_end_def name_server_started_def by (simp only:)
qed


text \<open>
  C8.  A session that hangs up, quits, or loses its pid file wakes the main goroutine only: in the mode
  localDNS a successful session that ends so leaves the name server of the machine at the address of
  the local DNS server, which is gone with the process, with the redirecting rule that it had inserted.
  The local part of the clean command takes both back.
\<close>

theorem name_server_left_to_clean:
  assumes a: "api_server k view" and w: "machine_world k m view" and lin: "\<not> IsWindows m" "\<not> IsMacos m"
    and off: "far_call view shutdown" and mode: "has_prefix (Connect_DnsMode opts) ''localDNS''"
    and start: "hosts_inv user (HostsFile (World s))" "LocalServer (World s) = None" "plain_cluster (view (World s))"
    and names: "unmarked (ResolvLines (Names (World s)))" "counts_rules (Iptables m) rules" "rules (Firewall (Names (World s))) = 0"
    and run: "run_state (connect_command k m opts copts clean_opts) s = (Value (), p)"
    and events: "watch_events k m opts copts view p q"
    and cleanup: "run_state (connect_cleanup k m opts copts pid shutdown) q = (r', q')"
    and later: "watch_events k m opts copts view q' t"
    and cause: "\<not> wakes_name_server cause"
  shows "\<exists>n. name_server_end m opts (Value ()) cause (World t) = Some n \<and>
    ResolvLines n = setupResolvConf (ResolvLines (Names (World s))) (''127.0.0.1:'' @ itoa 10053) \<and> rules (Firewall n) = 1 \<and>
    (\<exists>u. RestoreNameServer (Iptables m) n = Some u \<and> ResolvLines u = ResolvLines (Names (World s)) \<and> rules (Firewall u) = 0)"
proof -
  from mode have "has_prefix (Connect_DnsMode opts) ''hosts'' \<or> has_prefix (Connect_DnsMode opts) ''localDNS''" by simp
  note session = session_followed [OF a w lin off this start run events cleanup later]
  have "name_server_started opts (Value ()) (World p)" using mode session(1) by (auto simp: name_server_started_def command_end_def has_prefix_def)
  then have set: "set_name_server (Iptables m) (Connect_DnsMode opts) (local_server_address m copts) (Names (World s)) = (Value (), Names (World p))"
    using session(1) mode by (auto simp: command_end_def)
  have port: "local_dns_port m copts = 10053" using lin by (simp add: local_dns_port_def)
  obtain ok f where f: "Iptables m Insert (Firewall (Names (World s))) = (ok, f)" by fastforce
  with set mode have n: "Names (World p) = (Names (World s))\<lparr>Firewall := f, ResolvLines :=
      setupResolvConf (ResolvLines (Names (World s))) (''127.0.0.1:'' @ itoa 10053)\<rparr>" and ok: "ok"
    unfolding port by (auto simp: set_name_server_def setupIptables_def split: if_splits)
  have "rules f = 1" using names(2,3) f ok unfolding counts_rules_def by (metis (mono_tags, lifting) One_nat_def prod.case)
  moreover obtain v where "restoreIptables (Iptables m) f = Some v" "rules v = 0" using restoreIptables_ends [OF names(2)] by blast
  ultimately show ?thesis
    using n cause restore_setup [OF names(1)] unfolding name_server_end_same [OF session(2)]
    by (simp add: name_server_end_def RestoreNameServer_def)
qed

section \<open>A session in memory\<close>

text \<open>The cluster in memory behind the machine; keys can be made, and pods run once somebody waits for them.\<close>

definition live_desktop :: "int \<Rightarrow> (cluster_objects, 'f) desktop kube" where
  "live_desktop t = (desktop_kube t)\<lparr>
     GenerateKey := (\<lambda>f. State_Monad.return (Value \<lparr>PublicKey = ''pub'', PrivateKey = ''priv'', PrivateKeyPath = f\<rparr>)),
     Sleep := (\<lambda>n. on_outside (Sleep (live_kube t) n))\<rparr>"

lemma live_desktop_ok: "api_server (live_desktop t :: (cluster_objects, 'f) desktop kube) (\<lambda>d. Outside d)"
proof -
  have "cluster_runs (Outside d) (Outside (snd (run_state (on_outside (Sleep (live_kube t) n)) d)))" for d :: "(cluster_objects, 'f) desktop" and n
    using api_sleep [OF live_kube_ok, of "Outside d" t n] by (simp add: on_outside_def split_def)
  moreover have "api_server (desktop_kube t :: (cluster_objects, 'f) desktop kube) (\<lambda>d. Outside d)" by (rule desktop_kube_ok)
  ultimately show ?thesis unfolding api_server_def live_desktop_def by simp
qed

lemma outside_id: "(\<And>d. snd (run_state c d) = d) \<Longrightarrow> far_call view c"
  unfolding far_call_def by (metis desktop.surjective desktop.update_convs(1))

lemma far_crud_outside: "far_crud (crud_outside c)"
  by (auto simp: far_crud_def crud_outside_def outside_only_def on_outside_def split: prod.split)

lemma far_live_sleep: "far_call (\<lambda>d. Outside d) (on_outside (Sleep (live_kube t) n))"
  unfolding far_call_def by (intro allI exI conjI) (auto simp: on_outside_def live_kube_def plain_cluster_def plain_ip_def)

lemma live_commands: "far_runner view (RunCommand mem_machine)"
  by (simp add: far_runner_def keeps_world_def mem_machine_def)

lemma live_tun_check: "run_state (tun_check_context mem_machine) d = (Value (), d)"
  by (simp add: tun_check_context_def run_outside_def CheckContext_def mem_machine_def)

lemma live_world: "machine_world (live_desktop t) mem_machine (\<lambda>d. Outside d)"
  using live_commands [of "\<lambda>d. Outside d"]
  by (simp add: far_crud_outside far_live_sleep machine_world_def live_desktop_def desktop_kube_def mem_machine_def
      sees_outside_def outside_id)

interpretation live_calls: call_invariant "live_desktop t :: (cluster_objects, nat) desktop kube" "\<lambda>d. Outside d" "on_machine (\<lambda>d. Outside d) R" for t R
  by (rule machine_invariant [OF live_desktop_ok live_world])

definition live_connect :: connect_options where
  "live_connect = mem_connect\<lparr>Connect_DisableTunRoute := True\<rparr>"

lemma live_shadow:
  "\<exists>p. run_state (getOrCreateShadow (live_desktop 7) mem_machine mem_opts live_connect) desktop_prog =
     (Value (''10.1.0.9'', ''kt-connect-shadow-abcde'', ''/home/dev/.kt/key/kt-connect-shadow-abcde.key''), p) \<and>
   HostsFile (World p) = HostsFile mem_desktop \<and> Names (World p) = Names mem_desktop \<and> LocalServer (World p) = None"
proof -
  have "fst (run_state (getOrCreateShadow (live_desktop 7) mem_machine mem_opts live_connect) desktop_prog) =
      Value (''10.1.0.9'', ''kt-connect-shadow-abcde'', ''/home/dev/.kt/key/kt-connect-shadow-abcde.key'')"
    by code_simp
  then obtain p where p: "run_state (getOrCreateShadow (live_desktop 7) mem_machine mem_opts live_connect) desktop_prog =
      (Value (''10.1.0.9'', ''kt-connect-shadow-abcde'', ''/home/dev/.kt/key/kt-connect-shadow-abcde.key''), p)"
    by (metis prod.collapse)
  let ?R = "\<lambda>h n l. h = HostsFile mem_desktop \<and> n = Names mem_desktop \<and> l = None"
  have "on_machine (\<lambda>d. Outside d) ?R (World desktop_prog)"
    by (simp add: on_machine_def desktop_prog_def mem_desktop_def plain_cluster_def mem_cluster_def mem_pod_def mem_service_def plain_ip_def)
  from staysD [OF stays_get_or_create [OF live_desktop_ok live_world] p this] p show ?thesis by (auto simp: on_machine_def)
qed

lemma live_connect_succeeds:
  "fst (run_state (connect_command (live_desktop 7) mem_machine mem_opts live_connect clean_opts) desktop_prog) = Value ()"
proof -
  obtain p where p: "run_state (getOrCreateShadow (live_desktop 7) mem_machine mem_opts live_connect) desktop_prog =
      (Value (''10.1.0.9'', ''kt-connect-shadow-abcde'', ''/home/dev/.kt/key/kt-connect-shadow-abcde.key''), p)"
    "HostsFile (World p) = HostsFile mem_desktop" "Names (World p) = Names mem_desktop" "LocalServer (World p) = None"
    using live_shadow by blast
  obtain hosts names where "run_state (getServiceHosts (live_desktop 7) mem_opts (Connect_ClusterDomain live_connect)
      (Global_Namespace mem_opts) True) p = (Value (hosts, names), p)"
    using getServiceHosts_run [OF live_desktop_ok] by metis
  moreover have "has_prefix (Connect_DnsMode mem_opts) ''localDNS''" by (simp add: mem_opts_def has_prefix_def)
  moreover have "dropHosts cd ns [''127.0.0.1 localhost''] [] = Value ([''127.0.0.1 localhost''], [])" for cd ns
    by (simp add: dropHosts_def)
  ultimately have dns: "fst (run_state (setupDns (live_desktop 7) mem_machine mem_opts live_connect ''kt-connect-shadow-abcde'' ''10.1.0.9'') p) = Value ()"
    using p(2,3)
    by (simp add: setupDns_local dump_hosts_def DumpHosts_def loadHostsFile_def updateHostsFile_def
        watchServicesAndPods_def setupShadowPortForward_def SetupLocalDns_def upstream_server_def SetNameServer_def
        set_name_server_def setupIptables_def rule_counter_def mem_desktop_def mem_machine_def mem_opts_def Let_def)
  have "run_state (ByTun2Socks (live_desktop 7) mem_machine mem_opts live_connect) desktop_prog =
      run_state (setupDns (live_desktop 7) mem_machine mem_opts live_connect ''kt-connect-shadow-abcde'' ''10.1.0.9'') p"
    using p(1) live_tun_check by (simp add: ByTun2Socks_def setupShadowPortForward_def startSocks5Connection_def setup_tun_device_def
        mem_machine_def mem_opts_def live_connect_def mem_connect_def Let_def)
  with dns have "fst (run_state (ByTun2Socks (live_desktop 7) mem_machine mem_opts live_connect) desktop_prog) = Value ()" by simp
  moreover have "run_state (connect_command (live_desktop 7) mem_machine mem_opts live_connect clean_opts) desktop_prog =
      run_state (ByTun2Socks (live_desktop 7) mem_machine mem_opts live_connect) desktop_prog"
    by (simp add: connect_command_def SetupProcess_def desktop_prog_def mem_prog_def live_connect_def mem_connect_def mem_opts_def
        mem_machine_def)
  ultimately show ?thesis by simp
qed

lemma desktop_start:
  "hosts_inv [''127.0.0.1 localhost''] (HostsFile (World desktop_prog))" "LocalServer (World desktop_prog) = None"
  "plain_cluster (Outside (World desktop_prog))" "unmarked (ResolvLines (Names (World desktop_prog)))"
  "Firewall (Names (World desktop_prog)) = 0"
  by (simp_all add: desktop_prog_def mem_desktop_def hosts_inv_def hosts_ready_def no_markers_def plain_cluster_def mem_cluster_def
      mem_pod_def mem_service_def plain_ip_def unmarked_def has_suffix_def)


text \<open>The same session, whose pid file is removed.\<close>

lemma name_server_left_to_clean_witness:
  "\<exists>p q'. run_state (connect_command (live_desktop 7) mem_machine mem_opts live_connect (mem_clean_options False)) desktop_prog = (Value (), p) \<and>
     snd (run_state (connect_cleanup (live_desktop 7) mem_machine mem_opts live_connect ''pid'' (State_Monad.return (Value ()))) p) = q' \<and>
     (\<exists>n. name_server_end mem_machine mem_opts (Value ()) PidFileRemoved (World q') = Some n \<and>
        ResolvLines n = setupResolvConf [''nameserver 192.168.1.1''] (''127.0.0.1:'' @ itoa 10053) \<and> Firewall n = 1 \<and>
        (\<exists>u. RestoreNameServer rule_counter n = Some u \<and> ResolvLines u = [''nameserver 192.168.1.1''] \<and> Firewall u = 0))"
proof -
  obtain p where p: "run_state (connect_command (live_desktop 7) mem_machine mem_opts live_connect (mem_clean_options False)) desktop_prog = (Value (), p)"
    using live_connect_succeeds by (metis prod.collapse)
  obtain r' q' where c: "run_state (connect_cleanup (live_desktop 7) mem_machine mem_opts live_connect ''pid''
      (State_Monad.return (Value ()))) p = (r', q')" by fastforce
  have lin: "\<not> IsWindows mem_machine" "\<not> IsMacos mem_machine" and rules: "counts_rules (Iptables mem_machine) (\<lambda>n. n)"
    and ipt: "Iptables mem_machine = rule_counter"
    using rule_counter_ok by (simp_all add: mem_machine_def)
  have mode: "has_prefix (Connect_DnsMode mem_opts) ''localDNS''" by (simp add: mem_opts_def has_prefix_def)
  have off: "far_call (\<lambda>d. Outside d) (State_Monad.return (Value ()) :: (cluster_objects, nat) desktop_call)" by (rule outside_id) simp
  have wakes: "\<not> wakes_name_server PidFileRemoved" by (simp add: wakes_name_server_def)
  have "ResolvLines (Names (World desktop_prog)) = [''nameserver 192.168.1.1'']" by (simp add: desktop_prog_def mem_desktop_def)
  with name_server_left_to_clean [OF live_desktop_ok live_world lin off mode desktop_start(1-4) rules desktop_start(5) p Quiet c Quiet wakes] p c
  show ?thesis unfolding ipt by (metis snd_conv)
qed

end
