(* ===== verification/MeshUsers.thy ===== *)
theory MeshUsers
  imports MeshSession
begin

text \<open>
  A mesh with any number of users, from the first that joins to the last that leaves.  Each user runs
  the command in a process of its own, with a store of its own; they meet only in the cluster.  The
  router counts them, and the service can be restored at every moment.
\<close>

section \<open>Joining\<close>

text \<open>A heartbeat of a pod changes its annotation, and nothing else that is looked at here.\<close>

definition beats_ok :: "'w kube \<Rightarrow> ('w \<Rightarrow> cluster_objects) \<Rightarrow> bool" where
  "beats_ok k view \<longleftrightarrow> (\<forall>w ns n time ms m p. find_obj (ClPods (view w)) ms m = Some p \<longrightarrow>
     (\<exists>p'. find_obj (ClPods (view (snd (run_state (api_patch (PodsApi k) ns n (resourceHeartbeatPatch time)) w)))) ms m = Some p' \<and>
        DeletionTimestamp p' = DeletionTimestamp p \<and>
        (\<forall>key. key \<noteq> KtLastHeartBeat \<longrightarrow> mlookup (Annotations p') key = mlookup (Annotations p) key)))"

lemma router_heart_beat:
  assumes a: "api_server k view" and b: "beats_ok k view"
  shows "stays (pod_at view ns x (router_of h cfg)) (UpdatePodHeartBeat k y ms)"
proof -
  have "stays (pod_at view ns x (router_of h cfg)) (lift_io (api_patch (PodsApi k) ms y (resourceHeartbeatPatch time)))" for time
  proof (rule stays_lift)
    fix w assume "pod_at view ns x (router_of h cfg) w"
    then obtain p where p: "find_obj (ClPods (view w)) ns x = Some p" "router_of h cfg (Some p)"
      by (auto simp: router_of_def)
    from b p(1) obtain p' where p': "find_obj (ClPods (view (snd (run_state (api_patch (PodsApi k) ms y (resourceHeartbeatPatch time)) w)))) ns x = Some p'"
      "DeletionTimestamp p' = DeletionTimestamp p" "\<forall>key. key \<noteq> KtLastHeartBeat \<longrightarrow> mlookup (Annotations p') key = mlookup (Annotations p) key"
      unfolding beats_ok_def by blast
    then have "mget (Annotations p') KtRefCount = mget (Annotations p) KtRefCount" "mget (Annotations p') KtConfig = mget (Annotations p) KtConfig"
      by (simp_all add: mget_def)
    with p(2) p'(1,2) show "pod_at view ns x (router_of h cfg) (snd (run_state (api_patch (PodsApi k) ms y (resourceHeartbeatPatch time)) w))"
      by (simp add: router_of_def)
  qed
  then show ?thesis
    unfolding UpdatePodHeartBeat_def update_heart_beat_def
    by (intro stays_bind pod_clock [OF a]) (auto simp: stays_def Let_def split: outcome.split prod.split)
qed

lemma router_increase:
  assumes a: "api_server k view" and h: "0 \<le> h" "h < 2 ^ 62"
    and p: "pod_at view ns x (router_of h cfg) (World s)"
  shows "\<exists>t. run_state (IncreasePodRef k x ns) s = (Value (), t) \<and> pod_at view ns x (router_of (h + 1) cfg) (World t)"
proof -
  from p obtain q where q: "find_obj (ClPods (view (World s))) ns x = Some q" "DeletionTimestamp q = None"
    "mget (Annotations q) KtRefCount = itoa h" "mget (Annotations q) KtConfig = cfg"
    by (auto simp: router_of_def)
  let ?q = "q\<lparr>Annotations := mput (Annotations q) KtRefCount (itoa (h + 1))\<rparr>"
  obtain t where t: "run_state (UpdatePod k ?q) s = (Value (bump ?q), t)" "find_obj (ClPods (view (World t))) ns x = Some (bump ?q)"
    using pod_annotation_update [OF a q(1)] by blast
  have i: "atoi (itoa h) = Some h" using h by (simp add: atoi_itoa)
  then have "mget (Annotations q) KtRefCount \<noteq> []" using q(3) by (auto simp: atoi_def)
  then have "run_state (IncreasePodRef k x ns) s = (Value (), t)"
    using q t(1) i by (simp add: IncreasePodRef_def GetPod_found [OF a q(1)] atoi_err_def mset_entry_found)
  moreover have "pod_at view ns x (router_of (h + 1) cfg) (World t)"
    using t(2) q by (simp add: router_of_def bump_def)
  ultimately show ?thesis by blast
qed

text \<open>Nobody has joined, or \<open>h\<close> users have.\<close>

definition router_state :: "nat \<Rightarrow> string \<Rightarrow> pod option \<Rightarrow> bool" where
  "router_state h cfg q = (if h = 0 then q = None else router_of (int h) cfg q)"

lemma pod_at_router_state [simp]:
  "pod_at view ns x (router_state h cfg) w \<longleftrightarrow> router_state h cfg (find_obj (ClPods (view w)) ns x)"
  by (cases "h = 0") (simp_all add: router_state_def [abs_def])

text \<open>The part of \<open>createRouter\<close> in which a user joins, up to its command in the router.\<close>

lemma createRouter_existing:
  assumes a: "api_server k view" and b: "beats_ok k view" and h: "0 < h" "h < 2 ^ 62" and ns: "Global_Namespace opts = ns"
    and p: "pod_at view ns x (router_state h cfg) (World s)"
  obtains q :: pod and r u s' where "run_state (router_command k opts x [''add'', v]) u = (r, s')" "Store s' = Store s"
    "pod_at view ns x (router_state (Suc h) cfg) (World s')"
    "run_state (createRouter k opts random x n ports l v) s = (case r of
       Value _ \<Rightarrow> (Value (mput l KtTarget (mget (Labels q) KtTarget)), s'\<lparr>Store := (Store s')\<lparr>Store_Router := x\<rparr>\<rparr>)
     | Fail e \<Rightarrow> (Fail e, s') | Panic \<Rightarrow> (Panic, s'))"
proof -
  let ?R = "\<lambda>h. pod_at view ns x (router_of h cfg)"
  have R: "?R (int h) (World s)" using p h by (simp add: router_state_def)
  then obtain q where q: "find_obj (ClPods (view (World s))) ns x = Some q" "DeletionTimestamp q = None" "mget (Annotations q) KtRefCount = itoa (int h)"
    by (auto simp: router_of_def)
  have i: "atoi (itoa (int h)) = Some (int h)" using h by (simp add: atoi_itoa)
  have cur: "run_state (current_router k opts x) s = (Value q, s)"
    using q by (simp add: current_router_def ns GetPod_found [OF a q(1)])
  obtain r1 s1 where s1: "run_state (UpdatePodHeartBeat k x ns) s = (r1, s1)" by fastforce
  have R1: "?R (int h) (World s1)" "Store s1 = Store s"
    using staysD [OF router_heart_beat [OF a b] s1 R] keeps_storeD [OF store_more(4) s1, of "\<lambda>st. st = Store s"] by simp_all
  obtain s2 where s2: "run_state (IncreasePodRef k x ns) s1 = (Value (), s2)" "?R (int h + 1) (World s2)"
    using router_increase [OF a _ _ R1(1)] h by auto
  have St2: "Store s2 = Store s" using keeps_storeD [OF store_refs(1) s2(1), of "\<lambda>st. st = Store s"] R1(2) by simp
  obtain r3 s3 where s3: "run_state (router_command k opts x [''add'', v]) s2 = (r3, s3)" by fastforce
  have "stays (?R (int h + 1)) (router_command k opts x [''add'', v])"
    unfolding router_command_def by (intro stays_intros a)
  from staysD [OF this s3 s2(2)] have R3: "pod_at view ns x (router_state (Suc h) cfg) (World s3)" "Store s3 = Store s"
    using keeps_storeD [OF store_mesh_ops(3) s3, of "\<lambda>st. st = Store s"] St2 by (simp_all add: router_state_def add.commute)
  from s3 R3(2,1) show ?thesis
    by (rule that [where q = q]) (use cur s1 s2(1) s3 i q(3) in \<open>simp add: createRouter_def Let_def ns atoi_err_def split: outcome.split\<close>)
qed

lemma createRouter_joins:
  assumes a: "api_server k view" and b: "beats_ok k view" and h: "h < 2 ^ 62" and ns: "Global_Namespace opts = ns"
    and p: "pod_at view ns x (router_state h (''service='' @ n)) (World s)"
    and run: "run_state (createRouter k opts random x n ports l v) s = (Value l', t)"
  shows "Store t = (Store s)\<lparr>Store_Router := x\<rparr> \<and> pod_at view ns x (router_state (Suc h) (''service='' @ n)) (World t)"
proof (cases "h = 0")
  case True
  then have "pod_at view (Global_Namespace opts) x (\<lambda>q. q = None) (World s)" using p ns by (simp add: router_state_def)
  from createRouter_first [OF a this run] show ?thesis using True ns by (auto simp: is_value_def router_state_def)
next
  case False
  show ?thesis
    by (rule createRouter_existing [OF a b _ h ns p, of v random n ports l])
       (use False run in \<open>auto split: outcome.splits\<close>)
qed

text \<open>
  When the command \<open>add\<close> fails in the router, the user has been counted and is not in the store: the
  cleanup of the session does not lower the count again, so that the router outlives its last user.
\<close>

lemma failed_join_keeps_count:
  assumes a: "api_server k view" and b: "beats_ok k view" and h: "0 < h" "h < 2 ^ 62" and ns: "Global_Namespace opts = ns"
    and p: "pod_at view ns x (router_state h cfg) (World s)"
    and fails: "\<And>s. fst (run_state (router_command k opts x [''add'', v]) s) = Fail e"
  shows "\<exists>t. run_state (createRouter k opts random x n ports l v) s = (Fail e, t) \<and> Store t = Store s \<and>
    pod_at view ns x (router_state (Suc h) cfg) (World t)"
proof (rule createRouter_existing [OF a b h ns p, of v random n ports l])
  fix q r u s' assume r: "run_state (router_command k opts x [''add'', v]) u = (r, s')" "Store s' = Store s"
    "pod_at view ns x (router_state (Suc h) cfg) (World s')"
    and run: "run_state (createRouter k opts random x n ports l v) s = (case r of
       Value _ \<Rightarrow> (Value (mput l KtTarget (mget (Labels q) KtTarget)), s'\<lparr>Store := (Store s')\<lparr>Store_Router := x\<rparr>\<rparr>)
     | Fail e \<Rightarrow> (Fail e, s') | Panic \<Rightarrow> (Panic, s'))"
  have "r = Fail e" using fails [of u] r(1) by simp
  with r(2,3) run show ?thesis by auto
qed

text \<open>A mesh that succeeds has added one user to the router, and is in the store.\<close>

lemma mesh_joins:
  assumes a: "api_server k view" and c: "side_calls_ok k view forward" and b: "patches_ok k view" "beats_ok k view"
    and l: "mlookup (labels_after opts (GoMap [(KtRole, ''shadow-mesh''), (KtTarget, rnd 1)])) KtLane = None"
    and n: "Name svc = n" and ns: "Global_Namespace opts = ns" and h: "h < 2 ^ 62"
  shows "ends (\<lambda>s. no_router n (Store s) \<and> pod_at view ns (n @ RouterPodSuffix) (router_state h (''service='' @ n)) (World s))
    (auto_mesh_locked k opts forward expose rnd svc)
    (\<lambda>r t. r = Value () \<longrightarrow> has_router n (Store t) \<and>
       pod_at view ns (n @ RouterPodSuffix) (router_state (Suc h) (''service='' @ n)) (World t))"
    (is "ends (\<lambda>s. no_router n (Store s) \<and> ?P h (World s)) _ ?C")
proof (rule mesh_before_router [OF a n])
  show "?C (Fail e) s \<and> ?C Panic s" for s e by simp
  show "stays (?P h) (createStuntmanService k opts svc ports)" for ports by (rule pod_stuntman [OF a b(1)])
  show "ends (\<lambda>s. no_router n (Store s) \<and> ?P h (World s))
       (go_try (createRouter k opts (rnd 2) (n @ RouterPodSuffix) n ports (GoMap [(KtRole, ''router'')]) (fst v @ '':'' @ snd v)) (\<lambda>sel.
        go_try (UpdateServiceSelector k n (Global_Namespace opts) sel) (\<lambda>_. do {
          set_store (\<lambda>s. s\<lparr>Store_Origin := n\<rparr>);
          CreateShadowAndInbound k opts forward (n @ MeshPodInfix @ snd v) expose (GoMap [(KtRole, ''shadow-mesh''), (KtTarget, rnd 1)])
            (GoMap [(KtConfig, ''service='' @ n @ MeshPodInfix @ snd v)]) d }))) ?C" (is "ends _ (go_try ?router ?f) _") for ports d v
    unfolding ends_def
  proof (intro allI impI)
    fix s r t assume s: "no_router n (Store s) \<and> ?P h (World s)" and run: "run_state (go_try ?router ?f) s = (r, t)" and r: "r = Value ()"
    have after: "ends (\<lambda>s. has_router n (Store s) \<and> ?P (Suc h) (World s)) (?f y) ?C" for y
      unfolding ns by (rule mesh_after_router [OF a c l]) blast
    obtain y u where u: "run_state ?router s = (Value y, u)" using run r by (cases "run_state ?router s"; cases "fst (run_state ?router s)") auto
    have "has_router n (Store u) \<and> ?P (Suc h) (World u)"
      using createRouter_joins [OF a b(2) h ns conjunct2 [OF s] u] s by (simp add: in_mesh_def)
    moreover have "run_state (?f y) u = (r, t)"
      using run unfolding run_go_try [of ?router] u prod.case outcome.case .
    ultimately have "?C r t" using after [of y] unfolding ends_def by blast
    with r show "has_router n (Store t) \<and> ?P (Suc h) (World t)" by simp
  qed
qed (intro stays_intros a)+

section \<open>A mesh from its first user to its last\<close>

text \<open>The service under a mesh of \<open>h\<close> users, between two commands.\<close>

definition meshed :: "('w \<Rightarrow> cluster_objects) \<Rightarrow> string \<Rightarrow> string \<Rightarrow> service \<Rightarrow> nat \<Rightarrow> 'w \<Rightarrow> bool" where
  "meshed view ns n orig h w \<longleftrightarrow>
     svc_at view ns n (\<lambda>x. restorable orig x \<and> mlookup (Annotations x) KtLock = None) w \<and>
     pod_at view ns (n @ RouterPodSuffix) (router_state h (''service='' @ n)) w"

lemma meshed_join:
  assumes a: "api_server k view" and c: "side_calls_ok k view forward" and b: "patches_ok k view" "beats_ok k view"
    and l: "mlookup (labels_after opts (GoMap [(KtRole, ''shadow-mesh''), (KtTarget, rnd 1)])) KtLane = None"
    and ns: "Global_Namespace opts = ns" and h: "h < 2 ^ 62" and p: "plain_service orig"
    and m: "meshed view ns n orig h (World s)" and st: "no_router n (Store s)" and n: "Name svc = n"
    and run: "run_state (AutoMesh k opts forward expose rnd svc) s = (Value (), t)"
  shows "has_router n (Store t) \<and> meshed view ns n orig (Suc h) (World t)"
proof -
  from m obtain cur where cur: "find_obj (ClServices (view (World s))) ns n = Some cur" "restorable orig cur" "mlookup (Annotations cur) KtLock = None"
    by (auto simp: meshed_def svc_at_def)
  obtain svc' s1 r s2 t' where t': "run_state (go_try (LockService k n ns 0)
      (\<lambda>svc. go_defer (auto_mesh_locked k opts forward expose rnd svc) (UnlockService k (Name svc) ns))) s = (r, t')"
    and svc': "Name svc' = n" and s1: "Store s1 = Store s" "ClPods (view (World s1)) = ClPods (view (World s))"
      "svc_at view ns n (\<lambda>x. x = svc') (World s1)"
    and body: "run_state (auto_mesh_locked k opts forward expose rnd svc') s1 = (r, s2)"
    and u: "Store t' = Store s2" "ClPods (view (World t')) = ClPods (view (World s2))"
      "svc_at view ns n (\<lambda>x. restorable orig x \<and> mlookup (Annotations x) KtLock = None) (World t')"
      "svc_at view ns n (\<lambda>x. x = svc') (World s2) \<longrightarrow> svc_at view ns n (untouched cur) (World t')"
    by (rule locked_run [OF a cur(1) p cur(3,2) stays_auto_mesh [OF a c _ _ ns]]) (assumption | rule that)+
  have eq: "t' = t" "r = Value ()" using t' run by (simp_all add: AutoMesh_def n ns)
  have "no_router n (Store s1) \<and> pod_at view ns (n @ RouterPodSuffix) (router_state h (''service='' @ n)) (World s1)"
    using st s1(1,2) m by (simp add: meshed_def)
  with mesh_joins [where rnd = rnd, OF a c b l svc' ns h] body eq(2)
  have "has_router n (Store s2) \<and> pod_at view ns (n @ RouterPodSuffix) (router_state (Suc h) (''service='' @ n)) (World s2)"
    unfolding ends_def by blast
  then show ?thesis using u eq(1) by (simp add: meshed_def)
qed

text \<open>A user leaves: one of several, and the last.\<close>

lemma meshed_leave:
  assumes a: "api_server k view" and ns: "Global_Namespace opts = ns" and h: "0 < h" "Suc h < 2 ^ 62"
    and m: "meshed view ns n orig (Suc h) (World s)" and st: "Store_Router (Store s) = n @ RouterPodSuffix"
  shows "\<exists>t. run_state (recoverAutoMeshRoute k opts) s = (Value (), t) \<and> meshed view ns n orig h (World t)"
proof -
  from m obtain p where p: "find_obj (ClPods (view (World s))) ns (n @ RouterPodSuffix) = Some p" "DeletionTimestamp p = None"
    "mget (Annotations p) KtRefCount = itoa (int (Suc h))" "mget (Annotations p) KtConfig = ''service='' @ n"
    by (auto simp: meshed_def router_state_def router_of_def)
  obtain t p' where t: "run_state (recoverAutoMeshRoute k opts) s = (Value (), t)" "ClServices (view (World t)) = ClServices (view (World s))"
    "find_obj (ClPods (view (World t))) ns (n @ RouterPodSuffix) = Some p'"
    "mget (Annotations p') KtRefCount = itoa (int (Suc h) - 1)" "mget (Annotations p') KtConfig = mget (Annotations p) KtConfig"
    "DeletionTimestamp p' = DeletionTimestamp p"
    using mesh_leave_shared [OF a st, of opts p "int (Suc h)", unfolded ns] p(1,3) h by auto
  then have "meshed view ns n orig h (World t)"
    using m p(2,4) h(1) svc_at_services [where view = view and w' = "World t" and w = "World s" and ns = ns and n = n, OF t(2)] by (auto simp: meshed_def router_state_def router_of_def)
  with t(1) show ?thesis by blast
qed

lemma meshed_leave_last:
  assumes a: "api_server k view" and ns: "Global_Namespace opts = ns" and n: "CHR '','' \<notin> set n" and p: "plain_service orig"
    and m: "meshed view ns n orig (Suc 0) (World s)" and st: "Store_Router (Store s) = n @ RouterPodSuffix"
  shows "\<exists>t. run_state (recoverAutoMeshRoute k opts) s = (Value (), t) \<and> svc_at view ns n (restored orig) (World t) \<and>
    find_obj (ClPods (view (World t))) ns (n @ RouterPodSuffix) = None \<and>
    find_obj (ClServices (view (World t))) ns (n @ StuntmanServiceSuffix) = None"
proof -
  from m obtain q cur where q: "find_obj (ClPods (view (World s))) ns (n @ RouterPodSuffix) = Some q"
    "mget (Annotations q) KtRefCount = ''1''" "mget (Annotations q) KtConfig = ''service='' @ n"
    and cur: "find_obj (ClServices (view (World s))) ns n = Some cur" "restorable orig cur"
    by (auto simp: meshed_def svc_at_def router_state_def router_of_def itoa_one)
  from mesh_leave_last [OF a st _ q(1)[folded ns] q(2,3) n cur(1)[folded ns] p cur(2)] show ?thesis
    unfolding ns by (auto simp: svc_at_def removed_def)
qed

text \<open>
  The history of a mesh: the stores of the users who are in it, the last that joined first, and the world.  A user starts with
  a new store; what else the process state holds (the status of heartbeats) is arbitrary.
\<close>

definition new_user :: "string \<Rightarrow> 'w prog \<Rightarrow> bool" where
  "new_user n s \<longleftrightarrow> Store_Component (Store s) = ''mesh'' \<and> Store_Lane (Store s) = [] \<and> Store_Service (Store s) = [] \<and>
     Store_Router (Store s) = [] \<and> n \<noteq> []"

inductive mesh_history ::
  "'w kube \<Rightarrow> kt_options \<Rightarrow> 'w forwarder \<Rightarrow> string \<Rightarrow> (string \<Rightarrow> nat \<Rightarrow> string) \<Rightarrow> service \<Rightarrow> 'w \<Rightarrow> runtime_store list \<Rightarrow> 'w \<Rightarrow> bool"
  for k opts forward expose rnds svc w0 where
  first: "new_user (Name svc) s \<Longrightarrow> World s = w0 \<Longrightarrow> run_state (AutoMesh k opts forward expose (rnds u) svc) s = (Value (), t) \<Longrightarrow>
    mesh_history k opts forward expose rnds svc w0 [Store t] (World t)"
| joins: "mesh_history k opts forward expose rnds svc w0 users w \<Longrightarrow> users \<noteq> [] \<Longrightarrow> Suc (length users) < 2 ^ 62 \<Longrightarrow>
    new_user (Name svc) s \<Longrightarrow> World s = w \<Longrightarrow> run_state (AutoMesh k opts forward expose (rnds u) svc) s = (Value (), t) \<Longrightarrow>
    mesh_history k opts forward expose rnds svc w0 (Store t # users) (World t)"
| leaves: "mesh_history k opts forward expose rnds svc w0 (us @ Store s # vs) (World s) \<Longrightarrow>
    run_state (recoverAutoMeshRoute k opts) s = (r, t) \<Longrightarrow>
    mesh_history k opts forward expose rnds svc w0 (us @ vs) (World t)"

definition mesh_inv :: "('w \<Rightarrow> cluster_objects) \<Rightarrow> string \<Rightarrow> string \<Rightarrow> service \<Rightarrow> runtime_store list \<Rightarrow> 'w \<Rightarrow> bool" where
  "mesh_inv view ns n orig users w \<longleftrightarrow> length users < 2 ^ 62 \<and> (\<forall>st \<in> set users. Store_Router st = n @ RouterPodSuffix) \<and>
     (if users = [] then svc_at view ns n (restored orig) w \<and> find_obj (ClPods (view w)) ns (n @ RouterPodSuffix) = None \<and>
         find_obj (ClServices (view w)) ns (n @ StuntmanServiceSuffix) = None
      else meshed view ns n orig (length users) w)"

lemma mesh_inv_history:
  assumes a: "api_server k view" and c: "side_calls_ok k view forward" and b: "patches_ok k view" "beats_ok k view"
    and l: "\<And>u. mlookup (labels_after opts (GoMap [(KtRole, ''shadow-mesh''), (KtTarget, rnds u 1)])) KtLane = None"
    and ns: "Global_Namespace opts = ns" and n: "Name svc = n" "CHR '','' \<notin> set n" and p: "plain_service orig"
    and start: "meshed view ns n orig 0 w0"
    and run: "mesh_history k opts forward expose rnds svc w0 users w"
  shows "mesh_inv view ns n orig users w"
  using run
proof (induction rule: mesh_history.induct)
  case (first s u t)
  then have m: "meshed view ns n orig 0 (World s)" "no_router n (Store s)" using start n(1) by (auto simp: new_user_def in_mesh_def)
  from meshed_join [where rnd = "rnds u", OF a c b l ns _ p m n(1) first(3)] show ?case by (simp add: mesh_inv_def)
next
  case (joins users w s u t)
  then have m: "meshed view ns n orig (length users) (World s)" "no_router n (Store s)"
    using n(1) by (auto simp: new_user_def in_mesh_def mesh_inv_def)
  from meshed_join [where rnd = "rnds u", OF a c b l ns _ p m n(1) joins.hyps(6)] joins show ?case by (simp add: mesh_inv_def)
next
  case (leaves us s vs r t)
  let ?h = "length us + length vs"
  have m: "meshed view ns n orig (Suc ?h) (World s)" "Store_Router (Store s) = n @ RouterPodSuffix" "Suc ?h < 2 ^ 62"
    "\<forall>st \<in> set (us @ vs). Store_Router st = n @ RouterPodSuffix"
    using leaves.IH by (auto simp: mesh_inv_def)
  show ?case
  proof (cases "?h = 0")
    case True
    then have "us = []" "vs = []" by simp_all
    moreover have "meshed view ns n orig (Suc 0) (World s)" using m(1) True by simp
    ultimately show ?thesis
      using meshed_leave_last [OF a ns n(2) p _ m(2)] leaves.hyps(2) by (auto simp: mesh_inv_def)
  next
    case False
    then have "meshed view ns n orig ?h (World t)" using meshed_leave [OF a ns _ m(3,1,2)] leaves.hyps(2) by auto
    with m(3,4) False show ?thesis by (auto simp: mesh_inv_def)
  qed
qed

section \<open>The property\<close>


text \<open>Two users of a service without ports, in a cluster where pods start.\<close>

definition mesh_user :: "cluster_objects \<Rightarrow> cluster_objects prog" where
  "mesh_user w = (mem_prog w)\<lparr>Store := (Store (mem_prog w))\<lparr>Store_Component := ''mesh''\<rparr>\<rparr>"

definition mem_bare :: service where
  "mem_bare = mem_web\<lparr>SvcPorts := []\<rparr>"

definition bare_cluster :: cluster_objects where
  "bare_cluster = \<lparr> ClPods = [], ClDeployments = [], ClServices = [mem_bare], ClConfigMaps = [] \<rparr>"

definition mesh_of :: "string \<Rightarrow> cluster_objects \<Rightarrow> unit outcome \<times> cluster_objects prog" where
  "mesh_of random w = run_state (AutoMesh (live_kube 1000) mem_opts mem_forward [] (\<lambda>i. random) mem_bare) (mesh_user w)"

lemma first_user_joins: "fst (mesh_of ''abcde'' bare_cluster) = Value ()"
  by code_simp

lemma second_user_joins: "fst (mesh_of ''fghij'' (World (snd (mesh_of ''abcde'' bare_cluster)))) = Value ()"
  by code_simp

lemma live_patches: "patches_ok (live_kube t) (\<lambda>w. w)" "beats_ok (live_kube t) (\<lambda>w. w)"
  by (simp_all add: patches_ok_def beats_ok_def live_kube_def mem_kube_def mem_crud_def mem_forward_def)


end
