(* ===== verification/Relay.thy ===== *)
theory Relay
  imports KubeApi
begin

text \<open>
  The relay of a forwarded connection: \<open>handleClient\<close> in \<open>pkg/kt/service/sshchannel/ssh.go\<close> and the
  reader of \<open>pkg/kt/util/interpretable_reader.go\<close>.  Two goroutines copy between the connections and a
  third, the handler, waits for the first of them and then interrupts both.  All three meet on
  channels without a buffer: a send and its receive are one step of the relation.
\<close>

section \<open>Goroutines\<close>

datatype direction = RemoteToLocal | LocalToRemote

text \<open>
  A copying goroutine: at the \<open>select\<close> of \<open>InterpretableReader.Read\<close>, in the read of the connection
  (or the write that follows it), at \<open>done <- 1\<close>, at its end.
\<close>

datatype copier = Polling | Reading | Reporting | Finished

text \<open>The handler: at \<open><-done\<close>, in \<open>Cancel\<close> of a reader, about to close the connections, at its end.\<close>

datatype relay_handler = AwaitDone | Cancelling direction | Closing | Closed

text \<open>\<open>Unread\<close> is what the source of a direction still has to say, \<open>Written\<close> what its target was given.\<close>

record 'c relay =
  Copier :: "direction \<Rightarrow> copier"
  Unread :: "direction \<Rightarrow> 'c list"
  Written :: "direction \<Rightarrow> 'c list"
  Handler :: relay_handler

definition handleClient :: "(direction \<Rightarrow> 'c list) \<Rightarrow> 'c relay" where
  "handleClient input = \<lparr> Copier = (\<lambda>_. Polling), Unread = input, Written = (\<lambda>_. []), Handler = AwaitDone \<rparr>"

definition set_copier :: "direction \<Rightarrow> copier \<Rightarrow> 'c relay \<Rightarrow> 'c relay" where
  "set_copier d c s = s\<lparr>Copier := (Copier s)(d := c)\<rparr>"

text \<open>One chunk of a direction is read, and written to the other connection.\<close>

definition pass_chunk :: "direction \<Rightarrow> 'c \<Rightarrow> 'c list \<Rightarrow> 'c relay \<Rightarrow> 'c relay" where
  "pass_chunk d c cs s = s\<lparr>Unread := (Unread s)(d := cs), Written := (Written s)(d := Written s d @ [c])\<rparr>"

text \<open>After \<open>Cancel\<close> of the reader of the remote side comes that of the local side, then both connections are closed.\<close>

fun next_cancel :: "direction \<Rightarrow> relay_handler" where
  "next_cancel RemoteToLocal = Cancelling LocalToRemote"
| "next_cancel LocalToRemote = Closing"

section \<open>Steps\<close>

text \<open>
  \<open>poll\<close> is the default case of the \<open>select\<close>, taken only when nobody waits to interrupt this reader;
  \<open>interrupted\<close> is the other case, on which the copy ends without an error.  A read may fail or
  return the end of the stream (\<open>ends\<close>), with a last chunk or without; a failed write loses its chunk;
  a panic is recovered by \<open>handleBrokenTunnel\<close>, and like every other end it leads to \<open>done <- 1\<close>.
  A chunk may also be lost by a panic between read and write; \<open>write_fails\<close> covers this.
\<close>

inductive relay_step :: "'c relay \<Rightarrow> 'c relay \<Rightarrow> bool" where
  poll: "Copier s d = Polling \<Longrightarrow> Handler s \<noteq> Cancelling d \<Longrightarrow> relay_step s (set_copier d Reading s)"
| interrupted: "Copier s d = Polling \<Longrightarrow> Handler s = Cancelling d \<Longrightarrow>
    relay_step s (set_copier d Reporting (s\<lparr>Handler := next_cancel d\<rparr>))"
| chunk: "Copier s d = Reading \<Longrightarrow> Unread s d = c # cs \<Longrightarrow> relay_step s (set_copier d Polling (pass_chunk d c cs s))"
| last_chunk: "Copier s d = Reading \<Longrightarrow> Unread s d = c # cs \<Longrightarrow> relay_step s (set_copier d Reporting (pass_chunk d c cs s))"
| ends: "Copier s d = Reading \<Longrightarrow> relay_step s (set_copier d Reporting s)"
| write_fails: "Copier s d = Reading \<Longrightarrow> Unread s d = c # cs \<Longrightarrow>
    relay_step s (set_copier d Reporting (s\<lparr>Unread := (Unread s)(d := [])\<rparr>))"
| report: "Copier s d = Reporting \<Longrightarrow> Handler s = AwaitDone \<Longrightarrow>
    relay_step s (set_copier d Finished (s\<lparr>Handler := Cancelling RemoteToLocal\<rparr>))"
| close_both: "Handler s = Closing \<Longrightarrow> relay_step s (s\<lparr>Handler := Closed\<rparr>)"

inductive_cases relay_stepE: "relay_step s t"

inductive relay_reachable :: "(direction \<Rightarrow> 'c list) \<Rightarrow> 'c relay \<Rightarrow> bool" for input where
  relay_start: "relay_reachable input (handleClient input)"
| relay_next: "relay_reachable input s \<Longrightarrow> relay_step s t \<Longrightarrow> relay_reachable input t"

section \<open>The invariant\<close>

fun opposite :: "direction \<Rightarrow> direction" where
  "opposite RemoteToLocal = LocalToRemote"
| "opposite LocalToRemote = RemoteToLocal"

lemma opposite_cases: "e = d \<or> e = opposite d"
  by (cases d; cases e) auto

text \<open>
  No copier has ended while the handler waits for one; the first to end is the only one, since
  nobody receives a second time from \<open>done\<close>; and the interrupt of the local side is only tried after
  that of the remote side was taken, by a copier that is not the one that has ended.
\<close>

fun handler_inv :: "relay_handler \<Rightarrow> (direction \<Rightarrow> copier) \<Rightarrow> bool" where
  "handler_inv AwaitDone c \<longleftrightarrow> (\<forall>d. c d \<noteq> Finished)"
| "handler_inv (Cancelling RemoteToLocal) c \<longleftrightarrow> (\<exists>d. c d = Finished \<and> c (opposite d) \<noteq> Finished)"
| "handler_inv (Cancelling LocalToRemote) c \<longleftrightarrow> c LocalToRemote = Finished \<and> c RemoteToLocal = Reporting"
| "handler_inv Closing c \<longleftrightarrow> False"
| "handler_inv Closed c \<longleftrightarrow> False"

lemma handler_inv_report:
  assumes "handler_inv AwaitDone c"
  shows "handler_inv (Cancelling RemoteToLocal) (c(d := Finished))"
  using assms by (auto intro!: exI [of _ d]) (cases d; simp)+

lemma handler_inv_interrupt:
  assumes "handler_inv (Cancelling d) c" and "c d = Polling"
  shows "handler_inv (next_cancel d) (c(d := Reporting))"
proof (cases d)
  case RemoteToLocal
  with assms obtain e where "c e = Finished" "c RemoteToLocal = Polling" by auto
  with RemoteToLocal show ?thesis by (cases e) auto
qed (use assms in auto)

lemma handler_inv_copier:
  assumes "handler_inv h c" and "c d = Polling \<or> c d = Reading" and "e \<noteq> Finished"
  shows "handler_inv h (c(d := e))"
  using assms
proof (cases h)
  case (Cancelling f)
  show ?thesis
  proof (cases f)
    case RemoteToLocal
    with assms(1) Cancelling obtain g where g: "c g = Finished" "c (opposite g) \<noteq> Finished" by auto
    with assms(2) have "g \<noteq> d" by auto
    with g assms(3) Cancelling RemoteToLocal show ?thesis by (auto intro!: exI [of _ g])
  next
    case LocalToRemote
    with assms Cancelling show ?thesis by (cases d) auto
  qed
qed auto

definition relay_inv :: "(direction \<Rightarrow> 'c list) \<Rightarrow> 'c relay \<Rightarrow> bool" where
  "relay_inv input s \<longleftrightarrow> handler_inv (Handler s) (Copier s) \<and>
     (\<forall>d. (\<exists>lost. input d = Written s d @ lost @ Unread s d \<and>
           (Copier s d = Polling \<or> Copier s d = Reading \<longrightarrow> lost = [])))"

lemma relay_inv_start: "relay_inv input (handleClient input)"
  by (simp add: relay_inv_def handleClient_def)

lemma relay_inv_step: "relay_step s t \<Longrightarrow> relay_inv input s \<Longrightarrow> relay_inv input t"
proof (induction rule: relay_step.induct)
  case (report s d)
  then show ?case
    using handler_inv_report [of "Copier s" d] by (auto simp: relay_inv_def set_copier_def)
next
  case (interrupted s d)
  then show ?case
    using handler_inv_interrupt [of d "Copier s"] by (auto simp: relay_inv_def set_copier_def)
next
  case (write_fails s d c cs)
  then have "input d = Written s d @ c # cs" by (fastforce simp: relay_inv_def)
  with write_fails show ?case
    by (auto simp: relay_inv_def set_copier_def intro: handler_inv_copier)
next
  case (chunk s d c cs)
  then have "input d = Written s d @ c # cs" by (fastforce simp: relay_inv_def)
  with chunk show ?case
    by (auto simp: relay_inv_def set_copier_def pass_chunk_def intro: handler_inv_copier)
next
  case (last_chunk s d c cs)
  then have "input d = Written s d @ c # cs" by (fastforce simp: relay_inv_def)
  with last_chunk show ?case
    by (auto simp: relay_inv_def set_copier_def pass_chunk_def intro: handler_inv_copier)
qed (auto simp: relay_inv_def set_copier_def intro: handler_inv_copier)

lemma relay_inv_reachable: "relay_reachable input s \<Longrightarrow> relay_inv input s"
  by (induction rule: relay_reachable.induct) (auto intro: relay_inv_start relay_inv_step)

text \<open>A run that cannot go on has a copier that is blocked at \<open>done <- 1\<close>.\<close>

lemma relay_stuck:
  assumes i: "relay_inv input s" and stuck: "\<nexists>t. relay_step s t"
  shows "\<exists>d. Copier s d = Finished \<and> Copier s (opposite d) = Reporting"
proof -
  have no_read: "Copier s d \<noteq> Reading" for d using stuck relay_step.ends [of s d] by auto
  have no_poll: "Copier s d \<noteq> Polling" for d
    using stuck relay_step.poll [of s d] relay_step.interrupted [of s d] by auto
  have busy: "Copier s d = Reporting \<or> Copier s d = Finished" for d
    using no_read [of d] no_poll [of d] by (cases "Copier s d") auto
  show ?thesis
  proof (cases "Handler s")
    case AwaitDone
    with i busy [of RemoteToLocal] have "Copier s RemoteToLocal = Reporting" by (auto simp: relay_inv_def)
    with AwaitDone stuck relay_step.report show ?thesis by blast
  next
    case (Cancelling f)
    with i have "\<exists>d. Copier s d = Finished \<and> Copier s (opposite d) \<noteq> Finished"
      by (cases f) (auto simp: relay_inv_def intro!: exI [of _ LocalToRemote])
    with busy show ?thesis by blast
  qed (use i in \<open>auto simp: relay_inv_def\<close>)
qed

text \<open>Once the local side has been read to its end, the answer has at most the chunk that is being read.\<close>

definition answer_cut :: "nat \<Rightarrow> 'c relay \<Rightarrow> bool" where
  "answer_cut n s \<longleftrightarrow> Copier s LocalToRemote = Finished \<and>
     length (Written s RemoteToLocal) + (if Copier s RemoteToLocal = Reading then 1 else 0) \<le> n"

lemma answer_cut_step:
  assumes st: "relay_step s t" and i: "relay_inv input s" and c: "answer_cut n s"
  shows "answer_cut n t"
proof -
  have h: "Handler s = Cancelling RemoteToLocal \<or> Handler s = Cancelling LocalToRemote \<and> Copier s RemoteToLocal = Reporting"
  proof (cases "Handler s")
    case (Cancelling e)
    with i c show ?thesis by (cases e) (auto simp: relay_inv_def answer_cut_def)
  qed (use i c in \<open>auto simp: relay_inv_def answer_cut_def\<close>)
  show ?thesis using st h c
    by cases (auto simp: answer_cut_def set_copier_def pass_chunk_def split: if_splits)
qed

lemma answer_cut_steps:
  assumes "relay_step\<^sup>*\<^sup>* s t" and "relay_reachable input s" and "answer_cut n s"
  shows "answer_cut n t"
proof -
  from assms have "relay_reachable input t \<and> answer_cut n t"
    by (induction rule: rtranclp_induct)
       (auto intro: relay_reachable.relay_next answer_cut_step [OF _ relay_inv_reachable])
  then show ?thesis ..
qed

section \<open>Properties\<close>

text \<open>
  C36. The relay of a forwarded connection never closes its connections: in no interleaving does the
  handler come to \<open>remote.Close()\<close> or \<open>client.Close()\<close>.  Each direction writes a prefix of what it has
  read, in order.  A run that cannot go on has one goroutine blocked for ever at the channel \<open>done\<close>,
  beside the handler that waits to interrupt a reader nobody reads from any more.
\<close>

theorem relay_never_closes:
  assumes "relay_reachable input s"
  shows "Handler s \<noteq> Closing \<and> Handler s \<noteq> Closed \<and>
    (\<forall>d. \<exists>rest. input d = Written s d @ rest) \<and>
    ((\<nexists>t. relay_step s t) \<longrightarrow> (\<exists>d e. Copier s d = Finished \<and> Copier s (opposite d) = Reporting \<and> Handler s = Cancelling e))"
proof -
  have i: "relay_inv input s" using relay_inv_reachable [OF assms] .
  then have "Handler s \<noteq> Closing" "Handler s \<noteq> Closed" by (auto simp: relay_inv_def)
  moreover have "\<exists>rest. input d = Written s d @ rest" for d using i unfolding relay_inv_def by blast
  moreover have "\<exists>e. Handler s = Cancelling e" if "Copier s d = Finished" for d
    using i that by (cases "Handler s") (auto simp: relay_inv_def)
  ultimately show ?thesis using relay_stuck [OF i] by blast
qed

text \<open>The states of a request without an answer: a request is read, its end is met and reported.\<close>

definition sample_input :: "direction \<Rightarrow> nat list" where
  "sample_input d = (case d of RemoteToLocal \<Rightarrow> [1, 2] | LocalToRemote \<Rightarrow> [7])"

definition sample_reading :: "nat relay" where
  "sample_reading = set_copier LocalToRemote Reading (set_copier RemoteToLocal Reading (handleClient sample_input))"

definition sample_ended :: "nat relay" where
  "sample_ended = set_copier LocalToRemote Finished
     ((set_copier LocalToRemote Reporting (pass_chunk LocalToRemote 7 [] sample_reading))\<lparr>Handler := Cancelling RemoteToLocal\<rparr>)"

lemma sample_ended_reachable: "relay_reachable sample_input sample_ended"
proof -
  note start = relay_reachable.relay_start [of sample_input]
  have 1: "relay_reachable sample_input (set_copier RemoteToLocal Reading (handleClient sample_input))"
    by (rule relay_reachable.relay_next [OF start], rule relay_step.poll) (simp_all add: handleClient_def)
  have 2: "relay_reachable sample_input sample_reading"
    unfolding sample_reading_def
    by (rule relay_reachable.relay_next [OF 1], rule relay_step.poll) (simp_all add: handleClient_def set_copier_def)
  have 3: "relay_reachable sample_input (set_copier LocalToRemote Reporting (pass_chunk LocalToRemote 7 [] sample_reading))"
    by (rule relay_reachable.relay_next [OF 2], rule relay_step.last_chunk)
       (simp_all add: sample_reading_def handleClient_def set_copier_def sample_input_def)
  show ?thesis
    unfolding sample_ended_def
    by (rule relay_reachable.relay_next [OF 3], rule relay_step.report)
       (simp_all add: sample_reading_def handleClient_def set_copier_def pass_chunk_def)
qed

lemma relay_never_closes_witness:
  "Handler sample_ended \<noteq> Closing \<and> Handler sample_ended \<noteq> Closed \<and> Written sample_ended LocalToRemote = [7]"
  using relay_never_closes [OF sample_ended_reachable]
  by (simp add: sample_ended_def sample_reading_def handleClient_def set_copier_def pass_chunk_def)



end
