(* ===== verification/SshChannel.thy ===== *)
theory SshChannel
  imports Transmission KubeApi
begin

text \<open>
  \<open>pkg/kt/service/sshchannel/ssh.go\<close>: what the program does over an SSH connection to the shadow.  The
  libraries \<open>sshproxy\<close> and \<open>socks5\<close> and the sockets are a record of calls over a world; the relay of
  one forwarded connection is the theory Relay.
\<close>

section \<open>The calls of the libraries\<close>

text \<open>
  A dialer for an address, the SSH client of the dialer, a session of the client, the run of a script
  in the session with its output, a listener in the pod, the SOCKS server; and \<open>Close\<close> of each.
  \<open>Accept\<close> takes the next request, \<open>DialLocal\<close> connects to the local service, \<open>StartRelay\<close> starts the
  goroutine \<open>handleClient\<close>.
\<close>

record 'w ssh_calls =
  NewDialer :: "string \<Rightarrow> ('w, unit outcome) state"
  SSHClient :: "('w, unit outcome) state"
  NewSession :: "('w, unit outcome) state"
  RunInSession :: "string \<Rightarrow> ('w, string outcome) state"
  ListenRemote :: "string \<Rightarrow> ('w, unit outcome) state"
  ListenAndServe :: "string \<Rightarrow> ('w, unit outcome) state"
  CloseDialer :: "('w, unit) state"
  CloseClient :: "('w, unit) state"
  CloseSession :: "('w, unit) state"
  CloseListener :: "('w, unit) state"
  Accept :: "('w, unit outcome) state"
  CloseRequest :: "('w, unit) state"
  DialLocal :: "string \<Rightarrow> ('w, unit outcome) state"
  StartRelay :: "('w, unit) state"
  SleepSeconds :: "int \<Rightarrow> ('w, unit) state"

definition io_EOF :: go_error where
  "io_EOF = OtherError ''EOF''"

section \<open>Scripts and proxy\<close>

definition getSshTunnelAddress :: "string \<Rightarrow> string \<Rightarrow> string" where
  "getSshTunnelAddress privateKey sshAddress = ''ssh://root@'' @ sshAddress @ ''?identity_file='' @ privateKey"

definition StartSocks5Proxy :: "'w ssh_calls \<Rightarrow> string \<Rightarrow> string \<Rightarrow> string \<Rightarrow> ('w, unit outcome) state" where
  "StartSocks5Proxy c privateKey sshAddress socks5Address =
     go_try (NewDialer c (getSshTunnelAddress privateKey sshAddress)) (\<lambda>_.
     go_defer (ListenAndServe c socks5Address) (CloseDialer c))"

definition RunScript :: "'w ssh_calls \<Rightarrow> string \<Rightarrow> string \<Rightarrow> string \<Rightarrow> ('w, string outcome) state" where
  "RunScript c privateKey sshAddress script =
     go_try (NewDialer c (getSshTunnelAddress privateKey sshAddress)) (\<lambda>_.
     go_defer
       (go_try (SSHClient c) (\<lambda>_.
        go_defer
          (go_try (NewSession c) (\<lambda>_.
           go_defer (RunInSession c script) (CloseSession c)))
          (CloseClient c)))
       (CloseDialer c))"

section \<open>Reverse tunnels\<close>

text \<open>The port after the colon; an endpoint without one is an index out of range.\<close>

definition disconnectRemotePort :: "'w ssh_calls \<Rightarrow> string \<Rightarrow> string \<Rightarrow> string \<Rightarrow> ('w, unit outcome) state" where
  "disconnectRemotePort c privateKey sshAddress remoteEndpoint =
     (let parts = split_on CHR '':'' remoteEndpoint
      in if length parts < 2 then State_Monad.return Panic
         else go_catch (RunScript c privateKey sshAddress (''/disconnect.sh '' @ parts ! 1))
                (\<lambda>_. State_Monad.return (Value ())) (\<lambda>_. State_Monad.return (Value ())))"

text \<open>A panic of one request is recovered, and the function returns without an error.\<close>

definition handleRequest :: "'w ssh_calls \<Rightarrow> string \<Rightarrow> ('w, unit outcome) state" where
  "handleRequest c localEndpoint =
     State_Monad.bind
       (go_catch (Accept c)
          (\<lambda>_. go_catch (DialLocal c localEndpoint)
                 (\<lambda>_. State_Monad.bind (StartRelay c) (\<lambda>_. State_Monad.return (Value ())))
                 (\<lambda>e. State_Monad.bind (CloseRequest c) (\<lambda>_. State_Monad.return (Fail e))))
          (\<lambda>e. if e \<noteq> io_EOF then State_Monad.bind (SleepSeconds c 2) (\<lambda>_. State_Monad.return (Fail e))
               else State_Monad.return (Fail e)))
       (\<lambda>r. State_Monad.return (if r = Panic then Value () else r))"

text \<open>The loop that accepts requests; it may run for ever.\<close>

partial_function (option) serve_requests ::
  "('w \<Rightarrow> unit outcome \<times> 'w) \<Rightarrow> 'w \<Rightarrow> (unit outcome \<times> 'w) option" where
  "serve_requests request w =
     (case request w of (r, w') \<Rightarrow> if r = Fail io_EOF then Some (r, w') else serve_requests request w')"

declare serve_requests.simps [code]

text \<open>The function, up to the loop and after it; None is a tunnel that is served for ever.\<close>

definition ForwardRemoteToLocal ::
  "'w ssh_calls \<Rightarrow> string \<Rightarrow> string \<Rightarrow> string \<Rightarrow> string \<Rightarrow> 'w \<Rightarrow> (unit outcome \<times> 'w) option" where
  "ForwardRemoteToLocal c privateKey sshAddress remoteEndpoint localEndpoint w =
     (case run_state (NewDialer c (getSshTunnelAddress privateKey sshAddress)) w of
        (Value _, w1) \<Rightarrow>
          (case run_state (go_try (SSHClient c) (\<lambda>_. go_catch (ListenRemote c remoteEndpoint)
                   (\<lambda>_. State_Monad.return (Value ()))
                   (\<lambda>e. go_try (disconnectRemotePort c privateKey sshAddress remoteEndpoint)
                          (\<lambda>_. State_Monad.return (Fail e))))) w1 of
             (Value _, w2) \<Rightarrow>
               map_option (\<lambda>(r, w3). run_state (go_defer (go_defer (State_Monad.return r) (CloseListener c)) (CloseDialer c)) w3)
                 (serve_requests (run_state (handleRequest c localEndpoint)) w2)
           | (r, w2) \<Rightarrow> Some (r, snd (run_state (CloseDialer c) w2)))
      | (r, w1) \<Rightarrow> Some (r, w1))"

section \<open>What is opened is closed\<close>

text \<open>
  Three counters of a world for the dialers, clients and sessions that are open.  The calls of the
  library count as documented: a call that succeeds opens, \<open>Close\<close> closes, nothing else changes them.
\<close>

definition opens :: "('w \<Rightarrow> nat) \<Rightarrow> ('w, 'a outcome) state \<Rightarrow> bool" where
  "opens n m \<longleftrightarrow> (\<forall>w. case run_state m w of (r, w') \<Rightarrow> n w' = (case r of Value _ \<Rightarrow> Suc (n w) | _ \<Rightarrow> n w))"

definition closes :: "('w \<Rightarrow> nat) \<Rightarrow> ('w, unit) state \<Rightarrow> bool" where
  "closes n m \<longleftrightarrow> (\<forall>w. n (snd (run_state m w)) = n w - 1)"

definition keeps :: "('w \<Rightarrow> nat) \<Rightarrow> ('w, 'a) state \<Rightarrow> bool" where
  "keeps n m \<longleftrightarrow> (\<forall>w. n (snd (run_state m w)) = n w)"

lemma opens_run:
  assumes "opens n m" and "run_state m w = (r, w')"
  shows "n w' = (case r of Value _ \<Rightarrow> Suc (n w) | _ \<Rightarrow> n w)"
proof -
  have "case run_state m w of (r, w') \<Rightarrow> n w' = (case r of Value _ \<Rightarrow> Suc (n w) | _ \<Rightarrow> n w)"
    using assms(1) unfolding opens_def ..
  with assms(2) show ?thesis by simp
qed

lemma keeps_bracket:
  assumes "opens n opn" and "closes n close" and "\<And>x. keeps n (body x)"
  shows "keeps n (go_try opn (\<lambda>x. go_defer (body x) close))"
proof -
  have "n (snd (run_state (go_try opn (\<lambda>x. go_defer (body x) close)) w)) = n w" for w
  proof -
    obtain r w' where r: "run_state opn w = (r, w')" by fastforce
    with assms(1) have op: "n w' = (case r of Value _ \<Rightarrow> Suc (n w) | _ \<Rightarrow> n w)" by (rule opens_run)
    show ?thesis
    proof (cases r)
      case (Value x)
      obtain r2 w2 where b: "run_state (body x) w' = (r2, w2)" by fastforce
      with assms(3) [of x] have "n w2 = n w'" unfolding keeps_def by (metis snd_conv)
      with assms(2) op Value have "n (snd (run_state close w2)) = n w" by (simp add: closes_def)
      with Value r b show ?thesis by simp
    qed (use r op in simp_all)
  qed
  then show ?thesis by (simp add: keeps_def)
qed

lemma keeps_snd: "keeps n m \<Longrightarrow> run_state m w = (r, w') \<Longrightarrow> n w' = n w"
  unfolding keeps_def by (metis snd_conv)

lemma count_keeps_try: "keeps n m \<Longrightarrow> (\<And>x. keeps n (f x)) \<Longrightarrow> keeps n (go_try m f)"
  by (auto simp: keeps_def [of n "go_try m f"] keeps_def [of n "f _"] dest: keeps_snd split: prod.split outcome.split)

lemma count_keeps_catch: "keeps n m \<Longrightarrow> (\<And>x. keeps n (f x)) \<Longrightarrow> (\<And>e. keeps n (h e)) \<Longrightarrow> keeps n (go_catch m f h)"
  by (auto simp: keeps_def [of n "go_catch m f h"] keeps_def [of n "f _"] keeps_def [of n "h _"]
      dest: keeps_snd split: prod.split outcome.split)

lemma keeps_bind: "keeps n m \<Longrightarrow> (\<And>x. keeps n (f x)) \<Longrightarrow> keeps n (State_Monad.bind m f)"
  by (auto simp: keeps_def [of n "State_Monad.bind m f"] keeps_def [of n "f _"] dest: keeps_snd split: prod.split)

lemma count_keeps_return: "keeps n (State_Monad.return a)"
  by (simp add: keeps_def)

lemma keeps_defer: "keeps n close \<Longrightarrow> keeps n m \<Longrightarrow> keeps n (go_defer m close)"
  by (auto simp: keeps_def [of n "go_defer m close"] keeps_def [of n close] dest: keeps_snd split: prod.split)

text \<open>
  The documented effect of the calls on the number of open dialers (\<open>nd\<close>), clients (\<open>nc\<close>) and
  sessions (\<open>ns\<close>).
\<close>

definition counts_open :: "('w \<Rightarrow> nat) \<Rightarrow> ('w \<Rightarrow> nat) \<Rightarrow> ('w \<Rightarrow> nat) \<Rightarrow> 'w ssh_calls \<Rightarrow> bool" where
  "counts_open nd nc ns c \<longleftrightarrow>
     (\<forall>a. opens nd (NewDialer c a) \<and> keeps nc (NewDialer c a) \<and> keeps ns (NewDialer c a)) \<and>
     opens nc (SSHClient c) \<and> keeps nd (SSHClient c) \<and> keeps ns (SSHClient c) \<and>
     opens ns (NewSession c) \<and> keeps nd (NewSession c) \<and> keeps nc (NewSession c) \<and>
     closes nd (CloseDialer c) \<and> keeps nc (CloseDialer c) \<and> keeps ns (CloseDialer c) \<and>
     closes nc (CloseClient c) \<and> keeps nd (CloseClient c) \<and> keeps ns (CloseClient c) \<and>
     closes ns (CloseSession c) \<and> keeps nd (CloseSession c) \<and> keeps nc (CloseSession c) \<and>
     (\<forall>s. keeps nd (RunInSession c s) \<and> keeps nc (RunInSession c s) \<and> keeps ns (RunInSession c s)) \<and>
     (\<forall>s. keeps nd (ListenAndServe c s)) \<and> (\<forall>s. keeps nd (ListenRemote c s)) \<and> keeps nd (CloseListener c) \<and>
     keeps nd (Accept c) \<and> keeps nd (CloseRequest c) \<and> (\<forall>s. keeps nd (DialLocal c s)) \<and>
     keeps nd (StartRelay c) \<and> (\<forall>n. keeps nd (SleepSeconds c n))"

lemma counts_openD:
  assumes "counts_open nd nc ns c"
  shows "opens nd (NewDialer c a)" "keeps nc (NewDialer c a)" "keeps ns (NewDialer c a)"
    "opens nc (SSHClient c)" "keeps nd (SSHClient c)" "keeps ns (SSHClient c)"
    "opens ns (NewSession c)" "keeps nd (NewSession c)" "keeps nc (NewSession c)"
    "closes nd (CloseDialer c)" "keeps nc (CloseDialer c)" "keeps ns (CloseDialer c)"
    "closes nc (CloseClient c)" "keeps nd (CloseClient c)" "keeps ns (CloseClient c)"
    "closes ns (CloseSession c)" "keeps nd (CloseSession c)" "keeps nc (CloseSession c)"
    "keeps nd (RunInSession c s)" "keeps nc (RunInSession c s)" "keeps ns (RunInSession c s)"
    "keeps nd (ListenAndServe c s)" "keeps nd (ListenRemote c s)" "keeps nd (CloseListener c)"
    "keeps nd (Accept c)" "keeps nd (CloseRequest c)" "keeps nd (DialLocal c s)"
    "keeps nd (StartRelay c)" "keeps nd (SleepSeconds c n)"
  using assms unfolding counts_open_def by blast+

lemma RunScript_keeps:
  assumes "counts_open nd nc ns c"
  shows "keeps nd (RunScript c key addr script)" "keeps nc (RunScript c key addr script)"
    "keeps ns (RunScript c key addr script)"
  unfolding RunScript_def
  by (rule keeps_bracket count_keeps_try keeps_defer counts_openD [OF assms])+

lemma disconnect_keeps:
  assumes "counts_open nd nc ns c"
  shows "keeps nd (disconnectRemotePort c key addr ep)"
  unfolding disconnectRemotePort_def Let_def
  by (auto intro!: count_keeps_catch count_keeps_return RunScript_keeps [OF assms])

lemma handleRequest_keeps:
  assumes "counts_open nd nc ns c"
  shows "keeps nd (handleRequest c ep)"
  unfolding handleRequest_def
  by (intro keeps_bind count_keeps_catch count_keeps_return counts_openD [OF assms])
     (auto intro!: keeps_bind count_keeps_return counts_openD [OF assms])

section \<open>The loop of a tunnel\<close>

text \<open>The world after some requests, and the request at which the loop ends.\<close>

definition after_requests :: "('w \<Rightarrow> 'r \<times> 'w) \<Rightarrow> nat \<Rightarrow> 'w \<Rightarrow> 'w" where
  "after_requests request n = ((\<lambda>w. snd (request w)) ^^ n)"

lemma after_requests_Suc: "request w = (r, w') \<Longrightarrow> after_requests request (Suc n) w = after_requests request n w'"
  by (simp add: after_requests_def funpow_Suc_right del: funpow.simps)

lemma after_requests_0 [simp]: "after_requests request 0 w = w"
  by (simp add: after_requests_def)

lemma serve_requests_at:
  assumes "serve_requests request w = Some x"
  shows "\<exists>n. request (after_requests request n w) = x \<and> fst x = Fail io_EOF"
proof (rule serve_requests.raw_induct [OF _ assms])
  fix serve :: "('a \<Rightarrow> unit outcome \<times> 'a) \<Rightarrow> 'a \<Rightarrow> (unit outcome \<times> 'a) option"
    and request :: "'a \<Rightarrow> unit outcome \<times> 'a" and w x
  assume ih: "\<And>request w y. serve request w = Some y \<Longrightarrow>
      \<exists>n. request (after_requests request n w) = y \<and> fst y = Fail io_EOF"
    and run: "(case request w of (r, w') \<Rightarrow> if r = Fail io_EOF then Some (r, w') else serve request w') = Some x"
  obtain r w' where q: "request w = (r, w')" by fastforce
  show "\<exists>n. request (after_requests request n w) = x \<and> fst x = Fail io_EOF"
  proof (cases "r = Fail io_EOF")
    case True
    with run q show ?thesis by (intro exI [of _ 0]) auto
  next
    case False
    with run q ih [of request w' x] obtain n where "request (after_requests request n w') = x \<and> fst x = Fail io_EOF" by auto
    then show ?thesis using after_requests_Suc [of request w, OF q, of n] by metis
  qed
qed

lemma serve_requests_ends:
  "fst (request (after_requests request n w)) = Fail io_EOF \<Longrightarrow> serve_requests request w \<noteq> None"
proof (induction n arbitrary: w)
  case 0
  then show ?case by (subst serve_requests.simps) (auto split: prod.split)
next
  case (Suc n)
  obtain r w' where q: "request w = (r, w')" by fastforce
  with Suc after_requests_Suc [of request w, OF q, of n] show ?case by (subst serve_requests.simps) auto
qed

lemma serve_requests_iff:
  "serve_requests request w \<noteq> None \<longleftrightarrow> (\<exists>n. fst (request (after_requests request n w)) = Fail io_EOF)"
proof
  assume "serve_requests request w \<noteq> None"
  then obtain x where "serve_requests request w = Some x" by blast
  from serve_requests_at [OF this] show "\<exists>n. fst (request (after_requests request n w)) = Fail io_EOF" by auto
next
  assume "\<exists>n. fst (request (after_requests request n w)) = Fail io_EOF"
  then obtain n where "fst (request (after_requests request n w)) = Fail io_EOF" ..
  then show "serve_requests request w \<noteq> None" by (rule serve_requests_ends)
qed

lemma after_requests_keeps: "(\<And>w. n (snd (request w)) = n w) \<Longrightarrow> n (after_requests request k w) = n w"
  by (induction k) (simp_all add: after_requests_def)

section \<open>The function around the loop\<close>

text \<open>What happens before the loop: the client, the listener, and the old listener in the pod.\<close>

definition open_tunnel :: "'w ssh_calls \<Rightarrow> string \<Rightarrow> string \<Rightarrow> string \<Rightarrow> ('w, unit outcome) state" where
  "open_tunnel c privateKey sshAddress remoteEndpoint =
     go_try (SSHClient c) (\<lambda>_. go_catch (ListenRemote c remoteEndpoint)
       (\<lambda>_. State_Monad.return (Value ()))
       (\<lambda>e. go_try (disconnectRemotePort c privateKey sshAddress remoteEndpoint) (\<lambda>_. State_Monad.return (Fail e))))"

lemma open_tunnel_keeps: "counts_open nd nc ns c \<Longrightarrow> keeps nd (open_tunnel c key addr ep)"
  unfolding open_tunnel_def
  by (intro count_keeps_try count_keeps_catch count_keeps_return disconnect_keeps counts_openD(5,23))

lemma ForwardRemoteToLocal_eq:
  "ForwardRemoteToLocal c privateKey sshAddress remoteEndpoint localEndpoint w =
     (case run_state (NewDialer c (getSshTunnelAddress privateKey sshAddress)) w of
        (Value _, w1) \<Rightarrow>
          (case run_state (open_tunnel c privateKey sshAddress remoteEndpoint) w1 of
             (Value _, w2) \<Rightarrow>
               map_option (\<lambda>(r, w3). run_state (go_defer (go_defer (State_Monad.return r) (CloseListener c)) (CloseDialer c)) w3)
                 (serve_requests (run_state (handleRequest c localEndpoint)) w2)
           | (r, w2) \<Rightarrow> Some (r, snd (run_state (CloseDialer c) w2)))
      | (r, w1) \<Rightarrow> Some (r, w1))"
  by (simp only: ForwardRemoteToLocal_def open_tunnel_def)

lemma ForwardRemoteToLocal_result:
  assumes c: "counts_open nd nc ns c"
    and run: "ForwardRemoteToLocal c key addr ep lep w = Some (r, w')"
  shows "nd w' = nd w \<and> \<not> is_value r"
proof -
  obtain r1 w1 where d: "run_state (NewDialer c (getSshTunnelAddress key addr)) w = (r1, w1)" by fastforce
  have nd1: "nd w1 = (case r1 of Value _ \<Rightarrow> Suc (nd w) | _ \<Rightarrow> nd w)"
    using opens_run [OF counts_openD(1) [OF c] d] .
  show ?thesis
  proof (cases r1)
    case (Value u)
    obtain r2 w2 where t: "run_state (open_tunnel c key addr ep) w1 = (r2, w2)" by fastforce
    have nd2: "nd w2 = Suc (nd w)" using keeps_snd [OF open_tunnel_keeps [OF c] t] nd1 Value by simp
    have close: "nd (snd (run_state (CloseDialer c) v)) = nd v - 1" for v
      using counts_openD(10) [OF c] by (simp add: closes_def)
    show ?thesis
    proof (cases r2)
      case (Value u2)
      let ?req = "run_state (handleRequest c lep)"
      obtain w3 where s: "serve_requests ?req w2 = Some (r, w3)"
        and w': "w' = snd (run_state (CloseDialer c) (snd (run_state (CloseListener c) w3)))"
        using run d t Value \<open>r1 = Value u\<close> by (auto simp: ForwardRemoteToLocal_eq)
      from serve_requests_at [OF s] obtain n where n: "?req (after_requests ?req n w2) = (r, w3)" "r = Fail io_EOF" by auto
      have k: "nd (snd (?req v)) = nd v" for v using handleRequest_keeps [OF c] by (simp add: keeps_def)
      have "nd w3 = nd (after_requests ?req n w2)" using keeps_snd [OF handleRequest_keeps [OF c] n(1)] .
      also have "\<dots> = nd w2" using after_requests_keeps [of nd ?req, OF k] .
      finally have "nd (snd (run_state (CloseListener c) w3)) = Suc (nd w)"
        using counts_openD(24) [OF c] nd2 by (simp add: keeps_def)
      with w' close n(2) show ?thesis by (simp add: is_value_def)
    qed (use run d t nd2 close \<open>r1 = Value u\<close> in \<open>auto simp: ForwardRemoteToLocal_eq is_value_def\<close>)
  qed (use run d nd1 in \<open>auto simp: ForwardRemoteToLocal_eq is_value_def\<close>)
qed

section \<open>Properties\<close>


text \<open>An SSH server in memory: open dialers, clients and sessions, and the requests still to come.\<close>

definition count_up :: "(('w \<Rightarrow> nat \<Rightarrow> 'w) \<times> ('w \<Rightarrow> nat)) \<Rightarrow> bool \<Rightarrow> ('w, unit outcome) state" where
  "count_up f ok = State (\<lambda>w. if ok then (Value (), fst f w (Suc (snd f w))) else (Fail (OtherError ''refused''), w))"

definition count_down :: "(('w \<Rightarrow> nat \<Rightarrow> 'w) \<times> ('w \<Rightarrow> nat)) \<Rightarrow> ('w, unit) state" where
  "count_down f = State (\<lambda>w. ((), fst f w (snd f w - 1)))"

type_synonym ssh_world = "nat \<times> nat \<times> nat \<times> nat"

definition dialers_of :: "ssh_world \<Rightarrow> nat" where "dialers_of = fst"
definition clients_of :: "ssh_world \<Rightarrow> nat" where "clients_of = (\<lambda>w. fst (snd w))"
definition sessions_of :: "ssh_world \<Rightarrow> nat" where "sessions_of = (\<lambda>w. fst (snd (snd w)))"

definition skip :: "(ssh_world, unit) state" where "skip = State_Monad.return ()"

definition mem_ssh :: "bool \<Rightarrow> ssh_world ssh_calls" where
  "mem_ssh session_ok = \<lparr>
     NewDialer = (\<lambda>_. count_up (\<lambda>(d, c, s, q) n. (n, c, s, q), dialers_of) True),
     SSHClient = count_up (\<lambda>(d, c, s, q) n. (d, n, s, q), clients_of) True,
     NewSession = count_up (\<lambda>(d, c, s, q) n. (d, c, n, q), sessions_of) session_ok,
     RunInSession = (\<lambda>script. State_Monad.return (Value script)),
     ListenRemote = (\<lambda>_. State_Monad.return (Value ())),
     ListenAndServe = (\<lambda>_. State_Monad.return (Fail (OtherError ''closed''))),
     CloseDialer = count_down (\<lambda>(d, c, s, q) n. (n, c, s, q), dialers_of),
     CloseClient = count_down (\<lambda>(d, c, s, q) n. (d, n, s, q), clients_of),
     CloseSession = count_down (\<lambda>(d, c, s, q) n. (d, c, n, q), sessions_of),
     CloseListener = skip,
     Accept = State (\<lambda>(d, c, s, q). case q of 0 \<Rightarrow> (Fail io_EOF, (d, c, s, 0)) | Suc n \<Rightarrow> (Value (), (d, c, s, n))),
     CloseRequest = skip,
     DialLocal = (\<lambda>_. State_Monad.return (Value ())),
     StartRelay = skip,
     SleepSeconds = (\<lambda>_. skip) \<rparr>"

lemmas mem_ssh_defs = mem_ssh_def skip_def count_up_def count_down_def dialers_of_def clients_of_def sessions_of_def

lemma mem_ssh_counts: "counts_open dialers_of clients_of sessions_of (mem_ssh ok)"
  by (auto simp: counts_open_def opens_def closes_def keeps_def mem_ssh_defs split: nat.splits)




end
