(* ===== verification/Tunnels.thy ===== *)
theory Tunnels
  imports SshChannel
begin

text \<open>
  Connections that are set up again when they break: the reverse tunnels of
  \<open>pkg/kt/transmission/inbound.go\<close> and the SOCKS proxy of \<open>pkg/kt/command/connect/tun2socks.go\<close>, each as
  a step relation of its goroutines and its caller, who meet on a channel without a buffer; and the
  random ports of \<open>pkg/kt/util\<close> that they use.
\<close>

section \<open>Random ports and names\<close>

text \<open>\<open>intn i n\<close> is the i-th random number of a run, drawn below \<open>n\<close>.\<close>

definition RandomPort :: "(nat \<Rightarrow> nat \<Rightarrow> nat) \<Rightarrow> nat \<Rightarrow> int" where
  "RandomPort intn i = int (intn i (65535 - 1024)) + 1024"

definition letterRunes :: string where
  "letterRunes = ''abcdefghijklmnopqrstuvwxyzABCDEFGHIJKLMNOPQRSTUVWXYZ''"

definition RandomString :: "(nat \<Rightarrow> nat \<Rightarrow> nat) \<Rightarrow> nat \<Rightarrow> nat \<Rightarrow> string" where
  "RandomString intn i n = map (\<lambda>j. letterRunes ! intn (i + j) (length letterRunes)) [0..<n]"

text \<open>\<open>RandomSeconds\<close>: a number below the first bound is raised to it.\<close>

definition RandomSeconds :: "(nat \<Rightarrow> nat \<Rightarrow> nat) \<Rightarrow> nat \<Rightarrow> nat \<Rightarrow> nat \<Rightarrow> nat" where
  "RandomSeconds intn i lower upper = (let val = intn i upper in if val < lower then lower else val)"

text \<open>Twenty tries for a port on which nobody answers, then any port.  The argument counts the tries left.\<close>

fun random_port_loop :: "(string \<Rightarrow> bool) \<Rightarrow> (nat \<Rightarrow> nat \<Rightarrow> nat) \<Rightarrow> nat \<Rightarrow> nat \<Rightarrow> int" where
  "random_port_loop dial intn i 0 = RandomPort intn i"
| "random_port_loop dial intn i (Suc left) =
     (let port = RandomPort intn i
      in if dial ('':'' @ itoa port) then random_port_loop dial intn (Suc i) left else port)"

definition GetRandomTcpPort :: "(string \<Rightarrow> bool) \<Rightarrow> (nat \<Rightarrow> nat \<Rightarrow> nat) \<Rightarrow> int" where
  "GetRandomTcpPort dial intn = random_port_loop dial intn 0 20"

section \<open>Reverse tunnels\<close>

text \<open>
  A tunnel is served (for the first time, or again), or its goroutine is at \<open>res <- err\<close>, or it
  sleeps before it starts again.  Only the first attempt has the channel, and it never ends without
  an error (\<open>ForwardRemoteToLocal_result\<close>).
\<close>

datatype tunnel = Serving bool | Blocked | Asleep

text \<open>
  The receiver of the channel: the caller in its \<open>select\<close>, the goroutine that takes one error after the
  second has passed, or nobody, after an error that was returned or taken.
\<close>

datatype receiver = AwaitError | Draining | ErrorReturned | ErrorDrained

record tunnels =
  Tunnels :: "tunnel list"
  Receiver :: receiver

definition start_tunnels :: "string \<Rightarrow> int \<Rightarrow> tunnels" where
  "start_tunnels exposePorts localSshPort =
     (case ForwardRemotePortsViaSshTunnel exposePorts localSshPort of
        (ts, err) \<Rightarrow> \<lparr> Tunnels = replicate (length ts) (Serving True), Receiver = (if err = None then AwaitError else ErrorReturned) \<rparr>)"

definition set_tunnel :: "nat \<Rightarrow> tunnel \<Rightarrow> tunnels \<Rightarrow> tunnels" where
  "set_tunnel i t s = s\<lparr>Tunnels := (Tunnels s)[i := t]\<rparr>"

inductive tunnel_step :: "tunnels \<Rightarrow> tunnels \<Rightarrow> bool" where
  breaks_first: "i < length (Tunnels s) \<Longrightarrow> Tunnels s ! i = Serving True \<Longrightarrow> tunnel_step s (set_tunnel i Blocked s)"
| breaks_again: "i < length (Tunnels s) \<Longrightarrow> Tunnels s ! i = Serving False \<Longrightarrow> tunnel_step s (set_tunnel i Asleep s)"
| wakes: "i < length (Tunnels s) \<Longrightarrow> Tunnels s ! i = Asleep \<Longrightarrow> tunnel_step s (set_tunnel i (Serving False) s)"
| refuse: "i < length (Tunnels s) \<Longrightarrow> Tunnels s ! i = Blocked \<Longrightarrow> Receiver s = AwaitError \<Longrightarrow>
    tunnel_step s (set_tunnel i Asleep (s\<lparr>Receiver := ErrorReturned\<rparr>))"
| second_passed: "Receiver s = AwaitError \<Longrightarrow> tunnel_step s (s\<lparr>Receiver := Draining\<rparr>)"
| drain: "i < length (Tunnels s) \<Longrightarrow> Tunnels s ! i = Blocked \<Longrightarrow> Receiver s = Draining \<Longrightarrow>
    tunnel_step s (set_tunnel i Asleep (s\<lparr>Receiver := ErrorDrained\<rparr>))"

inductive_cases tunnel_stepE: "tunnel_step s t"

text \<open>A tunnel that is past its first attempt.\<close>

fun set_up_again :: "tunnel \<Rightarrow> bool" where
  "set_up_again (Serving first) = (\<not> first)"
| "set_up_again Blocked = False"
| "set_up_again Asleep = True"

definition receives :: "tunnels \<Rightarrow> nat" where
  "receives s = (if Receiver s = AwaitError \<or> Receiver s = Draining then 1 else 0)"

definition again :: "tunnels \<Rightarrow> nat" where
  "again s = length (filter set_up_again (Tunnels s))"

lemma again_set:
  assumes "i < length ts"
  shows "length (filter set_up_again (ts[i := t])) + (if set_up_again (ts ! i) then 1 else 0) =
    length (filter set_up_again ts) + (if set_up_again t then 1 else 0)"
  using assms
proof (induction ts arbitrary: i)
  case (Cons a ts)
  then show ?case by (cases i) auto
qed simp

lemma tunnel_step_again: "tunnel_step s t \<Longrightarrow> again t + receives t \<le> again s + receives s"
proof (induction rule: tunnel_step.induct)
  case (breaks_first i s)
  then show ?case using again_set [of i "Tunnels s" Blocked] by (simp add: again_def receives_def set_tunnel_def)
next
  case (breaks_again i s)
  then show ?case using again_set [of i "Tunnels s" Asleep] by (simp add: again_def receives_def set_tunnel_def)
next
  case (wakes i s)
  then show ?case using again_set [of i "Tunnels s" "Serving False"] by (simp add: again_def receives_def set_tunnel_def)
next
  case (refuse i s)
  then show ?case using again_set [of i "Tunnels s" Asleep] by (simp add: again_def receives_def set_tunnel_def)
next
  case (drain i s)
  then show ?case using again_set [of i "Tunnels s" Asleep] by (simp add: again_def receives_def set_tunnel_def)
qed (simp add: again_def receives_def)

lemma tunnel_steps_again: "tunnel_step\<^sup>*\<^sup>* s t \<Longrightarrow> again t + receives t \<le> again s + receives s"
  by (induction rule: rtranclp_induct) (auto dest: tunnel_step_again)

lemma again_start: "again (start_tunnels ports p) + receives (start_tunnels ports p) \<le> 1"
  by (auto simp: start_tunnels_def again_def receives_def split: prod.split)

lemma tunnel_step_length: "tunnel_step s t \<Longrightarrow> length (Tunnels t) = length (Tunnels s)"
  by (auto elim: tunnel_stepE simp: set_tunnel_def)

lemma tunnel_steps_length: "tunnel_step\<^sup>*\<^sup>* s t \<Longrightarrow> length (Tunnels t) = length (Tunnels s)"
  by (induction rule: rtranclp_induct) (auto dest: tunnel_step_length)

text \<open>When nobody receives any more, a goroutine that sends does so for ever.\<close>

lemma blocked_step:
  assumes "tunnel_step s t" and "receives s = 0" and "i < length (Tunnels s)" and "Tunnels s ! i = Blocked"
  shows "receives t = 0 \<and> i < length (Tunnels t) \<and> Tunnels t ! i = Blocked"
  using assms by cases (auto simp: receives_def set_tunnel_def nth_list_update)

lemma blocked_steps:
  assumes "tunnel_step\<^sup>*\<^sup>* s t" and "receives s = 0" and "i < length (Tunnels s)" and "Tunnels s ! i = Blocked"
  shows "receives t = 0 \<and> i < length (Tunnels t) \<and> Tunnels t ! i = Blocked"
  using assms by (induction rule: rtranclp_induct) (use blocked_step in blast)+

text \<open>One tunnel always has somebody to take its error.\<close>

lemma single_can_serve:
  assumes l: "length (Tunnels s) = 1" and a: "again s + receives s = 1"
  shows "\<exists>t. tunnel_step\<^sup>*\<^sup>* s t \<and> Tunnels t = [Serving False]"
proof -
  obtain x where x: "Tunnels s = [x]" using l by (cases "Tunnels s") auto
  have wake: "\<exists>t. tunnel_step\<^sup>*\<^sup>* u t \<and> Tunnels t = [Serving False]" if "Tunnels u = [Asleep]" for u
    using tunnel_step.wakes [of 0 u] that by (intro exI [of _ "set_tunnel 0 (Serving False) u"]) (auto simp: set_tunnel_def)
  have blocked: "\<exists>t. tunnel_step\<^sup>*\<^sup>* u t \<and> Tunnels t = [Serving False]"
    if u: "Tunnels u = [Blocked]" and r: "Receiver u = AwaitError \<or> Receiver u = Draining" for u
  proof -
    have "\<exists>v. tunnel_step u v \<and> Tunnels v = [Asleep]"
      using r tunnel_step.refuse [of 0 u] tunnel_step.drain [of 0 u] u by (fastforce simp: set_tunnel_def)
    then obtain v where v: "tunnel_step u v" "Tunnels v = [Asleep]" by blast
    from wake [OF v(2)] v(1) show ?thesis by (meson converse_rtranclp_into_rtranclp)
  qed
  show ?thesis
  proof (cases x)
    case (Serving first)
    show ?thesis
    proof (cases first)
      case True
      with Serving x a have r: "Receiver s = AwaitError \<or> Receiver s = Draining"
        by (auto simp: again_def receives_def split: if_splits)
      have "tunnel_step s (set_tunnel 0 Blocked s)" using tunnel_step.breaks_first [of 0 s] x Serving True by simp
      moreover have "\<exists>t. tunnel_step\<^sup>*\<^sup>* (set_tunnel 0 Blocked s) t \<and> Tunnels t = [Serving False]"
        using r x by (intro blocked) (auto simp: set_tunnel_def)
      ultimately show ?thesis by (meson converse_rtranclp_into_rtranclp)
    next
      case False
      with Serving x show ?thesis by (intro exI [of _ s]) simp
    qed
  next
    case Blocked
    with x a show ?thesis by (intro blocked) (auto simp: again_def receives_def split: if_splits)
  next
    case Asleep
    with x show ?thesis by (intro wake) simp
  qed
qed

lemma single_balance_step:
  "tunnel_step s t \<Longrightarrow> length (Tunnels s) = 1 \<Longrightarrow> again s + receives s = 1 \<Longrightarrow> again t + receives t = 1"
  by (cases "Tunnels s") (auto elim!: tunnel_stepE simp: again_def receives_def set_tunnel_def split: if_splits)

lemma single_balance:
  assumes "tunnel_step\<^sup>*\<^sup>* s t" and "length (Tunnels s) = 1" and "again s + receives s = 1"
  shows "length (Tunnels t) = 1 \<and> again t + receives t = 1"
  using assms by (induction rule: rtranclp_induct) (use single_balance_step tunnel_step_length in \<open>fastforce\<close>)+

text \<open>
  The call as its caller sees it: \<open>start\<close> starts the goroutines of the tunnels and returns the error
  that comes in within a second, if one does.  A pair that cannot be parsed ends the call with the
  tunnels before it started.
\<close>

definition forward_ports ::
  "(string \<Rightarrow> (string \<times> string \<times> string) list \<Rightarrow> ('w, go_error option) state) \<Rightarrow> string \<Rightarrow> int \<Rightarrow> string \<Rightarrow>
   ('w, unit outcome) state" where
  "forward_ports start exposePorts localSshPort privateKey =
     (case ForwardRemotePortsViaSshTunnel exposePorts localSshPort of
        (ts, err) \<Rightarrow> State_Monad.bind (start privateKey ts) (\<lambda>first.
          State_Monad.return (case err of Some e \<Rightarrow> Fail e | None \<Rightarrow> (case first of Some e \<Rightarrow> Fail e | None \<Rightarrow> Value ()))))"

definition ForwardPodToLocal ::
  "(string \<Rightarrow> bool) \<Rightarrow> (nat \<Rightarrow> nat \<Rightarrow> nat) \<Rightarrow> (string \<Rightarrow> int \<Rightarrow> int \<Rightarrow> ('w, unit outcome) state) \<Rightarrow>
   (string \<Rightarrow> (string \<times> string \<times> string) list \<Rightarrow> ('w, go_error option) state) \<Rightarrow> string \<Rightarrow> string \<Rightarrow> string \<Rightarrow>
   ('w, int outcome) state" where
  "ForwardPodToLocal dial intn SetupPortForwardToLocal start exposePorts podName privateKey =
     (let localSshPort = GetRandomTcpPort dial intn
      in go_try (SetupPortForwardToLocal podName 22 localSshPort) (\<lambda>_.
         go_try (forward_ports start exposePorts localSshPort privateKey) (\<lambda>_.
         State_Monad.return (Value localSshPort))))"

section \<open>The SOCKS proxy\<close>

text \<open>
  \<open>startSocks5Connection\<close>.  An attempt has a goroutine (in \<open>StartSocks5Proxy\<close>, at \<open>res <- err\<close>, past it,
  asleep, or gone on to the next attempt), a caller (in its \<open>select\<close>, with the error, past the timeout
  but before \<open>gone = true\<close>, with the proxy established) and the variable \<open>gone\<close>.  The goroutine looks
  at \<open>gone\<close> when the proxy has returned.
\<close>

datatype proxy_worker = Proxying | SendingError | Interrupted | Waiting | Restarted

datatype proxy_caller = AtSelect | GotError | PastTimeout | ProxyEstablished

record proxy_attempt =
  ProxyWorker :: proxy_worker
  ProxyCaller :: proxy_caller
  ProxyGone :: bool

definition new_proxy :: proxy_attempt where
  "new_proxy = \<lparr> ProxyWorker = Proxying, ProxyCaller = AtSelect, ProxyGone = False \<rparr>"

inductive proxy_step :: "proxy_attempt list \<Rightarrow> proxy_attempt list \<Rightarrow> bool" where
  proxy_ends: "i < length s \<Longrightarrow> ProxyWorker (s ! i) = Proxying \<Longrightarrow>
    proxy_step s (s[i := (s ! i)\<lparr>ProxyWorker := (if ProxyGone (s ! i) then Interrupted else SendingError)\<rparr>])"
| proxy_error: "i < length s \<Longrightarrow> ProxyWorker (s ! i) = SendingError \<Longrightarrow> ProxyCaller (s ! i) = AtSelect \<Longrightarrow>
    proxy_step s (s[i := (s ! i)\<lparr>ProxyWorker := Interrupted, ProxyCaller := GotError\<rparr>])"
| proxy_timeout: "i < length s \<Longrightarrow> ProxyCaller (s ! i) = AtSelect \<Longrightarrow>
    proxy_step s (s[i := (s ! i)\<lparr>ProxyCaller := PastTimeout\<rparr>])"
| proxy_gone: "i < length s \<Longrightarrow> ProxyCaller (s ! i) = PastTimeout \<Longrightarrow>
    proxy_step s (s[i := (s ! i)\<lparr>ProxyCaller := ProxyEstablished, ProxyGone := True\<rparr>])"
| proxy_sleep: "i < length s \<Longrightarrow> ProxyWorker (s ! i) = Interrupted \<Longrightarrow>
    proxy_step s (s[i := (s ! i)\<lparr>ProxyWorker := Waiting\<rparr>])"
| proxy_restart: "i < length s \<Longrightarrow> ProxyWorker (s ! i) = Waiting \<Longrightarrow>
    proxy_step s (s[i := (s ! i)\<lparr>ProxyWorker := Restarted\<rparr>] @ [new_proxy])"

inductive_cases proxy_stepE: "proxy_step s t"

text \<open>A goroutine that sends to a caller that has left its \<open>select\<close>.\<close>

definition proxy_lost :: "proxy_attempt \<Rightarrow> bool" where
  "proxy_lost a \<longleftrightarrow> ProxyWorker a = SendingError \<and> ProxyCaller a \<noteq> AtSelect"

definition attempt_ok :: "proxy_attempt \<Rightarrow> bool" where
  "attempt_ok a \<longleftrightarrow> (ProxyCaller a = ProxyEstablished \<longrightarrow> ProxyGone a) \<and>
     (ProxyCaller a = GotError \<longrightarrow> ProxyWorker a \<noteq> Proxying \<and> ProxyWorker a \<noteq> SendingError)"

text \<open>All attempts but the last have been followed by another; no attempt has been before it ended.\<close>

definition proxy_inv :: "proxy_attempt list \<Rightarrow> bool" where
  "proxy_inv s \<longleftrightarrow> s \<noteq> [] \<and> (\<forall>a \<in> set (butlast s). ProxyWorker a = Restarted) \<and> ProxyWorker (last s) \<noteq> Restarted \<and>
     (\<forall>a \<in> set s. attempt_ok a)"

lemma list_update_butlast_last:
  "s \<noteq> [] \<Longrightarrow> i < length s \<Longrightarrow> (i < length (butlast s) \<and> s[i := a] = (butlast s)[i := a] @ [last s] \<and> s ! i = butlast s ! i) \<or>
   (s[i := a] = butlast s @ [a] \<and> s ! i = last s)"
  by (cases s rule: rev_cases) (auto simp: list_update_append nth_append)

lemma proxy_inv_update:
  assumes "proxy_inv s" and "i < length s"
    and "ProxyWorker (s ! i) = Restarted \<longleftrightarrow> ProxyWorker a = Restarted" and "attempt_ok (s ! i) \<Longrightarrow> attempt_ok a"
  shows "proxy_inv (s[i := a])"
proof -
  from assms(1) have ne: "s \<noteq> []" by (simp add: proxy_inv_def)
  have ok: "\<forall>x \<in> set (s[i := a]). attempt_ok x"
    using assms(1,2,4) by (auto simp: proxy_inv_def dest: set_update_subset_insert [THEN subsetD])
  from list_update_butlast_last [OF ne assms(2), of a] show ?thesis
  proof (elim disjE conjE)
    assume b: "i < length (butlast s)" "s[i := a] = (butlast s)[i := a] @ [last s]" "s ! i = butlast s ! i"
    with assms have "ProxyWorker a = Restarted" by (auto simp: proxy_inv_def)
    then have "\<forall>x \<in> set ((butlast s)[i := a]). ProxyWorker x = Restarted"
      using assms(1) by (auto simp: proxy_inv_def dest: set_update_subset_insert [THEN subsetD])
    with assms(1) ok b(2) show ?thesis by (simp add: proxy_inv_def)
  next
    assume b: "s[i := a] = butlast s @ [a]" "s ! i = last s"
    with assms(1,3) ok show ?thesis by (simp add: proxy_inv_def)
  qed
qed

lemma proxy_inv_step: "proxy_step s t \<Longrightarrow> proxy_inv s \<Longrightarrow> proxy_inv t"
proof (induction rule: proxy_step.induct)
  case (proxy_restart i s)
  then have ne: "s \<noteq> []" by (simp add: proxy_inv_def)
  have l: "s ! i = last s" "s[i := (s ! i)\<lparr>ProxyWorker := Restarted\<rparr>] = butlast s @ [(s ! i)\<lparr>ProxyWorker := Restarted\<rparr>]"
    using list_update_butlast_last [OF ne proxy_restart(1), of "(s ! i)\<lparr>ProxyWorker := Restarted\<rparr>"] proxy_restart
    by (auto simp: proxy_inv_def)
  have "attempt_ok (last s)" using proxy_restart(3) ne by (simp add: proxy_inv_def)
  with proxy_restart(3) l(1) show ?case
    unfolding l(2) by (auto simp: proxy_inv_def new_proxy_def butlast_append attempt_ok_def dest: in_set_butlastD)
qed (auto intro!: proxy_inv_update simp: attempt_ok_def)

lemma proxy_inv_steps: "proxy_step\<^sup>*\<^sup>* s t \<Longrightarrow> proxy_inv s \<Longrightarrow> proxy_inv t"
  by (induction rule: rtranclp_induct) (auto intro: proxy_inv_step)

lemma proxy_inv_new: "proxy_inv [new_proxy]"
  by (simp add: proxy_inv_def new_proxy_def attempt_ok_def)

text \<open>From every state whose last attempt is not lost there is a way to another attempt.\<close>

lemma proxy_last_steps:
  "ProxyWorker a = Proxying \<Longrightarrow> proxy_step (xs @ [a]) (xs @ [a\<lparr>ProxyWorker := (if ProxyGone a then Interrupted else SendingError)\<rparr>])"
  "ProxyWorker a = SendingError \<Longrightarrow> ProxyCaller a = AtSelect \<Longrightarrow>
    proxy_step (xs @ [a]) (xs @ [a\<lparr>ProxyWorker := Interrupted, ProxyCaller := GotError\<rparr>])"
  "ProxyCaller a = PastTimeout \<Longrightarrow> proxy_step (xs @ [a]) (xs @ [a\<lparr>ProxyCaller := ProxyEstablished, ProxyGone := True\<rparr>])"
  "ProxyWorker a = Interrupted \<Longrightarrow> proxy_step (xs @ [a]) (xs @ [a\<lparr>ProxyWorker := Waiting\<rparr>])"
  "ProxyWorker a = Waiting \<Longrightarrow> proxy_step (xs @ [a]) (xs @ [a\<lparr>ProxyWorker := Restarted\<rparr>, new_proxy])"
  using proxy_step.proxy_ends [of "length xs" "xs @ [a]"] proxy_step.proxy_error [of "length xs" "xs @ [a]"]
    proxy_step.proxy_gone [of "length xs" "xs @ [a]"] proxy_step.proxy_sleep [of "length xs" "xs @ [a]"]
    proxy_step.proxy_restart [of "length xs" "xs @ [a]"]
  by simp_all

definition restarts :: "proxy_attempt list \<Rightarrow> bool" where
  "restarts s \<longleftrightarrow> (\<exists>t. proxy_step\<^sup>*\<^sup>* s t \<and> length t = Suc (length s) \<and> last t = new_proxy)"

lemma restarts_step: "proxy_step s t \<Longrightarrow> length t = length s \<Longrightarrow> restarts t \<Longrightarrow> restarts s"
  unfolding restarts_def by (metis converse_rtranclp_into_rtranclp)

lemma restarts_waiting: "ProxyWorker a = Waiting \<Longrightarrow> restarts (xs @ [a])"
  unfolding restarts_def using proxy_last_steps(5) [of a xs]
  by (intro exI [of _ "xs @ [a\<lparr>ProxyWorker := Restarted\<rparr>, new_proxy]"]) auto

lemma restarts_interrupted: "ProxyWorker a = Interrupted \<Longrightarrow> restarts (xs @ [a])"
  by (rule restarts_step [OF proxy_last_steps(4)]) (auto intro: restarts_waiting)

lemma restarts_sending: "ProxyWorker a = SendingError \<Longrightarrow> ProxyCaller a = AtSelect \<Longrightarrow> restarts (xs @ [a])"
  by (rule restarts_step [OF proxy_last_steps(2)]) (auto intro: restarts_interrupted)

lemma restarts_gone: "ProxyWorker a = Proxying \<Longrightarrow> ProxyGone a \<Longrightarrow> restarts (xs @ [a])"
  by (rule restarts_step [OF proxy_last_steps(1)]) (auto intro: restarts_interrupted)

lemma restarts_proxying:
  assumes "ProxyWorker a = Proxying" and "attempt_ok a"
  shows "restarts (xs @ [a])"
proof (cases "ProxyGone a")
  case False
  with assms consider "ProxyCaller a = AtSelect" | "ProxyCaller a = PastTimeout"
    by (cases "ProxyCaller a") (auto simp: attempt_ok_def)
  then show ?thesis
  proof cases
    case 1
    show ?thesis
      by (rule restarts_step [OF proxy_last_steps(1)]) (use 1 False assms(1) in \<open>auto intro: restarts_sending\<close>)
  next
    case 2
    show ?thesis
      by (rule restarts_step [OF proxy_last_steps(3)]) (use 2 assms(1) in \<open>auto intro: restarts_gone\<close>)
  qed
qed (use assms restarts_gone in blast)

lemma proxy_restarts:
  assumes i: "proxy_inv s" and l: "\<not> proxy_lost (last s)"
  shows "restarts s"
proof -
  obtain xs a where s: "s = xs @ [a]" using i by (cases s rule: rev_cases) (auto simp: proxy_inv_def)
  show ?thesis
  proof (cases "ProxyWorker a")
    case Proxying
    with i s show ?thesis by (auto simp: proxy_inv_def intro: restarts_proxying)
  next
    case SendingError
    with l s have "ProxyCaller a = AtSelect" by (simp add: proxy_lost_def)
    with SendingError s show ?thesis by (simp add: restarts_sending)
  qed (use i s in \<open>auto simp: proxy_inv_def intro: restarts_interrupted restarts_waiting\<close>)
qed

text \<open>A lost attempt stays, and no other follows it.\<close>

lemma proxy_lost_step:
  assumes "proxy_step s t" and "proxy_inv s" and "proxy_lost (last s)"
  shows "length t = length s \<and> proxy_lost (last t)"
proof -
  have ne: "s \<noteq> []" and l: "proxy_lost (s ! (length s - 1))" using assms(2,3) by (auto simp: proxy_inv_def last_conv_nth)
  have w: "ProxyWorker (s ! i) \<noteq> Waiting" if "i < length s" for i
  proof (cases "i = length s - 1")
    case False
    with that have "i < length (butlast s)" by simp
    then have "s ! i \<in> set (butlast s)" by (metis nth_butlast nth_mem)
    with assms(2) show ?thesis by (auto simp: proxy_inv_def)
  qed (use l in \<open>auto simp: proxy_lost_def\<close>)
  have upd: "length (s[i := a]) = length s \<and> proxy_lost (last (s[i := a]))"
    if "i = length s - 1 \<Longrightarrow> proxy_lost a" for i a
    using that assms(3) ne by (simp add: last_list_update)
  from assms(1) show ?thesis
  proof cases
    case (proxy_restart i)
    with w show ?thesis by blast
  next
    case (proxy_ends i)
    show ?thesis unfolding proxy_ends(1) by (rule upd) (use l proxy_ends in \<open>simp add: proxy_lost_def\<close>)
  next
    case (proxy_error i)
    show ?thesis unfolding proxy_error(1) by (rule upd) (use l proxy_error in \<open>simp add: proxy_lost_def\<close>)
  next
    case (proxy_timeout i)
    show ?thesis unfolding proxy_timeout(1) by (rule upd) (use l proxy_timeout in \<open>simp add: proxy_lost_def\<close>)
  next
    case (proxy_gone i)
    show ?thesis unfolding proxy_gone(1) by (rule upd) (use l proxy_gone in \<open>simp add: proxy_lost_def\<close>)
  next
    case (proxy_sleep i)
    show ?thesis unfolding proxy_sleep(1) by (rule upd) (use l proxy_sleep in \<open>simp add: proxy_lost_def\<close>)
  qed
qed

lemma proxy_lost_steps:
  assumes "proxy_step\<^sup>*\<^sup>* s t" and "proxy_inv s" and "proxy_lost (last s)"
  shows "length t = length s \<and> proxy_lost (last t)"
  using assms(1)
proof (induction rule: rtranclp_induct)
  case (step t u)
  then show ?case using proxy_lost_step [OF step(2)] proxy_inv_steps [OF step(1) assms(2)] by simp
qed (use assms in simp)

subsection \<open>Properties\<close>


text \<open>Two ports; both tunnels break, and the error of the first is taken.\<close>

definition sample_broken :: tunnels where
  "sample_broken = \<lparr> Tunnels = [Asleep, Blocked], Receiver = ErrorDrained \<rparr>"

lemma sample_broken_reached: "tunnel_step\<^sup>*\<^sup>* (start_tunnels ''80,81'' 2222) sample_broken"
proof -
  let ?s0 = "\<lparr> Tunnels = [Serving True, Serving True], Receiver = AwaitError \<rparr>"
  have "start_tunnels ''80,81'' 2222 = ?s0"
    by (simp add: start_tunnels_def ForwardRemotePortsViaSshTunnel_def ParsePortMapping_def atoi_def is_digit_def
        digits_val_def digit_val_def)
  moreover have "tunnel_step ?s0 (?s0\<lparr>Receiver := Draining\<rparr>)" by (rule tunnel_step.second_passed) simp
  moreover have "tunnel_step (?s0\<lparr>Receiver := Draining\<rparr>) (set_tunnel 0 Blocked (?s0\<lparr>Receiver := Draining\<rparr>))"
    by (rule tunnel_step.breaks_first) simp_all
  moreover have "tunnel_step (set_tunnel 0 Blocked (?s0\<lparr>Receiver := Draining\<rparr>))
      (set_tunnel 1 Blocked (set_tunnel 0 Blocked (?s0\<lparr>Receiver := Draining\<rparr>)))"
    by (rule tunnel_step.breaks_first) (simp_all add: set_tunnel_def)
  moreover have "tunnel_step (set_tunnel 1 Blocked (set_tunnel 0 Blocked (?s0\<lparr>Receiver := Draining\<rparr>))) sample_broken"
    using tunnel_step.drain [of 0 "set_tunnel 1 Blocked (set_tunnel 0 Blocked (?s0\<lparr>Receiver := Draining\<rparr>))"]
    by (simp add: set_tunnel_def sample_broken_def)
  ultimately show ?thesis by (metis converse_rtranclp_into_rtranclp rtranclp.rtrancl_refl)
qed


text \<open>
  C34. A single reverse tunnel is always set up again: from every state that it can come to, whenever
  and however often it broke, it can come to be served again.
\<close>

theorem single_tunnel_recovers:
  assumes "ForwardRemotePortsViaSshTunnel exposePorts localSshPort = ([pair], None)"
    and "tunnel_step\<^sup>*\<^sup>* (start_tunnels exposePorts localSshPort) s"
  shows "\<exists>t. tunnel_step\<^sup>*\<^sup>* s t \<and> Tunnels t = [Serving False]"
proof -
  have "start_tunnels exposePorts localSshPort = \<lparr> Tunnels = [Serving True], Receiver = AwaitError \<rparr>"
    using assms(1) by (simp add: start_tunnels_def)
  then have "length (Tunnels s) = 1 \<and> again s + receives s = 1"
    using single_balance [OF assms(2)] by (simp add: again_def receives_def)
  then show ?thesis using single_can_serve by blast
qed

lemma single_tunnel_recovers_witness:
  "\<exists>t. tunnel_step\<^sup>*\<^sup>* (set_tunnel 0 Blocked (start_tunnels ''80'' 2222)) t \<and> Tunnels t = [Serving False]"
proof -
  have p: "ForwardRemotePortsViaSshTunnel ''80'' 2222 =
      ([(''127.0.0.1:'' @ itoa 2222, ''0.0.0.0:'' @ itoa 80, ''127.0.0.1:'' @ itoa 80)], None)"
    by (simp add: ForwardRemotePortsViaSshTunnel_def ParsePortMapping_def atoi_def is_digit_def digits_val_def digit_val_def)
  then have "Tunnels (start_tunnels ''80'' 2222) = [Serving True]" by (simp add: start_tunnels_def)
  then have "tunnel_step (start_tunnels ''80'' 2222) (set_tunnel 0 Blocked (start_tunnels ''80'' 2222))"
    by (intro tunnel_step.breaks_first) simp_all
  from single_tunnel_recovers [OF p r_into_rtranclp [of tunnel_step, OF this]] show ?thesis .
qed


text \<open>The moment exists.\<close>

definition sample_lost :: "proxy_attempt list" where
  "sample_lost = [\<lparr> ProxyWorker = SendingError, ProxyCaller = PastTimeout, ProxyGone = False \<rparr>]"

lemma sample_lost_reached: "proxy_step\<^sup>*\<^sup>* [new_proxy] sample_lost" "proxy_lost (last sample_lost)"
proof -
  let ?s = "[\<lparr> ProxyWorker = Proxying, ProxyCaller = PastTimeout, ProxyGone = False \<rparr>]"
  have "proxy_step [new_proxy] ?s" using proxy_step.proxy_timeout [of 0 "[new_proxy]"] by (simp add: new_proxy_def)
  moreover have "proxy_step ?s sample_lost" using proxy_step.proxy_ends [of 0 ?s] by (simp add: sample_lost_def)
  ultimately show "proxy_step\<^sup>*\<^sup>* [new_proxy] sample_lost" by (metis converse_rtranclp_into_rtranclp rtranclp.rtrancl_refl)
  show "proxy_lost (last sample_lost)" by (simp add: proxy_lost_def sample_lost_def)
qed


text \<open>
  The random port of a port forward is one of the ports a user may bind, and nobody answers on it,
  unless somebody answered on each of the twenty ports that were tried.
\<close>

theorem random_port_usable:
  assumes "\<And>i n. 0 < n \<Longrightarrow> intn i n < n"
  shows "1024 \<le> GetRandomTcpPort dial intn \<and> GetRandomTcpPort dial intn < 65535 \<and>
    (dial ('':'' @ itoa (GetRandomTcpPort dial intn)) \<longrightarrow> (\<forall>i < 20. dial ('':'' @ itoa (RandomPort intn i))))"
proof -
  have r: "1024 \<le> RandomPort intn i \<and> RandomPort intn i < 65535" for i
    using assms [of "65535 - 1024" i] by (simp add: RandomPort_def)
  have "\<exists>j. random_port_loop dial intn i n = RandomPort intn j" for i n
    by (induction n arbitrary: i) (auto simp: Let_def)
  with r have "1024 \<le> GetRandomTcpPort dial intn \<and> GetRandomTcpPort dial intn < 65535"
    unfolding GetRandomTcpPort_def by metis
  moreover have "dial ('':'' @ itoa (random_port_loop dial intn i n)) \<longrightarrow> (\<forall>k < n. dial ('':'' @ itoa (RandomPort intn (i + k))))" for i n
  proof (induction n arbitrary: i)
    case (Suc n)
    show ?case
    proof (intro impI allI)
      fix k assume d: "dial ('':'' @ itoa (random_port_loop dial intn i (Suc n)))" and k: "k < Suc n"
      then have first: "dial ('':'' @ itoa (RandomPort intn i))" by (simp add: Let_def split: if_splits)
      with d have "dial ('':'' @ itoa (random_port_loop dial intn (Suc i) n))" by (simp add: Let_def)
      with Suc [of "Suc i"] have "k' < n \<Longrightarrow> dial ('':'' @ itoa (RandomPort intn (Suc i + k')))" for k' by blast
      with first k show "dial ('':'' @ itoa (RandomPort intn (i + k)))" by (cases k) simp_all
    qed
  qed simp
  from this [of 0 20] have "dial ('':'' @ itoa (GetRandomTcpPort dial intn)) \<longrightarrow> (\<forall>i < 20. dial ('':'' @ itoa (RandomPort intn i)))"
    by (simp add: GetRandomTcpPort_def)
  ultimately show ?thesis by blast
qed

lemma random_port_usable_witness:
  "1024 \<le> GetRandomTcpPort (\<lambda>a. a = '':1024'') (\<lambda>i n. i mod n)"
  using random_port_usable [of "\<lambda>i n. i mod n" "\<lambda>a. a = '':1024''"] by simp

text \<open>A random name has the letters of the alphabet only.\<close>

lemma RandomString_letters:
  assumes "\<And>i n. 0 < n \<Longrightarrow> intn i n < n"
  shows "length (RandomString intn i n) = n \<and> set (RandomString intn i n) \<subseteq> set letterRunes"
proof -
  have "letterRunes \<noteq> []" by (simp add: letterRunes_def)
  with assms have "letterRunes ! intn j (length letterRunes) \<in> set letterRunes" for j by (intro nth_mem) simp
  then show ?thesis by (auto simp: RandomString_def)
qed

end
