(* ===== verification/Commands.thy ===== *)
theory Commands
  imports Startup Connect Forward Birdseye
begin

text \<open>
  The command line: which arguments each command takes (the \<open>PreRunE\<close> of the commands in
  \<open>pkg/kt/command\<close>), the preparation before it runs (\<open>Prepare\<close> in \<open>general/setup.go\<close> with the time
  difference of \<open>cluster/heartbeat.go\<close>), what it runs, and what the shell completes.  The objects of the
  cobra library are left out: a command is its checks followed by its run.
\<close>

section \<open>Preparation\<close>

text \<open>
  \<open>SetupTimeDifference\<close>: a pod prints the time of the cluster.  The pod is removed in a goroutine whose
  error is only logged; here the goroutine has run before the answer is parsed.
\<close>

definition SetupTimeDifference :: "'w kube \<Rightarrow> kt_options \<Rightarrow> string \<Rightarrow> int \<Rightarrow> ('w prog, int outcome) state" where
  "SetupTimeDifference k opts random local_time =
     (let rectifierPodName = ''kt-rectifier-'' @ to_lower random
      in go_try (CreateRectifierPod k opts rectifierPodName) (\<lambda>_. do {
           r \<leftarrow> ExecInPod k ''standalone'' rectifierPodName (Global_Namespace opts) [''date'', ''+%s''];
           (case r of
              (_, _, Some err) \<Rightarrow> State_Monad.return (Fail err)
            | (stdout, _, None) \<Rightarrow>
                State_Monad.bind (RemovePod k rectifierPodName (Global_Namespace opts)) (\<lambda>_.
                State_Monad.return (time_difference stdout local_time)))
         }))"

text \<open>\<open>Prepare\<close>: the options of the cluster, and the time difference unless the local time is used.\<close>

definition Prepare ::
  "'w kube \<Rightarrow> kt_options \<Rightarrow> kube_loader \<Rightarrow> string \<Rightarrow> global_start \<Rightarrow> string \<Rightarrow> int \<Rightarrow> ('w prog, (kube_started \<times> int) outcome) state" where
  "Prepare k opts loader customize g random local_time =
     go_try (State_Monad.return (combineKubeOpts loader customize g)) (\<lambda>started.
       if Start_UseLocalTime g then State_Monad.return (Value (started, 0))
       else go_try (SetupTimeDifference k (opts\<lparr>Global_Namespace := UsedNamespace started\<rparr>) random local_time)
              (\<lambda>difference. State_Monad.return (Value (started, difference))))"

section \<open>Arguments of the commands\<close>

text \<open>
  \<open>prepare\<close> is \<open>Prepare\<close> with the flag whether the command insists on the local time, \<open>run\<close> the function
  of the command.
\<close>

type_synonym 'w preparation = "bool \<Rightarrow> ('w prog, unit outcome) state"

definition too_many :: "string \<Rightarrow> string list \<Rightarrow> go_error" where
  "too_many what args = Errorf (''too many '' @ what @ '' ('' @ join_with '','' args @ '')'')"

definition names_spcified :: "string list \<Rightarrow> go_error" where
  "names_spcified args = Errorf (''too many service names are spcified ('' @ join_with '','' args @ ''), should be one'')"

definition NewMeshCommand :: "'w preparation \<Rightarrow> (string \<Rightarrow> ('w prog, unit outcome) state) \<Rightarrow> string list \<Rightarrow> ('w prog, unit outcome) state" where
  "NewMeshCommand prepare run args =
     go_try (if length args = 0 then State_Monad.return (Fail (Errorf ''name of service to mesh is required''))
             else if length args > 1 then State_Monad.return (Fail (names_spcified args))
             else prepare False) (\<lambda>_. run (args ! 0))"

definition NewExchangeCommand :: "'w preparation \<Rightarrow> (string \<Rightarrow> ('w prog, unit outcome) state) \<Rightarrow> string list \<Rightarrow> ('w prog, unit outcome) state" where
  "NewExchangeCommand prepare run args =
     go_try (if length args = 0 then State_Monad.return (Fail (Errorf ''name of service to exchange is required''))
             else if length args > 1 then State_Monad.return (Fail (names_spcified args))
             else prepare False) (\<lambda>_. run (args ! 0))"

definition NewPreviewCommand :: "'w preparation \<Rightarrow> (string \<Rightarrow> ('w prog, unit outcome) state) \<Rightarrow> string list \<Rightarrow> ('w prog, unit outcome) state" where
  "NewPreviewCommand prepare run args =
     go_try (if length args = 0 then State_Monad.return (Fail (Errorf ''a service name must be specified''))
             else if length args > 1 then State_Monad.return (Fail (names_spcified args))
             else prepare False) (\<lambda>_. run (args ! 0))"

definition NewRecoverCommand :: "'w preparation \<Rightarrow> (string \<Rightarrow> ('w prog, unit outcome) state) \<Rightarrow> string list \<Rightarrow> ('w prog, unit outcome) state" where
  "NewRecoverCommand prepare run args =
     go_try (if length args = 0 then State_Monad.return (Fail (Errorf ''name of service to recover is required''))
             else if length args > 1 then State_Monad.return (Fail (names_spcified args))
             else prepare True) (\<lambda>_. run (args ! 0))"

definition NewForwardCommand :: "'w preparation \<Rightarrow> (string list \<Rightarrow> ('w prog, unit outcome) state) \<Rightarrow> string list \<Rightarrow> ('w prog, unit outcome) state" where
  "NewForwardCommand prepare run args =
     go_try (if length args = 0 then State_Monad.return (Fail (Errorf ''a service name or target address must be specified''))
             else if length args = 1 \<and> contains_char (args ! 0) CHR ''.''
             then State_Monad.return (Fail (Errorf (''a port must be specified because '' @ quoted (args ! 0) @ '' is not a service name'')))
             else if length args > 2 then State_Monad.return (Fail (too_many ''target addresses are spcified'' args))
             else prepare True) (\<lambda>_. run args)"

definition NewConnectCommand ::
  "'w preparation \<Rightarrow> unit outcome \<Rightarrow> ('w prog, unit outcome) state \<Rightarrow> string list \<Rightarrow> ('w prog, unit outcome) state" where
  "NewConnectCommand prepare pre_check run args =
     go_try (if length args > 0 then State_Monad.return (Fail (too_many ''options specified'' args))
             else go_try (State_Monad.return pre_check) (\<lambda>_. prepare False)) (\<lambda>_. run)"

definition NewCleanCommand :: "'w preparation \<Rightarrow> ('w prog, unit outcome) state \<Rightarrow> string list \<Rightarrow> ('w prog, unit outcome) state" where
  "NewCleanCommand prepare run args =
     go_try (if length args > 0 then State_Monad.return (Fail (too_many ''options specified'' args))
             else prepare False) (\<lambda>_. run)"

definition NewBirdseyeCommand :: "'w preparation \<Rightarrow> ('w prog, unit outcome) state \<Rightarrow> string list \<Rightarrow> ('w prog, unit outcome) state" where
  "NewBirdseyeCommand prepare run args =
     go_try (if length args > 0 then State_Monad.return (Fail (too_many ''options specified'' args))
             else prepare False) (\<lambda>_. run)"

section \<open>Sub-commands and completion\<close>

text \<open>The map order of Go is that of the entries.\<close>

definition configValidator :: "config_state \<Rightarrow> string list" where
  "configValidator s =
     (case loadConfig s of
        Value content \<Rightarrow> concat (map (\<lambda>(t, kv). map (\<lambda>(key, _). t @ ''.'' @ key) (entries kv)) (entries content))
      | _ \<Rightarrow> [])"

text \<open>\<open>names\<close> are the files of the directory of profiles, None when it cannot be read.\<close>

definition profileValidator :: "string list option \<Rightarrow> string list" where
  "profileValidator names = (case names of None \<Rightarrow> [] | Some ns \<Rightarrow> filter profile_name_ok ns)"

text \<open>The lines of \<open>list-profile\<close>; a file is its name, its time as printed and whether it is a directory.\<close>

definition ListProfile :: "(string \<times> string \<times> bool) list option \<Rightarrow> string list \<Rightarrow> string list outcome" where
  "ListProfile files args =
     (if length args > 0 then Fail (Errorf (''parameter '' @ quoted (args ! 0) @ '' is invalid''))
      else (case files of
              None \<Rightarrow> Fail (OtherError ''read profiles'')
            | Some fs \<Rightarrow> Value ((''Save Date          '' @ [CHR 0x09, CHR 0x09] @ ''Name'') #
                map (\<lambda>(name, time, _). time @ [CHR 0x09, CHR 0x09] @ name) (filter (\<lambda>(_, _, is_dir). \<not> is_dir) fs))))"

section \<open>Events of a watch\<close>

text \<open>An object of a watch is of the kind that was asked for, or of another one, which is only logged.\<close>

datatype watch_object = WatchedPod pod | WatchedService service | WatchedOther

datatype watch_event = EventAdded | EventDeleted | EventModified

definition handlePodEvent :: "watch_object \<Rightarrow> (pod \<Rightarrow> ('s, unit) state) option \<Rightarrow> ('s, unit) state" where
  "handlePodEvent ob f =
     (case ob of WatchedPod p \<Rightarrow> (case f of Some g \<Rightarrow> g p | None \<Rightarrow> State_Monad.return ()) | _ \<Rightarrow> State_Monad.return ())"

definition handleServiceEvent :: "watch_object \<Rightarrow> (service \<Rightarrow> ('s, unit) state) option \<Rightarrow> ('s, unit) state" where
  "handleServiceEvent ob f =
     (case ob of WatchedService s \<Rightarrow> (case f of Some g \<Rightarrow> g s | None \<Rightarrow> State_Monad.return ()) | _ \<Rightarrow> State_Monad.return ())"

definition WatchPod ::
  "(pod \<Rightarrow> ('s, unit) state) option \<Rightarrow> (pod \<Rightarrow> ('s, unit) state) option \<Rightarrow> (pod \<Rightarrow> ('s, unit) state) option \<Rightarrow>
   watch_event \<Rightarrow> watch_object \<Rightarrow> ('s, unit) state" where
  "WatchPod fAdd fDel fMod e ob =
     handlePodEvent ob (case e of EventAdded \<Rightarrow> fAdd | EventDeleted \<Rightarrow> fDel | EventModified \<Rightarrow> fMod)"

definition WatchService ::
  "(service \<Rightarrow> ('s, unit) state) option \<Rightarrow> (service \<Rightarrow> ('s, unit) state) option \<Rightarrow> (service \<Rightarrow> ('s, unit) state) option \<Rightarrow>
   watch_event \<Rightarrow> watch_object \<Rightarrow> ('s, unit) state" where
  "WatchService fAdd fDel fMod e ob =
     handleServiceEvent ob (case e of EventAdded \<Rightarrow> fAdd | EventDeleted \<Rightarrow> fDel | EventModified \<Rightarrow> fMod)"

section \<open>What a dry run of clean shows\<close>

definition plan_lines :: "string \<Rightarrow> string list \<Rightarrow> string list" where
  "plan_lines what names = (''Find '' @ itoa (int (length names)) @ '' '' @ what) # map (\<lambda>name. '' * '' @ name) names"

definition PrintClusterResourcesToClean :: "resource_to_clean \<Rightarrow> string list" where
  "PrintClusterResourcesToClean r =
     plan_lines ''unavailing pods to delete:'' (PodsToDelete r)
     @ plan_lines ''unavailing config maps to delete:'' (ConfigMapsToDelete r)
     @ plan_lines ''unavailing deployments to delete:'' (DeploymentsToDelete r)
     @ plan_lines ''exchanged deployments to recover:''
         (map (\<lambda>(name, replica). name @ '' -> '' @ itoa replica) (entries (DeploymentsToScale r)))
     @ plan_lines ''unavailing service to delete:'' (ServicesToDelete r)
     @ plan_lines ''meshed service to recover:'' (ServicesToRecover r)
     @ plan_lines ''locked services to recover:'' (ServicesToUnlock r)"

end
