(* ===== verification/Tickers.thy ===== *)
theory Tickers
  imports Tunnels MeshUsers CleanProps Commands
begin

text \<open>
  The loops over tickers: the heartbeats of the objects and of a port forward (\<open>SetupHeartBeat\<close> and
  \<open>SetupPortForwardHeartBeat\<close> in \<open>pkg/kt/service/cluster/heartbeat.go\<close>) and of the SOCKS proxy
  (\<open>setupSocks5HeartBeat\<close> in \<open>pkg/kt/command/connect/tun2socks.go\<close>); and how the heartbeats of a session
  keep its objects from being cleaned, and which pods have no heartbeat.  Times are seconds after the start of the ticker.
\<close>

section \<open>A loop over a ticker\<close>

text \<open>
  A ticker with period \<open>p\<close> sends at its multiples, until it is stopped at \<open>stop\<close>; its channel holds one
  tick, and a tick that finds it full is dropped.  The loop is at its \<open>select\<close> since \<open>t\<close> and has received
  at \<open>u\<close> before; a receipt at \<open>c\<close> is followed by work that takes \<open>work c\<close>.  With a \<open>limit\<close> the \<open>select\<close> times
  out, without one it waits for ever.  The receipts are returned, with the time at which the loop is in
  its last \<open>select\<close>.  (A ticker with period 0 cannot be made; none of the callers does.)
\<close>

definition following_tick :: "nat \<Rightarrow> nat \<Rightarrow> nat" where
  "following_tick p u = (u div p + 1) * p"

lemma next_tick: "0 < p \<Longrightarrow> u < following_tick p u" "following_tick p u \<le> u + (p :: nat)"
proof -
  have "u = u div p * p + u mod p" by simp
  then show "0 < p \<Longrightarrow> u < following_tick p u" "following_tick p u \<le> u + p"
    using mod_less_divisor [of p u] unfolding following_tick_def add_mult_distrib mult_1 by linarith+
qed

function tick_loop :: "nat \<Rightarrow> nat \<Rightarrow> nat option \<Rightarrow> (nat \<Rightarrow> nat) \<Rightarrow> nat \<Rightarrow> nat \<Rightarrow> nat list \<times> nat" where
  "tick_loop p stop limit work u t =
     (let tick = following_tick p u
      in if p = 0 \<or> stop < tick \<or> (case limit of None \<Rightarrow> False | Some l \<Rightarrow> t + l < tick) then ([], t)
         else let c = max t tick
              in (case tick_loop p stop limit work c (c + work c) of (cs, e) \<Rightarrow> (c # cs, e)))"
  by auto

termination
proof (relation "measure (\<lambda>(p, stop, limit, work, u, t). stop - u)")
  fix p stop u t tick c :: nat and limit :: "nat option" and work :: "nat \<Rightarrow> nat"
  assume "tick = following_tick p u" "\<not> (p = 0 \<or> stop < tick \<or> (case limit of None \<Rightarrow> False | Some l \<Rightarrow> t + l < tick))" "c = max t tick"
  moreover from this have "u < tick" using next_tick(1) [of p u] by simp
  ultimately show "((p, stop, limit, work, c, c + work c), p, stop, limit, work, u, t) \<in> measure (\<lambda>(p, stop, limit, work, u, t). stop - u)"
    by (simp add: max_def) linarith
qed simp

declare tick_loop.simps [simp del]

text \<open>\<open>SetupHeartBeat\<close>, until the process ends at \<open>stop\<close>; the updater never times out.\<close>

definition resource_period :: "(nat \<Rightarrow> nat \<Rightarrow> nat) \<Rightarrow> nat \<Rightarrow> nat" where
  "resource_period intn i = 60 * 2 - RandomSeconds intn i 0 10"

definition resource_beats :: "(nat \<Rightarrow> nat \<Rightarrow> nat) \<Rightarrow> nat \<Rightarrow> (nat \<Rightarrow> nat) \<Rightarrow> nat \<Rightarrow> nat list" where
  "resource_beats intn i updater stop = fst (tick_loop (resource_period intn i) stop None updater 0 0)"

text \<open>\<open>SetupPortForwardHeartBeat\<close>, with a ticker that is stopped at \<open>stop\<close>: its beats and its end.\<close>

definition SetupPortForwardHeartBeat :: "(nat \<Rightarrow> nat \<Rightarrow> nat) \<Rightarrow> nat \<Rightarrow> (nat \<Rightarrow> nat) \<Rightarrow> nat \<Rightarrow> nat list \<times> nat" where
  "SetupPortForwardHeartBeat intn i dial stop =
     (case tick_loop (60 - RandomSeconds intn i 0 5) stop (Some (2 * 60)) dial 0 0 of (beats, e) \<Rightarrow> (beats, e + 2 * 60))"

text \<open>
  \<open>setupSocks5HeartBeat\<close>.  A dialer that could not be made is only reported, and the first tick calls it
  all the same.
\<close>

definition setupSocks5HeartBeat :: "bool \<Rightarrow> (nat \<Rightarrow> nat) \<Rightarrow> nat \<Rightarrow> (nat list \<times> nat) outcome" where
  "setupSocks5HeartBeat dialer dial stop =
     (case tick_loop 60 stop (Some (2 * 60)) dial 0 0 of (beats, e) \<Rightarrow>
        if \<not> dialer \<and> beats \<noteq> [] then Panic else Value (beats, e + 2 * 60))"

section \<open>Receipts\<close>

lemma tick_loop_steps [consumes 1, case_names over tick]:
  assumes "0 < p"
    and "\<And>u t. stop < following_tick p u \<or> (\<exists>l. limit = Some l \<and> t + l < following_tick p u) \<Longrightarrow> P u t ([], t)"
    and "\<And>u t c cs e. following_tick p u \<le> stop \<Longrightarrow> c = max t (following_tick p u) \<Longrightarrow> u < c \<Longrightarrow>
      tick_loop p stop limit work c (c + work c) = (cs, e) \<Longrightarrow> P c (c + work c) (cs, e) \<Longrightarrow> P u t (c # cs, e)"
  shows "P u t (tick_loop p stop limit work u t)"
  using assms
proof (induction p stop limit work u t rule: tick_loop.induct)
  case (1 p stop limit work u t)
  let ?k = "following_tick p u" and ?c = "max t (following_tick p u)"
  obtain cs e where rest: "tick_loop p stop limit work ?c (?c + work ?c) = (cs, e)" by fastforce
  show ?case
  proof (cases "stop < ?k \<or> (\<exists>l. limit = Some l \<and> t + l < ?k)")
    case True
    then have "tick_loop p stop limit work u t = ([], t)" by (subst tick_loop.simps) (auto simp: Let_def)
    with 1(3) [OF True] show ?thesis by simp
  next
    case False
    with 1(2) have go: "\<not> (p = 0 \<or> stop < ?k \<or> (case limit of None \<Rightarrow> False | Some l \<Rightarrow> t + l < ?k))"
      by (auto split: option.splits)
    have "tick_loop p stop limit work u t =
        (if p = 0 \<or> stop < ?k \<or> (case limit of None \<Rightarrow> False | Some l \<Rightarrow> t + l < ?k) then ([], t)
         else (case tick_loop p stop limit work ?c (?c + work ?c) of (cs, e) \<Rightarrow> (?c # cs, e)))"
      by (subst tick_loop.simps) (simp only: Let_def)
    then have eq: "tick_loop p stop limit work u t = (?c # cs, e)"
      unfolding if_not_P [OF go] rest by simp
    have "P ?c (?c + work ?c) (cs, e)" by (rule 1(1) [OF refl go refl 1(2,3,4), unfolded rest])
    moreover have "?k \<le> stop" using False by simp
    moreover have "u < ?c" using next_tick(1) [OF 1(2), of u] by (rule less_le_trans) simp
    ultimately show ?thesis unfolding eq using 1(4) [OF _ refl _ rest] by blast
  qed
qed

text \<open>The loop outlives its ticker, but not for long; and it follows every tick when the work is short.\<close>

lemma loop_outlives:
  assumes "0 < p" and "\<And>l. limit = Some l \<Longrightarrow> p \<le> l" and "u \<le> t"
  shows "stop < snd (tick_loop p stop limit work u t) + p"
proof -
  have "u \<le> t \<longrightarrow> stop < snd (tick_loop p stop limit work u t) + p"
    using assms(1)
  proof (induction rule: tick_loop_steps [where stop = stop and limit = limit and P = "\<lambda>u t r. u \<le> t \<longrightarrow> stop < snd r + p"])
    case (over u t)
    from over consider "stop < following_tick p u" | l where "limit = Some l" "t + l < following_tick p u" by blast
    then show ?case
    proof cases
      case (2 l)
      with assms(2) have "p \<le> l" by blast
      with 2 next_tick(2) [of p u] show ?thesis by simp
    qed (use next_tick(2) [of p u] in simp)
  qed simp
  with assms(3) show ?thesis by blast
qed

lemma loop_ends:
  assumes "0 < p" and d: "\<And>c. work c \<le> d" and "t \<le> u + d" "u \<le> stop + d"
  shows "snd (tick_loop p stop limit work u t) \<le> stop + 2 * d"
proof -
  have "t \<le> u + d \<and> u \<le> stop + d \<longrightarrow> snd (tick_loop p stop limit work u t) \<le> stop + 2 * d"
    using assms(1)
  proof (induction rule: tick_loop_steps [where stop = stop and limit = limit and P = "\<lambda>u t r. t \<le> u + d \<and> u \<le> stop + d \<longrightarrow> snd r \<le> stop + 2 * d"])
    case (tick u t c cs e)
    then show ?case using next_tick(1) [OF assms(1), of u] d [of c] by (auto simp: max_def split: if_splits)
  qed simp
  with assms(3,4) show ?thesis by blast
qed

lemma loop_beats:
  assumes "0 < p" and "\<And>l. limit = Some l \<Longrightarrow> p \<le> l" and d: "\<And>c. work c \<le> p"
  shows "fst (tick_loop p stop limit work 0 0) = map (\<lambda>i. i * p) [1..<stop div p + 1]"
proof -
  have k: "following_tick p (j * p) = (j + 1) * p" for j using assms(1) by (simp add: following_tick_def)
  have "\<forall>j. u = j * p \<and> u \<le> t \<and> t \<le> u + p \<longrightarrow>
      fst (tick_loop p stop limit work u t) = map (\<lambda>i. i * p) [j + 1..<stop div p + 1]" for u t
    using assms(1)
  proof (induction rule: tick_loop_steps [where stop = stop and limit = limit and
        P = "\<lambda>u t r. \<forall>j. u = j * p \<and> u \<le> t \<and> t \<le> u + p \<longrightarrow> fst r = map (\<lambda>i. i * p) [j + 1..<stop div p + 1]"])
    case (over u t)
    show ?case
    proof (intro allI impI)
      fix j assume u: "u = j * p \<and> u \<le> t \<and> t \<le> u + p"
      from over consider "stop < following_tick p u" | l where "limit = Some l" "t + l < following_tick p u" by blast
      then have "stop < (j + 1) * p"
      proof cases
        case (2 l)
        with assms(2) have "p \<le> l" by blast
        with 2 u show ?thesis unfolding k [of j, symmetric] by (simp add: k)
      qed (use u in \<open>simp add: k\<close>)
      then have "stop div p < j + 1" by (metis assms(1) div_less_iff_less_mult)
      then show "fst ([], t) = map (\<lambda>i. i * p) [j + 1..<stop div p + 1]" by simp
    qed
  next
    case (tick u t c cs e)
    show ?case
    proof (intro allI impI)
      fix j assume u: "u = j * p \<and> u \<le> t \<and> t \<le> u + p"
      with tick(1,2) have c: "c = (j + 1) * p" "(j + 1) * p \<le> stop" by (simp_all add: k max_def)
      then have "j + 1 \<le> stop div p" by (metis assms(1) less_eq_div_iff_mult_less_eq)
      moreover have "fst (cs, e) = map (\<lambda>i. i * p) [j + 1 + 1..<stop div p + 1]"
        using tick(5) [rule_format, of "j + 1"] c(1) d [of c] by simp
      moreover from \<open>j + 1 \<le> stop div p\<close> have "[j + 1..<stop div p + 1] = (j + 1) # [j + 1 + 1..<stop div p + 1]"
        by (simp add: upt_conv_Cons del: upt_Suc)
      ultimately show "fst (c # cs, e) = map (\<lambda>i. i * p) [j + 1..<stop div p + 1]"
        using c(1) by (simp del: upt_Suc)
    qed
  qed
  from this [of 0 0] show ?thesis by (auto dest: spec [of _ 0])
qed

lemma loop_receipts:
  assumes "0 < p"
  shows "(\<forall>c \<in> set (fst (tick_loop p stop limit work u t)). u < c) \<and> sorted_wrt (<) (fst (tick_loop p stop limit work u t))"
  using assms by (induction rule: tick_loop_steps) (auto dest: less_trans)

text \<open>At every moment there is a beat behind it, done, and not older than a period and the work of two beats.\<close>

lemma loop_recent:
  assumes "0 < p" and d: "\<And>c. work c \<le> d" and "t \<le> u + d" "t \<le> T"
  shows "\<exists>c. (c = u \<or> c \<in> set (fst (tick_loop p T None work u t)) \<and> c + work c \<le> T) \<and> T < c + max p d + d + 1"
proof -
  have "t \<le> u + d \<and> t \<le> T \<longrightarrow>
      (\<exists>c. (c = u \<or> c \<in> set (fst (tick_loop p T None work u t)) \<and> c + work c \<le> T) \<and> T < c + max p d + d + 1)"
    using assms(1)
  proof (induction rule: tick_loop_steps [where stop = T and limit = None and P = "\<lambda>u t r. t \<le> u + d \<and> t \<le> T \<longrightarrow>
      (\<exists>c. (c = u \<or> c \<in> set (fst r) \<and> c + work c \<le> T) \<and> T < c + max p d + d + 1)"])
    case (over u t)
    then show ?case using next_tick(2) [of p u] by (intro impI exI [of _ u]) auto
  next
    case (tick u t c cs e)
    show ?case
    proof
      assume t: "t \<le> u + d \<and> t \<le> T"
      have "following_tick p u \<le> u + p" by (rule next_tick(2))
      with t tick(1,4) have c: "c \<le> T" "c \<le> u + max p d" by (auto simp: max_def)
      show "\<exists>c'. (c' = u \<or> c' \<in> set (fst (c # cs, e)) \<and> c' + work c' \<le> T) \<and> T < c' + max p d + d + 1"
      proof (cases "c + work c \<le> T")
        case True
        with tick(3) d [of c] show ?thesis by fastforce
      next
        case False
        with c(2) d [of c] show ?thesis by (intro exI [of _ u]) simp
      qed
    qed
  qed
  with assms(3,4) show ?thesis by blast
qed

section \<open>The stamp of a living session\<close>

text \<open>
  The heartbeat that an object carries at \<open>T\<close>, in a session that has lived until then: that of the last
  update which was done, or that of its creation.  An update writes the time at which it began.
\<close>

definition stamp_at :: "(nat \<Rightarrow> nat \<Rightarrow> nat) \<Rightarrow> nat \<Rightarrow> (nat \<Rightarrow> nat) \<Rightarrow> nat \<Rightarrow> nat" where
  "stamp_at intn i updater T = last (0 # filter (\<lambda>c. c + updater c \<le> T) (resource_beats intn i updater T))"

lemma last_of_sorted:
  "sorted_wrt (<) cs \<Longrightarrow> x \<in> set cs \<Longrightarrow> Q x \<Longrightarrow> (x :: nat) \<le> last (b # filter Q cs)"
proof (induction cs arbitrary: b)
  case (Cons c cs)
  show ?case
  proof (cases "x = c \<and> filter Q cs \<noteq> []")
    case True
    then have "last (filter Q cs) \<in> set cs" using last_in_set [of "filter Q cs"] by simp
    with True Cons.prems show ?thesis by (auto intro: less_imp_le)
  qed (use Cons in auto)
qed simp

lemma resource_period_bounds:
  assumes "\<And>i n. 0 < n \<Longrightarrow> intn i n < n"
  shows "0 < resource_period intn i" "resource_period intn i \<le> 120"
  using assms [of 10 i] by (simp_all add: resource_period_def RandomSeconds_def Let_def)

lemma stamp_bounds:
  assumes draws: "\<And>i n. 0 < n \<Longrightarrow> intn i n < n" and d: "\<And>c. updater c \<le> d"
  shows "stamp_at intn i updater T \<le> T" "T \<le> stamp_at intn i updater T + (max 120 d + d)"
proof -
  let ?p = "resource_period intn i" and ?Q = "\<lambda>c. c + updater c \<le> T"
  have p: "0 < ?p" "?p \<le> 120" using resource_period_bounds [of intn i] draws by blast+
  show "stamp_at intn i updater T \<le> T"
    using last_in_set [of "0 # filter ?Q (resource_beats intn i updater T)"] by (auto simp: stamp_at_def simp del: last.simps)
  obtain c where c: "c = 0 \<or> c \<in> set (resource_beats intn i updater T) \<and> ?Q c" "T < c + max ?p d + d + 1"
    using loop_recent [OF p(1), of updater d 0 0 T, OF d] by (auto simp: resource_beats_def)
  have "c \<le> stamp_at intn i updater T"
    using c(1)
  proof
    assume "c \<in> set (resource_beats intn i updater T) \<and> ?Q c"
    moreover have "sorted_wrt (<) (resource_beats intn i updater T)"
      using loop_receipts [OF p(1), where stop = T and limit = None and work = updater and u = 0 and t = 0]
      by (simp add: resource_beats_def)
    ultimately show ?thesis unfolding stamp_at_def by (intro last_of_sorted [where Q = ?Q]) simp_all
  qed simp
  with c(2) p(2) show "T \<le> stamp_at intn i updater T + (max 120 d + d)" by (simp add: max_def split: if_splits)
qed

section \<open>The properties of heartbeats\<close>


definition empty_cluster :: cluster_objects where
  "empty_cluster = \<lparr> ClPods = [], ClDeployments = [], ClServices = [], ClConfigMaps = [] \<rparr>"

definition mem_plan :: resource_to_clean where
  "mem_plan = no_resources\<lparr>PodsToDelete := [''other'']\<rparr>"

lemma stamp_example: "stamp_at (\<lambda>i n. 0) 0 (\<lambda>c. 3) 250 = 240"
  by code_simp


text \<open>
  C32. The heartbeat of a port forward lives as long as its ticker, and ends after it: at the earliest
  when the ticker is stopped, at the latest after the time of two connections and the timeout.  While
  connections are made within a period, no tick is lost.
\<close>

theorem port_forward_beats:
  assumes draws: "\<And>i n. 0 < n \<Longrightarrow> intn i n < n" and d: "\<And>c. dial c \<le> d"
    and run: "SetupPortForwardHeartBeat intn i dial stop = (beats, finish)"
  shows "stop < finish \<and> finish \<le> stop + 2 * d + 120 \<and>
    (d \<le> 55 \<longrightarrow> (let p = 60 - RandomSeconds intn i 0 5 in beats = map (\<lambda>j. j * p) [1..<stop div p + 1]))"
proof -
  let ?p = "60 - RandomSeconds intn i 0 5"
  have "RandomSeconds intn i 0 5 < 5" using draws [of 5 i] by (simp add: RandomSeconds_def Let_def)
  then have p: "0 < ?p" "?p \<le> 60" "55 \<le> ?p" by simp_all
  have l: "?p \<le> l" if "Some (2 * 60) = Some l" for l using that p(2) by simp
  obtain e where e: "tick_loop ?p stop (Some (2 * 60)) dial 0 0 = (beats, e)" "finish = e + 120"
    using run by (auto simp: SetupPortForwardHeartBeat_def split: prod.splits)
  have "stop < e + ?p" using loop_outlives [OF p(1), of "Some (2 * 60)" 0 0 stop dial, OF l] e(1) by simp
  moreover have "e \<le> stop + 2 * d" using loop_ends [OF p(1), of dial d 0 0 stop "Some (2 * 60)", OF d] e(1) by simp
  moreover have "beats = map (\<lambda>j. j * ?p) [1..<stop div ?p + 1]" if "d \<le> 55"
  proof -
    have "dial c \<le> ?p" for c using d [of c] that p(3) by simp
    then show ?thesis using loop_beats [OF p(1), of "Some (2 * 60)" dial stop, OF l] unfolding e(1) fst_conv by blast
  qed
  ultimately show ?thesis using e(2) p(2) by (simp add: Let_def)
qed

lemma port_forward_beats_witness:
  "(130 :: nat) < 242 \<and> (242 :: nat) \<le> 130 + 2 * 2 + 120 \<and>
   (let p = 60 - RandomSeconds (\<lambda>i n. 0) 0 0 5 in [60, 120] = map (\<lambda>j. j * p) [1..<130 div p + 1])"
proof -
  have run: "SetupPortForwardHeartBeat (\<lambda>i n. 0) 0 (\<lambda>c. 2) 130 = ([60, 120], 242)" by code_simp
  have "(130 :: nat) < 242 \<and> (242 :: nat) \<le> 130 + 2 * 2 + 120 \<and>
      ((2 :: nat) \<le> 55 \<longrightarrow> (let p = 60 - RandomSeconds (\<lambda>i n. 0) 0 0 5 in [60, 120] = map (\<lambda>j. j * p) [1..<130 div p + 1]))"
    by (rule port_forward_beats [OF _ _ run]) simp_all
  moreover have "(2 :: nat) \<le> 55" by simp
  ultimately show ?thesis by blast
qed

section \<open>A router without a heartbeat\<close>

text \<open>Computations that start no heartbeat.\<close>

definition starts_none :: "('w prog, 'a) state \<Rightarrow> bool" where
  "starts_none m \<longleftrightarrow> (\<forall>s. Heartbeats (snd (run_state m s)) = Heartbeats s)"

named_theorems none_intros \<open>control structures and calls that start no heartbeat\<close>

lemma none_basic [none_intros]:
  "starts_none (State_Monad.return a)" "starts_none (lift_io io)" "starts_none (set_store f)"
  by (simp_all add: starts_none_def lift_io_def set_store_def split_def)

lemma none_bind [none_intros]: "starts_none m \<Longrightarrow> (\<And>x. starts_none (f x)) \<Longrightarrow> starts_none (State_Monad.bind m f)"
  unfolding starts_none_def by (simp add: split_def)

lemma none_try [none_intros]: "starts_none m \<Longrightarrow> (\<And>x. starts_none (f x)) \<Longrightarrow> starts_none (go_try m f)"
  unfolding go_try_def by (intro none_bind) (auto intro: none_basic split: outcome.split)

lemma none_case [none_intros]:
  "(\<And>u v. starts_none (f u v)) \<Longrightarrow> starts_none (case p of (u, v) \<Rightarrow> f u v)"
  "(b \<Longrightarrow> starts_none m) \<Longrightarrow> (\<not> b \<Longrightarrow> starts_none n) \<Longrightarrow> starts_none (if b then m else n)"
  by (cases p; simp)+

lemma none_outcome [none_intros]:
  "(\<And>x. starts_none (f x)) \<Longrightarrow> (\<And>e. starts_none (g e)) \<Longrightarrow> starts_none h \<Longrightarrow>
   starts_none (case r of Value x \<Rightarrow> f x | Fail e \<Rightarrow> g e | Panic \<Rightarrow> h)"
  "starts_none m \<Longrightarrow> (\<And>x. starts_none (n x)) \<Longrightarrow> starts_none (case q of None \<Rightarrow> m | Some x \<Rightarrow> n x)"
  by (cases r; cases q; simp)+

lemma none_calls [none_intros]:
  "starts_none (now k)" "starts_none (GetPod k x ns)" "starts_none (UpdatePod k p)" "starts_none (IncreasePodRef k x ns)"
  "starts_none (router_command k opts x cmd)" "starts_none (UpdatePodHeartBeat k x ns)"
proof -
  show get: "starts_none (now k)" "starts_none (GetPod k x ns)" "starts_none (UpdatePod k p)" for p
    unfolding now_def api_call_defs by (intro none_intros)+
  show "starts_none (IncreasePodRef k x ns)" unfolding IncreasePodRef_def Let_def by (intro none_intros get)
  show "starts_none (router_command k opts x cmd)" unfolding router_command_def ExecInPod_def Let_def by (intro none_intros)
  show "starts_none (UpdatePodHeartBeat k x ns)" unfolding UpdatePodHeartBeat_def update_heart_beat_def Let_def
    by (intro none_bind get none_basic) (simp add: starts_none_def split: outcome.split prod.split)
qed

text \<open>A user who finds the router running joins without a heartbeat of its own.\<close>

lemma join_starts_none:
  assumes a: "api_server k view" and q: "find_obj (ClPods (view (World s))) (Global_Namespace opts) x = Some q" "DeletionTimestamp q = None"
    and run: "run_state (createRouter k opts random x n ports l v) s = (r, t)"
  shows "Heartbeats t = Heartbeats s"
proof -
  have "run_state (current_router k opts x) s = (Value q, s)"
    using q by (simp add: current_router_def GetPod_found [OF a q(1)])
  then have "run_state (createRouter k opts random x n ports l v) s = run_state (do {
        _ \<leftarrow> UpdatePodHeartBeat k x (Global_Namespace opts);
        go_try (State_Monad.return (atoi_err (mget (Annotations q) KtRefCount))) (\<lambda>_.
        go_try (IncreasePodRef k x (Global_Namespace opts)) (\<lambda>_.
        go_try (router_command k opts x [''add'', v]) (\<lambda>_. do {
          set_store (\<lambda>s. s\<lparr>Store_Router := x\<rparr>);
          State_Monad.return (Value (mput l KtTarget (mget (Labels q) KtTarget)))
        })))
      }) s"
    by (simp add: createRouter_def)
  moreover have "starts_none (do {
        _ \<leftarrow> UpdatePodHeartBeat k x (Global_Namespace opts);
        go_try (State_Monad.return (atoi_err (mget (Annotations q) KtRefCount))) (\<lambda>_.
        go_try (IncreasePodRef k x (Global_Namespace opts)) (\<lambda>_.
        go_try (router_command k opts x [''add'', v]) (\<lambda>_. do {
          set_store (\<lambda>s. s\<lparr>Store_Router := x\<rparr>);
          State_Monad.return (Value (mput l KtTarget (mget (Labels q) KtTarget)))
        })))
      })"
    by (intro none_intros)
  ultimately show ?thesis using run unfolding starts_none_def by (metis snd_conv)
qed

text \<open>Nor does a user who finds a shared shadow.\<close>

lemma none_catch [none_intros]:
  "starts_none m \<Longrightarrow> (\<And>x. starts_none (f x)) \<Longrightarrow> (\<And>e. starts_none (h e)) \<Longrightarrow> starts_none (go_catch m f h)"
  unfolding go_catch_def by (intro none_bind) (auto intro: none_basic split: outcome.split)

lemma none_terminate: "starts_none (waitPodTerminate k x ns tries)"
  by (induction k x ns tries rule: waitPodTerminate.induct, subst waitPodTerminate.simps)
    (auto intro!: none_intros simp: sleep_def)

lemma shared_shadow_starts_none: "starts_none (tryGetExistingShadows k opts r ssh)"
  unfolding tryGetExistingShadows_def existing_shadow_pod_def shadow_without_configmap_def IncreaseDeploymentRef_def Let_def
    api_call_defs
  by (intro none_intros none_terminate)

text \<open>
  C12. A user who joins a mesh starts no heartbeat for the router that is shared; and a router whose
  last heartbeat is older than the threshold (that of its creator, who has left) is removed by the
  clean command of any machine, however many users its reference count says are in the mesh.
\<close>

theorem shared_router_cleaned_in_use:
  assumes a: "api_server k view" "api_server k2 view" and q: "find_obj (ClPods (view (World s))) (Global_Namespace opts) x = Some q" "DeletionTimestamp q = None"
    and join: "run_state (createRouter k opts random x n ports l v) s = (Value l', t)"
    and mach: "machine_ok view mach" and o: "\<not> Clean_DryRun copts" "\<not> Clean_LocalOnly copts" "Global_Namespace opts \<noteq> []"
    and u: "unique_objs (ClPods (view (World s2)))" "unique_objs (ClConfigMaps (view (World s2)))"
    and r: "find_obj (ClPods (view (World s2))) (Global_Namespace opts) x = Some router" "label_match kt_label router"
      "DeletionTimestamp router = None" "mget (Annotations router) KtRefCount = itoa users"
    and old: "stale (time_of k2 s2) (Clean_ThresholdInMinus copts) router"
  shows "Heartbeats t = Heartbeats s \<and>
    (\<exists>t2. run_state (Clean k2 opts copts mach) s2 = (Value (), t2) \<and> find_obj (ClPods (view (World t2))) (Global_Namespace opts) x = None)"
proof -
  let ?th = "Clean_ThresholdInMinus copts" and ?ns = "Global_Namespace opts"
  obtain w where w: "run_state (clean_cluster k2 opts copts) s2 = (Value (), w)"
    "swept ?ns (\<lambda>p. label_match kt_label p \<and> stale (time_of k2 s2) ?th p \<and> DeletionTimestamp p = None)
      (ClPods (view (World s2))) (ClPods (view (World w)))"
    using clean_cluster_effect [OF a(2) o(1,3) u] by blast
  obtain z t2 where t2: "run_state (TidyLocalResources k2 mach) w = (z, t2)" by fastforce
  then have "z = Value ()" "view (World t2) = view (World w)"
    using keeps_TidyLocalResources [OF a(2) mach, unfolded keeps_view_def, rule_format, of w] by simp_all
  with w t2 o r old have "run_state (Clean k2 opts copts mach) s2 = (Value (), t2)" "find_obj (ClPods (view (World t2))) ?ns x = None"
    by (simp_all add: Clean_def swept_def)
  with join_starts_none [OF a(1) q join] show ?thesis by blast
qed

definition shared_router :: "int \<Rightarrow> pod" where
  "shared_router t = mem_pod ''web-kt-router'' kt_label (GoMap [(KtLastHeartBeat, GetTimestamp t), (KtRefCount, ''1''), (KtConfig, ''service=web'')])"

definition routed_cluster :: "pod \<Rightarrow> cluster_objects" where
  "routed_cluster p = \<lparr> ClPods = [p], ClDeployments = [], ClServices = [], ClConfigMaps = [] \<rparr>"

lemma shared_router_cleaned_in_use_witness:
  "\<exists>l t t2. run_state (createRouter (mem_kube 1000) mem_opts ''r'' ''web-kt-router'' ''web'' [] (GoMap []) ''version:v2'')
        (mem_prog (routed_cluster (shared_router 900))) = (Value l, t) \<and> Heartbeats t = [] \<and>
     run_state (Clean (mem_kube 2000) mem_opts (mem_clean_options False) idle_machine) (mem_prog (routed_cluster (shared_router 1000))) =
        (Value (), t2) \<and> find_obj (ClPods (World t2)) ''default'' ''web-kt-router'' = None"
proof -
  let ?s = "mem_prog (routed_cluster (shared_router 900))"
  let ?join = "createRouter (mem_kube 1000) mem_opts ''r'' ''web-kt-router'' ''web'' [] (GoMap []) ''version:v2''"
  have "fst (run_state ?join ?s) = Value (GoMap [(KtTarget, [])])" by code_simp
  then obtain t where t: "run_state ?join ?s = (Value (GoMap [(KtTarget, [])]), t)" by (metis prod.collapse)
  note w = mem_prog_World routed_cluster_def
  have q: "find_obj (ClPods (World (mem_prog (routed_cluster (shared_router h))))) (Global_Namespace mem_opts) ''web-kt-router'' = Some (shared_router h)"
    for h by (simp add: w find_obj_def is_obj_def shared_router_def mem_pod_def mem_opts_def)
  have p: "DeletionTimestamp (shared_router h) = None" "label_match kt_label (shared_router h)"
    "mget (Annotations (shared_router h)) KtRefCount = itoa 1" for h
    by (simp_all add: shared_router_def mem_pod_def label_match_def kt_label_def mlookup_def mget_def itoa_one)
  have u: "unique_objs (ClPods (World (mem_prog (routed_cluster (shared_router 1000)))))"
    "unique_objs (ClConfigMaps (World (mem_prog (routed_cluster (shared_router 1000)))))" by (simp_all add: w unique_objs_def)
  have o: "\<not> Clean_DryRun (mem_clean_options False)" "\<not> Clean_LocalOnly (mem_clean_options False)" "Global_Namespace mem_opts \<noteq> []"
    by (simp_all add: mem_clean_options_def mem_opts_def)
  have old: "stale (time_of (mem_kube 2000) (mem_prog (routed_cluster (shared_router 1000)))) (Clean_ThresholdInMinus (mem_clean_options False))
      (shared_router 1000)"
    by (simp add: stale_def lastHeartBeat_def shared_router_def mem_pod_def mget_def mlookup_def ParseTimestamp_def
        GetTimestamp_def atoi_itoa time_of_def mem_kube_def mem_clean_options_def)
  have "Heartbeats ?s = []" by (simp add: mem_prog_def)
  moreover have ns: "Global_Namespace mem_opts = ''default''" by (simp add: mem_opts_def)
  ultimately show ?thesis
    using t shared_router_cleaned_in_use [OF mem_kube_ok mem_kube_ok q p(1) t idle_machine_ok o u q p(2,1,3) old] by auto
qed

section \<open>A rectifier that is left behind\<close>

text \<open>
  When the command in the rectifier fails, \<open>SetupTimeDifference\<close> returns its error and leaves the pod in
  the cluster; no heartbeat was started for it, and no later step of the session removes it.
\<close>

lemma rectifier_created:
  assumes a: "api_server k view" and run: "run_state (CreateRectifierPod k opts x) s = (Value p, t)"
  shows "pod_at view (Global_Namespace opts) x (\<lambda>q. q \<noteq> None) (World t)"
proof -
  let ?ns = "Global_Namespace opts"
  let ?pod = "obind (createPod (QuantityOk k) opts (time_of k s) (plain_pod_meta x ?ns (GoMap []) (GoMap []) (Global_Image opts) (GoMap [])))
      (\<lambda>(p, _). set_command [''tail'', ''-f'', ''/dev/null''] p)"
  obtain q where q: "?pod = Value q"
    using run by (auto simp: CreateRectifierPod_def Let_def run_now [OF a] split: outcome.splits)
  then obtain q0 m' where q0: "createPod (QuantityOk k) opts (time_of k s) (plain_pod_meta x ?ns (GoMap []) (GoMap []) (Global_Image opts) (GoMap [])) = Value (q0, m')"
      "set_command [''tail'', ''-f'', ''/dev/null''] q0 = Value q" by (auto simp: obind_Value_iff)
  then have n: "Name q = x" using createPod_name [OF q0(1)] by (auto simp: set_command_def plain_pod_meta_def split: list.splits)
  have eq: "run_state (CreateRectifierPod k opts x) s = run_state (go_try (lift_io (api_create (PodsApi k) ?ns q)) (\<lambda>_.
      waitPodReady k x ?ns (Global_PodCreationTimeout opts) 0)) s"
    unfolding CreateRectifierPod_def Let_def run_bind run_now [OF a] prod.case q outcome.case ..
  obtain r w where w: "run_state (api_create (PodsApi k) ?ns q) (World s) = (r, w)" by fastforce
  obtain v where r: "r = Value v" and wait: "run_state (waitPodReady k x ?ns (Global_PodCreationTimeout opts) 0) (s\<lparr>World := w\<rparr>) = (Value p, t)"
    using run w unfolding eq by (cases r) auto
  have "find_obj (ClPods (view w)) ?ns x = Some (q\<lparr>Namespace := ?ns, ResourceVersion := 1\<rparr>)"
    using crud_create [OF api_pods [OF a] w] r n
    by (auto simp: create_spec_def set_pods_def find_obj_append is_obj_def split: option.splits)
  then have "pod_at view ?ns x (\<lambda>q. q \<noteq> None) (World (s\<lparr>World := w\<rparr>))"
    unfolding pod_at_def by (metis option.distinct(1) prog.select_convs(4) prog.surjective prog.update_convs(4) same_but_status_refl)
  from staysD [OF pod_waits(1) [OF a] wait this] show ?thesis .
qed

lemma rectifier_left_behind:
  assumes a: "api_server k view"
    and c: "run_state (CreateRectifierPod k opts (''kt-rectifier-'' @ to_lower random)) s = (Value p, u)"
    and e: "run_state (ExecApi k ''standalone'' (''kt-rectifier-'' @ to_lower random) (Global_Namespace opts) [''date'', ''+%s'']) (World u) =
      ((out, complaint, Some err), w)"
  shows "\<exists>t. run_state (SetupTimeDifference k opts random local_time) s = (Fail err, t) \<and>
    find_obj (ClPods (view (World t))) (Global_Namespace opts) (''kt-rectifier-'' @ to_lower random) \<noteq> None"
proof -
  let ?x = "''kt-rectifier-'' @ to_lower random"
  have "run_state (SetupTimeDifference k opts random local_time) s = (Fail err, u\<lparr>World := w\<rparr>)"
    using c e by (simp add: SetupTimeDifference_def ExecInPod_def Let_def)
  moreover have "view w = view (World u)"
    using api_exec [OF a, of "''standalone''" ?x "Global_Namespace opts" "[''date'', ''+%s'']" "World u"] e by simp
  ultimately show ?thesis using rectifier_created [OF a c] by (auto simp: pod_at_def option_rel_Some1)
qed

end
