(* ===== verification/LaneFilter.thy ===== *)
theory LaneFilter
  imports ShadowServer
begin

text \<open>
  The Envoy filter of a lane: the Lua text that \<open>buildLaneLuaCode\<close> in
  \<open>pkg/kt/service/cluster/lane.go\<close> writes, as the function on the header \<open>baggage\<close> that it defines.  The
  filter runs where there is a service mesh, and the proxy of the shadow (ShadowServer) elsewhere;
  a request should look the same behind either.
\<close>

section \<open>Patterns of Lua\<close>

text \<open>\<open>string.gmatch(s, '([^,]+)')\<close>: the longest runs without a comma.\<close>

function lua_fields :: "string \<Rightarrow> string list" where
  "lua_fields s =
     (let t = dropWhile (\<lambda>c. c = CHR '','') s
      in if t = [] then [] else takeWhile (\<lambda>c. c \<noteq> CHR '','') t # lua_fields (dropWhile (\<lambda>c. c \<noteq> CHR '','') t))"
  by auto
termination
proof (relation "measure length")
  fix s t :: string assume t: "t = dropWhile (\<lambda>c. c = CHR '','') s" "t \<noteq> []"
  then have "hd t \<noteq> CHR '',''" using hd_dropWhile [of "\<lambda>c. c = CHR '',''" s] by auto
  then have "length (dropWhile (\<lambda>c. c \<noteq> CHR '','') t) < length t"
    using t(2) length_dropWhile_le [of "\<lambda>c. c \<noteq> CHR '',''" "tl t"] by (cases t) auto
  also have "\<dots> \<le> length s" unfolding t(1) by (rule length_dropWhile_le)
  finally show "(dropWhile (\<lambda>c. c \<noteq> CHR '','') t, s) \<in> measure length" by simp
qed simp

declare lua_fields.simps [simp del]

text \<open>\<open>.-\<close> before \<open>%s*$\<close>: the shortest prefix with nothing but white space after it.\<close>

fun lazy_before_space :: "string \<Rightarrow> string" where
  "lazy_before_space [] = []"
| "lazy_before_space (c # cs) = (if list_all is_space (c # cs) then [] else c # lazy_before_space cs)"

text \<open>\<open>s:gsub("^%s*(.-)%s*$", "%1")\<close>\<close>

definition lua_trim :: "string \<Rightarrow> string" where
  "lua_trim s = lazy_before_space (dropWhile is_space s)"

text \<open>\<open>s:match("^([^=]+)=")\<close>, None for nil\<close>

definition lua_key :: "string \<Rightarrow> string option" where
  "lua_key s =
     (let k = takeWhile (\<lambda>c. c \<noteq> CHR ''='') s in if k \<noteq> [] \<and> length k < length s then Some k else None)"

section \<open>The filter\<close>

definition keeps_member :: "string \<Rightarrow> bool" where
  "keeps_member trimmed \<longleftrightarrow> trimmed \<noteq> [] \<and>
     (case lua_key trimmed of None \<Rightarrow> True | Some key \<Rightarrow> to_lower (lua_trim key) \<noteq> ''lane'')"

text \<open>
  The new value of the header; None is a request without the header, and several headers of this name
  come as one value with commas between them.
\<close>

definition envoy_on_request :: "string \<Rightarrow> string option \<Rightarrow> string" where
  "envoy_on_request lane baggage =
     (case baggage of
        None \<Rightarrow> ''lane='' @ lane
      | Some b \<Rightarrow>
          if b = [] then ''lane='' @ lane
          else join_with '','' (filter keeps_member (map lua_trim (lua_fields b)) @ [''lane='' @ lane]))"

section \<open>Lemmas\<close>

lemma split_on_cons_sep: "split_on c (c # s) = [] # split_on c s"
  by simp

lemma split_on_takeWhile:
  "split_on c s = (if c \<in> set s then takeWhile (\<lambda>x. x \<noteq> c) s # split_on c (tl (dropWhile (\<lambda>x. x \<noteq> c) s)) else [s])"
  by (induction s) (auto split: list.splits)

lemma fields_dropWhile: "filter (\<lambda>m. m \<noteq> []) (split_on c (dropWhile (\<lambda>x. x = c) s)) = filter (\<lambda>m. m \<noteq> []) (split_on c s)"
  by (induction s) auto

lemma fields_drop_sep:
  "s \<noteq> [] \<Longrightarrow> hd s = c \<Longrightarrow> filter (\<lambda>m. m \<noteq> []) (split_on c s) = filter (\<lambda>m. m \<noteq> []) (split_on c (tl s))"
  by (cases s) auto

lemma lua_fields_split: "lua_fields s = filter (\<lambda>m. m \<noteq> []) (split_on CHR '','' s)"
proof (induction s rule: lua_fields.induct)
  case (1 s)
  let ?t = "dropWhile (\<lambda>c. c = CHR '','') s" and ?sep = "CHR '',''"
  let ?r = "dropWhile (\<lambda>c. c \<noteq> ?sep) ?t"
  show ?case
  proof (cases "?t = []")
    case True
    then have "filter (\<lambda>m. m \<noteq> []) (split_on ?sep s) = []"
      using fields_dropWhile [of ?sep s] unfolding True by simp
    with True show ?thesis by (subst lua_fields.simps) simp
  next
    case False
    then have h: "hd ?t \<noteq> ?sep" using hd_dropWhile [of "\<lambda>c. c = ?sep" s] by auto
    then have ne: "takeWhile (\<lambda>c. c \<noteq> ?sep) ?t \<noteq> []" using False by (cases ?t) auto
    have "filter (\<lambda>m. m \<noteq> []) (split_on ?sep s) = filter (\<lambda>m. m \<noteq> []) (split_on ?sep ?t)"
      by (simp add: fields_dropWhile)
    also have "\<dots> = takeWhile (\<lambda>c. c \<noteq> ?sep) ?t # filter (\<lambda>m. m \<noteq> []) (split_on ?sep ?r)"
    proof (cases "?sep \<in> set ?t")
      case True
      then have "?r \<noteq> []" "hd ?r = ?sep" using hd_dropWhile [of "\<lambda>c. c \<noteq> ?sep" ?t] by (auto simp: dropWhile_eq_Nil_conv)
      then have "filter (\<lambda>m. m \<noteq> []) (split_on ?sep ?r) = filter (\<lambda>m. m \<noteq> []) (split_on ?sep (tl ?r))"
        by (rule fields_drop_sep)
      moreover have "split_on ?sep ?t = takeWhile (\<lambda>c. c \<noteq> ?sep) ?t # split_on ?sep (tl ?r)"
        using split_on_takeWhile [of ?sep ?t] unfolding if_P [OF True] .
      ultimately show ?thesis using ne by (simp only: filter.simps if_True not_False_eq_True)
    next
      case out: False
      have "takeWhile (\<lambda>c. c \<noteq> ?sep) ?t = ?t" by (rule iffD2 [OF takeWhile_eq_all_conv]) (use out in blast)
      moreover have "?r = []" by (rule iffD2 [OF dropWhile_eq_Nil_conv]) (use out in blast)
      ultimately show ?thesis using False unfolding split_on_no_sep [OF out] by (simp only: split_on.simps filter.simps if_True if_False simp_thms not_False_eq_True)
    qed
    also have "\<dots> = lua_fields s" 
      unfolding lua_fields.simps [of s] Let_def if_not_P [OF False] 1 [OF refl False] ..
    finally show ?thesis by simp
  qed
qed

lemma lazy_before_space_eq: "lazy_before_space s = rev (dropWhile is_space (rev s))"
proof (induction s)
  case (Cons c s)
  show ?case
  proof (cases "list_all is_space s")
    case True
    then have "dropWhile is_space (rev s @ [c]) = dropWhile is_space [c]"
      by (subst dropWhile_append2) (auto simp: list_all_iff)
    moreover have "dropWhile is_space (rev s) = []" using True by (simp add: dropWhile_eq_Nil_conv list_all_iff)
    ultimately show ?thesis using Cons True by simp
  next
    case False
    then obtain x where "x \<in> set (rev s)" "\<not> is_space x" by (auto simp: list_all_iff)
    then have "dropWhile is_space (rev s @ [c]) = dropWhile is_space (rev s) @ [c]" by (rule dropWhile_append1)
    with Cons False show ?thesis by simp
  qed
qed simp

lemma lua_trim_eq: "lua_trim s = trim_space s"
  by (simp add: lua_trim_def trim_space_def lazy_before_space_eq)

lemma lua_key_None: "CHR ''='' \<notin> set m \<Longrightarrow> lua_key m = None"
proof -
  assume m: "CHR ''='' \<notin> set m"
  have "takeWhile (\<lambda>c. c \<noteq> CHR ''='') m = m" by (rule iffD2 [OF takeWhile_eq_all_conv]) (use m in blast)
  then show ?thesis unfolding lua_key_def by (simp only: Let_def less_irrefl simp_thms if_False)
qed

lemma lua_key_Some: "CHR ''='' \<notin> set a \<Longrightarrow> lua_key (a @ CHR ''='' # b) = (if a = [] then None else Some a)"
proof -
  assume a: "CHR ''='' \<notin> set a"
  have "takeWhile (\<lambda>c. c \<noteq> CHR ''='') (a @ CHR ''='' # b) = a @ takeWhile (\<lambda>c. c \<noteq> CHR ''='') (CHR ''='' # b)"
    by (rule takeWhile_append2) (use a in blast)
  then have "takeWhile (\<lambda>c. c \<noteq> CHR ''='') (a @ CHR ''='' # b) = a" by simp
  then show ?thesis by (simp add: lua_key_def)
qed

lemma keeps_member_eq: "keeps_member m \<longleftrightarrow> m \<noteq> [] \<and> \<not> isLaneBaggageMember m"
proof (cases "CHR ''='' \<in> set m")
  case True
  have lane: "to_lower ''lane'' = ''lane''" "to_lower [] = []" "trim_space [] = []"
    by (simp_all add: to_lower_def lower_char_def trim_space_def)
  obtain a b where "m = a @ CHR ''='' # b" "CHR ''='' \<notin> set a" using split_list_first [OF True] by blast
  with lane show ?thesis
    by (auto simp: keeps_member_def lua_key_Some isLaneBaggageMember_def equal_fold_def lua_trim_eq)
next
  case False
  then show ?thesis by (simp add: keeps_member_def lua_key_None isLaneBaggageMember_def)
qed

lemma split_join_concat: "vs \<noteq> [] \<Longrightarrow> split_on c (join_with [c] vs) = concat (map (split_on c) vs)"
proof (induction vs rule: induct_list012)
  case (3 x y zs)
  have "split_on c (x @ c # s) = split_on c x @ split_on c s" for s
    by (induction x) (auto split: list.splits)
  with 3 show ?case by simp
qed auto

lemma members_eq:
  "filter keeps_member (map lua_trim (filter (\<lambda>m. m \<noteq> []) ms)) = filter (\<lambda>m. m \<noteq> [] \<and> \<not> isLaneBaggageMember m) (map trim_space ms)"
  by (induction ms) (auto simp: keeps_member_eq lua_trim_eq trim_space_def)

section \<open>Properties\<close>


end
