(* ===== verification/LocalFiles.thy ===== *)
theory LocalFiles
  imports Transmission KubeApi
begin

text \<open>
  The files of the program on the local machine: private keys (\<open>pkg/kt/util/ssh.go\<close>), the background
  log (\<open>pkg/kt/util/logger.go\<close>) and the directories that \<open>cmd/ktctl/main.go\<close> creates.  The file system is a
  map from paths to files with the modes and times the program depends on; key generation is a parameter.
\<close>

section \<open>A file system\<close>

text \<open>
  The mode is what matters of it: whether the owner may write.  \<open>Sealed\<close> are directories in which
  nothing can be created or removed; the superuser may write every file.
\<close>

record file_entry =
  FileText :: string
  OwnerWrites :: bool
  FileTime :: int

record file_system =
  FileMap :: "file_entry gomap"
  Directories :: "string list"
  Sealed :: "string list"
  Superuser :: bool
  Now :: int

text \<open>\<open>filepath.Dir\<close>: the part up to the last slash, cleaned.\<close>

definition filepath_Dir :: "string \<Rightarrow> string" where
  "filepath_Dir p = path_clean (rev (dropWhile (\<lambda>c. c \<noteq> CHR ''/'') (rev p)))"

definition denied :: go_error where
  "denied = OtherError ''permission denied''"

definition no_such_file :: go_error where
  "no_such_file = OtherError ''no such file or directory''"

text \<open>\<open>ioutil.WriteFile\<close>: the mode is for a new file only; an old one keeps its own and must be writable.\<close>

definition WriteFile :: "string \<Rightarrow> string \<Rightarrow> bool \<Rightarrow> file_system \<Rightarrow> unit outcome \<times> file_system" where
  "WriteFile p content owner_writes fs =
     (if filepath_Dir p \<notin> set (Directories fs) then (Fail no_such_file, fs)
      else (case mlookup (FileMap fs) p of
        Some old \<Rightarrow>
          if OwnerWrites old \<or> Superuser fs
          then (Value (), fs\<lparr>FileMap := mput (FileMap fs) p (old\<lparr>FileText := content, FileTime := Now fs\<rparr>)\<rparr>)
          else (Fail denied, fs)
      | None \<Rightarrow>
          if filepath_Dir p \<in> set (Sealed fs) then (Fail denied, fs)
          else (Value (), fs\<lparr>FileMap := mput (FileMap fs) p \<lparr> FileText = content, OwnerWrites = owner_writes, FileTime = Now fs \<rparr>\<rparr>)))"

text \<open>\<open>os.Remove\<close> of a file; the mode of the file does not matter.\<close>

definition Remove :: "string \<Rightarrow> file_system \<Rightarrow> unit outcome \<times> file_system" where
  "Remove p fs =
     (if mlookup (FileMap fs) p = None then (Fail no_such_file, fs)
      else if filepath_Dir p \<in> set (Sealed fs) then (Fail denied, fs)
      else (Value (), fs\<lparr>FileMap := mdelete (FileMap fs) p\<rparr>))"

definition MkdirAll :: "string \<Rightarrow> file_system \<Rightarrow> unit outcome \<times> file_system" where
  "MkdirAll dir fs =
     (if filepath_Dir dir \<in> set (Sealed fs) then (Fail denied, fs)
      else (Value (), fs\<lparr>Directories := dir # Directories fs\<rparr>))"

text \<open>\<open>ioutil.ReadDir\<close>: the names of the files of a directory.\<close>

definition ReadDir :: "string \<Rightarrow> file_system \<Rightarrow> string list" where
  "ReadDir dir fs =
     map (\<lambda>(p, _). drop (length dir + 1) p)
       (filter (\<lambda>(p, _). has_prefix p (dir @ ''/'') \<and> \<not> contains_char (drop (length dir + 1) p) CHR ''/'') (entries (FileMap fs)))"

definition CreateDirIfNotExist :: "string \<Rightarrow> file_system \<Rightarrow> unit outcome \<times> file_system" where
  "CreateDirIfNotExist dir fs = (if dir \<in> set (Directories fs) then (Value (), fs) else MkdirAll dir fs)"

text \<open>\<open>init\<close> of the command: its directories, errors ignored.\<close>

definition kt_dirs :: "string \<Rightarrow> string list" where
  "kt_dirs home = map (\<lambda>d. home @ ''/.kt/'' @ d) [''key'', ''pid'', ''lock'', ''profile'']"

definition init_dirs :: "string \<Rightarrow> file_system \<Rightarrow> file_system" where
  "init_dirs home fs = fold (\<lambda>d fs. snd (CreateDirIfNotExist d fs)) (kt_dirs home) fs"

section \<open>Key pairs\<close>

text \<open>\<open>crypto/rsa\<close>, \<open>x509\<close>, \<open>pem\<close> and \<open>x/crypto/ssh\<close>: generation, validation and the two encodings of a key.\<close>

record 'k rsa_calls =
  GenerateRsa :: "nat \<Rightarrow> 'k outcome"
  ValidateRsa :: "'k \<Rightarrow> unit outcome"
  PemOf :: "'k \<Rightarrow> string"
  AuthorizedKeyOf :: "'k \<Rightarrow> string outcome"

definition NewSSHGenerator :: "string \<Rightarrow> string \<Rightarrow> string \<Rightarrow> ssh_generator" where
  "NewSSHGenerator privateKey publicKey privateKeyPath =
     \<lparr> PublicKey = publicKey, PrivateKey = privateKey, PrivateKeyPath = privateKeyPath \<rparr>"

definition generatePrivateKey :: "'k rsa_calls \<Rightarrow> nat \<Rightarrow> 'k outcome" where
  "generatePrivateKey rsa bitSize =
     obind (GenerateRsa rsa bitSize) (\<lambda>key. obind (ValidateRsa rsa key) (\<lambda>_. Value key))"

definition encodePrivateKeyToPEM :: "'k rsa_calls \<Rightarrow> 'k \<Rightarrow> string" where
  "encodePrivateKeyToPEM rsa key = PemOf rsa key"

definition encodePublicKey :: "'k rsa_calls \<Rightarrow> 'k \<Rightarrow> string outcome" where
  "encodePublicKey rsa key = AuthorizedKeyOf rsa key"

definition WritePrivateKey :: "string \<Rightarrow> string \<Rightarrow> file_system \<Rightarrow> unit outcome \<times> file_system" where
  "WritePrivateKey privateKeyPath content fs =
     (case CreateDirIfNotExist (filepath_Dir privateKeyPath) fs of
        (Value _, fs') \<Rightarrow> WriteFile privateKeyPath content False fs'
      | (r, fs') \<Rightarrow> (r, fs'))"

definition Generate :: "'k rsa_calls \<Rightarrow> string \<Rightarrow> file_system \<Rightarrow> (ssh_generator outcome \<times> file_system)" where
  "Generate rsa privateKeyPath fs =
     (case obind (generatePrivateKey rsa 2048) (\<lambda>key. obind (encodePublicKey rsa key) (\<lambda>public.
             Value \<lparr> PublicKey = public, PrivateKey = encodePrivateKeyToPEM rsa key, PrivateKeyPath = privateKeyPath \<rparr>)) of
        Fail e \<Rightarrow> (Fail e, fs)
      | Panic \<Rightarrow> (Panic, fs)
      | Value sshKey \<Rightarrow>
          (case WritePrivateKey (PrivateKeyPath sshKey) (PrivateKey sshKey) (snd (Remove (PrivateKeyPath sshKey) fs)) of
             (r, fs') \<Rightarrow> (obind r (\<lambda>_. Value sshKey), fs')))"

text \<open>\<open>CleanRsaKeys\<close>, \<open>util.KtKeyDir\<close> being \<open>dir\<close>.\<close>

definition CleanRsaKeys :: "string \<Rightarrow> file_system \<Rightarrow> file_system" where
  "CleanRsaKeys dir fs =
     fold (\<lambda>name fs. if has_suffix name ''.key'' then snd (Remove (dir @ ''/'' @ name) fs) else fs) (ReadDir dir fs) fs"

section \<open>The background log\<close>

definition isExpiredLog :: "file_system \<Rightarrow> file_entry \<Rightarrow> bool" where
  "isExpiredLog fs f \<longleftrightarrow> FileTime f < Now fs - 3600 * 24"

text \<open>The directory of temporary files may be unreadable.\<close>

definition CleanBackgroundLogs :: "string \<Rightarrow> bool \<Rightarrow> file_system \<Rightarrow> file_system" where
  "CleanBackgroundLogs tempDir readable fs =
     (if \<not> readable then fs
      else fold (\<lambda>name fs'. if has_prefix name ''kt-'' \<and>
                     (case mlookup (FileMap fs) (tempDir @ ''/'' @ name) of None \<Rightarrow> False | Some f \<Rightarrow> isExpiredLog fs f)
                   then snd (Remove (path_join tempDir name) fs') else fs') (ReadDir tempDir fs) fs)"

section \<open>Lemmas\<close>

lemma Remove_other: "q \<noteq> p \<Longrightarrow> mlookup (FileMap (snd (Remove p fs))) q = mlookup (FileMap fs) q"
  by (simp add: Remove_def)

lemma Remove_frame [simp]: "Sealed (snd (Remove p fs)) = Sealed fs" "Directories (snd (Remove p fs)) = Directories fs"
    "Superuser (snd (Remove p fs)) = Superuser fs" "Now (snd (Remove p fs)) = Now fs"
  by (simp_all add: Remove_def)

lemma Remove_removes: "filepath_Dir p \<notin> set (Sealed fs) \<Longrightarrow> mlookup (FileMap (snd (Remove p fs))) p = None"
  by (auto simp: Remove_def)

text \<open>A loop that removes some of a list of files.\<close>

lemma fold_remove:
  assumes "\<And>n. path n = g n"
  shows "mlookup (FileMap (fold (\<lambda>n fs. if P n then snd (Remove (path n) fs) else fs) ns fs)) q =
    (if \<exists>n \<in> set ns. P n \<and> g n = q \<and> filepath_Dir q \<notin> set (Sealed fs) then None else mlookup (FileMap fs) q)"
proof (induction ns arbitrary: fs)
  case (Cons n ns)
  show ?case
  proof (cases "P n \<and> g n = q \<and> filepath_Dir q \<notin> set (Sealed fs)")
    case True
    with assms Cons [of "snd (Remove (path n) fs)"] Remove_removes [of q fs] show ?thesis by auto
  next
    case False
    then have "mlookup (FileMap (if P n then snd (Remove (path n) fs) else fs)) q = mlookup (FileMap fs) q"
      using assms by (auto simp: Remove_def)
    moreover have "Sealed (if P n then snd (Remove (path n) fs) else fs) = Sealed fs" by simp
    ultimately show ?thesis using Cons [of "if P n then snd (Remove (path n) fs) else fs"] False by auto
  qed
qed simp

lemma ReadDir_iff:
  "name \<in> set (ReadDir dir fs) \<longleftrightarrow> mlookup (FileMap fs) (dir @ ''/'' @ name) \<noteq> None \<and> \<not> contains_char name CHR ''/''"
proof -
  have "name \<in> set (ReadDir dir fs) \<longleftrightarrow>
      (\<exists>p f. (p, f) \<in> set (entries (FileMap fs)) \<and> has_prefix p (dir @ ''/'') \<and> name = drop (length dir + 1) p \<and> \<not> contains_char name CHR ''/'')"
    by (force simp: ReadDir_def)
  also have "\<dots> \<longleftrightarrow> (\<exists>f. (dir @ ''/'' @ name, f) \<in> set (entries (FileMap fs))) \<and> \<not> contains_char name CHR ''/''"
    by (force simp: has_prefix_iff)
  also have "(\<exists>f. (dir @ ''/'' @ name, f) \<in> set (entries (FileMap fs))) \<longleftrightarrow> mlookup (FileMap fs) (dir @ ''/'' @ name) \<noteq> None"
    by (simp add: mlookup_def map_of_eq_None_iff) force
  finally show ?thesis .
qed

lemma CreateDir_ok:
  assumes "filepath_Dir dir \<notin> set (Sealed fs)"
  obtains ds where "CreateDirIfNotExist dir fs = (Value (), fs\<lparr>Directories := ds\<rparr>)" "dir \<in> set ds"
proof (cases "dir \<in> set (Directories fs)")
  case True
  then have "CreateDirIfNotExist dir fs = (Value (), fs\<lparr>Directories := Directories fs\<rparr>)" by (simp add: CreateDirIfNotExist_def)
  with True that show ?thesis by blast
next
  case False
  with assms have "CreateDirIfNotExist dir fs = (Value (), fs\<lparr>Directories := dir # Directories fs\<rparr>)"
    by (simp add: CreateDirIfNotExist_def MkdirAll_def)
  with that show ?thesis by simp
qed

lemma WritePrivateKey_new:
  assumes "filepath_Dir p \<notin> set (Sealed fs)" and "filepath_Dir (filepath_Dir p) \<notin> set (Sealed fs)"
    and "mlookup (FileMap fs) p = None"
  obtains ds where "WritePrivateKey p content fs =
    (Value (), fs\<lparr>Directories := ds, FileMap := mput (FileMap fs) p \<lparr> FileText = content, OwnerWrites = False, FileTime = Now fs \<rparr>\<rparr>)"
    "filepath_Dir p \<in> set ds"
proof -
  obtain ds where "CreateDirIfNotExist (filepath_Dir p) fs = (Value (), fs\<lparr>Directories := ds\<rparr>)" "filepath_Dir p \<in> set ds"
    using CreateDir_ok [OF assms(2)] .
  with assms that show ?thesis by (simp add: WritePrivateKey_def WriteFile_def)
qed

section \<open>Properties\<close>

text \<open>
  A new key pair is stored whatever was in its place: the file has the private key and cannot be
  written again, no other file changes, and a second pair can be generated into it.  Without the
  removal of the old file that would fail for an ordinary user: writing the same key once more does.
\<close>

theorem key_pair_stored:
  assumes "GenerateRsa rsa 2048 = Value key" and "ValidateRsa rsa key = Value ()" and "AuthorizedKeyOf rsa key = Value public"
    and dir: "filepath_Dir p \<notin> set (Sealed fs)" "filepath_Dir (filepath_Dir p) \<notin> set (Sealed fs)"
  shows "\<exists>fs'. Generate rsa p fs = (Value \<lparr> PublicKey = public, PrivateKey = PemOf rsa key, PrivateKeyPath = p \<rparr>, fs') \<and>
    mlookup (FileMap fs') p = Some \<lparr> FileText = PemOf rsa key, OwnerWrites = False, FileTime = Now fs \<rparr> \<and>
    (\<forall>q. q \<noteq> p \<longrightarrow> mlookup (FileMap fs') q = mlookup (FileMap fs) q) \<and>
    (\<exists>fs2. Generate rsa p fs' = (Value \<lparr> PublicKey = public, PrivateKey = PemOf rsa key, PrivateKeyPath = p \<rparr>, fs2)) \<and>
    (\<not> Superuser fs \<longrightarrow> WritePrivateKey p (PemOf rsa key) fs' = (Fail denied, fs'))"
proof -
  let ?pair = "\<lparr> PublicKey = public, PrivateKey = PemOf rsa key, PrivateKeyPath = p \<rparr>"
  have gen: "Generate rsa p fs = (obind (fst (WritePrivateKey p (PemOf rsa key) (snd (Remove p fs)))) (\<lambda>_. Value ?pair),
      snd (WritePrivateKey p (PemOf rsa key) (snd (Remove p fs))))" for fs
    using assms(1-3) by (simp add: Generate_def generatePrivateKey_def encodePublicKey_def encodePrivateKeyToPEM_def split: prod.split)
  have go: "\<exists>ds. Generate rsa p fs = (Value ?pair, (snd (Remove p fs))\<lparr>Directories := ds,
      FileMap := mput (FileMap (snd (Remove p fs))) p \<lparr> FileText = PemOf rsa key, OwnerWrites = False, FileTime = Now fs \<rparr>\<rparr>) \<and>
      filepath_Dir p \<in> set ds"
    if d: "filepath_Dir p \<notin> set (Sealed fs)" "filepath_Dir (filepath_Dir p) \<notin> set (Sealed fs)" for fs
    using WritePrivateKey_new [of p "snd (Remove p fs)" "PemOf rsa key"] d Remove_removes [OF d(1)] unfolding gen by fastforce
  obtain ds where g: "Generate rsa p fs = (Value ?pair, (snd (Remove p fs))\<lparr>Directories := ds,
      FileMap := mput (FileMap (snd (Remove p fs))) p \<lparr> FileText = PemOf rsa key, OwnerWrites = False, FileTime = Now fs \<rparr>\<rparr>)"
    "filepath_Dir p \<in> set ds"
    using go [OF dir] by blast
  let ?fs' = "(snd (Remove p fs))\<lparr>Directories := ds,
      FileMap := mput (FileMap (snd (Remove p fs))) p \<lparr> FileText = PemOf rsa key, OwnerWrites = False, FileTime = Now fs \<rparr>\<rparr>"
  have "\<exists>fs2. Generate rsa p ?fs' = (Value ?pair, fs2)" using go [of ?fs'] dir by auto
  moreover have "WritePrivateKey p (PemOf rsa key) ?fs' = (Fail denied, ?fs')" if "\<not> Superuser fs"
    using that g(2) by (simp add: WritePrivateKey_def CreateDirIfNotExist_def WriteFile_def)
  ultimately show ?thesis using g(1) Remove_other by (intro exI [of _ ?fs']) auto
qed

definition sample_rsa :: "nat rsa_calls" where
  "sample_rsa = \<lparr> GenerateRsa = Value, ValidateRsa = (\<lambda>_. Value ()), PemOf = (\<lambda>k. ''PEM'' @ itoa (int k)),
     AuthorizedKeyOf = (\<lambda>k. Value ''ssh-rsa'') \<rparr>"

definition sample_fs :: file_system where
  "sample_fs = \<lparr> FileMap = GoMap [(''/k/a.key'', \<lparr> FileText = ''old'', OwnerWrites = False, FileTime = 0 \<rparr>)],
     Directories = [''/k''], Sealed = [], Superuser = False, Now = 5 \<rparr>"

lemma key_pair_stored_witness:
  "fst (Generate sample_rsa ''/k/a.key'' sample_fs) =
     Value \<lparr> PublicKey = ''ssh-rsa'', PrivateKey = PemOf sample_rsa 2048, PrivateKeyPath = ''/k/a.key'' \<rparr>"
  using key_pair_stored [of sample_rsa 2048 "''ssh-rsa''" "''/k/a.key''" sample_fs]
  by (auto simp: sample_rsa_def sample_fs_def)

text \<open>
  Cleaning the keys removes exactly the files of the key directory whose names end in .key (when
  files there can be removed at all), and touches nothing else.
\<close>

theorem clean_keys_exact:
  "mlookup (FileMap (CleanRsaKeys dir fs)) q =
    (if filepath_Dir q \<notin> set (Sealed fs) \<and>
        (\<exists>name. q = dir @ ''/'' @ name \<and> \<not> contains_char name CHR ''/'' \<and> has_suffix name ''.key'')
     then None else mlookup (FileMap fs) q)"
proof -
  have "mlookup (FileMap (CleanRsaKeys dir fs)) q =
      (if \<exists>n \<in> set (ReadDir dir fs). has_suffix n ''.key'' \<and> dir @ ''/'' @ n = q \<and> filepath_Dir q \<notin> set (Sealed fs)
       then None else mlookup (FileMap fs) q)"
    unfolding CleanRsaKeys_def by (rule fold_remove) simp
  then show ?thesis by (auto simp: ReadDir_iff)
qed

end
