(* ===== verification/Spec2Isabelle.thy ===== *)
theory Spec2Isabelle
  imports CidrProps RefCount ServiceOps TeardownProps RecoverProps Hosts ResolvConf ShadowServer RouterProps RedirectProps
    BirdseyeProps Forward ConnectSession MeshUsers Relay Tickers LaneFilter LocalFiles Commands
begin

text \<open>
  \<^bold>\<open>kt-connect: a verification development.\<close>

  The program \<open>ktctl\<close> lets a developer join a local machine to a Kubernetes cluster.  It works on
  four places at once: the objects of the cluster (through the API server), the routes and the name
  resolution of the local machine, the pods it starts in the cluster (shadow, router, rectifier), and
  a few local files (hosts file, resolv.conf, configuration, keys, pid files).  All of it has to be taken
  back when a session ends, and what a session that died has left behind is found by the commands
  clean and recover.  The development models these commands and the programs of the shadow and router
  pods as functions over the state they change, and proves that what is taken is given back, and where
  it is not.

  \<^bold>\<open>The state.\<close>  The objects of Kubernetes are records with the fields the program reads and writes
  (\<open>KubeApi\<close>).  The API server, the clock, remote execution and the local files are a record
  \<open>kube\<close> of functions over an abstract world, an argument of every definition that uses them.  What the
  server promises is the predicate \<open>api_server\<close> over a view of the world: every call answers as its
  specification on lists of objects says (\<open>get_spec\<close>, \<open>create_spec\<close>, \<open>update_spec\<close>, \<open>delete_spec\<close>), so
  that a call fails just where the specification does, and while the program waits the cluster may go on.
  \<open>mem_kube\<close>, \<open>live_kube\<close> and \<open>live_desktop\<close> are servers in memory that satisfy it and on which the
  witnesses run.  The state of a command is the record \<open>prog\<close>: the run-time store \<open>opt.Store\<close>, the
  heartbeats that were started, the memory of their last status, and the world.  connect works on a
  \<open>desktop\<close>, the cluster together with the hosts file, the name service and the watches of the machine.
  A Go function with an error is a computation on this state that returns a value, an error or a panic
  (\<open>KtPrelude\<close>): every early return, every index out of range and every write to a nil map is a branch
  of the model.
\<close>

text \<open>
  \<^bold>\<open>The theories, by the code they model\<close> (paths under \<open>src/\<close>).

  \<^item> \<open>KtPrelude\<close>: outcomes of Go functions, the functions of \<open>strings\<close> and \<open>strconv\<close> the program
    calls, slices with their bounds.  \<open>GoUtil\<close>: \<open>pkg/kt/util\<close> (collection, string, network, time).
    \<open>Json\<close>: \<open>encoding/json\<close> at string maps, with the codec contract \<open>map_codec\<close>.
  \<^item> \<open>Cidr\<close>: \<open>pkg/kt/service/cluster/cidr.go\<close>.  \<open>CidrSpec\<close> says which addresses a range stands for, and
    \<open>CidrProps\<close> proves the printed ranges cover exactly what the user sees: the pods and services that
    were found, without the excluded ranges and the API server.
  \<^item> \<open>ClusterObjects\<close>, \<open>ClusterEffects\<close>, \<open>ClusterOps\<close>, \<open>ShadowPod\<close>: \<open>pkg/kt/service/cluster\<close>, the objects
    that are created, the calls on them and their effect, and the pods of the program.  \<open>RefCount\<close>: the
    reference counts of shared pods and deployments, two implementations of the locale \<open>ref_counter\<close>.
  \<^item> \<open>ServiceOps\<close>, \<open>ServiceLock\<close>, \<open>Teardown\<close>, \<open>Startup\<close>: \<open>pkg/kt/command/general\<close> with
    \<open>resource.go\<close>, \<open>lock.go\<close>, \<open>teardown.go\<close> and \<open>setup.go\<close>.
  \<^item> \<open>Heartbeat\<close>: the updaters of \<open>pkg/kt/service/cluster/heartbeat.go\<close>, with the locale \<open>status_map\<close> of the
    memory that keeps an outage from being reported again and again.  \<open>Tickers\<close>: the loops over tickers of
    the same file and of \<open>connect/tun2socks.go\<close>, with the times at which they run.
  \<^item> \<open>Mesh\<close>, \<open>Exchange\<close> (with preview), \<open>Connect\<close>, \<open>Forward\<close>, \<open>Clean\<close>, \<open>Recover\<close>, \<open>Birdseye\<close>,
    \<open>Config\<close>, \<open>Options\<close>: the commands, \<open>pkg/kt/command\<close> and the packages below it.  \<open>Commands\<close>: the
    arguments that each command takes and what it prepares; the choice of watch handlers.
  \<^item> \<open>DnsCache\<close>, \<open>LocalDns\<close>, \<open>Hosts\<close>, \<open>ResolvConf\<close>, \<open>DnsSystems\<close>: name resolution, \<open>pkg/common\<close> and
    \<open>pkg/kt/service/dns\<close>; both DNS servers use the cache through the locale \<open>dns_cache\<close>.
  \<^item> \<open>Tun\<close>: \<open>pkg/kt/service/tun\<close>, the routes on three systems.  \<open>Processes\<close>: commands and processes of the
    machine (\<open>util/run.go\<close>, \<open>util/system.go\<close>), the checks of the tun device, sshuttle.
  \<^item> \<open>Transmission\<close>: \<open>pkg/kt/transmission\<close>, the goroutines of a port forward as a step relation.
    \<open>Tunnels\<close>: the reverse tunnels (\<open>transmission/inbound.go\<close>) and the SOCKS proxy with their reconnects, as
    step relations.  \<open>SshChannel\<close> and \<open>Relay\<close>: \<open>pkg/kt/service/sshchannel\<close>, the calls over SSH and the
    goroutines that relay a connection.
  \<^item> \<open>LocalFiles\<close>: keys, logs and directories (\<open>util/ssh.go\<close>, \<open>util/logger.go\<close>).
  \<^item> \<open>ShadowServer\<close>: \<open>cmd/shadow\<close> and \<open>pkg/shadow\<close>.  \<open>LaneFilter\<close>: the Lua text of
    \<open>cluster/lane.go\<close>, which the proxies of a mesh run.  \<open>Router\<close>: \<open>cmd/router\<close> and \<open>pkg/router\<close>.
  \<^item> \<open>RedirectProps\<close>, \<open>SessionProps\<close>, \<open>MeshSession\<close>, \<open>MeshUsers\<close>, \<open>CallInvariant\<close>, \<open>ConnectSession\<close>: the
    components composed, one session or many; \<open>CallInvariant\<close> is the locale \<open>call_invariant\<close> of whatever
    every single call keeps.  A theory \<open>XProps\<close> holds what is shown of \<open>X\<close>.

  \<^bold>\<open>How the parts interact.\<close>  A command first runs \<open>Startup\<close> (options, namespace, pid file), then its own
  theory, and \<open>Teardown\<close> when it ends; the only channel between the last two is the run-time store.
  mesh and exchange redirect a service with \<open>ServiceOps\<close> while they hold the lock of \<open>ServiceLock\<close>;
  what they need to undo it is encoded by \<open>Json\<close> into an annotation of the service.  \<open>Recover\<close> reads
  this annotation, \<open>Clean\<close> reads the heartbeats that \<open>Heartbeat\<close> writes.  connect computes its routes with
  \<open>Cidr\<close>, sets them with \<open>Tun\<close> through the commands of \<open>Processes\<close>, and starts \<open>LocalDns\<close>, which falls back
  on the name server that \<open>ResolvConf\<close> has kept.
\<close>

text \<open>
  \<^bold>\<open>What is shown.\<close>

  \<^item> Sessions.  A session of exchange, or of a mesh by one user, command and cleanup together, leaves the
    service as it found it and removes its pods, however the command ends (\<open>SessionProps\<close>,
    \<open>MeshSession\<close>); in every history of users who join and leave a mesh the router counts them and
    the last restores the service (\<open>MeshUsers\<close>); a session of connect gives back the hosts file and, when
    it ends by a signal that its goroutine waits for, the name server, else the clean command does
    (\<open>ConnectSession\<close>).
  \<^item> Redirection.  Whatever call fails, a service that mesh or exchange touches keeps its original
    selector, in the service itself or in the record, and its lock is given back (\<open>RedirectProps\<close>);
    the record survives its encoding, redirecting and recovering gives back the selector and the
    annotations (\<open>ServiceOps\<close>), and recover does so for a session that died (\<open>RecoverProps\<close>).
  \<^item> Concurrency.  In any interleaving of the API calls of any number of sessions at most one holds the
    lock of a service (\<open>ServiceLock\<close>); every run of a port forward ends once it is stopped
    (\<open>Transmission\<close>); which tunnels and proxies are set up again after they break (\<open>Tunnels\<close>); why a relayed
    connection is never closed, and how much of an answer it loses (\<open>Relay\<close>); what is opened over SSH
    is closed (\<open>SshChannel\<close>).
  \<^item> Taking back.  The cleanup of a session refines the abstract \<open>cleanup_spec\<close> (\<open>TeardownProps\<close>); a shared
    pod or deployment goes with its last user (\<open>RefCount\<close>); clean removes exactly the objects whose
    heartbeat is readable and stale (\<open>CleanProps\<close>), and the heartbeats of a living session are never
    stale, while a shared router loses its heartbeat with the user who created it (\<open>Tickers\<close>).
  \<^item> Router.  The configuration of the router refines a multiset of versions, and requests reach the
    version of their header just when it is a member (\<open>RouterProps\<close>); the Lua filter of the proxies and
    the shadow agree on the lane of a request (\<open>LaneFilter\<close>).
  \<^item> Names and routes.  The range computation covers what it should and stays a partition when ranges are
    excluded; DNS answers come from the cache while fresh; which names reach the hosts file; the old name
    server is kept before the new one is set.
  \<^item> Options.  A flag of the command line precedes the profile, the profile precedes the default
    (\<open>Options\<close>); set, get and unset of a configuration (\<open>Config\<close>); the checks of connect.

  \<^bold>\<open>Bounds.\<close>  The retries of \<open>LockService\<close> and of \<open>isNameUsable\<close> count up to the limits of the source
  (ten), and their recursion is by a measure on that counter, so nothing is cut short.  The waits for
  pods are bounded by the timeout of the options.  \<open>find_ips\<close>, the bubble sort, the number loops of
  \<open>cidr.go\<close> and the parser of JSON recurse on the rest of their input; a loop over a ticker recurses on the
  time until the ticker is stopped.  \<open>restoreIptables\<close> loops as long as the command succeeds and
  \<open>serve_requests\<close> as long as connections are accepted; both are partial functions, with proofs that
  they return when the rules are finitely many and when the connection ends.  No definition takes fuel.
\<close>

text \<open>
  \<^bold>\<open>Not modelled.\<close>  What is outside the repository is a parameter: client-go, the SSH and SOCKS
  libraries, the tun2socks engine and wintun, fsnotify, the parsers of YAML, flags and resource
  quantities, iptables, route, netsh and networksetup (their exit and their output), RSA and PEM, random
  strings and the clock.  Inside it these are left out: the objects of the cobra commands, their usage
  texts and the registration of sub-commands; the log; the construction of the client and the
  transport of \<open>ExecInPod\<close>; the informer of a watch (its handlers are modelled); the singletons \<open>Ins\<close> of the
  packages; the start of the DNS library on a port.  The directory \<open>.graphify_scope\<close> holds copies of
  the sources under \<open>pkg\<close> and \<open>cmd\<close>; it makes up about half of the Go code and is no program of its own.

  These are assumptions of the models: in memory, a pod that is created gets its address and its phase by
  the wait of the server in \<open>live_kube\<close> (the pods of a new deployment do not start there); the goroutine of
  \<open>SetNameServer\<close> in \<open>ConnectSession\<close> is done before the process exits; a file of the machine is the list of
  its lines; times in \<open>Tickers\<close> are whole seconds, and a tick at the very moment of a receipt is dropped.

  What then remains of the program under \<open>cmd\<close> and \<open>pkg\<close> are texts, logging, the wiring of libraries, and
  small functions around parameters (\<open>getHostsPath\<close>, the two \<open>ServeDNS\<close> that write the reply of a query,
  \<open>setupIptables\<close> of exchange, the completion of configuration items), of which there is little to prove.
\<close>

end
